(* ===== verification/Prelude.thy ===== *)
theory Prelude
  imports Main
begin

text \<open>
  Shared vocabulary of the development: Go time values and 64-bit integers, the shape of a
  fallible store call, SQL-style operations on tables represented as lists of rows, and the
  list lemmas and theorem collections that the component theories use.

  Instants are integers counting nanoseconds since the Unix epoch, durations are integers
  counting nanoseconds, as \<open>time.Duration\<close> does.
\<close>

named_theorems go_time "the named durations as nanosecond counts"
named_theorems table_simps "rewriting for updates and deletions of rows"

section \<open>Time and integers\<close>

type_synonym gotime = int
type_synonym duration = int

definition millisecond :: duration where "millisecond = 1000000"
definition second :: duration where "second = 1000000000"
definition minute :: duration where "minute = 60000000000"
definition hour :: duration where "hour = 3600000000000"

lemmas [go_time] = millisecond_def second_def minute_def hour_def

text \<open>\<open>time.Time.UnixMilli\<close> and \<open>time.UnixMilli\<close>; the former rounds towards minus infinity.\<close>

definition unix_milli :: "gotime \<Rightarrow> int" where
  "unix_milli t = t div millisecond"

definition from_milli :: "int \<Rightarrow> gotime" where
  "from_milli ms = ms * millisecond"

lemma unix_milli_from_milli [simp]: "unix_milli (from_milli ms) = ms"
  by (simp add: unix_milli_def from_milli_def millisecond_def)

text \<open>Go's \<open>int\<close> and \<open>int64\<close> arithmetic wraps around at 64 bits.\<close>

definition int64 :: "int \<Rightarrow> int" where
  "int64 k = (k + 2 ^ 63) mod 2 ^ 64 - 2 ^ 63"

lemma int64_id: "- (2 ^ 63) \<le> k \<Longrightarrow> k < 2 ^ 63 \<Longrightarrow> int64 k = k"
  by (simp add: int64_def)

lemma int64_range: "- (2 ^ 63) \<le> int64 k \<and> int64 k < 2 ^ 63"
proof -
  have "0 \<le> (k + 2 ^ 63) mod 2 ^ 64" and "(k + 2 ^ 63) mod 2 ^ 64 < (2 ^ 64 :: int)"
    by simp_all
  then show ?thesis by (simp add: int64_def)
qed

text \<open>Go's integer division truncates towards zero; its remainder has the dividend's sign.\<close>

definition go_div :: "int \<Rightarrow> int \<Rightarrow> int" where
  "go_div a b = sgn a * sgn b * (\<bar>a\<bar> div \<bar>b\<bar>)"

definition go_mod :: "int \<Rightarrow> int \<Rightarrow> int" where
  "go_mod a b = a - b * go_div a b"

lemma go_div_nonneg: "0 \<le> a \<Longrightarrow> 0 < b \<Longrightarrow> go_div a b = a div b"
  by (cases "a = 0") (simp_all add: go_div_def)

lemma go_mod_nonneg: "0 \<le> a \<Longrightarrow> 0 < b \<Longrightarrow> go_mod a b = a mod b"
  by (simp add: go_mod_def go_div_nonneg minus_mult_div_eq_mod)

section \<open>Store calls\<close>

text \<open>
  A call to Postgres or Redis either takes effect or fails without effect; its result is
  \<open>Inl\<close> of the error or \<open>Inr\<close> of the value. Handlers that write \<open>x, _ := call()\<close> use the zero
  value of \<open>x\<close> when the call failed: \<open>or_zero\<close>.
\<close>

datatype store_error = StoreError

type_synonym 'a fallible = "store_error + 'a"

definition or_zero :: "'a \<Rightarrow> 'a fallible \<Rightarrow> 'a" where
  "or_zero z r = (case r of Inl _ \<Rightarrow> z | Inr x \<Rightarrow> x)"

lemma or_zero_simps [simp]: "or_zero z (Inl e) = z" "or_zero z (Inr x) = x"
  by (simp_all add: or_zero_def)

definition failing :: "bool \<Rightarrow> 'a \<Rightarrow> 'a fallible" where
  "failing b x = (if b then Inl StoreError else Inr x)"

lemma failing_simps [simp]:
  "failing True x = Inl StoreError" "failing False x = Inr x"
  "failing b x = Inr y \<longleftrightarrow> \<not> b \<and> x = y" "failing b x = Inl e \<longleftrightarrow> b"
  by (cases e; simp add: failing_def)+

section \<open>Tables\<close>

text \<open>
  A table is the list of its rows in insertion order. \<open>update_where\<close> is
  \<open>UPDATE ... WHERE\<close>, \<open>delete_where\<close> is \<open>DELETE ... WHERE\<close>, \<open>order_by\<close> is
  \<open>ORDER BY ... ASC\<close> with ties left in insertion order, \<open>max_or\<close> is
  \<open>COALESCE(MAX(...), d)\<close>.
\<close>

definition update_where :: "('r \<Rightarrow> bool) \<Rightarrow> ('r \<Rightarrow> 'r) \<Rightarrow> 'r list \<Rightarrow> 'r list" where
  "update_where p f rows = map (\<lambda>r. if p r then f r else r) rows"

definition delete_where :: "('r \<Rightarrow> bool) \<Rightarrow> 'r list \<Rightarrow> 'r list" where
  "delete_where p rows = filter (\<lambda>r. \<not> p r) rows"

definition order_by :: "('r \<Rightarrow> int) \<Rightarrow> 'r list \<Rightarrow> 'r list" where
  "order_by k rows = sort_key k rows"

definition max_or :: "int \<Rightarrow> int list \<Rightarrow> int" where
  "max_or d ks = (case ks of [] \<Rightarrow> d | k # ks' \<Rightarrow> foldl max k ks')"

definition affected :: "('r \<Rightarrow> bool) \<Rightarrow> 'r list \<Rightarrow> nat" where
  "affected p rows = length (filter p rows)"

lemma length_update_where [simp, table_simps]: "length (update_where p f rows) = length rows"
  by (simp add: update_where_def)

lemma update_where_Nil [simp, table_simps]: "update_where p f [] = []"
  by (simp add: update_where_def)

lemma update_where_Cons [table_simps]:
  "update_where p f (r # rows) = (if p r then f r else r) # update_where p f rows"
  by (simp add: update_where_def)

lemma set_update_where: "set (update_where p f rows) = (\<lambda>r. if p r then f r else r) ` set rows"
  by (simp add: update_where_def)

lemma ball_update_where:
  "(\<forall>y \<in> set (update_where p f rows). q y) \<longleftrightarrow> (\<forall>r \<in> set rows. q (if p r then f r else r))"
  by (auto simp: update_where_def)

lemma update_where_establishes:
  "x \<in> set (update_where p f rows) \<Longrightarrow> (\<And>r. p r \<Longrightarrow> q (f r)) \<Longrightarrow> (\<And>r. \<not> p r \<Longrightarrow> q r) \<Longrightarrow> q x"
  by (auto simp: update_where_def split: if_splits)

lemma map_update_where [table_simps]:
  "(\<And>r. p r \<Longrightarrow> k (f r) = k r) \<Longrightarrow> map k (update_where p f rows) = map k rows"
  by (auto simp: update_where_def)

lemma keys_update_where:
  "(\<And>r. k (f r) = k r) \<Longrightarrow> k ` set (update_where p f rows) = k ` set rows"
  by (metis map_update_where set_map)

lemma update_where_none: "(\<And>r. r \<in> set rows \<Longrightarrow> \<not> p r) \<Longrightarrow> update_where p f rows = rows"
  by (auto simp: update_where_def intro: map_idI)

text \<open>One row, found by its own key \<open>i\<close>, changes: a partial unique index on \<open>k\<close> stays one.\<close>

lemma distinct_index_update:
  assumes "distinct (map i rows)" and "distinct (map k (filter P rows))"
    and "\<And>r v. i r = x \<Longrightarrow> P (g r) \<Longrightarrow> v \<in> set rows \<Longrightarrow> i v \<noteq> x \<Longrightarrow> P v \<Longrightarrow> k v \<noteq> k (g r)"
  shows "distinct (map k (filter P (update_where (\<lambda>r. i r = x) g rows)))"
  using assms
proof (induction rows)
  case (Cons r rows)
  have tail: "distinct (map k (filter P (update_where (\<lambda>r. i r = x) g rows)))"
    by (rule Cons.IH) (use Cons.prems in \<open>auto split: if_splits\<close>)
  show ?case
  proof (cases "i r = x")
    case True
    have other: "\<forall>v \<in> set rows. i v \<noteq> x"
      using Cons.prems(1) by (fastforce simp: True [symmetric])
    then have same: "update_where (\<lambda>r. i r = x) g rows = rows" by (simp add: update_where_none)
    have "k (g r) \<notin> k ` {v \<in> set rows. P v}" if "P (g r)"
      using Cons.prems(3) [OF True that] other by fastforce
    then show ?thesis using Cons.prems(2) True by (auto simp: update_where_Cons same split: if_splits)
  next
    case False
    have "k v \<noteq> k r" if r: "P r" and v: "v \<in> set (update_where (\<lambda>r. i r = x) g rows)" "P v" for v
    proof (cases "v \<in> set rows")
      case True
      then have "k v \<in> k ` {v \<in> set rows. P v}" using v(2) by simp
      then show ?thesis using Cons.prems(2) r by auto
    next
      case new: False
      then obtain w where "i w = x" and "v = g w" using v(1) by (auto simp: update_where_def split: if_splits)
      then show ?thesis using Cons.prems(3) [of w r] False r v new by auto
    qed
    then have "k r \<notin> k ` {v \<in> set (update_where (\<lambda>r. i r = x) g rows). P v}" if "P r"
      using that by fastforce
    then show ?thesis using tail False by (simp add: update_where_Cons)
  qed
qed simp

lemma filter_update_where_other:
  assumes "\<And>r. p r \<Longrightarrow> \<not> q r" and "\<And>r. p r \<Longrightarrow> \<not> q (f r)"
  shows "filter q (update_where p f rows) = filter q rows"
  using assms by (induction rows) (auto simp: update_where_def)

lemma filter_update_where_leaves:
  assumes "\<And>r. p r \<Longrightarrow> \<not> q (f r)"
  shows "filter q (update_where p f rows) = filter (\<lambda>r. q r \<and> \<not> p r) rows"
  using assms by (induction rows) (auto simp: update_where_def)

lemma set_delete_where [simp, table_simps]: "set (delete_where p rows) = {r \<in> set rows. \<not> p r}"
  by (auto simp: delete_where_def)

lemma set_order_by [simp]: "set (order_by k rows) = set rows"
  by (simp add: order_by_def)

lemma order_by_Nil [simp]: "order_by k rows = [] \<longleftrightarrow> rows = []"
  by (metis set_empty set_order_by)

lemma sorted_order_by: "sorted (map k (order_by k rows))"
  by (simp add: order_by_def)

lemma insort_key_append: "k a \<le> k x \<Longrightarrow> insort_key k a (ys @ [x]) = insort_key k a ys @ [x]"
  by (induction ys) auto

lemma order_by_append_greatest:
  "(\<And>r. r \<in> set rows \<Longrightarrow> k r \<le> k x) \<Longrightarrow> order_by k (rows @ [x]) = order_by k rows @ [x]"
  by (induction rows) (auto simp: order_by_def insort_key_append)

lemma order_by_hd_least: "order_by k rows = r # rest \<Longrightarrow> x \<in> set rows \<Longrightarrow> k r \<le> k x"
  using sorted_order_by [of k rows] set_order_by [of k rows] by fastforce

lemma order_by_tl:
  assumes "order_by k rows = r # rest" and "distinct rows"
  shows "order_by k (filter (\<lambda>x. x \<noteq> r) rows) = rest"
proof -
  have "distinct (r # rest)" using assms by (metis distinct_sort order_by_def)
  then have "filter (\<lambda>x. x \<noteq> r) (r # rest) = rest" by (auto simp: filter_id_conv)
  then show ?thesis using assms(1) by (metis filter_sort order_by_def)
qed

lemma foldl_max_ge: "foldl max a ks \<ge> a \<and> (\<forall>k \<in> set ks. foldl max a ks \<ge> k)" for a :: int
  by (induction ks arbitrary: a) (auto, fastforce+)

lemma max_or_ge: "k \<in> set ks \<Longrightarrow> k \<le> max_or d ks"
  using foldl_max_ge by (cases ks) (auto simp: max_or_def)

lemma max_or_Nil [simp]: "max_or d [] = d"
  by (simp add: max_or_def)

lemma max_or_append_greatest:
  assumes "\<And>k. k \<in> set ks \<Longrightarrow> k \<le> m" and "ks = [] \<Longrightarrow> d \<le> m"
  shows "max_or d (ks @ [m]) = m"
proof -
  have "foldl max a xs \<le> m" if "a \<le> m" "\<And>k. k \<in> set xs \<Longrightarrow> k \<le> m" for a :: int and xs
    using that by (induction xs arbitrary: a) auto
  then show ?thesis
    using assms by (cases ks) (auto simp: max_or_def)
qed

section \<open>Look-up by key\<close>

definition find_row :: "('r \<Rightarrow> bool) \<Rightarrow> 'r list \<Rightarrow> 'r option" where
  "find_row p rows = find p rows"

lemma find_row_Some: "find_row p rows = Some r \<Longrightarrow> r \<in> set rows \<and> p r"
  by (auto simp: find_row_def find_Some_iff)

lemma find_row_None: "find_row p rows = None \<longleftrightarrow> (\<forall>r \<in> set rows. \<not> p r)"
  by (auto simp: find_row_def find_None_iff)

lemma find_row_simps:
  "find_row p [] = None" "find_row p (r # rows) = (if p r then Some r else find_row p rows)"
  by (simp_all add: find_row_def)

lemma find_row_append:
  "find_row p (xs @ ys) = (case find_row p xs of None \<Rightarrow> find_row p ys | Some r \<Rightarrow> Some r)"
  by (induction xs) (auto simp: find_row_def)

lemma find_row_update_where:
  "(\<And>r. q (f r) = q r) \<Longrightarrow>
   find_row q (update_where p f rows) = map_option (\<lambda>r. if p r then f r else r) (find_row q rows)"
  by (induction rows) (auto simp: find_row_def update_where_def)

lemma find_row_delete_where_other:
  "(\<And>r. q r \<Longrightarrow> \<not> p r) \<Longrightarrow> find_row q (delete_where p rows) = find_row q rows"
  by (induction rows) (auto simp: find_row_def delete_where_def)

lemma find_row_delete_where_same: "find_row p (delete_where p rows) = None"
  by (auto simp: find_row_None)

section \<open>Strings\<close>

text \<open>
  Strings are lists of bytes. \<open>to_lower\<close> is \<open>strings.ToLower\<close> on ASCII letters; bytes of
  non-ASCII code points are left alone. \<open>trim_space\<close> removes ASCII white space at both ends.
\<close>

definition lower_char :: "char \<Rightarrow> char" where
  "lower_char c = (let n = of_char c :: nat in if 65 \<le> n \<and> n \<le> 90 then char_of (n + 32) else c)"

definition to_lower :: "string \<Rightarrow> string" where
  "to_lower s = map lower_char s"

definition is_space :: "char \<Rightarrow> bool" where
  "is_space c = (let n = of_char c :: nat in n = 32 \<or> (9 \<le> n \<and> n \<le> 13))"

definition trim_space :: "string \<Rightarrow> string" where
  "trim_space s = rev (dropWhile is_space (rev (dropWhile is_space s)))"

definition has_prefix :: "string \<Rightarrow> string \<Rightarrow> bool" where
  "has_prefix s p = (take (length p) s = p)"

definition has_suffix :: "string \<Rightarrow> string \<Rightarrow> bool" where
  "has_suffix s p = has_prefix (rev s) (rev p)"

lemma has_prefix_iff: "has_prefix s p \<longleftrightarrow> (\<exists>t. s = p @ t)"
  by (auto simp: has_prefix_def) (metis append_take_drop_id)

lemma has_suffix_iff: "has_suffix s p \<longleftrightarrow> (\<exists>t. s = t @ p)"
  by (auto simp: has_suffix_def has_prefix_iff) (metis rev_append rev_rev_ident)

lemma lower_char_idem [simp]: "lower_char (lower_char c) = lower_char c"
proof -
  have "of_char (lower_char c) = (if 65 \<le> (of_char c :: nat) \<and> (of_char c :: nat) \<le> 90
      then of_char c + 32 else (of_char c :: nat))"
    by (auto simp: lower_char_def Let_def)
  then show ?thesis by (auto simp: lower_char_def [of "lower_char c"] Let_def)
qed

lemma to_lower_idem [simp]: "to_lower (to_lower s) = to_lower s"
  by (simp add: to_lower_def)

lemma length_to_lower [simp]: "length (to_lower s) = length s"
  by (simp add: to_lower_def)

lemma to_lower_append: "to_lower (s @ t) = to_lower s @ to_lower t"
  by (simp add: to_lower_def)

lemma affected_append: "affected p (xs @ ys) = affected p xs + affected p ys"
  by (simp add: affected_def)

lemma affected_single [simp]: "affected p [x] = (if p x then 1 else 0)"
  by (simp add: affected_def)

text \<open>One member less.\<close>

lemma card_release: "finite A \<Longrightarrow> c \<in> A \<Longrightarrow> int (card (A - {c})) = int (card A) - 1"
  by (metis One_nat_def card_Suc_Diff1 diff_Suc_1 of_nat_Suc add_diff_cancel_left' )

section \<open>First-in first-out queues\<close>

text \<open>
  The contract a playback component has with the store that holds its queue: \<open>view\<close> is the
  play order, \<open>push\<close> appends (\<open>stored\<close> is what it stores), \<open>pop\<close> takes the first element.
\<close>

fun pops :: "('s \<Rightarrow> 's \<times> 'e option) \<Rightarrow> nat \<Rightarrow> 's \<Rightarrow> 's \<times> 'e list" where
  "pops pop 0 s = (s, [])"
| "pops pop (Suc n) s = (case pop s of
       (s', None) \<Rightarrow> (s', [])
     | (s', Some e) \<Rightarrow> (case pops pop n s' of (s'', es) \<Rightarrow> (s'', e # es)))"

locale fifo =
  fixes inv :: "'s \<Rightarrow> bool"
    and view :: "'s \<Rightarrow> 'e list"
    and admissible :: "'a \<Rightarrow> 's \<Rightarrow> bool"
    and stored :: "'a \<Rightarrow> 's \<Rightarrow> 'e"
    and push :: "'a \<Rightarrow> 's \<Rightarrow> 's"
    and pop :: "'s \<Rightarrow> 's \<times> 'e option"
  assumes pop_empty: "inv s \<Longrightarrow> view s = [] \<Longrightarrow> pop s = (s, None)"
    and pop_cons: "inv s \<Longrightarrow> view s = e # es \<Longrightarrow> \<exists>s'. pop s = (s', Some e) \<and> view s' = es \<and> inv s'"
    and push_view: "inv s \<Longrightarrow> admissible a s \<Longrightarrow> view (push a s) = view s @ [stored a s]"
    and push_inv: "inv s \<Longrightarrow> admissible a s \<Longrightarrow> inv (push a s)"
begin

lemma pops_view:
  "inv s \<Longrightarrow> \<exists>s'. pops pop n s = (s', take n (view s)) \<and> view s' = drop n (view s) \<and> inv s'"
proof (induction n arbitrary: s)
  case 0
  then show ?case by simp
next
  case (Suc n)
  show ?case
  proof (cases "view s")
    case Nil
    with Suc.prems show ?thesis by (simp add: pop_empty)
  next
    case (Cons e es)
    from pop_cons [OF Suc.prems Cons] obtain s' where
      s': "pop s = (s', Some e)" "view s' = es" "inv s'" by blast
    from Suc.IH [OF s'(3)] s' Cons show ?thesis by auto
  qed
qed

lemma drain: "inv s \<Longrightarrow> \<exists>s'. pops pop (length (view s)) s = (s', view s) \<and> view s' = []"
  using pops_view [of s "length (view s)"] by auto

lemma push_then_drain:
  assumes "inv s" and "admissible a s"
  shows "\<exists>s'. pops pop (Suc (length (view s))) (push a s) = (s', view s @ [stored a s]) \<and> view s' = []"
  using drain [OF push_inv [OF assms]] by (simp add: push_view [OF assms])

end

end
