(* ===== verification/Models.thy ===== *)
theory Models
  imports Prelude Complex_Main
begin

text \<open>
  The domain types of \<open>internal/models/models.go\<close>: closed string enumerations become datatypes
  (the request policy stays a string, since its zero value \<open>""\<close> occurs at run time), structs become
  records with the fields in the source's order. Optional times (\<open>*time.Time\<close>) are \<open>gotime option\<close>.
\<close>

type_synonym RequestPolicy = string

abbreviation PolicyClosed :: RequestPolicy where "PolicyClosed \<equiv> ''closed''"
abbreviation PolicyOpen :: RequestPolicy where "PolicyOpen \<equiv> ''open''"
abbreviation PolicyApproval :: RequestPolicy where "PolicyApproval \<equiv> ''approval''"

datatype ChatMessageType = ChatTypeMessage | ChatTypeRequest | ChatTypeAnnouncement

datatype QueueEntryStatus = QueuePending | QueueApproved | QueueRejected | QueuePlayed

record Room =
  room_id :: string
  room_slug :: string
  room_name :: string
  room_description :: string
  room_genre :: string
  room_vibes :: "string list"
  room_cover_gradient :: string
  room_cover_art :: string
  room_policy :: RequestPolicy
  room_is_live :: bool
  room_is_official :: bool
  room_dj_key_hash :: string
  room_dj_session :: string
  room_created_at :: gotime
  room_scheduled :: "gotime option"
  room_last_active :: "gotime option"
  room_ended_at :: "gotime option"
  room_expires_at :: "gotime option"
  room_is_featured :: bool
  room_creator :: string
  room_is_autoplay :: bool
  room_listeners :: int
  room_dj_name :: string
  room_dj_color :: string

record Track =
  track_id :: string
  track_title :: string
  track_artist :: string
  track_duration :: int
  track_source :: string
  track_url :: string
  track_gradient :: string
  track_snippet :: string
  track_created_at :: gotime

record QueueEntry =
  entry_id :: string
  entry_room :: string
  entry_track :: Track
  entry_submitter :: string
  entry_session :: string
  entry_status :: QueueEntryStatus
  entry_position :: int
  entry_created_at :: gotime

record ChatMessage =
  chat_id :: string
  chat_room :: string
  chat_session :: string
  chat_username :: string
  chat_color :: string
  chat_text :: string
  chat_type :: ChatMessageType
  chat_time :: gotime
  chat_media_url :: string
  chat_media_type :: string

record Session =
  session_id :: string
  session_name :: string
  session_color :: string
  session_user :: string
  session_created_at :: gotime
  session_expires_at :: gotime

record User =
  user_id :: string
  user_email :: string
  user_email_verified :: bool
  user_password_hash :: string
  user_display_name :: string
  user_avatar_color :: string
  user_avatar_url :: string
  user_bio :: string
  user_genres :: "string list"
  user_created_at :: gotime
  user_is_admin :: bool
  user_city :: string
  user_region :: string
  user_country :: string
  user_stage_name :: string
  user_is_plus :: bool
  user_plus_since :: "gotime option"
  user_plus_expires_at :: "gotime option"
  user_neon :: int
  user_is_banned :: bool
  user_signup_ip :: string
  user_signup_agent :: string
  user_verified_at :: "gotime option"
  user_held_at :: "gotime option"

record EmailVerification =
  ev_id :: string
  ev_user :: string
  ev_token :: string
  ev_expires_at :: gotime
  ev_used_at :: "gotime option"

record PasswordReset =
  pr_id :: string
  pr_user :: string
  pr_token :: string
  pr_expires_at :: gotime
  pr_used_at :: "gotime option"

record RefreshToken =
  rt_id :: string
  rt_user :: string
  rt_hash :: string
  rt_expires_at :: gotime
  rt_revoked_at :: "gotime option"

record ListenEvent =
  le_id :: string
  le_user :: string
  le_room :: string
  le_started_at :: gotime
  le_ended_at :: "gotime option"
  le_duration :: int
  le_tracks :: int

record PlaybackState =
  ps_room :: string
  ps_track :: string
  ps_started_at :: int
  ps_playing :: bool
  ps_pause_position :: int

record NeonTube =
  tube_room :: string
  tube_level :: int
  tube_fill :: int
  tube_target :: int
  tube_total :: int

record NeonPack =
  pack_id :: string
  pack_name :: string
  pack_amount :: int
  pack_price :: int
  pack_bonus :: int

record NeonPurchase =
  purchase_id :: string
  purchase_user :: string
  purchase_pack :: string
  purchase_amount :: int
  purchase_price :: int
  purchase_payment :: string

record NeonTransaction =
  nt_id :: string
  nt_from :: string
  nt_room :: string
  nt_dj :: "string option"
  nt_amount :: int

record Subscription =
  sub_id :: string
  sub_user :: string
  sub_type :: string
  sub_target :: "string option"
  sub_price :: int
  sub_status :: string
  sub_stripe :: string
  sub_start :: gotime
  sub_end :: gotime
  sub_cancelled_at :: "gotime option"

record DJSubSettings =
  ds_user :: string
  ds_price :: int
  ds_enabled :: bool

record AutoplayTrack =
  at_title :: string
  at_artist :: string
  at_duration :: int
  at_source :: string
  at_url :: string
  at_gradient :: string
  at_snippet :: string

record AutoplayPlaylist =
  ap_id :: string
  ap_room :: string
  ap_status :: string
  ap_name :: string
  ap_tracks :: "AutoplayTrack list"
  ap_index :: int
  ap_created_at :: gotime
  ap_activated_at :: "gotime option"

record PlaylistTrack =
  pt_id :: string
  pt_track :: string
  pt_position :: int
  pt_added_at :: gotime
  pt_title :: string
  pt_artist :: string
  pt_duration :: int
  pt_source :: string
  pt_url :: string
  pt_gradient :: string

record Playlist =
  pl_id :: string
  pl_user :: string
  pl_name :: string
  pl_liked :: bool
  pl_count :: int
  pl_tracks :: "PlaylistTrack list"
  pl_created_at :: gotime
  pl_updated_at :: gotime

record DirectMessage =
  dm_id :: string
  dm_from :: string
  dm_to :: string
  dm_text :: string
  dm_read_at :: "gotime option"
  dm_created_at :: gotime
  dm_from_name :: string
  dm_from_color :: string

record ConversationSummary =
  cs_user :: string
  cs_name :: string
  cs_color :: string
  cs_last :: string
  cs_last_at :: gotime
  cs_unread :: nat

text \<open>The creator pool; the share is a float in the code.\<close>

record CreatorPoolMonth =
  pm_id :: string
  pm_month :: string
  pm_revenue :: int
  pm_pct :: int
  pm_amount :: int
  pm_minutes :: int
  pm_computed_at :: gotime

record CreatorPoolAllocation =
  pa_id :: string
  pa_month :: string
  pa_creator :: string
  pa_minutes :: int
  pa_share :: real
  pa_earnings :: int

section \<open>Zero values\<close>

text \<open>
  Several store methods return a pointer to a zero struct together with an error
  (\<open>return &r, err\<close>). A caller that drops the error then sees that struct, not nil:
  \<open>deref_or_zero\<close>.
\<close>

definition zero_time :: gotime where "zero_time = - 62135596800000000000"

definition zero_room :: Room where
  "zero_room = \<lparr>room_id = [], room_slug = [], room_name = [], room_description = [], room_genre = [],
     room_vibes = [], room_cover_gradient = [], room_cover_art = [], room_policy = [],
     room_is_live = False, room_is_official = False, room_dj_key_hash = [], room_dj_session = [],
     room_created_at = zero_time, room_scheduled = None, room_last_active = None, room_ended_at = None,
     room_expires_at = None, room_is_featured = False, room_creator = [], room_is_autoplay = False,
     room_listeners = 0, room_dj_name = [], room_dj_color = []\<rparr>"

definition zero_track :: Track where
  "zero_track = \<lparr>track_id = [], track_title = [], track_artist = [], track_duration = 0,
     track_source = [], track_url = [], track_gradient = [], track_snippet = [],
     track_created_at = zero_time\<rparr>"

definition zero_tube :: NeonTube where
  "zero_tube = \<lparr>tube_room = [], tube_level = 0, tube_fill = 0, tube_target = 0, tube_total = 0\<rparr>"

definition zero_user :: User where
  "zero_user = \<lparr>user_id = [], user_email = [], user_email_verified = False, user_password_hash = [],
     user_display_name = [], user_avatar_color = [], user_avatar_url = [], user_bio = [], user_genres = [],
     user_created_at = zero_time, user_is_admin = False, user_city = [], user_region = [], user_country = [],
     user_stage_name = [], user_is_plus = False,
     user_plus_since = None, user_plus_expires_at = None, user_neon = 0, user_is_banned = False,
     user_signup_ip = [], user_signup_agent = [], user_verified_at = None, user_held_at = None\<rparr>"

definition zero_dj_settings :: DJSubSettings where
  "zero_dj_settings = \<lparr>ds_user = [], ds_price = 0, ds_enabled = False\<rparr>"

definition zero_subscription :: Subscription where
  "zero_subscription = \<lparr>sub_id = [], sub_user = [], sub_type = [], sub_target = None, sub_price = 0,
     sub_status = [], sub_stripe = [], sub_start = zero_time, sub_end = zero_time,
     sub_cancelled_at = None\<rparr>"

definition zero_playlist :: Playlist where
  "zero_playlist = \<lparr>pl_id = [], pl_user = [], pl_name = [], pl_liked = False, pl_count = 0,
     pl_tracks = [], pl_created_at = zero_time, pl_updated_at = zero_time\<rparr>"

definition deref_or_zero :: "'a \<Rightarrow> 'a option fallible \<Rightarrow> 'a option" where
  "deref_or_zero z r = (case r of Inl _ \<Rightarrow> Some z | Inr x \<Rightarrow> x)"

lemma deref_or_zero_simps [simp]: "deref_or_zero z (Inl e) = Some z" "deref_or_zero z (Inr x) = x"
  by (simp_all add: deref_or_zero_def)

section \<open>Neon packs and tube levels\<close>

definition NeonPacks :: "NeonPack list" where
  "NeonPacks =
     [\<lparr>pack_id = ''starter'', pack_name = ''Starter'', pack_amount = 100, pack_price = 199, pack_bonus = 0\<rparr>,
      \<lparr>pack_id = ''popular'', pack_name = ''Popular'', pack_amount = 500, pack_price = 799, pack_bonus = 10\<rparr>,
      \<lparr>pack_id = ''mega'', pack_name = ''Mega'', pack_amount = 1200, pack_price = 1499, pack_bonus = 25\<rparr>,
      \<lparr>pack_id = ''ultra'', pack_name = ''Ultra'', pack_amount = 3000, pack_price = 2999, pack_bonus = 50\<rparr>]"

definition TubeLevels :: "(int \<times> string \<times> int) list" where
  "TubeLevels = [(1, ''cyan'', 100), (2, ''magenta'', 250), (3, ''amber'', 500),
     (4, ''rainbow'', 1000), (5, ''supernova'', 2000)]"

section \<open>Track submissions (\<open>models/trackvalidate.go\<close>)\<close>

text \<open>
  \<open>url.Parse\<close> is an argument of the definitions that use it: it yields the scheme and the
  host name of a URL, or nothing when the URL does not parse.
\<close>

type_synonym url_parser = "string \<Rightarrow> (string \<times> string) option"

definition MaxTrackTitleLen :: nat where "MaxTrackTitleLen = 200"
definition MaxTrackArtistLen :: nat where "MaxTrackArtistLen = 200"
definition MaxTrackSourceURLLen :: nat where "MaxTrackSourceURLLen = 500"
definition MaxTrackDurationSecs :: int where "MaxTrackDurationSecs = 3 * 60 * 60"

lemmas track_caps = MaxTrackTitleLen_def MaxTrackArtistLen_def MaxTrackSourceURLLen_def
  MaxTrackDurationSecs_def

definition trackSourceHosts :: "string \<Rightarrow> string list" where
  "trackSourceHosts src =
     (if src = ''youtube''
      then [''youtube.com'', ''youtu.be'', ''youtube-nocookie.com'', ''music.youtube.com'']
      else if src = ''soundcloud'' then [''soundcloud.com'', ''sndcdn.com'']
      else [])"

fun hostAllowed :: "string \<Rightarrow> string list \<Rightarrow> bool" where
  "hostAllowed host [] = False"
| "hostAllowed host (a # rest) =
     (to_lower host = a \<or> has_suffix (to_lower host) (''.'' @ a) \<or> hostAllowed host rest)"

definition ValidateTrackSubmission ::
  "url_parser \<Rightarrow> string \<Rightarrow> string \<Rightarrow> string \<Rightarrow> string \<Rightarrow> int \<Rightarrow> bool \<Rightarrow> string option" where
  "ValidateTrackSubmission parse title artist source sourceURL duration isDJ =
     (if trim_space title = '''' then Some ''track title is required''
      else if length title > MaxTrackTitleLen then Some ''track title is too long''
      else if length artist > MaxTrackArtistLen then Some ''track artist is too long''
      else if length sourceURL > MaxTrackSourceURLLen then Some ''track URL is too long''
      else if duration < 0 \<or> duration > MaxTrackDurationSecs
        then Some ''track duration is out of range''
      else case parse sourceURL of
          None \<Rightarrow> Some ''track URL is not valid''
        | Some (scheme, host) \<Rightarrow>
            if host = '''' then Some ''track URL is not valid''
            else if scheme \<noteq> ''https'' then Some ''track URL must be https''
            else if source = ''youtube'' \<or> source = ''soundcloud'' then
              (if \<not> hostAllowed host (trackSourceHosts source)
               then Some ''track URL host does not match its source'' else None)
            else if source = ''mp3'' then
              (if \<not> isDJ then Some ''direct audio URLs can only be added by the DJ'' else None)
            else Some ''unknown track source'')"

lemma hostAllowed_iff:
  "hostAllowed host allowed \<longleftrightarrow>
     (\<exists>a \<in> set allowed. to_lower host = a \<or> (\<exists>sub. to_lower host = sub @ ''.'' @ a))"
  by (induction allowed) (auto simp: has_suffix_iff)

lemma validate_accepts:
  assumes "ValidateTrackSubmission parse title artist source sourceURL duration isDJ = None"
  shows "0 \<le> duration \<and> duration \<le> MaxTrackDurationSecs \<and> length title \<le> MaxTrackTitleLen \<and>
    length artist \<le> MaxTrackArtistLen \<and> length sourceURL \<le> MaxTrackSourceURLLen \<and>
    trim_space title \<noteq> '''' \<and> (\<exists>host. parse sourceURL = Some (''https'', host) \<and> host \<noteq> '''' \<and>
      ((source \<in> {''youtube'', ''soundcloud''} \<and> hostAllowed host (trackSourceHosts source)) \<or>
       (source = ''mp3'' \<and> isDJ)))"
  using assms unfolding ValidateTrackSubmission_def
  by (auto split: if_splits option.splits)

text \<open>
  A track that the validator accepts from a listener who is not the DJ is one of the two
  hosted sources, its URL is https, and its host is an allowed domain of that source or a
  subdomain of one, so no listener can make every browser in the room fetch from a host of
  their choosing; its duration lies in the documented range.
\<close>

theorem listener_submission_confined:
  assumes "ValidateTrackSubmission parse title artist source sourceURL duration False = None"
  shows "source \<in> {''youtube'', ''soundcloud''}
    \<and> 0 \<le> duration \<and> duration \<le> 10800
    \<and> (\<exists>host a sub. parse sourceURL = Some (''https'', host)
         \<and> a \<in> set (trackSourceHosts source)
         \<and> (to_lower host = a \<or> to_lower host = sub @ ''.'' @ a))"
  using validate_accepts [OF assms] by (auto simp: hostAllowed_iff MaxTrackDurationSecs_def)

theorem listener_submission_confined_witness:
  "\<exists>host a sub. (\<lambda>u. Some (''https'', ''M.YouTube.com'')) ''https://M.YouTube.com/w'' = Some (''https'', host)
     \<and> a \<in> set (trackSourceHosts ''youtube'')
     \<and> (to_lower host = a \<or> to_lower host = sub @ ''.'' @ a)"
proof -
  have "ValidateTrackSubmission (\<lambda>u. Some (''https'', ''M.YouTube.com'')) ''Song'' ''Band'' ''youtube''
    ''https://M.YouTube.com/w'' 180 False = None"
    by code_simp
  from listener_submission_confined [OF this] show ?thesis by blast
qed

end
