(* ===== verification/Store.thy ===== *)
theory Store
  imports Models
begin

text \<open>
  The Postgres store (\<open>internal/store/postgres.go\<close>, with the listen-tracking part of
  \<open>users.go\<close>): tables as lists of rows, and one operation per method, translated from its SQL.
  Primary keys, foreign keys and CHECK constraints are those of \<open>migrations/\<close>. Every operation
  takes the set of calls that fail in the current step (\<open>faults\<close>): a failing call returns the
  error and leaves the tables alone, which is what a rolled-back statement does.
\<close>

section \<open>Tables\<close>

record QueueRow =
  qr_id :: string
  qr_room :: string
  qr_track :: string
  qr_submitter :: string
  qr_session :: string
  qr_status :: QueueEntryStatus
  qr_position :: int
  qr_created_at :: gotime

record NowPlaying =
  np_room :: string
  np_track :: string
  np_started_at :: gotime

record PlaylistRow =
  plr_id :: string
  plr_playlist :: string
  plr_track :: string
  plr_position :: int
  plr_added_at :: gotime

record pgdb =
  db_rooms :: "Room list"
  db_tracks :: "Track list"
  db_queue :: "QueueRow list"
  db_chat :: "ChatMessage list"
  db_now :: "NowPlaying list"
  db_listens :: "ListenEvent list"
  db_tubes :: "NeonTube list"
  db_neon_tx :: "NeonTransaction list"
  db_purchases :: "NeonPurchase list"
  db_subs :: "Subscription list"
  db_djsubs :: "DJSubSettings list"
  db_autoplay :: "AutoplayPlaylist list"
  db_users :: "User list"
  db_verifications :: "EmailVerification list"
  db_resets :: "PasswordReset list"
  db_refresh :: "RefreshToken list"
  db_playlists :: "Playlist list"
  db_playlist_tracks :: "PlaylistRow list"
  db_messages :: "DirectMessage list"
  db_pool_months :: "CreatorPoolMonth list"
  db_pool_shares :: "CreatorPoolAllocation list"

definition empty_db :: pgdb where
  "empty_db = \<lparr>db_rooms = [], db_tracks = [], db_queue = [], db_chat = [], db_now = [],
     db_listens = [], db_tubes = [], db_neon_tx = [], db_purchases = [],
     db_subs = [], db_djsubs = [], db_autoplay = [], db_users = [],
     db_verifications = [], db_resets = [], db_refresh = [],
     db_playlists = [], db_playlist_tracks = [], db_messages = [], db_pool_months = [], db_pool_shares = []\<rparr>"

text \<open>The calls that can fail, by method.\<close>

datatype track_call = TUpsertAll | TSnippet | TGetMany

datatype playlist_call =
    PCreate | PListByUser | PGet | PGetRows | PRename | PDelete | PMaxPosition | PAddRows | PTouch | PRemoveRow | PGetLiked

datatype message_call = MSend | MThread | MThreads | MMarkRead

datatype admin_call =
    AGetUser | ASetField | AClearFeatured | ASetFeatured | ASetOfficial | ASetExpiry | ASetCover | ASetGradient
  | AGetFeatured | AAutoplayRoom | ADropChat | ADropMessages | ADropListens | ADropPlaylistRows | ADropPlaylists | ADropSubs

datatype profile_call =
    PfUser | PfLive | PfStats | PfShows | PfGenre | PfMyStats | PfFavorites | PfListUsers | PfLocation

datatype metrics_call = McCount nat | McHours | McPerDay nat | McGenres | McLiveRooms | McWeek

datatype pool_call = PoRevenue | PoMinutes | PoSaveMonth | PoDropShares | PoInsertShare

datatype pgcall =
    CCreateRoom | CGetRoom | CListRooms | CCountRooms | CSetRoomLive | CEndRoom | CDeleteRoom
  | CWasRoomEverLive | CCleanupGhostRooms | CUpdateRoomPolicy | CResetRooms
  | CUpsertTrack | CUpdateTrackDuration | CGetTrack
  | CAddToQueue | CGetQueue | CGetPendingRequests | CQueueCounts | CUpdateQueueEntryStatus
  | CCountActiveQueueEntries | CPopNextTrack | CGetPlayedTracks
  | CInsertChatMessage | CGetRecentChat | CSetNowPlaying | CGetNowPlaying | CClearNowPlaying
  | CStartListenEvent | CEndListenEvent | CEndListenEventsByUser
  | CGetNeonTube | CSpendNeon | CResolveTube | CCreditNeon | CGetNeonBalance
  | CGetAutoplayPlaylist | CUpdateAutoplayIndex | CActivateStaged | CUpsertAutoplayTrack
  | CSetRoomAutoplay | CGetAutoplayRooms | CSaveAutoplayPlaylist | CDeleteAutoplayPlaylist
  | CGetUser | CCreateUser | CUpdateUser | CUpdatePassword | CUpdateEmail | CSetVerified | CHoldVerified
  | CDeleteUser | CStageName | CAdminField
  | CExpireVerifications | CInsertVerification | CGetVerification | CMarkVerification
  | CExpireResets | CInsertReset | CGetReset | CMarkReset
  | CInsertRefresh | CGetRefresh | CRevokeRefresh | CRevokeAllRefresh | CCleanRefresh | CCleanResets
  | CCleanVerifications | CPlus | CSubscriptions | CGetSubscription | CDJSubSettings
  | CGetDJSubSettings
  | CTracks track_call | CPlaylists playlist_call | CMessages message_call
  | CAdmin admin_call | CPool pool_call | CProfile profile_call | CMetrics metrics_call

type_synonym faults = "pgcall \<Rightarrow> bool"

text \<open>The range of a Postgres INTEGER column.\<close>

definition int4_ok :: "int \<Rightarrow> bool" where
  "int4_ok k \<longleftrightarrow> - (2 ^ 31) \<le> k \<and> k < 2 ^ 31"

definition has_room :: "string \<Rightarrow> pgdb \<Rightarrow> bool" where
  "has_room rid db \<longleftrightarrow> (\<exists>r \<in> set (db_rooms db). room_id r = rid)"

definition has_track :: "string \<Rightarrow> pgdb \<Rightarrow> bool" where
  "has_track tid db \<longleftrightarrow> (\<exists>t \<in> set (db_tracks db). track_id t = tid)"

definition has_user :: "string \<Rightarrow> pgdb \<Rightarrow> bool" where
  "has_user uid db \<longleftrightarrow> (\<exists>u \<in> set (db_users db). user_id u = uid)"

section \<open>Rooms\<close>

definition CreateRoom :: "faults \<Rightarrow> Room \<Rightarrow> pgdb \<Rightarrow> pgdb fallible" where
  "CreateRoom f room db =
     (if f CCreateRoom \<or> has_room (room_id room) db
         \<or> (\<exists>r \<in> set (db_rooms db). room_slug r = room_slug room)
         \<or> room_policy room \<notin> {PolicyOpen, PolicyApproval, PolicyClosed} then Inl StoreError
      else Inr (db\<lparr>db_rooms := db_rooms db @
        [room\<lparr>room_last_active := None, room_ended_at := None, room_is_autoplay := False,
               room_listeners := 0, room_dj_color := ''''\<rparr>]\<rparr>))"

definition GetRoomBySlug :: "faults \<Rightarrow> string \<Rightarrow> pgdb \<Rightarrow> Room option fallible" where
  "GetRoomBySlug f slug db = failing (f CGetRoom) (find_row (\<lambda>r. room_slug r = slug) (db_rooms db))"

definition GetRoomByID :: "faults \<Rightarrow> string \<Rightarrow> pgdb \<Rightarrow> Room option fallible" where
  "GetRoomByID f rid db = failing (f CGetRoom) (find_row (\<lambda>r. room_id r = rid) (db_rooms db))"

text \<open>\<open>ListRooms\<close>: the WHERE clause, the three-key ORDER BY (live first, then most recently
  active with NULLS LAST, then newest) and the LIMIT.\<close>

definition listed :: "gotime \<Rightarrow> bool \<Rightarrow> string \<Rightarrow> Room \<Rightarrow> bool" where
  "listed now liveOnly genre r \<longleftrightarrow>
     (case room_ended_at r of None \<Rightarrow> True | Some e \<Rightarrow> e > now - 24 * hour)
     \<and> (liveOnly \<longrightarrow> room_is_live r) \<and> (genre \<noteq> '''' \<longrightarrow> room_genre r = genre)"

definition list_order :: "Room list \<Rightarrow> Room list" where
  "list_order rs =
     order_by (\<lambda>r. if room_is_live r then 0 else 1)
      (order_by (\<lambda>r. case room_last_active r of None \<Rightarrow> 1 | Some _ \<Rightarrow> 0)
        (order_by (\<lambda>r. case room_last_active r of None \<Rightarrow> 0 | Some t \<Rightarrow> - t)
          (order_by (\<lambda>r. - room_created_at r) rs)))"

definition ListRooms :: "faults \<Rightarrow> gotime \<Rightarrow> bool \<Rightarrow> string \<Rightarrow> pgdb \<Rightarrow> Room list fallible" where
  "ListRooms f now liveOnly genre db =
     failing (f CListRooms) (take 200 (list_order (filter (listed now liveOnly genre) (db_rooms db))))"

definition CountActiveRoomsByCreator :: "faults \<Rightarrow> string \<Rightarrow> pgdb \<Rightarrow> nat fallible" where
  "CountActiveRoomsByCreator f uid db = failing (f CCountRooms)
     (affected (\<lambda>r. room_creator r = uid \<and> room_ended_at r = None) (db_rooms db))"

definition ListAllRooms :: "faults \<Rightarrow> pgdb \<Rightarrow> Room list fallible" where
  "ListAllRooms f db = failing (f CListRooms) (order_by (\<lambda>r. - room_created_at r) (db_rooms db))"

definition SetRoomLive :: "faults \<Rightarrow> gotime \<Rightarrow> string \<Rightarrow> bool \<Rightarrow> pgdb \<Rightarrow> pgdb fallible" where
  "SetRoomLive f now rid live db =
     (let lastActive = (if live then None else Some now) in
      failing (f CSetRoomLive) (db\<lparr>db_rooms := update_where (\<lambda>r. room_id r = rid)
        (\<lambda>r. r\<lparr>room_is_live := live, room_last_active := lastActive\<rparr>) (db_rooms db)\<rparr>))"

definition EndRoom :: "faults \<Rightarrow> gotime \<Rightarrow> string \<Rightarrow> pgdb \<Rightarrow> pgdb fallible" where
  "EndRoom f now rid db = failing (f CEndRoom)
     (db\<lparr>db_rooms := update_where (\<lambda>r. room_id r = rid)
        (\<lambda>r. r\<lparr>room_is_live := False, room_ended_at := Some now, room_last_active := Some now\<rparr>)
        (db_rooms db)\<rparr>)"

text \<open>
  Deleting rooms: the foreign keys of \<open>queue_entries\<close>, \<open>chat_messages\<close>, \<open>now_playing\<close>,
  \<open>listen_events\<close>, \<open>neon_tubes\<close> and \<open>autoplay_playlists\<close> cascade; the one of
  \<open>neon_transactions\<close> does not, so the statement fails while a deleted room has a transaction.
\<close>

definition delete_rooms :: "(Room \<Rightarrow> bool) \<Rightarrow> pgdb \<Rightarrow> pgdb fallible" where
  "delete_rooms p db =
     (let gone = map room_id (filter p (db_rooms db)) in
      if \<exists>t \<in> set (db_neon_tx db). nt_room t \<in> set gone then Inl StoreError
      else Inr (db\<lparr>db_rooms := delete_where p (db_rooms db),
        db_queue := delete_where (\<lambda>q. qr_room q \<in> set gone) (db_queue db),
        db_chat := delete_where (\<lambda>c. chat_room c \<in> set gone) (db_chat db),
        db_now := delete_where (\<lambda>n. np_room n \<in> set gone) (db_now db),
        db_listens := delete_where (\<lambda>l. le_room l \<in> set gone) (db_listens db),
        db_tubes := delete_where (\<lambda>t. tube_room t \<in> set gone) (db_tubes db),
        db_autoplay := delete_where (\<lambda>a. ap_room a \<in> set gone) (db_autoplay db)\<rparr>))"

definition DeleteRoom :: "faults \<Rightarrow> string \<Rightarrow> pgdb \<Rightarrow> pgdb fallible" where
  "DeleteRoom f rid db =
     (if f CDeleteRoom then Inl StoreError else delete_rooms (\<lambda>r. room_id r = rid) db)"

definition WasRoomEverLive :: "faults \<Rightarrow> string \<Rightarrow> pgdb \<Rightarrow> bool fallible" where
  "WasRoomEverLive f rid db =
     (if f CWasRoomEverLive then Inl StoreError
      else case find_row (\<lambda>r. room_id r = rid) (db_rooms db) of
          None \<Rightarrow> Inl StoreError
        | Some r \<Rightarrow> Inr (room_is_live r \<or> room_ended_at r \<noteq> None \<or> room_last_active r \<noteq> None))"

definition ghost_room :: "gotime \<Rightarrow> Room \<Rightarrow> bool" where
  "ghost_room cutoff r \<longleftrightarrow> \<not> room_is_live r \<and> room_ended_at r = None \<and> room_last_active r = None
     \<and> room_scheduled r = None \<and> \<not> room_is_autoplay r \<and> room_created_at r < cutoff"

definition CleanupGhostRooms :: "faults \<Rightarrow> gotime \<Rightarrow> duration \<Rightarrow> pgdb \<Rightarrow> (pgdb \<times> nat) fallible" where
  "CleanupGhostRooms f now olderThan db =
     (let cutoff = now - olderThan in
      if f CCleanupGhostRooms then Inl StoreError
      else case delete_rooms (ghost_room cutoff) db of
          Inl e \<Rightarrow> Inl e
        | Inr db' \<Rightarrow> Inr (db', affected (ghost_room cutoff) (db_rooms db)))"

definition UpdateRoomPolicy :: "faults \<Rightarrow> string \<Rightarrow> RequestPolicy \<Rightarrow> pgdb \<Rightarrow> pgdb fallible" where
  "UpdateRoomPolicy f rid policy db = failing (f CUpdateRoomPolicy)
     (db\<lparr>db_rooms := update_where (\<lambda>r. room_id r = rid) (\<lambda>r. r\<lparr>room_policy := policy\<rparr>) (db_rooms db)\<rparr>)"

definition ResetAllRoomsOffline :: "faults \<Rightarrow> gotime \<Rightarrow> pgdb \<Rightarrow> pgdb \<times> unit fallible" where
  "ResetAllRoomsOffline f now db =
     (if f CResetRooms then (db, Inl StoreError)
      else (let rooms = update_where (\<lambda>r. room_is_live r \<and> \<not> room_is_autoplay r)
                  (\<lambda>r. r\<lparr>room_is_live := False, room_ended_at := Some now, room_last_active := Some now\<rparr>) (db_rooms db);
                auto = map room_id (filter room_is_autoplay rooms) in
        if f CClearNowPlaying then (db\<lparr>db_rooms := rooms\<rparr>, Inl StoreError)
        else (db\<lparr>db_rooms := rooms, db_now := delete_where (\<lambda>n. np_room n \<notin> set auto) (db_now db)\<rparr>, Inr ())))"

section \<open>Tracks\<close>

definition track_row_ok :: "Track \<Rightarrow> bool" where
  "track_row_ok t \<longleftrightarrow> track_source t \<in> {''youtube'', ''soundcloud'', ''mp3''} \<and> int4_ok (track_duration t)"

definition UpsertTrack :: "faults \<Rightarrow> Track \<Rightarrow> pgdb \<Rightarrow> pgdb fallible" where
  "UpsertTrack f t db =
     (if f CUpsertTrack \<or> \<not> track_row_ok t then Inl StoreError
      else Inr (if has_track (track_id t) db then db else db\<lparr>db_tracks := db_tracks db @ [t]\<rparr>))"

definition UpdateTrackDuration :: "faults \<Rightarrow> string \<Rightarrow> int \<Rightarrow> pgdb \<Rightarrow> (pgdb \<times> bool) fallible" where
  "UpdateTrackDuration f tid d db =
     (let p = (\<lambda>t. track_id t = tid \<and> track_duration t = 0) in
      if f CUpdateTrackDuration \<or> \<not> int4_ok d then Inl StoreError
      else Inr (db\<lparr>db_tracks := update_where p (\<lambda>t. t\<lparr>track_duration := d\<rparr>) (db_tracks db)\<rparr>,
                affected p (db_tracks db) > 0))"

definition GetTrack :: "faults \<Rightarrow> string \<Rightarrow> pgdb \<Rightarrow> Track option fallible" where
  "GetTrack f tid db = failing (f CGetTrack)
     (map_option (\<lambda>t. t\<lparr>track_snippet := ''''\<rparr>) (find_row (\<lambda>t. track_id t = tid) (db_tracks db)))"

text \<open>
  The batch insert: the durations are narrowed to 32 bits on the way; rows whose id exists, or
  occurs earlier in the batch, are skipped.
\<close>

definition int32 :: "int \<Rightarrow> int" where
  "int32 k = (k + 2 ^ 31) mod 2 ^ 32 - 2 ^ 31"

fun insert_new_tracks :: "Track list \<Rightarrow> Track list \<Rightarrow> Track list" where
  "insert_new_tracks rows [] = rows"
| "insert_new_tracks rows (t # ts) = insert_new_tracks
     (if track_id t \<in> track_id ` set rows then rows else rows @ [t]) ts"

definition UpsertTracks :: "faults \<Rightarrow> Track list \<Rightarrow> pgdb \<Rightarrow> pgdb fallible" where
  "UpsertTracks f ts db =
     (let ts' = map (\<lambda>t. t\<lparr>track_duration := int32 (track_duration t)\<rparr>) ts in
      if ts = [] then Inr db
      else if f (CTracks TUpsertAll) \<or> (\<exists>t \<in> set ts'. \<not> track_row_ok t) then Inl StoreError
      else Inr (db\<lparr>db_tracks := insert_new_tracks (db_tracks db) ts'\<rparr>))"

definition UpdateTrackInfoSnippet :: "faults \<Rightarrow> string \<Rightarrow> string \<Rightarrow> pgdb \<Rightarrow> pgdb fallible" where
  "UpdateTrackInfoSnippet f tid snippet db = failing (f (CTracks TSnippet))
     (db\<lparr>db_tracks := update_where (\<lambda>t. track_id t = tid) (\<lambda>t. t\<lparr>track_snippet := snippet\<rparr>) (db_tracks db)\<rparr>)"

definition GetTracksByIDs :: "faults \<Rightarrow> string list \<Rightarrow> pgdb \<Rightarrow> (string \<rightharpoonup> Track) fallible" where
  "GetTracksByIDs f ids db =
     (if ids = [] then Inr Map.empty
      else failing (f (CTracks TGetMany)) (\<lambda>tid. if tid \<in> set ids
        then map_option (\<lambda>t. t\<lparr>track_snippet := ''''\<rparr>) (find_row (\<lambda>t. track_id t = tid) (db_tracks db))
        else None))"

section \<open>Queue\<close>

text \<open>The rows of \<open>queue_entries JOIN tracks\<close>, as the scans build them.\<close>

definition join_track :: "pgdb \<Rightarrow> QueueRow \<Rightarrow> QueueEntry option" where
  "join_track db q = map_option
     (\<lambda>t. \<lparr>entry_id = qr_id q, entry_room = qr_room q,
        entry_track = t\<lparr>track_snippet := '''', track_created_at := zero_time\<rparr>,
        entry_submitter = qr_submitter q, entry_session = qr_session q, entry_status = qr_status q,
        entry_position = qr_position q, entry_created_at = qr_created_at q\<rparr>)
     (find_row (\<lambda>t. track_id t = qr_track q) (db_tracks db))"

definition active :: "QueueEntryStatus \<Rightarrow> bool" where
  "active st \<longleftrightarrow> st = QueuePending \<or> st = QueueApproved"

definition active_positions :: "string \<Rightarrow> pgdb \<Rightarrow> int list" where
  "active_positions rid db = map qr_position (filter (\<lambda>q. qr_room q = rid \<and> active (qr_status q)) (db_queue db))"

definition AddToQueue :: "faults \<Rightarrow> QueueEntry \<Rightarrow> pgdb \<Rightarrow> (pgdb \<times> QueueEntry) fallible" where
  "AddToQueue f e db =
     (let maxPos = max_or 0 (active_positions (entry_room e) db);
          e' = e\<lparr>entry_position := maxPos + 1\<rparr> in
      if f CAddToQueue \<or> \<not> has_room (entry_room e) db \<or> \<not> has_track (track_id (entry_track e)) db
         \<or> (\<exists>q \<in> set (db_queue db). qr_id q = entry_id e) then Inl StoreError
      else Inr (db\<lparr>db_queue := db_queue db @
        [\<lparr>qr_id = entry_id e', qr_room = entry_room e', qr_track = track_id (entry_track e'),
          qr_submitter = entry_submitter e', qr_session = entry_session e',
          qr_status = entry_status e', qr_position = entry_position e',
          qr_created_at = entry_created_at e'\<rparr>]\<rparr>, e'))"

text \<open>The batched append of \<open>AddTracksToQueue\<close>: positions continue after one MAX read.\<close>

fun number_from :: "int \<Rightarrow> 'a list \<Rightarrow> (int \<times> 'a) list" where
  "number_from n [] = []"
| "number_from n (x # xs) = (n, x) # number_from (n + 1) xs"

definition AddTracksToQueue :: "faults \<Rightarrow> string \<Rightarrow> QueueEntry list \<Rightarrow> pgdb \<Rightarrow> pgdb fallible" where
  "AddTracksToQueue f rid entries db =
     (let base = max_or 0 (active_positions rid db) in
      if entries = [] then Inr db
      else if f CAddToQueue \<or> \<not> has_room rid db
         \<or> (\<exists>e \<in> set entries. \<not> has_track (track_id (entry_track e)) db)
         \<or> \<not> distinct (map qr_id (db_queue db) @ map entry_id entries) then Inl StoreError
      else Inr (db\<lparr>db_queue := db_queue db @ map (\<lambda>(pos, e).
        \<lparr>qr_id = entry_id e, qr_room = rid, qr_track = track_id (entry_track e),
          qr_submitter = entry_submitter e, qr_session = entry_session e,
          qr_status = entry_status e, qr_position = pos, qr_created_at = entry_created_at e\<rparr>)
        (number_from (base + 1) entries)\<rparr>))"

definition approved_rows :: "string \<Rightarrow> pgdb \<Rightarrow> QueueRow list" where
  "approved_rows rid db =
     order_by qr_position (filter (\<lambda>q. qr_room q = rid \<and> qr_status q = QueueApproved) (db_queue db))"

definition GetQueue :: "faults \<Rightarrow> string \<Rightarrow> pgdb \<Rightarrow> QueueEntry list fallible" where
  "GetQueue f rid db = failing (f CGetQueue) (List.map_filter (join_track db) (approved_rows rid db))"

definition GetPendingRequests :: "faults \<Rightarrow> string \<Rightarrow> pgdb \<Rightarrow> QueueEntry list fallible" where
  "GetPendingRequests f rid db = failing (f CGetPendingRequests) (List.map_filter (join_track db)
     (order_by qr_created_at
       (filter (\<lambda>q. qr_room q = rid \<and> qr_status q = QueuePending) (db_queue db))))"

definition GetPlayedTracks :: "faults \<Rightarrow> string \<Rightarrow> pgdb \<Rightarrow> QueueEntry list fallible" where
  "GetPlayedTracks f rid db = failing (f CGetPlayedTracks) (List.map_filter (join_track db)
     (order_by (\<lambda>q. - qr_position q)
       (filter (\<lambda>q. qr_room q = rid \<and> qr_status q = QueuePlayed) (db_queue db))))"

definition GetAllSessionTracks :: "faults \<Rightarrow> string \<Rightarrow> pgdb \<Rightarrow> QueueEntry list fallible" where
  "GetAllSessionTracks f rid db = failing (f CGetPlayedTracks) (List.map_filter (join_track db)
     (order_by qr_position
       (filter (\<lambda>q. qr_room q = rid \<and> (qr_status q = QueuePlayed \<or> qr_status q = QueueApproved)) (db_queue db))))"

definition GetApprovedQueueCounts :: "faults \<Rightarrow> string list \<Rightarrow> pgdb \<Rightarrow> (string \<rightharpoonup> nat) fallible" where
  "GetApprovedQueueCounts f rids db =
     (if rids = [] then Inr Map.empty
      else failing (f CQueueCounts) (\<lambda>rid.
        let n = affected (\<lambda>q. qr_room q = rid \<and> qr_status q = QueueApproved) (db_queue db) in
        if rid \<in> set rids \<and> n > 0 then Some n else None))"

definition UpdateQueueEntryStatus ::
  "faults \<Rightarrow> string \<Rightarrow> string \<Rightarrow> QueueEntryStatus \<Rightarrow> pgdb \<Rightarrow> pgdb fallible" where
  "UpdateQueueEntryStatus f rid eid st db = failing (f CUpdateQueueEntryStatus)
     (db\<lparr>db_queue := update_where (\<lambda>q. qr_id q = eid \<and> qr_room q = rid) (\<lambda>q. q\<lparr>qr_status := st\<rparr>) (db_queue db)\<rparr>)"

definition CountActiveQueueEntriesBySession ::
  "faults \<Rightarrow> string \<Rightarrow> string \<Rightarrow> pgdb \<Rightarrow> nat fallible" where
  "CountActiveQueueEntriesBySession f rid sid db = failing (f CCountActiveQueueEntries)
     (affected (\<lambda>q. qr_room q = rid \<and> qr_session q = sid \<and> active (qr_status q)) (db_queue db))"

text \<open>
  \<open>PopNextTrack\<close>: the first approved entry by position whose row is not locked by a concurrent
  transaction (\<open>FOR UPDATE ... SKIP LOCKED\<close>; \<open>locked\<close> says which rows are) becomes played.
\<close>

fun first_joined :: "pgdb \<Rightarrow> QueueRow list \<Rightarrow> QueueEntry option" where
  "first_joined db [] = None"
| "first_joined db (q # qs) = (case join_track db q of None \<Rightarrow> first_joined db qs | Some e \<Rightarrow> Some e)"

definition pop_select :: "(string \<Rightarrow> bool) \<Rightarrow> string \<Rightarrow> pgdb \<Rightarrow> QueueEntry option" where
  "pop_select locked rid db =
     first_joined db (filter (\<lambda>q. \<not> locked (qr_id q)) (approved_rows rid db))"

definition pop_commit :: "QueueEntry \<Rightarrow> pgdb \<Rightarrow> pgdb" where
  "pop_commit e db = db\<lparr>db_queue := update_where (\<lambda>q. qr_id q = entry_id e)
     (\<lambda>q. q\<lparr>qr_status := QueuePlayed\<rparr>) (db_queue db)\<rparr>"

definition PopNextTrack ::
  "faults \<Rightarrow> (string \<Rightarrow> bool) \<Rightarrow> string \<Rightarrow> pgdb \<Rightarrow> (pgdb \<times> QueueEntry option) fallible" where
  "PopNextTrack f locked rid db =
     (if f CPopNextTrack then Inl StoreError
      else case pop_select locked rid db of
          None \<Rightarrow> Inr (db, None)
        | Some e \<Rightarrow> Inr (pop_commit e db, Some e))"

section \<open>Chat and now playing\<close>

definition InsertChatMessage :: "faults \<Rightarrow> ChatMessage \<Rightarrow> pgdb \<Rightarrow> pgdb fallible" where
  "InsertChatMessage f m db =
     (if f CInsertChatMessage \<or> \<not> has_room (chat_room m) db
         \<or> (\<exists>c \<in> set (db_chat db). chat_id c = chat_id m) then Inl StoreError
      else Inr (db\<lparr>db_chat := db_chat db @ [m]\<rparr>))"

definition GetRecentChat :: "faults \<Rightarrow> string \<Rightarrow> nat \<Rightarrow> pgdb \<Rightarrow> ChatMessage list fallible" where
  "GetRecentChat f rid limit db = failing (f CGetRecentChat)
     (rev (take limit (order_by (\<lambda>c. - chat_time c) (filter (\<lambda>c. chat_room c = rid) (db_chat db)))))"

definition SetNowPlaying :: "faults \<Rightarrow> gotime \<Rightarrow> string \<Rightarrow> string \<Rightarrow> pgdb \<Rightarrow> pgdb fallible" where
  "SetNowPlaying f now rid tid db =
     (if f CSetNowPlaying \<or> \<not> has_room rid db \<or> \<not> has_track tid db then Inl StoreError
      else Inr (db\<lparr>db_now := delete_where (\<lambda>n. np_room n = rid) (db_now db)
                  @ [\<lparr>np_room = rid, np_track = tid, np_started_at = now\<rparr>]\<rparr>))"

definition GetNowPlaying :: "faults \<Rightarrow> string \<Rightarrow> pgdb \<Rightarrow> Track option fallible" where
  "GetNowPlaying f rid db = failing (f CGetNowPlaying)
     (case find_row (\<lambda>n. np_room n = rid) (db_now db) of
        None \<Rightarrow> None | Some n \<Rightarrow> find_row (\<lambda>t. track_id t = np_track n) (db_tracks db))"

definition ClearNowPlaying :: "faults \<Rightarrow> string \<Rightarrow> pgdb \<Rightarrow> pgdb fallible" where
  "ClearNowPlaying f rid db = failing (f CClearNowPlaying)
     (db\<lparr>db_now := delete_where (\<lambda>n. np_room n = rid) (db_now db)\<rparr>)"

section \<open>Listen tracking (\<open>store/users.go\<close>)\<close>

definition StartListenEvent :: "faults \<Rightarrow> ListenEvent \<Rightarrow> pgdb \<Rightarrow> pgdb fallible" where
  "StartListenEvent f ev db =
     (if f CStartListenEvent \<or> (\<exists>l \<in> set (db_listens db). le_id l = le_id ev)
         \<or> \<not> has_room (le_room ev) db \<or> (\<forall>u \<in> set (db_users db). user_id u \<noteq> le_user ev) then Inl StoreError
      else Inr (db\<lparr>db_listens := db_listens db @
        [ev\<lparr>le_ended_at := None, le_duration := 0, le_tracks := 0\<rparr>]\<rparr>))"

text \<open>\<open>EXTRACT(EPOCH ...)::int\<close> rounds to the nearest second.\<close>

definition epoch_seconds :: "duration \<Rightarrow> int" where
  "epoch_seconds d = (d + second div 2) div second"

definition EndListenEvent :: "faults \<Rightarrow> gotime \<Rightarrow> string \<Rightarrow> int \<Rightarrow> pgdb \<Rightarrow> pgdb fallible" where
  "EndListenEvent f now evid tracks db = failing (f CEndListenEvent)
     (db\<lparr>db_listens := update_where (\<lambda>l. le_id l = evid \<and> le_ended_at l = None)
        (\<lambda>l. l\<lparr>le_ended_at := Some now, le_duration := epoch_seconds (now - le_started_at l), le_tracks := tracks\<rparr>)
        (db_listens db)\<rparr>)"

definition EndListenEventsByUser :: "faults \<Rightarrow> gotime \<Rightarrow> string \<Rightarrow> string \<Rightarrow> pgdb \<Rightarrow> pgdb fallible" where
  "EndListenEventsByUser f now uid rid db = failing (f CEndListenEventsByUser)
     (db\<lparr>db_listens := update_where (\<lambda>l. le_user l = uid \<and> le_room l = rid \<and> le_ended_at l = None)
        (\<lambda>l. l\<lparr>le_ended_at := Some now, le_duration := epoch_seconds (now - le_started_at l)\<rparr>)
        (db_listens db)\<rparr>)"

section \<open>Neon tubes (\<open>store/monetization.go\<close>)\<close>

definition default_tube :: "string \<Rightarrow> NeonTube" where
  "default_tube rid = \<lparr>tube_room = rid, tube_level = 1, tube_fill = 0, tube_target = 100, tube_total = 0\<rparr>"

definition GetNeonTube :: "faults \<Rightarrow> string \<Rightarrow> pgdb \<Rightarrow> NeonTube fallible" where
  "GetNeonTube f rid db = failing (f CGetNeonTube)
     (case find_row (\<lambda>t. tube_room t = rid) (db_tubes db) of None \<Rightarrow> default_tube rid | Some t \<Rightarrow> t)"

end
