(* ===== verification/QueueProps.thy ===== *)
theory QueueProps
  imports Store
begin

text \<open>
  The room queue as a first-in first-out queue: \<open>queue_view\<close> is what \<open>GetQueue\<close> shows,
  \<open>AddToQueue\<close> appends to it, \<open>PopNextTrack\<close> takes its first entry. The contract is the
  locale \<open>fifo\<close> of the prelude, interpreted here on the store's definitions.
\<close>

definition no_faults :: faults where "no_faults = (\<lambda>_. False)"
definition no_locks :: "string \<Rightarrow> bool" where "no_locks = (\<lambda>_. False)"

lemma no_faults_simp [simp]: "no_faults c = False" by (simp add: no_faults_def)
lemma no_locks_simp [simp]: "no_locks x = False" by (simp add: no_locks_def)

definition queue_view :: "string \<Rightarrow> pgdb \<Rightarrow> QueueEntry list" where
  "queue_view rid db = List.map_filter (join_track db) (approved_rows rid db)"

definition queue_ids_ok :: "pgdb \<Rightarrow> bool" where
  "queue_ids_ok db \<longleftrightarrow> distinct (map qr_id (db_queue db))"

lemma GetQueue_view: "\<not> f CGetQueue \<Longrightarrow> GetQueue f rid db = Inr (queue_view rid db)"
  by (simp add: GetQueue_def queue_view_def)

lemma join_track_id [simp]: "join_track db q = Some e \<Longrightarrow> entry_id e = qr_id q"
  by (auto simp: join_track_def)

lemma join_track_same: "db_tracks db' = db_tracks db \<Longrightarrow> join_track db' = join_track db"
  by (rule ext) (simp add: join_track_def)

lemma first_joined_hd:
  "first_joined db qs = (case List.map_filter (join_track db) qs of [] \<Rightarrow> None | e # _ \<Rightarrow> Some e)"
  by (induction qs) (auto simp: map_filter_simps split: option.splits)

lemma first_joined_SomeD:
  "first_joined db qs = Some e \<Longrightarrow> \<exists>q \<in> set qs. join_track db q = Some e"
  by (induction qs) (auto split: option.splits)

lemma approved_rows_mem:
  "q \<in> set (approved_rows rid db) \<longleftrightarrow> q \<in> set (db_queue db) \<and> qr_room q = rid \<and> qr_status q = QueueApproved"
  by (auto simp: approved_rows_def)

lemma distinct_approved_ids:
  assumes "queue_ids_ok db"
  shows "distinct (map qr_id (approved_rows rid db))"
proof -
  have "distinct (map qr_id (filter P (db_queue db)))" for P
    using assms by (simp add: queue_ids_ok_def distinct_map_filter)
  then have "distinct (map qr_id (sort_key qr_position (filter P (db_queue db))))" for P
    by (metis distinct_map distinct_sort set_sort)
  then show ?thesis by (simp add: approved_rows_def order_by_def)
qed

lemma approved_rows_pop_commit:
  "approved_rows rid (pop_commit e db) = filter (\<lambda>q. qr_id q \<noteq> entry_id e) (approved_rows rid db)"
  by (simp add: approved_rows_def pop_commit_def order_by_def filter_sort
      filter_update_where_leaves conj_commute)

lemma pop_commit_ids: "map qr_id (db_queue (pop_commit e db)) = map qr_id (db_queue db)"
  by (simp add: pop_commit_def map_update_where)

lemma map_filter_remove_first:
  assumes "distinct (map qr_id qs)" and "List.map_filter (join_track db) qs = e # es"
  shows "List.map_filter (join_track db) (filter (\<lambda>q. qr_id q \<noteq> entry_id e) qs) = es"
  using assms
proof (induction qs)
  case Nil
  then show ?case by (simp add: map_filter_simps)
next
  case (Cons q qs)
  show ?case
  proof (cases "join_track db q")
    case None
    with Cons show ?thesis by (auto simp: map_filter_simps)
  next
    case (Some e')
    with Cons.prems have e: "e' = e" "List.map_filter (join_track db) qs = es"
      by (simp_all add: map_filter_simps)
    then have "entry_id e = qr_id q" using Some by simp
    moreover from this Cons.prems(1) have "filter (\<lambda>q. qr_id q \<noteq> entry_id e) qs = qs"
      by (auto simp: filter_id_conv) (metis imageI)
    ultimately show ?thesis using e by simp
  qed
qed

lemma queue_view_pop_commit:
  assumes "queue_ids_ok db" and "queue_view rid db = e # es"
  shows "queue_view rid (pop_commit e db) = es"
proof -
  have "join_track (pop_commit e db) = join_track db"
    by (rule join_track_same) (simp add: pop_commit_def)
  then show ?thesis
    using map_filter_remove_first [OF distinct_approved_ids [OF assms(1)] assms(2) [unfolded queue_view_def]]
    by (simp add: queue_view_def approved_rows_pop_commit)
qed

lemma pop_select_no_locks:
  "pop_select no_locks rid db = (case queue_view rid db of [] \<Rightarrow> None | e # _ \<Rightarrow> Some e)"
  by (simp add: pop_select_def first_joined_hd queue_view_def)

section \<open>Appending\<close>

definition queued_row :: "QueueEntry \<Rightarrow> pgdb \<Rightarrow> QueueRow" where
  "queued_row e db = \<lparr>qr_id = entry_id e, qr_room = entry_room e, qr_track = track_id (entry_track e),
     qr_submitter = entry_submitter e, qr_session = entry_session e, qr_status = entry_status e,
     qr_position = max_or 0 (active_positions (entry_room e) db) + 1, qr_created_at = entry_created_at e\<rparr>"

definition can_add :: "QueueEntry \<Rightarrow> pgdb \<Rightarrow> bool" where
  "can_add e db \<longleftrightarrow> has_room (entry_room e) db \<and> has_track (track_id (entry_track e)) db
     \<and> (\<forall>q \<in> set (db_queue db). qr_id q \<noteq> entry_id e)"

lemma AddToQueue_eq:
  "AddToQueue f e db = (if f CAddToQueue \<or> \<not> can_add e db then Inl StoreError
     else Inr (db\<lparr>db_queue := db_queue db @ [queued_row e db]\<rparr>,
               e\<lparr>entry_position := max_or 0 (active_positions (entry_room e) db) + 1\<rparr>))"
  by (auto simp: AddToQueue_def can_add_def queued_row_def Let_def)

lemma active_position_below:
  assumes "q \<in> set (db_queue db)" and "active (qr_status q)"
  shows "qr_position q < max_or 0 (active_positions (qr_room q) db) + 1"
proof -
  have "qr_position q \<in> set (active_positions (qr_room q) db)"
    using assms by (auto simp: active_positions_def)
  from max_or_ge [OF this, of 0] show ?thesis by simp
qed

lemma approved_rows_add:
  assumes "entry_room e = rid" and "entry_status e = QueueApproved"
  shows "approved_rows rid (db\<lparr>db_queue := db_queue db @ [queued_row e db]\<rparr>)
    = approved_rows rid db @ [queued_row e db]"
proof -
  have "qr_position q \<le> qr_position (queued_row e db)"
    if "q \<in> set (filter (\<lambda>q. qr_room q = rid \<and> qr_status q = QueueApproved) (db_queue db))" for q
    using that active_position_below [of q db] assms by (auto simp: queued_row_def active_def)
  then have "order_by qr_position (filter (\<lambda>q. qr_room q = rid \<and> qr_status q = QueueApproved) (db_queue db)
      @ [queued_row e db]) = approved_rows rid db @ [queued_row e db]"
    unfolding approved_rows_def by (rule order_by_append_greatest)
  then show ?thesis using assms by (simp add: approved_rows_def queued_row_def)
qed

definition stored_entry :: "QueueEntry \<Rightarrow> pgdb \<Rightarrow> QueueEntry" where
  "stored_entry e db = the (join_track db (queued_row e db))"

definition push_entry :: "QueueEntry \<Rightarrow> pgdb \<Rightarrow> pgdb" where
  "push_entry e db = or_zero db (map_sum id fst (AddToQueue no_faults e db))"

definition pop_entry :: "string \<Rightarrow> pgdb \<Rightarrow> pgdb \<times> QueueEntry option" where
  "pop_entry rid db = or_zero (db, None) (PopNextTrack no_faults no_locks rid db)"

definition admissible :: "string \<Rightarrow> QueueEntry \<Rightarrow> pgdb \<Rightarrow> bool" where
  "admissible rid e db \<longleftrightarrow> entry_room e = rid \<and> entry_status e = QueueApproved \<and> can_add e db"

lemma join_queued_row:
  assumes "can_add e db"
  shows "join_track db (queued_row e db) = Some (stored_entry e db)"
proof -
  have "find_row (\<lambda>t. track_id t = track_id (entry_track e)) (db_tracks db) \<noteq> None"
    using assms by (auto simp: can_add_def has_track_def find_row_None)
  then show ?thesis by (auto simp: stored_entry_def join_track_def queued_row_def)
qed

interpretation rq: fifo queue_ids_ok "queue_view rid" "admissible rid" stored_entry push_entry "pop_entry rid"
  for rid
proof
  fix s :: pgdb
  assume "queue_ids_ok s" and "queue_view rid s = []"
  then show "pop_entry rid s = (s, None)"
    by (simp add: pop_entry_def PopNextTrack_def pop_select_no_locks)
next
  fix s e es
  assume s: "queue_ids_ok s" "queue_view rid s = e # es"
  then have "pop_entry rid s = (pop_commit e s, Some e)"
    by (simp add: pop_entry_def PopNextTrack_def pop_select_no_locks)
  moreover have "queue_ids_ok (pop_commit e s)"
    using s(1) by (simp add: queue_ids_ok_def pop_commit_ids)
  ultimately show "\<exists>s'. pop_entry rid s = (s', Some e) \<and> queue_view rid s' = es \<and> queue_ids_ok s'"
    using queue_view_pop_commit [OF s] by blast
next
  fix s a
  assume a: "queue_ids_ok s" "admissible rid a s"
  then have push: "push_entry a s = s\<lparr>db_queue := db_queue s @ [queued_row a s]\<rparr>"
    by (simp add: push_entry_def AddToQueue_eq admissible_def)
  have "join_track (s\<lparr>db_queue := db_queue s @ [queued_row a s]\<rparr>) = join_track s"
    by (rule join_track_same) simp
  with a push show "queue_view rid (push_entry a s) = queue_view rid s @ [stored_entry a s]"
    by (simp add: queue_view_def admissible_def approved_rows_add map_filter_def join_queued_row)
  from a push show "queue_ids_ok (push_entry a s)"
    by (auto simp: queue_ids_ok_def admissible_def can_add_def queued_row_def)
qed

text \<open>
  \<open>PopNextTrack\<close> returns exactly the entry that \<open>GetQueue\<close> lists first, and afterwards
  \<open>GetQueue\<close> lists exactly the remaining entries; on an empty queue it returns nothing and
  changes nothing.
\<close>

theorem PopNextTrack_takes_first:
  assumes "queue_ids_ok db" and "\<not> f CPopNextTrack" and "\<not> f CGetQueue"
  shows "\<exists>db' e. PopNextTrack f no_locks rid db = Inr (db', e)
    \<and> (case queue_view rid db of
         [] \<Rightarrow> e = None \<and> db' = db
       | x # xs \<Rightarrow> e = Some x \<and> GetQueue f rid db' = Inr xs)"
  using assms by (cases "queue_view rid db")
    (auto simp: PopNextTrack_def pop_select_no_locks GetQueue_view queue_view_pop_commit)

definition demo_track :: "string \<Rightarrow> Track" where
  "demo_track t = \<lparr>track_id = t, track_title = ''T'', track_artist = ''A'', track_duration = 200,
     track_source = ''youtube'', track_url = ''https://youtu.be/x'', track_gradient = '''',
     track_snippet = '''', track_created_at = 0\<rparr>"

definition demo_room :: "string \<Rightarrow> Room" where
  "demo_room r = \<lparr>room_id = r, room_slug = r, room_name = r, room_description = '''', room_genre = '''',
     room_vibes = [], room_cover_gradient = '''', room_cover_art = '''', room_policy = PolicyOpen,
     room_is_live = False, room_is_official = False, room_dj_key_hash = ''h'', room_dj_session = ''s'',
     room_created_at = 0, room_scheduled = None, room_last_active = None, room_ended_at = None,
     room_expires_at = None, room_is_featured = False, room_creator = ''u'', room_is_autoplay = False,
     room_listeners = 0, room_dj_name = '''', room_dj_color = ''''\<rparr>"

definition demo_entry :: "string \<Rightarrow> string \<Rightarrow> QueueEntryStatus \<Rightarrow> QueueEntry" where
  "demo_entry i t st = \<lparr>entry_id = i, entry_room = ''r'', entry_track = demo_track t, entry_submitter = ''x'',
     entry_session = ''s'', entry_status = st, entry_position = 0, entry_created_at = 0\<rparr>"

definition demo_row :: "string \<Rightarrow> string \<Rightarrow> QueueEntryStatus \<Rightarrow> int \<Rightarrow> QueueRow" where
  "demo_row i t st p = \<lparr>qr_id = i, qr_room = ''r'', qr_track = t, qr_submitter = ''x'', qr_session = ''s'',
     qr_status = st, qr_position = p, qr_created_at = 0\<rparr>"

definition demo_db :: pgdb where
  "demo_db = empty_db\<lparr>db_rooms := [demo_room ''r''], db_tracks := [demo_track ''t1'', demo_track ''t2''],
     db_queue := [demo_row ''a'' ''t1'' QueueApproved 2, demo_row ''b'' ''t2'' QueueApproved 1]\<rparr>"

theorem PopNextTrack_takes_first_witness:
  "\<exists>db' e. PopNextTrack no_faults no_locks ''r'' demo_db = Inr (db', e)
    \<and> (case queue_view ''r'' demo_db of
         [] \<Rightarrow> e = None \<and> db' = demo_db
       | x # xs \<Rightarrow> e = Some x \<and> GetQueue no_faults ''r'' db' = Inr xs)"
proof -
  have "queue_ids_ok demo_db"
    by (simp add: queue_ids_ok_def demo_db_def demo_row_def empty_db_def)
  then show ?thesis by (rule PopNextTrack_takes_first) simp_all
qed

text \<open>
  C4: Tracks leave the queue in the order \<open>GetQueue\<close> lists them: popping as often as the queue
  is long, after appending one approved entry, yields the listed entries in order and the
  appended one last, and leaves the queue empty.
\<close>

theorem queue_plays_in_order:
  assumes "queue_ids_ok db" and "admissible rid e db"
  shows "\<exists>db'. pops (pop_entry rid) (Suc (length (queue_view rid db))) (push_entry e db)
      = (db', queue_view rid db @ [stored_entry e db]) \<and> queue_view rid db' = []"
  using rq.push_then_drain [OF assms] .

theorem queue_plays_in_order_witness:
  "\<exists>db'. pops (pop_entry ''r'') (Suc (length (queue_view ''r'' demo_db)))
        (push_entry (demo_entry ''c'' ''t1'' QueueApproved) demo_db)
      = (db', queue_view ''r'' demo_db @ [stored_entry (demo_entry ''c'' ''t1'' QueueApproved) demo_db])
      \<and> queue_view ''r'' db' = []"
  by (rule queue_plays_in_order)
    (simp_all add: queue_ids_ok_def admissible_def can_add_def has_room_def has_track_def demo_db_def
      demo_row_def demo_entry_def demo_track_def demo_room_def empty_db_def)

end
