(* ===== verification/StoreProps.thy ===== *)
theory StoreProps
  imports QueueProps
begin

text \<open>
  Properties of the store that several components rest on: concurrent pops, the scoping of queue
  updates to one room, the learn-once rule for track durations, the ghost-room cleanup, and the
  order in which a room's history is reported.
\<close>

section \<open>Concurrent pops\<close>

lemma pop_select_mem:
  assumes "pop_select locked rid db = Some e"
  shows "\<exists>q \<in> set (db_queue db). qr_id q = entry_id e \<and> qr_room q = rid
    \<and> qr_status q = QueueApproved \<and> \<not> locked (qr_id q)"
  using assms unfolding pop_select_def
  by (fastforce dest!: first_joined_SomeD simp: approved_rows_mem)

lemma pop_commit_commute:
  "pop_commit e1 (pop_commit e2 db) = pop_commit e2 (pop_commit e1 db)"
  by (auto simp: pop_commit_def update_where_def)

lemma pop_commit_played:
  "q \<in> set (db_queue (pop_commit e db)) \<Longrightarrow> qr_id q = entry_id e \<Longrightarrow> qr_status q = QueuePlayed"
  by (auto simp: pop_commit_def update_where_def split: if_splits)

lemma pop_commit_keeps_played:
  assumes "\<forall>q \<in> set (db_queue db). qr_id q = i \<longrightarrow> qr_status q = QueuePlayed"
  shows "\<forall>q \<in> set (db_queue (pop_commit e db)). qr_id q = i \<longrightarrow> qr_status q = QueuePlayed"
  using assms by (auto simp: pop_commit_def update_where_def)

text \<open>
  Two transactions that pop the same room at the same time never take the same entry: the
  second selects with the first one's row locked, so it skips it; the two commits give the same
  tables in either order, and both entries end up played.
\<close>

theorem concurrent_pops_disjoint:
  assumes "pop_select locked rid db = Some e1"
    and "pop_select (\<lambda>i. locked i \<or> i = entry_id e1) rid db = Some e2"
  shows "entry_id e1 \<noteq> entry_id e2
    \<and> pop_commit e1 (pop_commit e2 db) = pop_commit e2 (pop_commit e1 db)
    \<and> (\<forall>q \<in> set (db_queue (pop_commit e2 (pop_commit e1 db))).
         qr_id q \<in> {entry_id e1, entry_id e2} \<longrightarrow> qr_status q = QueuePlayed)"
proof -
  have "entry_id e1 \<noteq> entry_id e2"
    using pop_select_mem [OF assms(2)] by auto
  moreover have "\<forall>q \<in> set (db_queue (pop_commit e2 (pop_commit e1 db))).
      qr_id q = entry_id e1 \<longrightarrow> qr_status q = QueuePlayed"
    by (rule pop_commit_keeps_played) (auto dest: pop_commit_played)
  ultimately show ?thesis
    using pop_commit_played pop_commit_commute by blast
qed

theorem concurrent_pops_disjoint_witness:
  "\<exists>e1 e2. pop_select no_locks ''r'' demo_db = Some e1
    \<and> pop_select (\<lambda>i. no_locks i \<or> i = entry_id e1) ''r'' demo_db = Some e2
    \<and> entry_id e1 \<noteq> entry_id e2"
proof -
  obtain e1 e2 where
    e1: "pop_select no_locks ''r'' demo_db = Some e1" and
    e2: "pop_select (\<lambda>i. no_locks i \<or> i = entry_id e1) ''r'' demo_db = Some e2"
    by (simp add: pop_select_def approved_rows_def demo_db_def demo_row_def demo_track_def empty_db_def
        order_by_def join_track_def find_row_def)
  from concurrent_pops_disjoint [OF e1 e2] e1 e2 show ?thesis by blast
qed

section \<open>Room scoping\<close>

lemma filter_update_other_room:
  "rid' \<noteq> rid \<Longrightarrow> filter (\<lambda>q. qr_room q = rid' \<and> P q)
     (update_where (\<lambda>q. qr_id q = eid \<and> qr_room q = rid) (\<lambda>q. q\<lparr>qr_status := st\<rparr>) rows)
   = filter (\<lambda>q. qr_room q = rid' \<and> P q) rows"
  by (rule filter_update_where_other) auto

text \<open>
  A DJ's approve or reject is confined to the DJ's own room: whatever entry id is sent, no
  other room's queue, pending requests, history or per-session count changes.
\<close>

theorem status_update_scoped:
  assumes "UpdateQueueEntryStatus f rid eid st db = Inr db'" and "rid' \<noteq> rid"
  shows "GetQueue g rid' db' = GetQueue g rid' db
    \<and> GetPendingRequests g rid' db' = GetPendingRequests g rid' db
    \<and> GetPlayedTracks g rid' db' = GetPlayedTracks g rid' db
    \<and> CountActiveQueueEntriesBySession g rid' sid db' = CountActiveQueueEntriesBySession g rid' sid db"
proof -
  from assms(1) have db': "db' = db\<lparr>db_queue := update_where (\<lambda>q. qr_id q = eid \<and> qr_room q = rid)
      (\<lambda>q. q\<lparr>qr_status := st\<rparr>) (db_queue db)\<rparr>"
    by (simp add: UpdateQueueEntryStatus_def)
  then have "join_track db' = join_track db" by (intro join_track_same) simp
  then show ?thesis using assms(2) unfolding db'
    by (simp add: GetQueue_def GetPendingRequests_def GetPlayedTracks_def approved_rows_def
        CountActiveQueueEntriesBySession_def affected_def filter_update_other_room)
qed

theorem status_update_scoped_witness:
  "\<exists>db'. UpdateQueueEntryStatus no_faults ''other'' ''a'' QueueRejected demo_db = Inr db'
    \<and> GetQueue no_faults ''r'' db' = GetQueue no_faults ''r'' demo_db"
proof -
  obtain db' where u: "UpdateQueueEntryStatus no_faults ''other'' ''a'' QueueRejected demo_db = Inr db'"
    by (simp add: UpdateQueueEntryStatus_def)
  have "GetQueue no_faults ''r'' db' = GetQueue no_faults ''r'' demo_db"
    using status_update_scoped [OF u, of "''r''" no_faults] by simp
  with u show ?thesis by blast
qed

section \<open>Learning a track's duration\<close>

lemma UpdateTrackDuration_won:
  assumes "UpdateTrackDuration f tid d db = Inr (db', won)"
  shows "won \<longleftrightarrow> (\<exists>t \<in> set (db_tracks db). track_id t = tid \<and> track_duration t = 0)"
  using assms by (auto simp: UpdateTrackDuration_def Let_def affected_def filter_empty_conv split: if_splits)

text \<open>
  Learning is once and for all: of two reports for the same track, at most the first can win,
  and the losing one leaves the tables exactly as the winner left them, in whatever order the
  two arrive.
\<close>

theorem duration_learned_once:
  assumes "UpdateTrackDuration f tid d1 db = Inr (db1, w1)" and "d1 \<noteq> 0"
    and "UpdateTrackDuration g tid d2 db1 = Inr (db2, w2)"
  shows "\<not> w2 \<and> db2 = db1"
proof -
  have "db_tracks db1 = update_where (\<lambda>t. track_id t = tid \<and> track_duration t = 0)
      (\<lambda>t. t\<lparr>track_duration := d1\<rparr>) (db_tracks db)"
    using assms(1) by (simp add: UpdateTrackDuration_def Let_def split: if_splits) clarsimp
  then have none: "\<not> (track_id t = tid \<and> track_duration t = 0)" if "t \<in> set (db_tracks db1)" for t
    using that assms(2) by (simp only:, elim update_where_establishes) simp_all
  then have "\<not> w2" using UpdateTrackDuration_won [OF assms(3)] by blast
  moreover have "update_where (\<lambda>t. track_id t = tid \<and> track_duration t = 0)
      (\<lambda>t. t\<lparr>track_duration := d2\<rparr>) (db_tracks db1) = db_tracks db1"
    using none by (intro update_where_none) blast
  then have "db2 = db1"
    using assms(3) by (simp add: UpdateTrackDuration_def Let_def split: if_splits)
  ultimately show ?thesis by blast
qed

theorem duration_learned_once_witness:
  "\<exists>db1 w1 db2 w2.
     UpdateTrackDuration no_faults ''n'' 90 (demo_db\<lparr>db_tracks := [(demo_track ''n'')\<lparr>track_duration := 0\<rparr>]\<rparr>) = Inr (db1, w1)
     \<and> w1 \<and> UpdateTrackDuration no_faults ''n'' 61 db1 = Inr (db2, w2) \<and> \<not> w2 \<and> db2 = db1"
proof -
  let ?db = "demo_db\<lparr>db_tracks := [(demo_track ''n'')\<lparr>track_duration := 0\<rparr>]\<rparr>"
  obtain db1 w1 where 1: "UpdateTrackDuration no_faults ''n'' 90 ?db = Inr (db1, w1)" "w1"
    by (simp add: UpdateTrackDuration_def int4_ok_def affected_def demo_track_def)
  obtain db2 w2 where 2: "UpdateTrackDuration no_faults ''n'' 61 db1 = Inr (db2, w2)"
    by (simp add: UpdateTrackDuration_def int4_ok_def Let_def)
  from duration_learned_once [OF 1(1) _ 2] 1 2 show ?thesis by auto
qed

section \<open>Ghost rooms\<close>

lemma ghost_room_never_live:
  assumes "find_row (\<lambda>r. room_id r = rid) (db_rooms db) = Some r" and "ghost_room cutoff r" and "\<not> f CWasRoomEverLive"
  shows "WasRoomEverLive f rid db = Inr False"
  using assms by (simp add: WasRoomEverLive_def ghost_room_def)

text \<open>
  The ghost cleanup removes only rooms that were never live, are not scheduled, are not
  autoplay rooms and are older than the age given, keeps every other room with its queue, and
  reports the number of rooms removed.
\<close>

theorem ghost_cleanup_exact:
  assumes "CleanupGhostRooms f now age db = Inr (db', n)"
  shows "db_rooms db' = filter (\<lambda>r. \<not> ghost_room (now - age) r) (db_rooms db)
    \<and> length (db_rooms db) = length (db_rooms db') + n
    \<and> (\<forall>q \<in> set (db_queue db). (\<forall>r \<in> set (db_rooms db). room_id r = qr_room q \<longrightarrow> \<not> ghost_room (now - age) r)
         \<longrightarrow> q \<in> set (db_queue db'))"
proof -
  have db': "\<not> f CCleanupGhostRooms" "delete_rooms (ghost_room (now - age)) db = Inr db'"
      "n = affected (ghost_room (now - age)) (db_rooms db)"
    using assms by (auto simp: CleanupGhostRooms_def Let_def split: if_splits sum.splits)
  then have rooms: "db_rooms db' = filter (\<lambda>r. \<not> ghost_room (now - age) r) (db_rooms db)"
    by (auto simp: delete_rooms_def Let_def delete_where_def split: if_splits)
  moreover have "length (db_rooms db) = length (db_rooms db') + n"
    using sum_length_filter_compl [of "ghost_room (now - age)" "db_rooms db"]
    by (simp add: rooms db'(3) affected_def)
  moreover have "db_queue db' = delete_where (\<lambda>q. qr_room q \<in> set (map room_id
      (filter (ghost_room (now - age)) (db_rooms db)))) (db_queue db)"
    using db'(2) by (auto simp: delete_rooms_def Let_def split: if_splits)
  ultimately show ?thesis by auto
qed

definition ghost_db :: pgdb where
  "ghost_db = empty_db\<lparr>db_rooms := [demo_room ''g'', (demo_room ''r'')\<lparr>room_is_live := True\<rparr>],
     db_queue := [demo_row ''a'' ''t1'' QueueApproved 1]\<rparr>"

theorem ghost_cleanup_exact_witness:
  "\<exists>db' n. CleanupGhostRooms no_faults (2 * hour) hour ghost_db = Inr (db', n)
    \<and> length (db_rooms ghost_db) = length (db_rooms db') + n \<and> n = 1"
proof -
  obtain db' n where c: "CleanupGhostRooms no_faults (2 * hour) hour ghost_db = Inr (db', n)" "n = 1"
    by (simp add: CleanupGhostRooms_def ghost_db_def empty_db_def demo_room_def hour_def ghost_room_def
        delete_rooms_def Let_def affected_def)
  from ghost_cleanup_exact [OF c(1)] c show ?thesis by blast
qed

text \<open>
  One tip in one ghost room blocks the whole cleanup: while any ghost room is referenced by a
  neon transaction (a foreign key without cascade), the statement fails and no ghost room at all
  is removed.
\<close>

theorem tip_blocks_ghost_cleanup:
  assumes "r \<in> set (db_rooms db)" and "ghost_room (now - age) r"
    and "t \<in> set (db_neon_tx db)" and "nt_room t = room_id r"
  shows "CleanupGhostRooms f now age db = Inl StoreError"
  using assms by (auto simp: CleanupGhostRooms_def delete_rooms_def Let_def)

theorem tip_blocks_ghost_cleanup_witness:
  "CleanupGhostRooms no_faults (2 * hour) hour
     (ghost_db\<lparr>db_neon_tx := [\<lparr>nt_id = ''n'', nt_from = ''u'', nt_room = ''g'', nt_dj = None, nt_amount = 5\<rparr>]\<rparr>) = Inl StoreError"
  by (rule tip_blocks_ghost_cleanup [where r = "demo_room ''g''" and
        t = "\<lparr>nt_id = ''n'', nt_from = ''u'', nt_room = ''g'', nt_dj = None, nt_amount = 5\<rparr>"])
    (simp_all add: ghost_db_def empty_db_def demo_room_def hour_def ghost_room_def)

section \<open>History\<close>

text \<open>
  Positions are computed from the pending and approved entries only, so numbering restarts at 1
  whenever a queue runs dry.
\<close>

lemma position_restarts:
  assumes "active_positions (entry_room e) db = []" and "AddToQueue f e db = Inr (db', e')"
  shows "entry_position e' = 1"
  using assms by (auto simp: AddToQueue_def Let_def split: if_splits)

text \<open>
  A room's evening: two tracks are queued and played, the queue runs dry, a third is queued and
  played last.
\<close>

definition evening :: pgdb where
  "evening =
     (let play = (\<lambda>d. fst (pop_entry ''r'' d));
          d0 = demo_db\<lparr>db_queue := []\<rparr>;
          d1 = push_entry (demo_entry ''first'' ''t1'' QueueApproved) d0;
          d2 = push_entry (demo_entry ''second'' ''t2'' QueueApproved) d1;
          d3 = play (play d2);
          d4 = push_entry (demo_entry ''third'' ''t1'' QueueApproved) d3
      in play d4)"

text \<open>
  The history is not the most recently played first: the track played last in \<open>evening\<close> is
  reported after one that was played before it, because the history is ordered by the queue
  position, which restarted.
\<close>

theorem history_not_most_recent_first:
  "map_sum id (map entry_id) (GetPlayedTracks no_faults ''r'' evening)
     = Inr [''second'', ''first'', ''third'']"
  by code_simp

end
