(* ===== verification/Redis.thy ===== *)
theory Redis
  imports Models
begin

text \<open>
  The Redis store (\<open>internal/store/redis.go\<close>): one map per key prefix. A key with a TTL is stored
  with the instant it expires and is absent from then on. Sets are lists without repetition.
  JSON encoding of the stored structs is taken to be lossless.
\<close>

record WSTicket =
  wt_session :: string
  wt_user :: string
  wt_room :: string
  wt_is_dj :: bool

record redis =
  rd_sessions :: "string \<rightharpoonup> Session \<times> gotime"
  rd_tickets :: "string \<rightharpoonup> WSTicket \<times> gotime"
  rd_playback :: "string \<rightharpoonup> PlaybackState"
  rd_listeners :: "string \<Rightarrow> string list"
  rd_counters :: "string \<rightharpoonup> int \<times> gotime option"

definition empty_redis :: redis where
  "empty_redis = \<lparr>rd_sessions = Map.empty, rd_tickets = Map.empty, rd_playback = Map.empty,
     rd_listeners = (\<lambda>_. []), rd_counters = Map.empty\<rparr>"

datatype rcall = RTicket | RSession | RPlayback | RPlaybackStates | RListeners | RCounter

type_synonym rfaults = "rcall \<Rightarrow> bool"

definition live_value :: "gotime \<Rightarrow> ('a \<times> gotime) option \<Rightarrow> 'a option" where
  "live_value now v = (case v of None \<Rightarrow> None | Some (x, e) \<Rightarrow> if now < e then Some x else None)"

section \<open>WebSocket tickets\<close>

definition wsTicketTTL :: duration where "wsTicketTTL = 30 * second"

definition CreateWSTicket ::
  "rfaults \<Rightarrow> gotime \<Rightarrow> string \<Rightarrow> WSTicket \<Rightarrow> redis \<Rightarrow> (redis \<times> string) fallible" where
  "CreateWSTicket f now uid t r = failing (f RTicket)
     (r\<lparr>rd_tickets := (rd_tickets r)(uid \<mapsto> (t, now + wsTicketTTL))\<rparr>, uid)"

definition RedeemWSTicket ::
  "rfaults \<Rightarrow> gotime \<Rightarrow> string \<Rightarrow> redis \<Rightarrow> (redis \<times> WSTicket option) fallible" where
  "RedeemWSTicket f now tid r = failing (f RTicket)
     (r\<lparr>rd_tickets := (rd_tickets r)(tid := None)\<rparr>, live_value now (rd_tickets r tid))"

section \<open>Sessions\<close>

definition CreateSession ::
  "rfaults \<Rightarrow> gotime \<Rightarrow> duration \<Rightarrow> string \<Rightarrow> string \<Rightarrow> string \<Rightarrow> redis \<Rightarrow> (redis \<times> Session) fallible" where
  "CreateSession f now sessionTTL uid displayName avatarColor r =
     (let s = \<lparr>session_id = uid, session_name = displayName, session_color = avatarColor,
                session_user = '''', session_created_at = now, session_expires_at = now + sessionTTL\<rparr>
      in failing (f RSession)
        (r\<lparr>rd_sessions := (rd_sessions r)(uid \<mapsto> (s, now + sessionTTL))\<rparr>, s))"

definition GetSession :: "rfaults \<Rightarrow> gotime \<Rightarrow> string \<Rightarrow> redis \<Rightarrow> Session option fallible" where
  "GetSession f now sid r = failing (f RSession) (live_value now (rd_sessions r sid))"

definition RefreshSession :: "rfaults \<Rightarrow> gotime \<Rightarrow> duration \<Rightarrow> string \<Rightarrow> redis \<Rightarrow> redis fallible" where
  "RefreshSession f now sessionTTL sid r = failing (f RSession)
     (case live_value now (rd_sessions r sid) of
        None \<Rightarrow> r
      | Some s \<Rightarrow> r\<lparr>rd_sessions := (rd_sessions r)(sid \<mapsto> (s, now + sessionTTL))\<rparr>)"

text \<open>
  \<open>updateSessionField\<close>: optimistic WATCH/MULTI/EXEC, at most three attempts. An attempt is the
  store it sees and whether a concurrent writer makes its EXEC fail.
\<close>

datatype session_error = SessionNotFound | SessionRetriesExhausted

definition session_ttl :: "gotime \<Rightarrow> duration \<Rightarrow> Session \<Rightarrow> duration" where
  "session_ttl now sessionTTL s =
     (let ttl = session_expires_at s - now in if ttl \<le> 0 then sessionTTL else ttl)"

fun session_attempts ::
  "gotime \<Rightarrow> duration \<Rightarrow> string \<Rightarrow> (Session \<Rightarrow> Session) \<Rightarrow> (redis \<times> bool) list \<Rightarrow> session_error + redis" where
  "session_attempts now sessionTTL sid mutate [] = Inl SessionRetriesExhausted"
| "session_attempts now sessionTTL sid mutate ((r, conflict) # rest) =
     (case live_value now (rd_sessions r sid) of
        None \<Rightarrow> Inl SessionNotFound
      | Some s \<Rightarrow>
          if conflict then session_attempts now sessionTTL sid mutate rest
          else (let s' = mutate s in
            Inr (r\<lparr>rd_sessions := (rd_sessions r)(sid \<mapsto> (s', now + session_ttl now sessionTTL s'))\<rparr>)))"

definition updateSessionField ::
  "gotime \<Rightarrow> duration \<Rightarrow> string \<Rightarrow> (Session \<Rightarrow> Session) \<Rightarrow> (redis \<times> bool) list \<Rightarrow> session_error + redis" where
  "updateSessionField now sessionTTL sid mutate attempts =
     session_attempts now sessionTTL sid mutate (take 3 attempts)"

definition UpdateSessionName ::
  "gotime \<Rightarrow> duration \<Rightarrow> string \<Rightarrow> string \<Rightarrow> (redis \<times> bool) list \<Rightarrow> session_error + redis" where
  "UpdateSessionName now ttl sid name =
     updateSessionField now ttl sid (\<lambda>s. s\<lparr>session_name := name\<rparr>)"

definition UpdateSessionUser ::
  "gotime \<Rightarrow> duration \<Rightarrow> string \<Rightarrow> string \<Rightarrow> (redis \<times> bool) list \<Rightarrow> session_error + redis" where
  "UpdateSessionUser now ttl sid uid =
     updateSessionField now ttl sid (\<lambda>s. s\<lparr>session_user := uid\<rparr>)"

section \<open>Playback state\<close>

definition SetPlaybackState :: "rfaults \<Rightarrow> PlaybackState \<Rightarrow> redis \<Rightarrow> redis fallible" where
  "SetPlaybackState f ps r = failing (f RPlayback)
     (r\<lparr>rd_playback := (rd_playback r)(ps_room ps \<mapsto> ps)\<rparr>)"

definition GetPlaybackState :: "rfaults \<Rightarrow> string \<Rightarrow> redis \<Rightarrow> PlaybackState option fallible" where
  "GetPlaybackState f rid r = failing (f RPlayback) (rd_playback r rid)"

definition ClearPlaybackState :: "rfaults \<Rightarrow> string \<Rightarrow> redis \<Rightarrow> redis fallible" where
  "ClearPlaybackState f rid r = failing (f RPlayback)
     (r\<lparr>rd_playback := (rd_playback r)(rid := None)\<rparr>)"

definition GetPlaybackStates :: "rfaults \<Rightarrow> string list \<Rightarrow> redis \<Rightarrow> (string \<rightharpoonup> PlaybackState) fallible" where
  "GetPlaybackStates f rids r =
     (if rids = [] then Inr Map.empty
      else failing (f RPlaybackStates) (\<lambda>rid. if rid \<in> set rids then rd_playback r rid else None))"

section \<open>Listener sets\<close>

text \<open>
  \<open>SAdd\<close> and \<open>SRem\<close> ignore their errors, only \<open>SCard\<close> reports one; a failing connection loses both.
\<close>

definition AddListener :: "rfaults \<Rightarrow> string \<Rightarrow> string \<Rightarrow> redis \<Rightarrow> redis \<times> int fallible" where
  "AddListener f rid sid r =
     (if f RListeners then (r, Inl StoreError)
      else (let l = List.insert sid (rd_listeners r rid) in
        (r\<lparr>rd_listeners := (rd_listeners r)(rid := l)\<rparr>, Inr (int (length l)))))"

definition RemoveListener :: "rfaults \<Rightarrow> string \<Rightarrow> string \<Rightarrow> redis \<Rightarrow> redis \<times> int fallible" where
  "RemoveListener f rid sid r =
     (if f RListeners then (r, Inl StoreError)
      else (let l = removeAll sid (rd_listeners r rid) in
        (r\<lparr>rd_listeners := (rd_listeners r)(rid := l)\<rparr>, Inr (int (length l)))))"

definition GetListenerCount :: "rfaults \<Rightarrow> string \<Rightarrow> redis \<Rightarrow> int fallible" where
  "GetListenerCount f rid r = failing (f RListeners) (int (length (rd_listeners r rid)))"

definition GetListenerCounts :: "rfaults \<Rightarrow> string list \<Rightarrow> redis \<Rightarrow> (string \<rightharpoonup> int)" where
  "GetListenerCounts f rids r = (\<lambda>rid. if rid \<in> set rids
     then Some (if f RListeners then 0 else int (length (rd_listeners r rid))) else None)"

definition ClearListeners :: "rfaults \<Rightarrow> string \<Rightarrow> redis \<Rightarrow> redis fallible" where
  "ClearListeners f rid r = failing (f RListeners)
     (r\<lparr>rd_listeners := (rd_listeners r)(rid := [])\<rparr>)"

section \<open>Properties\<close>

definition listeners_ok :: "redis \<Rightarrow> bool" where
  "listeners_ok r \<longleftrightarrow> (\<forall>rid. distinct (rd_listeners r rid))"

lemma listeners_ok_step:
  "listeners_ok r \<Longrightarrow> listeners_ok (fst (AddListener f rid sid r))"
  "listeners_ok r \<Longrightarrow> listeners_ok (fst (RemoveListener f rid sid r))"
  "listeners_ok r \<Longrightarrow> listeners_ok (or_zero r (ClearListeners f rid r))"
  by (auto simp: listeners_ok_def AddListener_def RemoveListener_def ClearListeners_def Let_def
      failing_def distinct_removeAll or_zero_def)

text \<open>
  A ticket works exactly once: redeemed within its thirty seconds it yields what was minted,
  and whatever happens to time, every later redemption of the same id yields nothing.
\<close>

theorem ticket_single_use:
  assumes "CreateWSTicket f t0 tid t r = Inr (r1, tid')"
    and "RedeemWSTicket g t1 tid' r1 = Inr (r2, got)"
    and "RedeemWSTicket h t2 tid' r2 = Inr (r3, again)"
  shows "(got = Some t \<longleftrightarrow> t1 < t0 + 30000000000) \<and> (got = None \<longleftrightarrow> t0 + 30000000000 \<le> t1) \<and> again = None"
  using assms by (auto simp: CreateWSTicket_def RedeemWSTicket_def live_value_def wsTicketTTL_def second_def
      split: if_splits)

theorem ticket_single_use_witness:
  "\<exists>r1 tid r2 got r3 again t.
     CreateWSTicket (\<lambda>_. False) 0 ''k'' t empty_redis = Inr (r1, tid)
     \<and> RedeemWSTicket (\<lambda>_. False) 5 tid r1 = Inr (r2, got)
     \<and> RedeemWSTicket (\<lambda>_. False) 6 tid r2 = Inr (r3, again) \<and> got = Some t \<and> again = None"
proof -
  let ?t = "\<lparr>wt_session = ''s'', wt_user = '''', wt_room = ''r'', wt_is_dj = True\<rparr>"
  obtain r1 tid where 1: "CreateWSTicket (\<lambda>_. False) 0 ''k'' ?t empty_redis = Inr (r1, tid)"
    by (simp add: CreateWSTicket_def)
  obtain r2 got where 2: "RedeemWSTicket (\<lambda>_. False) 5 tid r1 = Inr (r2, got)"
    by (simp add: RedeemWSTicket_def)
  obtain r3 again where 3: "RedeemWSTicket (\<lambda>_. False) 6 tid r2 = Inr (r3, again)"
    by (simp add: RedeemWSTicket_def)
  from ticket_single_use [OF 1 2 3] have "got = Some ?t" "again = None" by simp_all
  with 1 2 3 show ?thesis by blast
qed

lemma session_attempts_ok:
  "session_attempts now ttl sid mutate as = Inr r' \<Longrightarrow>
   \<exists>r s. (r, False) \<in> set as \<and> live_value now (rd_sessions r sid) = Some s
     \<and> r' = r\<lparr>rd_sessions := (rd_sessions r)(sid \<mapsto> (mutate s, now + session_ttl now ttl (mutate s)))\<rparr>"
proof (induction "as")
  case Nil
  then show ?case by simp
next
  case (Cons a as')
  obtain r c where a: "a = (r, c)" by (cases a)
  show ?case
  proof (cases "live_value now (rd_sessions r sid)")
    case None
    with Cons.prems a show ?thesis by simp
  next
    case (Some s)
    show ?thesis
    proof (cases c)
      case True
      with Cons a Some show ?thesis by fastforce
    next
      case False
      with Cons.prems a Some show ?thesis
        by (intro exI [of _ r] exI [of _ s]) (auto simp: Let_def fun_upd_def)
    qed
  qed
qed

lemma live_value_fresh [simp]: "live_value now (Some (x, now + d)) = (if 0 < d then Some x else None)"
  by (simp add: live_value_def)

text \<open>
  No update is lost: when renaming a session succeeds, it acts on the store one of its
  attempts saw, keeps the user that a concurrent login linked there, changes no other session,
  and leaves the renamed session readable.
\<close>

theorem session_rename_keeps_user:
  assumes "UpdateSessionName now ttl sid name attempts = Inr r'" and "0 < ttl"
  shows "\<exists>r s. (r, False) \<in> set attempts \<and> live_value now (rd_sessions r sid) = Some s
    \<and> GetSession (\<lambda>_. False) now sid r' = Inr (Some (s\<lparr>session_name := name\<rparr>))
    \<and> (\<forall>other. other \<noteq> sid \<longrightarrow> rd_sessions r' other = rd_sessions r other)"
proof -
  from assms(1) obtain r s where rs: "(r, False) \<in> set (take 3 attempts)"
      "live_value now (rd_sessions r sid) = Some s"
      "r' = r\<lparr>rd_sessions := (rd_sessions r)(sid \<mapsto> (s\<lparr>session_name := name\<rparr>,
        now + session_ttl now ttl (s\<lparr>session_name := name\<rparr>)))\<rparr>"
    unfolding UpdateSessionName_def updateSessionField_def by (blast dest: session_attempts_ok)
  have "0 < session_ttl now ttl x" for x
    using assms(2) by (simp add: session_ttl_def Let_def)
  with rs have "GetSession (\<lambda>_. False) now sid r' = Inr (Some (s\<lparr>session_name := name\<rparr>))"
    by (simp add: GetSession_def)
  moreover have "(r, False) \<in> set attempts" using rs(1) by (rule in_set_takeD)
  ultimately show ?thesis using rs by fastforce
qed

definition demo_session :: Session where
  "demo_session = \<lparr>session_id = ''s'', session_name = ''Neon'', session_color = ''c'', session_user = ''u7'',
     session_created_at = 0, session_expires_at = 100\<rparr>"

theorem session_rename_keeps_user_witness:
  "\<exists>r'. UpdateSessionName 5 50 ''s'' ''DJ''
      [(empty_redis\<lparr>rd_sessions := [''s'' \<mapsto> (demo_session, 100)]\<rparr>, True),
       (empty_redis\<lparr>rd_sessions := [''s'' \<mapsto> (demo_session, 100)]\<rparr>, False)] = Inr r'
    \<and> GetSession (\<lambda>_. False) 5 ''s'' r' = Inr (Some (demo_session\<lparr>session_name := ''DJ''\<rparr>))"
proof -
  let ?r = "empty_redis\<lparr>rd_sessions := [''s'' \<mapsto> (demo_session, 100)]\<rparr>"
  obtain r' where u: "UpdateSessionName 5 50 ''s'' ''DJ'' [(?r, True), (?r, False)] = Inr r'"
    by (simp add: UpdateSessionName_def updateSessionField_def live_value_def numeral_3_eq_3 Let_def)
  have "GetSession (\<lambda>_. False) 5 ''s'' r' = Inr (Some (demo_session\<lparr>session_name := ''DJ''\<rparr>))"
    using session_rename_keeps_user [OF u] by (auto simp: live_value_def split: if_splits)
  with u show ?thesis by blast
qed

text \<open>
  Renaming can shorten a session's life: a session whose lifetime was refreshed expires, once
  it is renamed, at the instant fixed when it was created, not at the refreshed one.
\<close>

theorem rename_undoes_refresh:
  assumes "rd_sessions r sid = Some (s, e)" and "now < e" and "now < session_expires_at s"
    and "RefreshSession f now ttl sid r = Inr r1"
    and "UpdateSessionName now ttl sid name [(r1, False)] = Inr r2" and "0 < ttl"
  shows "rd_sessions r1 sid = Some (s, now + ttl)
    \<and> rd_sessions r2 sid = Some (s\<lparr>session_name := name\<rparr>, session_expires_at s)"
  using assms by (auto simp: RefreshSession_def live_value_def UpdateSessionName_def updateSessionField_def
      session_ttl_def Let_def split: if_splits)

theorem rename_undoes_refresh_witness:
  "\<exists>r1 r2. RefreshSession (\<lambda>_. False) 99 1000 ''s'' (empty_redis\<lparr>rd_sessions := [''s'' \<mapsto> (demo_session, 100)]\<rparr>) = Inr r1
    \<and> UpdateSessionName 99 1000 ''s'' ''DJ'' [(r1, False)] = Inr r2
    \<and> rd_sessions r1 ''s'' = Some (demo_session, 1099) \<and> live_value 100 (rd_sessions r2 ''s'') = None"
proof -
  let ?r = "empty_redis\<lparr>rd_sessions := [''s'' \<mapsto> (demo_session, 100)]\<rparr>"
  obtain r1 where 1: "RefreshSession (\<lambda>_. False) 99 1000 ''s'' ?r = Inr r1"
    by (simp add: RefreshSession_def)
  then have r1: "r1 = ?r\<lparr>rd_sessions := [''s'' \<mapsto> (demo_session, 1099)]\<rparr>"
    by (simp add: RefreshSession_def live_value_def)
  obtain r2 where 2: "UpdateSessionName 99 1000 ''s'' ''DJ'' [(r1, False)] = Inr r2"
    by (simp add: r1 UpdateSessionName_def updateSessionField_def live_value_def Let_def)
  have "rd_sessions r1 ''s'' = Some (demo_session, 99 + 1000)
    \<and> rd_sessions r2 ''s'' = Some (demo_session\<lparr>session_name := ''DJ''\<rparr>, session_expires_at demo_session)"
    by (rule rename_undoes_refresh [OF _ _ _ 1 2, where e = 100]) (simp_all add: demo_session_def)
  with 1 2 show ?thesis by (intro exI conjI) (auto simp: live_value_def demo_session_def)
qed

end
