(* ===== verification/RateLimit.thy ===== *)
theory RateLimit
  imports Redis
begin

text \<open>
  The fixed-window rate limiter of \<open>internal/antispam/ratelimit.go\<close> on the counters of Redis.
  \<open>net.ParseIP(...).IsLoopback\<close> is the argument \<open>loopback\<close>.
\<close>

text \<open>\<open>INCR\<close> on a missing or expired key counts from 0 without a TTL; \<open>EXPIRE NX\<close> sets a TTL only
  on a key that has none.\<close>

definition counter_now :: "gotime \<Rightarrow> (int \<times> gotime option) option \<Rightarrow> int \<times> gotime option" where
  "counter_now now v = (case v of
       None \<Rightarrow> (0, None)
     | Some (n, None) \<Rightarrow> (n, None)
     | Some (n, Some e) \<Rightarrow> if now < e then (n, Some e) else (0, None))"

definition incr_expire_nx :: "gotime \<Rightarrow> string \<Rightarrow> duration \<Rightarrow> redis \<Rightarrow> redis \<times> int" where
  "incr_expire_nx now key window r =
     (case counter_now now (rd_counters r key) of (n, e) \<Rightarrow>
        let e' = (case e of None \<Rightarrow> now + window | Some x \<Rightarrow> x) in
        (r\<lparr>rd_counters := (rd_counters r)(key \<mapsto> (n + 1, Some e'))\<rparr>, n + 1))"

definition checkRateWindow ::
  "rfaults \<Rightarrow> gotime \<Rightarrow> string \<Rightarrow> int \<Rightarrow> duration \<Rightarrow> redis \<Rightarrow> redis \<times> bool" where
  "checkRateWindow f now key maxn window r =
     (if key = '''' then (r, True)
      else if f RCounter then (r, True)
      else (case incr_expire_nx now key window r of (r', count) \<Rightarrow> (r', count \<le> maxn)))"

record limiter =
  maxPerHour :: int

definition NewRateLimiter :: "int \<Rightarrow> limiter" where
  "NewRateLimiter n = \<lparr>maxPerHour = (if n \<le> 0 then 5 else n)\<rparr>"

definition AllowSignup where
  "AllowSignup rl loopback f now ip r =
     (if loopback ip then (r, True)
      else checkRateWindow f now (''signup_rate:'' @ ip) (maxPerHour rl) hour r)"

definition AllowLogin where
  "AllowLogin rl loopback f now ip r =
     (if loopback ip then (r, True)
      else checkRateWindow f now (''login_rate:'' @ ip) (maxPerHour rl * 2) hour r)"

definition LoginAccountBlocked :: "limiter \<Rightarrow> rfaults \<Rightarrow> gotime \<Rightarrow> string \<Rightarrow> redis \<Rightarrow> bool" where
  "LoginAccountBlocked rl f now email r =
     (if f RCounter then False
      else fst (counter_now now (rd_counters r (''login_fail:acct:'' @ email))) \<ge> maxPerHour rl * 2)"

definition RecordLoginFailure :: "rfaults \<Rightarrow> gotime \<Rightarrow> string \<Rightarrow> redis \<Rightarrow> redis" where
  "RecordLoginFailure f now email r =
     (if f RCounter then r else fst (incr_expire_nx now (''login_fail:acct:'' @ email) hour r))"

definition ClearLoginFailures :: "rfaults \<Rightarrow> string \<Rightarrow> redis \<Rightarrow> redis" where
  "ClearLoginFailures f email r =
     (if f RCounter then r
      else r\<lparr>rd_counters := (rd_counters r)((''login_fail:acct:'' @ email) := None)\<rparr>)"

definition AllowSupportReport where
  "AllowSupportReport rl loopback f now ip r =
     (if loopback ip then (r, True)
      else checkRateWindow f now (''support_report_rate:'' @ ip) (maxPerHour rl) hour r)"

definition AllowEmailSend :: "rfaults \<Rightarrow> gotime \<Rightarrow> string \<Rightarrow> string \<Rightarrow> redis \<Rightarrow> redis \<times> bool" where
  "AllowEmailSend f now kind email r =
     (case checkRateWindow f now (''email_burst:'' @ kind @ '':'' @ email) 1 minute r of (r', ok) \<Rightarrow>
        if f RCounter \<or> \<not> ok then (r', ok)
        else checkRateWindow f now (''email_rate:'' @ kind @ '':'' @ email) 5 hour r')"

definition AllowDM where
  "AllowDM f now uid r = checkRateWindow f now (''dm_rate:'' @ uid) 60 hour r"

definition AllowRoomCreate where
  "AllowRoomCreate f now uid r = checkRateWindow f now (''room_create_rate:'' @ uid) 10 hour r"

definition AllowQueueSubmit where
  "AllowQueueSubmit f now sid rid r =
     checkRateWindow f now (''queue_rate:'' @ rid @ '':'' @ sid) 10 minute r"

definition AllowSessionCreate where
  "AllowSessionCreate loopback f now ip r =
     (if loopback ip then (r, True)
      else checkRateWindow f now (''session_create_rate:'' @ ip) 300 hour r)"

definition AllowPasswordResetIP where
  "AllowPasswordResetIP rl loopback f now ip r =
     (if loopback ip then (r, True)
      else checkRateWindow f now (''pwreset_rate:'' @ ip) (maxPerHour rl) hour r)"

definition AllowWSTicket where
  "AllowWSTicket loopback f now ip r =
     (if loopback ip then (r, True)
      else checkRateWindow f now (''wsticket_rate:'' @ ip) 900 hour r)"

section \<open>A window of requests\<close>

text \<open>The verdicts on a sequence of requests for one key, at the given instants.\<close>

fun rate_run :: "string \<Rightarrow> int \<Rightarrow> duration \<Rightarrow> redis \<Rightarrow> gotime list \<Rightarrow> redis \<times> bool list" where
  "rate_run key m w r [] = (r, [])"
| "rate_run key m w r (t # ts) =
     (case checkRateWindow (\<lambda>_. False) t key m w r of (r', ok) \<Rightarrow>
      case rate_run key m w r' ts of (r'', oks) \<Rightarrow> (r'', ok # oks))"

lemma checkRateWindow_open:
  assumes "key \<noteq> ''''" and "rd_counters r key = Some (n, Some e)" and "t < e" and "\<not> f RCounter"
  shows "checkRateWindow f t key m w r = (r\<lparr>rd_counters := (rd_counters r)(key \<mapsto> (n + 1, Some e))\<rparr>, n + 1 \<le> m)"
  using assms by (simp add: checkRateWindow_def incr_expire_nx_def counter_now_def Let_def)

lemma checkRateWindow_fresh:
  assumes "key \<noteq> ''''" and "counter_now t (rd_counters r key) = (0, None)" and "\<not> f RCounter"
  shows "checkRateWindow f t key m w r = (r\<lparr>rd_counters := (rd_counters r)(key \<mapsto> (1, Some (t + w)))\<rparr>, 1 \<le> m)"
  using assms by (simp add: checkRateWindow_def incr_expire_nx_def Let_def)

lemma rate_run_open:
  assumes "key \<noteq> ''''" and "\<forall>t \<in> set ts. t < e" and "rd_counters r key = Some (n, Some e)"
  shows "rd_counters (fst (rate_run key m w r ts)) key = Some (n + int (length ts), Some e)
    \<and> snd (rate_run key m w r ts) = map (\<lambda>i. n + 1 + int i \<le> m) [0 ..< length ts]"
  using assms
proof (induction ts arbitrary: r n)
  case Nil
  then show ?case by simp
next
  case (Cons t ts)
  let ?r = "r\<lparr>rd_counters := (rd_counters r)(key \<mapsto> (n + 1, Some e))\<rparr>"
  have step: "checkRateWindow (\<lambda>_. False) t key m w r = (?r, n + 1 \<le> m)"
    using Cons.prems by (intro checkRateWindow_open) auto
  have "rd_counters (fst (rate_run key m w ?r ts)) key = Some (n + 1 + int (length ts), Some e)
    \<and> snd (rate_run key m w ?r ts) = map (\<lambda>i. n + 1 + 1 + int i \<le> m) [0 ..< length ts]"
    by (rule Cons.IH) (use Cons.prems in auto)
  then show ?case
    by (simp add: step split_beta upt_conv_Cons map_Suc_upt [symmetric] add_ac del: upt_Suc)
qed

lemma count_below: "length (filter (\<lambda>i. int i < k) [0 ..< n]) = min n (nat k)"
  by (induction n) (auto simp: min_def)

text \<open>
  C10: A window opened at \<open>t0\<close> lets through exactly the first \<open>m\<close> requests: however many further
  requests arrive before it ends, and denied ones included, the window still ends at \<open>t0 + w\<close>,
  and the first request from then on opens a new one and is let through.
\<close>

theorem rate_window_exact:
  assumes "key \<noteq> ''''" and "counter_now t0 (rd_counters r key) = (0, None)" and "1 \<le> m" and "0 < w"
    and "\<forall>t \<in> set ts. t < t0 + w" and "t0 + w \<le> t1"
  shows "length (filter id (snd (rate_run key m w r (t0 # ts)))) = min (Suc (length ts)) (nat m)
    \<and> snd (checkRateWindow (\<lambda>_. False) t1 key m w (fst (rate_run key m w r (t0 # ts))))"
proof -
  let ?r = "r\<lparr>rd_counters := (rd_counters r)(key \<mapsto> (1, Some (t0 + w)))\<rparr>"
  have first: "checkRateWindow (\<lambda>_. False) t0 key m w r = (?r, True)"
    using assms by (simp add: checkRateWindow_fresh)
  have rest: "rd_counters (fst (rate_run key m w ?r ts)) key = Some (1 + int (length ts), Some (t0 + w))
    \<and> snd (rate_run key m w ?r ts) = map (\<lambda>i. 1 + 1 + int i \<le> m) [0 ..< length ts]"
    by (rule rate_run_open) (use assms in auto)
  have "filter id (map (\<lambda>i. 1 + 1 + int i \<le> m) [0 ..< length ts])
      = map (\<lambda>i. 1 + 1 + int i \<le> m) (filter (\<lambda>i. int i < m - 1) [0 ..< length ts])"
    by (induction ts) auto
  then have "length (filter id (snd (rate_run key m w ?r ts))) = min (length ts) (nat (m - 1))"
    using rest by (simp add: count_below)
  moreover have "snd (checkRateWindow (\<lambda>_. False) t1 key m w (fst (rate_run key m w ?r ts)))"
    using rest assms by (simp add: checkRateWindow_fresh counter_now_def)
  ultimately show ?thesis
    using assms(3) by (simp add: first split_beta)
qed

theorem rate_window_exact_witness:
  "length (filter id (snd (rate_run ''k'' 2 10 empty_redis [0, 1, 2, 9]))) = 2
    \<and> snd (checkRateWindow (\<lambda>_. False) 10 ''k'' 2 10 (fst (rate_run ''k'' 2 10 empty_redis [0, 1, 2, 9])))"
  using rate_window_exact [of "''k''" 0 empty_redis 2 10 "[1, 2, 9]" 10]
  by (simp add: empty_redis_def counter_now_def)

fun fail_run :: "string \<Rightarrow> redis \<Rightarrow> gotime list \<Rightarrow> redis" where
  "fail_run email r [] = r"
| "fail_run email r (t # ts) = fail_run email (RecordLoginFailure (\<lambda>_. False) t email r) ts"

lemma fail_run_open:
  assumes "\<forall>t \<in> set ts. t < e" and "rd_counters r (''login_fail:acct:'' @ email) = Some (n, Some e)"
  shows "rd_counters (fail_run email r ts) (''login_fail:acct:'' @ email) = Some (n + int (length ts), Some e)"
  using assms
  by (induction ts arbitrary: r n)
    (auto simp: RecordLoginFailure_def incr_expire_nx_def counter_now_def Let_def)

text \<open>
  Failed logins block the account, not successful ones, and only for the window: after
  \<open>2 * maxPerHour\<close> failures within an hour the account is blocked, a success clears the record, and an
  hour after the first failure it is unblocked whatever else was tried.
\<close>

theorem login_lockout_window:
  assumes "counter_now t0 (rd_counters r (''login_fail:acct:'' @ email)) = (0, None)"
    and "\<forall>t \<in> set ts. t < t0 + hour" and "t < t0 + hour" and "0 < maxPerHour rl"
  shows "(LoginAccountBlocked rl (\<lambda>_. False) t email (fail_run email r (t0 # ts))
            \<longleftrightarrow> maxPerHour rl * 2 \<le> 1 + int (length ts))
    \<and> \<not> LoginAccountBlocked rl (\<lambda>_. False) t email (ClearLoginFailures (\<lambda>_. False) email (fail_run email r (t0 # ts)))
    \<and> \<not> LoginAccountBlocked rl (\<lambda>_. False) (t0 + hour) email (fail_run email r (t0 # ts))"
proof -
  have "rd_counters (RecordLoginFailure (\<lambda>_. False) t0 email r) (''login_fail:acct:'' @ email) = Some (1, Some (t0 + hour))"
    using assms(1) by (simp add: RecordLoginFailure_def incr_expire_nx_def Let_def)
  then have "rd_counters (fail_run email r (t0 # ts)) (''login_fail:acct:'' @ email)
      = Some (1 + int (length ts), Some (t0 + hour))"
    using fail_run_open [OF assms(2)] by simp
  then show ?thesis
    using assms(3,4) by (simp add: LoginAccountBlocked_def counter_now_def ClearLoginFailures_def)
qed

theorem login_lockout_window_witness:
  "LoginAccountBlocked (NewRateLimiter 1) (\<lambda>_. False) 6 ''e'' (fail_run ''e'' empty_redis [0, 5])"
  using login_lockout_window [of 0 empty_redis "''e''" "[5]" 6 "NewRateLimiter 1"]
  by (simp add: empty_redis_def counter_now_def hour_def NewRateLimiter_def)

end
