(* ===== verification/Client.thy ===== *)
theory Client
  imports Store Redis
begin

text \<open>
  One WebSocket connection of a room (\<open>internal/ws/client.go\<close>) and the messages it is sent
  (\<open>internal/ws/messages.go\<close>). A message is modelled by its event and payload; JSON encoding of
  these payloads never fails. \<open>cl_send\<close> is the buffered channel \<open>Send\<close>, oldest frame first;
  \<open>cl_done\<close> and \<open>cl_registered\<close> say whether the channels \<open>done\<close> and \<open>registered\<close> are closed.
\<close>

datatype wsmsg =
    MInitialState int
  | MTrackChanged "Track option"
  | MPlaybackState PlaybackState
  | MQueueUpdate "QueueEntry list"
  | MChatMessage ChatMessage
  | MListenerCount int
  | MListenerList "(string \<times> string \<times> bool) list"
  | MListenerJoin string string
  | MListenerLeave string string
  | MRoomSettings RequestPolicy
  | MRequestUpdate QueueEntry
  | MPendingRequests "QueueEntry list"
  | MAnnouncement string
  | MReaction string string
  | MDJMicState bool bool string
  | MTubeUpdate NeonTube
  | MRoomEnded string
  | MNeonGift string int
  | MPowerUp int string
  | MError string
  | MSubmitResult bool "string option"
  | MTrackInfoUpdate string string

record Client =
  cl_session :: Session
  cl_user_id :: string
  cl_user :: "User option"
  cl_is_dj :: bool
  cl_last_chat :: gotime
  cl_last_reaction :: gotime
  cl_last_submit :: gotime
  cl_last_report :: gotime
  cl_send :: "wsmsg list"
  cl_done :: bool
  cl_registered :: bool

definition sendBufferSize :: nat where "sendBufferSize = 256"

definition NewClient :: "Session \<Rightarrow> Client" where
  "NewClient s = \<lparr>cl_session = s, cl_user_id = '''', cl_user = None, cl_is_dj = False,
     cl_last_chat = zero_time, cl_last_reaction = zero_time, cl_last_submit = zero_time,
     cl_last_report = zero_time, cl_send = [], cl_done = False, cl_registered = False\<rparr>"

definition close :: "Client \<Rightarrow> Client" where
  "close c = c\<lparr>cl_done := True\<rparr>"

definition send :: "wsmsg \<Rightarrow> Client \<Rightarrow> Client \<times> bool" where
  "send out c =
     (if cl_done c then (c, False)
      else if length (cl_send c) < sendBufferSize then (c\<lparr>cl_send := cl_send c @ [out]\<rparr>, True)
      else (c, False))"

definition DisplayName :: "Client \<Rightarrow> string" where
  "DisplayName c = (case cl_user c of
       None \<Rightarrow> session_name (cl_session c)
     | Some u \<Rightarrow>
         if user_stage_name u \<noteq> '''' then user_stage_name u
         else if user_display_name u \<noteq> '''' then user_display_name u
         else session_name (cl_session c))"

definition SendJSON :: "wsmsg \<Rightarrow> Client \<Rightarrow> Client" where
  "SendJSON m c = fst (send m c)"

definition sendError :: "string \<Rightarrow> Client \<Rightarrow> Client" where
  "sendError msg c = SendJSON (MError msg) c"

definition sendSubmitResult :: "bool \<Rightarrow> string \<Rightarrow> Client \<Rightarrow> Client" where
  "sendSubmitResult ok errMsg c =
     SendJSON (MSubmitResult ok (if errMsg \<noteq> '''' then Some errMsg else None)) c"

definition rejectSubmit :: "string \<Rightarrow> Client \<Rightarrow> Client" where
  "rejectSubmit reason c = sendSubmitResult False reason (sendError reason c)"

text \<open>One turn of \<open>WritePump\<close>: a buffered frame is written out, or the dropped client's pump stops.\<close>

datatype pump_step = Wrote wsmsg | PumpStopped | PumpIdle

definition WritePump_step :: "bool \<Rightarrow> Client \<Rightarrow> Client \<times> pump_step" where
  "WritePump_step pick_done c =
     (if cl_done c \<and> (pick_done \<or> cl_send c = []) then (c, PumpStopped)
      else case cl_send c of
          [] \<Rightarrow> (c, PumpIdle)
        | m # rest \<Rightarrow> (c\<lparr>cl_send := rest\<rparr>, Wrote m))"

section \<open>Delivery\<close>

definition buffer_ok :: "Client \<Rightarrow> bool" where
  "buffer_ok c \<longleftrightarrow> length (cl_send c) \<le> sendBufferSize"

lemma send_buffer_ok: "buffer_ok c \<Longrightarrow> buffer_ok (fst (send m c))"
  by (simp add: send_def buffer_ok_def)

lemma send_delivered:
  "snd (send m c) \<longleftrightarrow> \<not> cl_done c \<and> length (cl_send c) < sendBufferSize"
  "snd (send m c) \<Longrightarrow> cl_send (fst (send m c)) = cl_send c @ [m]"
  "\<not> snd (send m c) \<Longrightarrow> fst (send m c) = c"
  by (auto simp: send_def split: if_splits)

lemma send_frame [simp]:
  "cl_session (fst (send m c)) = cl_session c" "cl_user_id (fst (send m c)) = cl_user_id c"
  "cl_user (fst (send m c)) = cl_user c" "cl_is_dj (fst (send m c)) = cl_is_dj c"
  "cl_done (fst (send m c)) = cl_done c" "cl_registered (fst (send m c)) = cl_registered c"
  "cl_last_chat (fst (send m c)) = cl_last_chat c" "cl_last_submit (fst (send m c)) = cl_last_submit c"
  "cl_last_reaction (fst (send m c)) = cl_last_reaction c" "cl_last_report (fst (send m c)) = cl_last_report c"
  by (simp_all add: send_def)

lemma SendJSON_frame [simp]:
  "cl_session (SendJSON m c) = cl_session c" "cl_user_id (SendJSON m c) = cl_user_id c"
  "cl_user (SendJSON m c) = cl_user c" "cl_is_dj (SendJSON m c) = cl_is_dj c"
  "cl_done (SendJSON m c) = cl_done c" "cl_registered (SendJSON m c) = cl_registered c"
  "cl_last_chat (SendJSON m c) = cl_last_chat c" "cl_last_submit (SendJSON m c) = cl_last_submit c"
  "cl_last_reaction (SendJSON m c) = cl_last_reaction c" "cl_last_report (SendJSON m c) = cl_last_report c"
  by (simp_all add: SendJSON_def)

lemma SendJSON_room [simp]:
  "\<not> cl_done c \<Longrightarrow> length (cl_send c) < sendBufferSize \<Longrightarrow> cl_send (SendJSON m c) = cl_send c @ [m]"
  by (simp add: SendJSON_def send_def)

lemma DisplayName_SendJSON [simp]: "DisplayName (SendJSON m c) = DisplayName c"
  by (simp add: DisplayName_def split: option.split)

text \<open>
  A rejected submission reaches the submitting client as the legacy error followed by the
  contractual result, as long as two frames fit its buffer.
\<close>

lemma rejectSubmit_frames:
  assumes "\<not> cl_done c" and "length (cl_send c) + 2 \<le> sendBufferSize" and "reason \<noteq> ''''"
  shows "cl_send (rejectSubmit reason c) = cl_send c @ [MError reason, MSubmitResult False (Some reason)]"
  using assms by (simp add: rejectSubmit_def sendSubmitResult_def sendError_def)

end
