(* ===== verification/Hub.thy ===== *)
theory Hub
  imports Client
begin

text \<open>
  A room's hub (\<open>internal/ws/hub.go\<close>): the state of the \<open>Hub\<close> struct, the turns of its \<open>Run\<close> loop
  (register, unregister, broadcast, quit), the join- and leave-time work that runs beside the loop,
  and the persistence worker. Clients are identified by numbers; \<open>w_clients\<close> is the heap of
  \<open>Client\<close> structs. \<open>hub_clients\<close> lists the keys of the \<open>Clients\<close> map in the order in which the
  current iteration visits them. Each critical section of the code is one definition.
\<close>

type_synonym cid = nat

record hub =
  hub_room :: string
  hub_slug :: string
  hub_clients :: "cid list"
  hub_broadcast :: "wsmsg list"
  hub_quit :: bool
  hub_stopping :: bool
  hub_pending :: int
  hub_mic_active :: bool
  hub_mic_pause :: bool
  hub_mic_name :: string
  hub_mic_owner :: "cid option"
  hub_list_timer :: "gotime option"
  hub_persist :: "ChatMessage list"

definition NewHub :: "string \<Rightarrow> string \<Rightarrow> hub" where
  "NewHub rid slug = \<lparr>hub_room = rid, hub_slug = slug, hub_clients = [], hub_broadcast = [],
     hub_quit = False, hub_stopping = False, hub_pending = 0, hub_mic_active = False,
     hub_mic_pause = False, hub_mic_name = '''', hub_mic_owner = None, hub_list_timer = None,
     hub_persist = []\<rparr>"

text \<open>Callbacks started on their own goroutines, in the order they were started.\<close>

datatype report = DurationReport string int | AutoplayEndReport

record world =
  w_hub :: hub
  w_clients :: "cid \<Rightarrow> Client"
  w_pg :: pgdb
  w_redis :: redis
  w_reports :: "report list"
  w_shutdowns :: nat

text \<open>
  What an operation reads from its surroundings: the clock, the store calls that fail, how a
  \<open>select\<close> with several ready cases is resolved, the UUIDs it draws, the queue rows locked by
  concurrent transactions, and the URL parser.
\<close>

record env =
  env_now :: gotime
  env_faults :: faults
  env_rfaults :: rfaults
  env_pick :: bool
  env_uuid :: "nat \<Rightarrow> string"
  env_locked :: "string \<Rightarrow> bool"
  env_parse :: url_parser

definition channelCap :: nat where "channelCap = 256"

definition on_client :: "cid \<Rightarrow> (Client \<Rightarrow> Client) \<Rightarrow> world \<Rightarrow> world" where
  "on_client c f w = w\<lparr>w_clients := (w_clients w)(c := f (w_clients w c))\<rparr>"

definition on_hub :: "(hub \<Rightarrow> hub) \<Rightarrow> world \<Rightarrow> world" where
  "on_hub f w = w\<lparr>w_hub := f (w_hub w)\<rparr>"

text \<open>A store call whose error is dropped.\<close>

definition pg_do :: "(pgdb \<Rightarrow> pgdb fallible) \<Rightarrow> world \<Rightarrow> world" where
  "pg_do f w = w\<lparr>w_pg := or_zero (w_pg w) (f (w_pg w))\<rparr>"

definition redis_do :: "(redis \<Rightarrow> redis fallible) \<Rightarrow> world \<Rightarrow> world" where
  "redis_do f w = w\<lparr>w_redis := or_zero (w_redis w) (f (w_redis w))\<rparr>"

lemma world_access [simp]:
  "w_hub (on_client c f w) = w_hub w" "w_pg (on_client c f w) = w_pg w" "w_redis (on_client c f w) = w_redis w"
  "w_reports (on_client c f w) = w_reports w" "w_shutdowns (on_client c f w) = w_shutdowns w"
  "w_clients (on_hub g w) = w_clients w" "w_pg (on_hub g w) = w_pg w" "w_redis (on_hub g w) = w_redis w"
  "w_reports (on_hub g w) = w_reports w" "w_shutdowns (on_hub g w) = w_shutdowns w"
  "w_hub (pg_do h w) = w_hub w" "w_clients (pg_do h w) = w_clients w" "w_redis (pg_do h w) = w_redis w"
  "w_reports (pg_do h w) = w_reports w" "w_shutdowns (pg_do h w) = w_shutdowns w"
  "w_hub (redis_do k w) = w_hub w" "w_clients (redis_do k w) = w_clients w" "w_pg (redis_do k w) = w_pg w"
  "w_reports (redis_do k w) = w_reports w" "w_shutdowns (redis_do k w) = w_shutdowns w"
  "w_hub (on_hub g w) = g (w_hub w)" "w_pg (pg_do h w) = or_zero (w_pg w) (h (w_pg w))"
  "w_redis (redis_do k w) = or_zero (w_redis w) (k (w_redis w))"
  by (simp_all add: on_client_def on_hub_def pg_do_def redis_do_def)

lemma on_client_apply: "w_clients (on_client c f w) d = (if d = c then f (w_clients w c) else w_clients w d)"
  by (simp add: on_client_def)

section \<open>Broadcasting\<close>

text \<open>A non-blocking send into \<open>Broadcast\<close>; with the hub shut down and room in the buffer, the
  \<open>select\<close> picks either ready case.\<close>

definition enqueueBroadcast :: "bool \<Rightarrow> wsmsg \<Rightarrow> hub \<Rightarrow> hub" where
  "enqueueBroadcast pick m h =
     (if length (hub_broadcast h) < channelCap \<and> (\<not> hub_quit h \<or> pick)
      then h\<lparr>hub_broadcast := hub_broadcast h @ [m]\<rparr> else h)"

definition broadcastJSON :: "env \<Rightarrow> wsmsg \<Rightarrow> world \<Rightarrow> world" where
  "broadcastJSON env m w = on_hub (enqueueBroadcast (env_pick env) m) w"

fun deliver :: "wsmsg \<Rightarrow> cid list \<Rightarrow> (cid \<Rightarrow> Client) \<Rightarrow> (cid \<Rightarrow> Client) \<times> cid list" where
  "deliver m [] cs = (cs, [])"
| "deliver m (c # rest) cs = (case send m (cs c) of (c', ok) \<Rightarrow>
     case deliver m rest (cs(c := c')) of (cs', stale) \<Rightarrow> (cs', if ok then stale else c # stale))"

fun evict :: "cid list \<Rightarrow> world \<Rightarrow> world" where
  "evict [] w = w"
| "evict (c # stale) w = evict stale
     (if c \<in> set (hub_clients (w_hub w))
      then on_hub (\<lambda>h. h\<lparr>hub_clients := removeAll c (hub_clients h)\<rparr>) (on_client c close w)
      else w)"

definition fanout :: "wsmsg \<Rightarrow> world \<Rightarrow> world" where
  "fanout m w = (case deliver m (hub_clients (w_hub w)) (w_clients w) of (cs, stale) \<Rightarrow>
     evict stale (w\<lparr>w_clients := cs\<rparr>))"

section \<open>The Run loop\<close>

text \<open>The turn that receives a registration: refused when the hub has committed to stopping.\<close>

definition Run_register :: "cid \<Rightarrow> world \<Rightarrow> world" where
  "Run_register c w =
     (if hub_stopping (w_hub w) then
        on_client c (\<lambda>x. close (x\<lparr>cl_registered := True\<rparr>))
          (on_hub (\<lambda>h. h\<lparr>hub_pending := hub_pending h - 1\<rparr>) w)
      else on_hub (\<lambda>h. h\<lparr>hub_clients := (if c \<in> set (hub_clients h) then hub_clients h else c # hub_clients h),
                         hub_pending := hub_pending h - 1\<rparr>) w)"

definition Run_unregister :: "cid \<Rightarrow> world \<Rightarrow> world" where
  "Run_unregister c w =
     (if c \<in> set (hub_clients (w_hub w))
      then on_client c close (on_hub (\<lambda>h. h\<lparr>hub_clients := removeAll c (hub_clients h)\<rparr>) w)
      else w)"

definition Run_broadcast :: "world \<Rightarrow> world" where
  "Run_broadcast w = (case hub_broadcast (w_hub w) of
       [] \<Rightarrow> w
     | m # rest \<Rightarrow> fanout m (on_hub (\<lambda>h. h\<lparr>hub_broadcast := rest\<rparr>) w))"

text \<open>The turn that sees \<open>quit\<close> flushes what is queued and ends the loop.\<close>

fun flush :: "wsmsg list \<Rightarrow> world \<Rightarrow> world" where
  "flush [] w = w"
| "flush (m # ms) w = flush ms (fanout m (on_hub (\<lambda>h. h\<lparr>hub_broadcast := ms\<rparr>) w))"

definition Run_quit :: "world \<Rightarrow> world" where
  "Run_quit w = flush (hub_broadcast (w_hub w)) w"

section \<open>Registration and shutdown\<close>

definition RegisterClient_claim :: "hub \<Rightarrow> hub \<times> bool" where
  "RegisterClient_claim h =
     (if hub_stopping h then (h, False) else (h\<lparr>hub_pending := hub_pending h + 1\<rparr>, True))"

definition RegisterClient_abort :: "hub \<Rightarrow> hub" where
  "RegisterClient_abort h = h\<lparr>hub_pending := hub_pending h - 1\<rparr>"

definition unregister_dead :: "cid \<Rightarrow> world \<Rightarrow> world" where
  "unregister_dead c w = on_client c close w"

definition stop :: "world \<Rightarrow> world" where
  "stop w = (if hub_quit (w_hub w) then w
     else (on_hub (\<lambda>h. h\<lparr>hub_stopping := True, hub_quit := True\<rparr>) w)\<lparr>w_shutdowns := Suc (w_shutdowns w)\<rparr>)"

definition clientCount :: "hub \<Rightarrow> nat" where
  "clientCount h = length (hub_clients h)"

text \<open>The critical section that decides an idle shutdown.\<close>

definition idle_commit :: "hub \<Rightarrow> hub \<times> bool" where
  "idle_commit h =
     (let idle = (clientCount h = 0 \<and> hub_pending h = 0) in
      (if idle then h\<lparr>hub_stopping := True\<rparr> else h, idle))"

section \<open>Presence\<close>

fun listener_infos :: "(cid \<Rightarrow> Client) \<Rightarrow> string list \<Rightarrow> cid list \<Rightarrow> (string \<times> string \<times> bool) list" where
  "listener_infos cs seen [] = []"
| "listener_infos cs seen (c # rest) =
     (let name = DisplayName (cs c) in
      if name \<in> set seen then listener_infos cs seen rest
      else (name, session_color (cl_session (cs c)), cl_is_dj (cs c)) # listener_infos cs (name # seen) rest)"

definition broadcastListenerList :: "env \<Rightarrow> world \<Rightarrow> world" where
  "broadcastListenerList env w =
     broadcastJSON env (MListenerList (listener_infos (w_clients w) [] (hub_clients (w_hub w)))) w"

definition broadcastListenerCount :: "env \<Rightarrow> int \<Rightarrow> world \<Rightarrow> world" where
  "broadcastListenerCount env count w =
     on_hub (\<lambda>h. h\<lparr>hub_list_timer := Some (env_now env + 500 * millisecond)\<rparr>)
       (broadcastJSON env (MListenerCount count) w)"

definition listener_timer_fires :: "env \<Rightarrow> world \<Rightarrow> world" where
  "listener_timer_fires env w = (case hub_list_timer (w_hub w) of
       None \<Rightarrow> w
     | Some t \<Rightarrow> if env_now env < t then w
         else broadcastListenerList env (on_hub (\<lambda>h. h\<lparr>hub_list_timer := None\<rparr>) w))"

definition updateListenerCount :: "env \<Rightarrow> (redis \<Rightarrow> redis \<times> int fallible) \<Rightarrow> world \<Rightarrow> world" where
  "updateListenerCount env mutate w = (case mutate (w_redis w) of (r, count) \<Rightarrow>
     broadcastListenerCount env (or_zero 0 count) (w\<lparr>w_redis := r\<rparr>))"

definition SessionClientCount :: "string \<Rightarrow> world \<Rightarrow> nat" where
  "SessionClientCount sid w =
     length (filter (\<lambda>c. session_id (cl_session (w_clients w c)) = sid) (hub_clients (w_hub w)))"

fun notify_list :: "wsmsg \<Rightarrow> cid list \<Rightarrow> world \<Rightarrow> world" where
  "notify_list m [] w = w"
| "notify_list m (c # rest) w =
     notify_list m rest (if cl_is_dj (w_clients w c) then on_client c (SendJSON m) w else w)"

definition notifyDJs :: "wsmsg \<Rightarrow> world \<Rightarrow> world" where
  "notifyDJs m w = notify_list m (hub_clients (w_hub w)) w"

section \<open>Joining\<close>

definition sendTo :: "cid \<Rightarrow> wsmsg \<Rightarrow> world \<Rightarrow> world" where
  "sendTo c m w = on_client c (SendJSON m) w"

fun sendAll :: "cid \<Rightarrow> wsmsg list \<Rightarrow> world \<Rightarrow> world" where
  "sendAll c [] w = w"
| "sendAll c (m # ms) w = sendAll c ms (sendTo c m w)"

text \<open>The frames of the room snapshot up to the listener list, in the order they are sent.\<close>

definition snapshot :: "env \<Rightarrow> cid \<Rightarrow> world \<Rightarrow> wsmsg list" where
  "snapshot env c w =
     (let rid = hub_room (w_hub w); f = env_faults env; db = w_pg w;
          ps = or_zero None (GetPlaybackState (env_rfaults env) rid (w_redis w));
          track = (case ps of None \<Rightarrow> None
                   | Some p \<Rightarrow> if ps_track p = '''' then None else deref_or_zero zero_track (GetTrack f (ps_track p) db));
          queue = or_zero [] (GetQueue f rid db);
          chat = or_zero [] (GetRecentChat f rid 50 db);
          room = deref_or_zero zero_room (GetRoomByID f rid db);
          pending = (if cl_is_dj (w_clients w c) then or_zero [] (GetPendingRequests f rid db) else [])
      in (case ps of None \<Rightarrow> []
            | Some p \<Rightarrow> (case track of None \<Rightarrow> [] | Some t \<Rightarrow> [MTrackChanged (Some t)]) @ [MPlaybackState p])
         @ [MQueueUpdate queue] @ map MChatMessage chat
         @ (case room of None \<Rightarrow> [] | Some r \<Rightarrow> [MRoomSettings (room_policy r)])
         @ [MDJMicState (hub_mic_active (w_hub w)) (hub_mic_pause (w_hub w)) (hub_mic_name (w_hub w))]
         @ (if cl_is_dj (w_clients w c) \<and> pending \<noteq> [] then [MPendingRequests pending] else []))"

definition sendInitialState :: "env \<Rightarrow> cid \<Rightarrow> world \<Rightarrow> world" where
  "sendInitialState env c w =
     (let w1 = sendTo c (MInitialState (unix_milli (env_now env))) w;
          w2 = sendAll c (snapshot env c w1) w1;
          tube = (case GetNeonTube (env_faults env) (hub_room (w_hub w)) (w_pg w) of
                    Inl _ \<Rightarrow> zero_tube | Inr t \<Rightarrow> t)
      in sendTo c (MTubeUpdate tube) (broadcastListenerList env w2))"

definition listen_event_id :: "Client \<Rightarrow> hub \<Rightarrow> string" where
  "listen_event_id x h = session_id (cl_session x) @ '':'' @ hub_room h"

definition onRegister_listen :: "env \<Rightarrow> cid \<Rightarrow> world \<Rightarrow> world" where
  "onRegister_listen env c w =
     (let x = w_clients w c; rid = hub_room (w_hub w) in
      if cl_user_id x \<noteq> '''' then
        pg_do (StartListenEvent (env_faults env) \<lparr>le_id = listen_event_id x (w_hub w),
            le_user = cl_user_id x, le_room = rid, le_started_at = env_now env,
            le_ended_at = None, le_duration = 0, le_tracks = 0\<rparr>)
          (pg_do (EndListenEventsByUser (env_faults env) (env_now env) (cl_user_id x) rid) w)
      else w)"

definition onRegister :: "env \<Rightarrow> cid \<Rightarrow> world \<Rightarrow> world" where
  "onRegister env c w =
     (let x = w_clients w c;
          w1 = updateListenerCount env
                 (AddListener (env_rfaults env) (hub_room (w_hub w)) (session_id (cl_session x))) w;
          w2 = broadcastJSON env (MListenerJoin (DisplayName x) (session_color (cl_session x))) w1
      in on_client c (\<lambda>y. y\<lparr>cl_registered := True\<rparr>) (sendInitialState env c (onRegister_listen env c w2)))"

section \<open>Leaving\<close>

definition onUnregister_io :: "env \<Rightarrow> cid \<Rightarrow> world \<Rightarrow> world" where
  "onUnregister_io env c w =
     (let x = w_clients w c;
          w1 = updateListenerCount env
                 (RemoveListener (env_rfaults env) (hub_room (w_hub w)) (session_id (cl_session x))) w;
          w2 = broadcastJSON env (MListenerLeave (DisplayName x) (session_color (cl_session x))) w1
      in if cl_user_id x \<noteq> ''''
         then pg_do (EndListenEvent (env_faults env) (env_now env) (listen_event_id x (w_hub w)) 0) w2
         else w2)"

definition onUnregister_mic :: "env \<Rightarrow> cid \<Rightarrow> world \<Rightarrow> world" where
  "onUnregister_mic env c w =
     (let h = w_hub w; ownsMic = (hub_mic_owner h = Some c); wasActive = (hub_mic_active h \<and> ownsMic);
          w1 = (if ownsMic then on_hub (\<lambda>h. h\<lparr>hub_mic_active := False, hub_mic_pause := False,
                                             hub_mic_owner := None\<rparr>) w else w)
      in if cl_is_dj (w_clients w c) then
           (if wasActive then broadcastJSON env (MDJMicState False False (DisplayName (w_clients w c))) w1 else w1)
         else w)"

definition onUnregister_idle :: "env \<Rightarrow> world \<Rightarrow> world" where
  "onUnregister_idle env w =
     (if clientCount (w_hub w) = 0 then
        (let room = deref_or_zero zero_room (GetRoomByID (env_faults env) (hub_room (w_hub w)) (w_pg w)) in
         if (case room of None \<Rightarrow> True | Some r \<Rightarrow> \<not> room_is_live r) then
           (let (h, idle) = idle_commit (w_hub w); w1 = on_hub (\<lambda>_. h) w in
            if idle then stop w1 else w1)
         else w)
      else w)"

definition onUnregister :: "env \<Rightarrow> cid \<Rightarrow> world \<Rightarrow> world" where
  "onUnregister env c w =
     (let w1 = onUnregister_mic env c (onUnregister_io env c w);
          rid = hub_room (w_hub w)
      in if cl_is_dj (w_clients w1 c) \<and> WasRoomEverLive (env_faults env) rid (w_pg w1) = Inr False then
           stop (redis_do (ClearListeners (env_rfaults env) rid)
             (redis_do (ClearPlaybackState (env_rfaults env) rid)
               (pg_do (DeleteRoom (env_faults env) rid)
                 (broadcastJSON env (MRoomEnded ''The DJ left before going live'') w1))))
         else onUnregister_idle env w1)"

section \<open>Chat persistence\<close>

definition persistChat :: "ChatMessage \<Rightarrow> world \<Rightarrow> world" where
  "persistChat m w = on_hub (\<lambda>h. if length (hub_persist h) < channelCap
     then h\<lparr>hub_persist := hub_persist h @ [m]\<rparr> else h) w"

definition insertChat :: "faults \<Rightarrow> ChatMessage \<Rightarrow> world \<Rightarrow> world" where
  "insertChat f m w = pg_do (InsertChatMessage f m) w"

text \<open>One message is inserted; after \<open>quit\<close> the worker drains the channel and exits.\<close>

definition persist_step :: "faults \<Rightarrow> world \<Rightarrow> world" where
  "persist_step f w = (case hub_persist (w_hub w) of
       [] \<Rightarrow> w
     | m # rest \<Rightarrow> insertChat f m (on_hub (\<lambda>h. h\<lparr>hub_persist := rest\<rparr>) w))"

fun persist_drain :: "faults \<Rightarrow> nat \<Rightarrow> world \<Rightarrow> world" where
  "persist_drain f 0 w = w"
| "persist_drain f (Suc n) w = persist_drain f n (persist_step f w)"

end
