(* ===== verification/Moderation.thy ===== *)
theory Moderation
  imports Prelude
begin

text \<open>
  The server-side word filter (\<open>internal/moderation/profanity.go\<close>). The patterns use character
  classes under \<open>+\<close> and \<open>*\<close> only, so a pattern is the list of its classes: \<open>One\<close> consumes one
  byte of the class, \<open>Many\<close> any number of them, and \<open>x+\<close> is one followed by many. A declarative
  reading of the patterns (\<open>matches\<close>) is the specification of the matcher.
\<close>

section \<open>Patterns\<close>

datatype item = One "char list" | Many "char list"

definition plus :: "char list \<Rightarrow> item list" where
  "plus cl = [One cl, Many cl]"

text \<open>The entries of \<open>profanityPatterns\<close>, in the order of the source.\<close>

definition profanityPatterns :: "item list list" where
  "profanityPatterns =
     [plus ''f'' @ plus ''u'' @ plus ''c'' @ plus ''k'',
      plus ''s'' @ plus ''h'' @ plus ''i!1'' @ plus ''t'',
      plus ''b'' @ plus ''i!1'' @ plus ''t'' @ plus ''c'' @ plus ''h'',
      plus ''a'' @ plus ''s'' @ plus ''s'' @ plus ''h'' @ plus ''o0'' @ plus ''l'' @ plus ''e3'',
      plus ''d'' @ plus ''i!1'' @ plus ''c'' @ plus ''k'',
      plus ''p'' @ plus ''u'' @ plus ''s'' @ plus ''s'' @ plus ''y'',
      plus ''c'' @ plus ''u'' @ plus ''n'' @ plus ''t'',
      plus ''w'' @ plus ''h'' @ plus ''o0'' @ plus ''r'' @ plus ''e3'',
      plus ''f'' @ plus ''a@'' @ plus ''gq'' @ [Many ''gq''],
      plus ''r'' @ plus ''e3'' @ plus ''t'' @ plus ''a@'' @ plus ''r'' @ plus ''d'',
      plus ''c'' @ plus ''o0'' @ plus ''c'' @ plus ''k'',
      plus ''n'' @ plus ''i!1l|'' @ plus ''gq'' @ plus ''gq'' @ plus ''e3a@'' @ plus ''r'',
      plus ''n'' @ plus ''i!1l|'' @ plus ''gq'' @ plus ''gq'' @ plus ''a@4'' @ [Many ''sz''],
      plus ''n'' @ plus ''i!1l|'' @ plus ''gq'' @ plus ''a@4'' @ [Many ''sz''],
      plus ''n'' @ plus ''e3'' @ plus ''gq'' @ plus ''r'' @ plus ''o0'' @ [Many ''sz'']]"

text \<open>\<open>match_at\<close> matches a pattern at the front of a text, \<open>MatchString\<close> anywhere in it.\<close>

function match_at :: "item list \<Rightarrow> string \<Rightarrow> bool" where
  "match_at [] s = True"
| "match_at (One cl # p) s = (case s of [] \<Rightarrow> False | c # s' \<Rightarrow> c \<in> set cl \<and> match_at p s')"
| "match_at (Many cl # p) s =
     (match_at p s \<or> (case s of [] \<Rightarrow> False | c # s' \<Rightarrow> c \<in> set cl \<and> match_at (Many cl # p) s'))"
  by pat_completeness auto
termination by (relation "measure (\<lambda>(p, s). length p + length s)") auto

fun MatchString :: "item list \<Rightarrow> string \<Rightarrow> bool" where
  "MatchString p [] = match_at p []"
| "MatchString p (c # s) = (match_at p (c # s) \<or> MatchString p s)"

section \<open>Normalisation\<close>

text \<open>
  \<open>strings.ToLower\<close> maps two code points outside ASCII into it: the dotted capital I (\<open>C4 B0\<close>)
  and the Kelvin sign (\<open>E2 84 AA\<close>). It maps the other non-ASCII letters to non-ASCII letters,
  which no pattern can tell apart, so they are left alone here.
\<close>

fun lower_text :: "string \<Rightarrow> string" where
  "lower_text [] = []"
| "lower_text (c # s) =
     (if c = CHR 0xC4 \<and> take 1 s = [CHR 0xB0] then CHR ''i'' # lower_text (drop 1 s)
      else if c = CHR 0xE2 \<and> take 2 s = [CHR 0x84, CHR 0xAA] then CHR ''k'' # lower_text (drop 2 s)
      else lower_char c # lower_text s)"

definition replacement :: "char \<Rightarrow> string" where
  "replacement c =
     (if c \<in> set '' _-.*+'' then ''''
      else if c = CHR ''0'' then ''o'' else if c = CHR ''1'' then ''i''
      else if c = CHR ''3'' then ''e'' else if c = CHR ''4'' then ''a''
      else if c = CHR ''@'' then ''a'' else if c = CHR ''$'' then ''s''
      else if c = CHR ''!'' then ''i'' else if c = CHR ''|'' then ''l''
      else [c])"

definition normalize :: "string \<Rightarrow> string" where
  "normalize s = concat (map replacement (lower_text s))"

text \<open>Under \<open>(?i)\<close> the long s (\<open>C5 BF\<close>), which \<open>ToLower\<close> keeps, matches wherever \<open>s\<close> does.\<close>

fun fold_long_s :: "string \<Rightarrow> string" where
  "fold_long_s [] = []"
| "fold_long_s (c # s) =
     (if c = CHR 0xC5 \<and> take 1 s = [CHR 0xBF] then CHR ''s'' # fold_long_s (drop 1 s)
      else c # fold_long_s s)"

definition ContainsProfanity :: "string \<Rightarrow> bool" where
  "ContainsProfanity s = list_ex (\<lambda>p. MatchString p (fold_long_s (normalize s))) profanityPatterns"

section \<open>The matcher against the meaning of its patterns\<close>

inductive matches :: "item list \<Rightarrow> string \<Rightarrow> bool" where
  matches_nil: "matches [] []"
| matches_one: "c \<in> set cl \<Longrightarrow> matches p s \<Longrightarrow> matches (One cl # p) (c # s)"
| matches_skip: "matches p s \<Longrightarrow> matches (Many cl # p) s"
| matches_more: "c \<in> set cl \<Longrightarrow> matches (Many cl # p) s \<Longrightarrow> matches (Many cl # p) (c # s)"

inductive_cases matches_nilE: "matches [] s"
inductive_cases matches_oneE: "matches (One cl # p) s"

inductive_simps matches_nil_iff [simp]: "matches [] s"
inductive_simps matches_one_iff: "matches (One cl # p) s"
inductive_simps matches_many_iff: "matches (Many cl # p) s"

lemma match_at_sound: "match_at p s \<Longrightarrow> \<exists>u t. s = u @ t \<and> matches p u"
proof (induction p s rule: match_at.induct)
  case (1 s)
  have "s = [] @ s \<and> matches [] []" by simp
  then show ?case by blast
next
  case (2 cl p s)
  then obtain c s' where s: "s = c # s'" "c \<in> set cl" "match_at p s'"
    by (auto split: list.splits)
  from "2.IH" [OF s(1) s(3)] obtain u t where "s' = u @ t" "matches p u" by blast
  with s have "s = (c # u) @ t \<and> matches (One cl # p) (c # u)" by (simp add: matches_one)
  then show ?case by blast
next
  case (3 cl p s)
  show ?case
  proof (cases "match_at p s")
    case True
    from "3.IH"(1) [OF True] show ?thesis by (blast intro: matches_skip)
  next
    case False
    with "3.prems" obtain c s' where s: "s = c # s'" "c \<in> set cl" "match_at (Many cl # p) s'"
      by (auto split: list.splits)
    from "3.IH"(2) [OF s(1) s(3)] obtain u t where "s' = u @ t" "matches (Many cl # p) u" by blast
    with s have "s = (c # u) @ t \<and> matches (Many cl # p) (c # u)" by (simp add: matches_more)
    then show ?thesis by blast
  qed
qed

lemma match_at_complete: "matches p u \<Longrightarrow> match_at p (u @ t)"
proof (induction rule: matches.induct)
  case (matches_skip p s cl)
  then show ?case by simp
qed auto

lemma MatchString_iff: "MatchString p s \<longleftrightarrow> (\<exists>pre u suf. s = pre @ u @ suf \<and> matches p u)"
proof
  assume "MatchString p s"
  then show "\<exists>pre u suf. s = pre @ u @ suf \<and> matches p u"
  proof (induction p s rule: MatchString.induct)
    case (1 p)
    then show ?case using match_at_sound [of p "[]"] by fastforce
  next
    case (2 p c s)
    then show ?case using match_at_sound [of p "c # s"] by (metis MatchString.simps(2) append_Cons append_Nil)
  qed
next
  assume "\<exists>pre u suf. s = pre @ u @ suf \<and> matches p u"
  then obtain pre u suf where s: "s = pre @ u @ suf" and m: "matches p u" by blast
  have "MatchString p (pre @ u @ suf)"
  proof (induction pre)
    case Nil
    show ?case using match_at_complete [OF m, of suf] by (cases "u @ suf") simp_all
  next
    case (Cons c pre)
    then show ?case by simp
  qed
  then show "MatchString p s" by (simp add: s)
qed

text \<open>A run of a class matches that class under \<open>+\<close>, however often the letter is repeated.\<close>

lemma matches_run: "set r \<subseteq> set cl \<Longrightarrow> matches p u \<Longrightarrow> matches (Many cl # p) (r @ u)"
  by (induction r) (auto intro: matches_skip matches_more)

lemma matches_plus: "r \<noteq> [] \<Longrightarrow> set r \<subseteq> set cl \<Longrightarrow> matches p u \<Longrightarrow> matches (plus cl @ p) (r @ u)"
  by (cases r) (auto simp: plus_def intro: matches_one matches_run)


section \<open>Evasion\<close>

definition is_ascii :: "char \<Rightarrow> bool" where
  "is_ascii c \<longleftrightarrow> (of_char c :: nat) < 128"

definition is_separator :: "char \<Rightarrow> bool" where
  "is_separator c \<longleftrightarrow> c \<in> set '' _-.*+''"

lemma lower_text_ascii: "list_all is_ascii s \<Longrightarrow> lower_text s = to_lower s"
  by (induction s rule: lower_text.induct) (auto simp: is_ascii_def to_lower_def)

lemma replacement_separator: "is_separator c \<Longrightarrow> replacement (lower_char c) = ''''"
  by (auto simp: replacement_def lower_char_def is_separator_def)

lemma is_ascii_lower [simp]: "is_ascii c \<Longrightarrow> is_ascii (lower_char c)"
  by (auto simp: is_ascii_def lower_char_def Let_def)

lemma normalize_ascii:
  "list_all is_ascii s \<Longrightarrow> normalize s = concat (map (\<lambda>c. replacement (lower_char c)) s)"
  by (simp add: normalize_def lower_text_ascii to_lower_def comp_def)

lemma normalize_core:
  assumes "list_all is_ascii s"
  shows "normalize (to_lower (filter (\<lambda>c. \<not> is_separator c) s)) = normalize s"
proof -
  have "list_all is_ascii (to_lower (filter (\<lambda>c. \<not> is_separator c) s))"
    using assms by (auto simp: to_lower_def list_all_iff)
  moreover have "concat (map (\<lambda>c. replacement (lower_char c)) (filter (\<lambda>c. \<not> is_separator c) s))
      = concat (map (\<lambda>c. replacement (lower_char c)) s)"
    by (induction s) (auto simp: replacement_separator)
  ultimately show ?thesis
    using assms by (simp add: normalize_ascii) (simp add: to_lower_def comp_def)
qed

text \<open>
  On ASCII text, changing case and scattering spaces, underscores, dashes, dots, asterisks and
  plus signs through a text never changes the filter's verdict: two texts with the same letters
  and digits in the same order are judged alike.
\<close>

theorem separators_never_evade:
  assumes "list_all is_ascii s" and "list_all is_ascii t"
    and "to_lower (filter (\<lambda>c. \<not> is_separator c) s) = to_lower (filter (\<lambda>c. \<not> is_separator c) t)"
  shows "ContainsProfanity s = ContainsProfanity t"
  by (metis ContainsProfanity_def assms normalize_core)

theorem separators_never_evade_witness:
  "ContainsProfanity ''S-H_i T'' = ContainsProfanity ''shit''"
  by (rule separators_never_evade; code_simp)

text \<open>
  Joining the words before matching also joins innocent ones: the title \<open>Push It\<close> and the
  message \<open>this hit\<close> are reported, so such a track cannot be submitted nor such a message sent.
\<close>

theorem innocent_titles_reported:
  "ContainsProfanity ''Push It'' \<and> ContainsProfanity ''this hit'' \<and> \<not> ContainsProfanity ''Push'' \<and> \<not> ContainsProfanity ''It''"
  by code_simp

end
