(* ===== verification/HubActions.thy ===== *)
theory HubActions
  imports Hub Moderation
begin

text \<open>
  The inbound actions of a room (\<open>Hub.handleInbound\<close> and \<open>skipToNext\<close> in \<open>internal/ws/hub.go\<close>),
  one definition per action. A payload is \<open>None\<close> when \<open>json.Unmarshal\<close> rejects it. The answers
  to the sender go into the sender's buffer, everything else through the hub's broadcast channel.
\<close>

section \<open>Inbound messages\<close>

record ChatPayload =
  cp_message :: string
  cp_media_url :: string
  cp_media_type :: string

record SubmitTrackPayload =
  sp_title :: string
  sp_artist :: string
  sp_duration :: int
  sp_source :: string
  sp_url :: string

datatype action =
    ActionSendChat "ChatPayload option"
  | ActionReaction "string option"
  | ActionSubmitTrack "SubmitTrackPayload option"
  | ActionDJSkip
  | ActionDJPause
  | ActionDJResume
  | ActionDJApprove "string option"
  | ActionDJReject "string option"
  | ActionDJSetPolicy "RequestPolicy option"
  | ActionDJAnnounce "string option"
  | ActionDJGoLive
  | ActionDJEndRoom
  | ActionDJMic "(bool \<times> bool) option"
  | ActionReportDuration "(string \<times> int) option"
  | ActionAutoplayEnd
  | ActionUnknown string

text \<open>The dash in two of the messages, as UTF-8.\<close>

definition em_dash :: string where
  "em_dash = [CHR 0xE2, CHR 0x80, CHR 0x94]"

text \<open>The length of \<open>[]rune(s)\<close>; strings out of \<open>json.Unmarshal\<close> are valid UTF-8.\<close>

definition rune_count :: "string \<Rightarrow> nat" where
  "rune_count s = length (filter (\<lambda>c. let n = of_char c :: nat in n < 128 \<or> 192 \<le> n) s)"

definition errorTo :: "cid \<Rightarrow> string \<Rightarrow> world \<Rightarrow> world" where
  "errorTo c msg w = on_client c (sendError msg) w"

definition rejectTo :: "cid \<Rightarrow> string \<Rightarrow> world \<Rightarrow> world" where
  "rejectTo c msg w = on_client c (rejectSubmit msg) w"

section \<open>Chat and reactions\<close>

definition giphy_hosts :: "string list" where
  "giphy_hosts = [''media.giphy.com'', ''i.giphy.com'', ''media0.giphy.com'', ''media1.giphy.com'',
     ''media2.giphy.com'', ''media3.giphy.com'', ''media4.giphy.com'']"

definition check_media :: "url_parser \<Rightarrow> ChatPayload \<Rightarrow> string + string \<times> string" where
  "check_media parse p =
     (if cp_media_url p = '''' then Inr ('''', '''')
      else case parse (cp_media_url p) of
          None \<Rightarrow> Inl ''media URL must be HTTPS''
        | Some (scheme, host) \<Rightarrow>
            if scheme \<noteq> ''https'' then Inl ''media URL must be HTTPS''
            else if to_lower host \<notin> set giphy_hosts then Inl ''media URL domain not allowed''
            else Inr (cp_media_url p,
              if cp_media_type p = ''gif'' \<or> cp_media_type p = ''image'' then cp_media_type p else ''gif''))"

definition new_message :: "env \<Rightarrow> cid \<Rightarrow> world \<Rightarrow> string \<Rightarrow> ChatMessageType \<Rightarrow> string \<times> string \<Rightarrow> ChatMessage" where
  "new_message env c w body ty media = (let x = w_clients w c in
     \<lparr>chat_id = env_uuid env 0, chat_room = hub_room (w_hub w), chat_session = session_id (cl_session x),
      chat_username = DisplayName x, chat_color = session_color (cl_session x), chat_text = body,
      chat_type = ty, chat_time = env_now env, chat_media_url = fst media, chat_media_type = snd media\<rparr>)"

definition handle_chat :: "env \<Rightarrow> cid \<Rightarrow> ChatPayload option \<Rightarrow> world \<Rightarrow> world" where
  "handle_chat env c payload w =
     (let x = w_clients w c in
      if \<not> cl_is_dj x \<and> cl_user x = None
        then errorTo c ''create an account and verify your email to join the chat'' w
      else if \<not> cl_is_dj x \<and> (case cl_user x of None \<Rightarrow> True | Some u \<Rightarrow> \<not> user_email_verified u)
        then errorTo c ''verify your email address to join the chat'' w
      else case payload of
          None \<Rightarrow> errorTo c ''invalid chat message'' w
        | Some p \<Rightarrow>
            if cp_message p = '''' \<and> cp_media_url p = '''' then errorTo c ''invalid chat message'' w
            else if length (cp_message p) > 500 then errorTo c ''message too long (max 500 chars)'' w
            else if ContainsProfanity (cp_message p) then errorTo c ''message contains prohibited language'' w
            else case check_media (env_parse env) p of
                Inl err \<Rightarrow> errorTo c err w
              | Inr media \<Rightarrow>
                  if env_now env - cl_last_chat x < 500 * millisecond
                    then errorTo c (''slow down '' @ em_dash @ '' you're sending messages too fast'') w
                  else (let w1 = on_client c (\<lambda>y. y\<lparr>cl_last_chat := env_now env\<rparr>) w;
                            m = new_message env c w1 (cp_message p) ChatTypeMessage media
                        in persistChat m (broadcastJSON env (MChatMessage m) w1)))"

definition handle_reaction :: "env \<Rightarrow> cid \<Rightarrow> string option \<Rightarrow> world \<Rightarrow> world" where
  "handle_reaction env c payload w =
     (case payload of
        None \<Rightarrow> w
      | Some emoji \<Rightarrow>
          if emoji = '''' \<or> rune_count emoji > 16
            \<or> env_now env - cl_last_reaction (w_clients w c) < 300 * millisecond then w
          else broadcastJSON env (MReaction emoji (DisplayName (w_clients w c)))
            (on_client c (\<lambda>y. y\<lparr>cl_last_reaction := env_now env\<rparr>) w))"

section \<open>Track submissions\<close>

definition broadcastQueue :: "env \<Rightarrow> world \<Rightarrow> world" where
  "broadcastQueue env w =
     broadcastJSON env (MQueueUpdate (or_zero [] (GetQueue (env_faults env) (hub_room (w_hub w)) (w_pg w)))) w"

text \<open>The checks before the cooldown stamp: the reason of a rejection, or nothing.\<close>

definition submit_check :: "env \<Rightarrow> cid \<Rightarrow> SubmitTrackPayload \<Rightarrow> world \<Rightarrow> string option" where
  "submit_check env c p w =
     (let x = w_clients w c; rid = hub_room (w_hub w) in
      case ValidateTrackSubmission (env_parse env) (sp_title p) (sp_artist p) (sp_source p) (sp_url p)
             (sp_duration p) (cl_is_dj x) of
        Some err \<Rightarrow> Some err
      | None \<Rightarrow>
          if ContainsProfanity (sp_title p) \<or> ContainsProfanity (sp_artist p)
            then Some ''track title contains prohibited language''
          else if \<not> cl_is_dj x \<and> env_now env - cl_last_submit x < 5 * second
            then Some (''you're submitting too fast '' @ em_dash @ '' wait a few seconds'')
          else if \<not> cl_is_dj x
              \<and> (case CountActiveQueueEntriesBySession (env_faults env) rid (session_id (cl_session x)) (w_pg w) of
                   Inl _ \<Rightarrow> False | Inr n \<Rightarrow> n \<ge> 10)
            then Some (''you already have 10 tracks waiting '' @ em_dash @ '' let some play first'')
          else None)"

definition submitted_track :: "env \<Rightarrow> SubmitTrackPayload \<Rightarrow> Track" where
  "submitted_track env p = zero_track\<lparr>track_id := env_uuid env 0, track_title := sp_title p,
     track_artist := sp_artist p, track_duration := sp_duration p, track_source := sp_source p,
     track_url := sp_url p, track_created_at := env_now env\<rparr>"

definition submit_status :: "Room \<Rightarrow> bool \<Rightarrow> QueueEntryStatus" where
  "submit_status room isDJ =
     (if room_policy room = PolicyApproval \<and> \<not> isDJ then QueuePending else QueueApproved)"

definition submitted_entry :: "env \<Rightarrow> cid \<Rightarrow> Track \<Rightarrow> QueueEntryStatus \<Rightarrow> world \<Rightarrow> QueueEntry" where
  "submitted_entry env c t st w = (let x = w_clients w c in
     \<lparr>entry_id = env_uuid env 1, entry_room = hub_room (w_hub w), entry_track = t,
      entry_submitter = DisplayName x, entry_session = session_id (cl_session x), entry_status = st,
      entry_position = 0, entry_created_at = env_now env\<rparr>)"

definition submit_store :: "env \<Rightarrow> cid \<Rightarrow> SubmitTrackPayload \<Rightarrow> Room \<Rightarrow> world \<Rightarrow> world" where
  "submit_store env c p room w =
     (let x = w_clients w c; t = submitted_track env p in
      case UpsertTrack (env_faults env) t (w_pg w) of
        Inl _ \<Rightarrow> rejectTo c ''failed to save track'' w
      | Inr db1 \<Rightarrow>
          let w1 = w\<lparr>w_pg := db1\<rparr>; st = submit_status room (cl_is_dj x) in
          case AddToQueue (env_faults env) (submitted_entry env c t st w1) db1 of
            Inl _ \<Rightarrow> rejectTo c ''failed to add to queue'' w1
          | Inr (db2, entry) \<Rightarrow>
              let w2 = on_client c (sendSubmitResult True '''') (w1\<lparr>w_pg := db2\<rparr>) in
              if st = QueueApproved then broadcastQueue env w2
              else on_client c (SendJSON (MAnnouncement ''Your request has been submitted for approval.''))
                     (notifyDJs (MRequestUpdate entry) w2))"

definition handle_submit :: "env \<Rightarrow> cid \<Rightarrow> SubmitTrackPayload option \<Rightarrow> world \<Rightarrow> world" where
  "handle_submit env c payload w =
     (case payload of
        None \<Rightarrow> rejectTo c ''invalid track submission'' w
      | Some p \<Rightarrow>
         (case submit_check env c p w of
            Some reason \<Rightarrow> rejectTo c reason w
          | None \<Rightarrow>
              let dj = cl_is_dj (w_clients w c);
                  w1 = (if dj then w else on_client c (\<lambda>y. y\<lparr>cl_last_submit := env_now env\<rparr>) w) in
              case deref_or_zero zero_room (GetRoomByID (env_faults env) (hub_room (w_hub w)) (w_pg w1)) of
                None \<Rightarrow> rejectTo c ''room not found'' w1
              | Some room \<Rightarrow>
                  if room_policy room = PolicyClosed \<and> \<not> dj
                    then rejectTo c ''requests are closed for this room'' w1
                  else submit_store env c p room w1))"

section \<open>Playback control\<close>

definition playing_from :: "env \<Rightarrow> world \<Rightarrow> QueueEntry \<Rightarrow> PlaybackState" where
  "playing_from env w e = \<lparr>ps_room = hub_room (w_hub w), ps_track = track_id (entry_track e),
     ps_started_at = unix_milli (env_now env), ps_playing = True, ps_pause_position = 0\<rparr>"

definition skipToNext :: "env \<Rightarrow> world \<Rightarrow> world" where
  "skipToNext env w =
     (let rid = hub_room (w_hub w); f = env_faults env; g = env_rfaults env in
      case PopNextTrack f (env_locked env) rid (w_pg w) of
        Inl _ \<Rightarrow> w
      | Inr (db, None) \<Rightarrow>
          broadcastJSON env (MTrackChanged None)
            (pg_do (ClearNowPlaying f rid) (redis_do (ClearPlaybackState g rid) (w\<lparr>w_pg := db\<rparr>)))
      | Inr (db, Some e) \<Rightarrow>
          let ps = playing_from env w e;
              w1 = redis_do (SetPlaybackState g ps)
                     (pg_do (SetNowPlaying f (env_now env) rid (track_id (entry_track e))) (w\<lparr>w_pg := db\<rparr>))
          in broadcastQueue env (broadcastJSON env (MPlaybackState ps)
               (broadcastJSON env (MTrackChanged (Some (entry_track e))) w1)))"

definition pause_state :: "gotime \<Rightarrow> PlaybackState \<Rightarrow> PlaybackState" where
  "pause_state now ps = ps\<lparr>ps_playing := False, ps_pause_position := go_div (unix_milli now - ps_started_at ps) 1000\<rparr>"

definition resume_state :: "gotime \<Rightarrow> PlaybackState \<Rightarrow> PlaybackState" where
  "resume_state now ps = ps\<lparr>ps_started_at := unix_milli now - ps_pause_position ps * 1000, ps_playing := True\<rparr>"

definition put_playback :: "env \<Rightarrow> PlaybackState \<Rightarrow> world \<Rightarrow> world" where
  "put_playback env ps w = broadcastJSON env (MPlaybackState ps) (redis_do (SetPlaybackState (env_rfaults env) ps) w)"

definition handle_pause :: "env \<Rightarrow> world \<Rightarrow> world" where
  "handle_pause env w = (case or_zero None (GetPlaybackState (env_rfaults env) (hub_room (w_hub w)) (w_redis w)) of
       None \<Rightarrow> w
     | Some ps \<Rightarrow> if ps_playing ps then put_playback env (pause_state (env_now env) ps) w else w)"

definition handle_resume :: "env \<Rightarrow> world \<Rightarrow> world" where
  "handle_resume env w = (case or_zero None (GetPlaybackState (env_rfaults env) (hub_room (w_hub w)) (w_redis w)) of
       None \<Rightarrow> w
     | Some ps \<Rightarrow> if \<not> ps_playing ps then put_playback env (resume_state (env_now env) ps) w else w)"

section \<open>Requests, policy, announcements\<close>

definition handle_approve :: "env \<Rightarrow> cid \<Rightarrow> string option \<Rightarrow> world \<Rightarrow> world" where
  "handle_approve env c payload w =
     (case payload of
        None \<Rightarrow> errorTo c ''invalid payload'' w
      | Some eid \<Rightarrow>
         (case UpdateQueueEntryStatus (env_faults env) (hub_room (w_hub w)) eid QueueApproved (w_pg w) of
            Inl _ \<Rightarrow> w
          | Inr db \<Rightarrow> broadcastQueue env (w\<lparr>w_pg := db\<rparr>)))"

definition handle_reject :: "env \<Rightarrow> cid \<Rightarrow> string option \<Rightarrow> world \<Rightarrow> world" where
  "handle_reject env c payload w =
     (case payload of
        None \<Rightarrow> errorTo c ''invalid payload'' w
      | Some eid \<Rightarrow> pg_do (UpdateQueueEntryStatus (env_faults env) (hub_room (w_hub w)) eid QueueRejected) w)"

definition handle_set_policy :: "env \<Rightarrow> cid \<Rightarrow> RequestPolicy option \<Rightarrow> world \<Rightarrow> world" where
  "handle_set_policy env c payload w =
     (case payload of
        None \<Rightarrow> errorTo c ''invalid payload'' w
      | Some policy \<Rightarrow>
          if policy \<noteq> PolicyOpen \<and> policy \<noteq> PolicyApproval \<and> policy \<noteq> PolicyClosed
            then errorTo c ''invalid policy'' w
          else broadcastJSON env (MRoomSettings policy)
            (pg_do (UpdateRoomPolicy (env_faults env) (hub_room (w_hub w)) policy) w))"

definition handle_announce :: "env \<Rightarrow> cid \<Rightarrow> string option \<Rightarrow> world \<Rightarrow> world" where
  "handle_announce env c payload w =
     (case payload of
        None \<Rightarrow> errorTo c ''invalid announcement'' w
      | Some body \<Rightarrow>
          if body = '''' then errorTo c ''invalid announcement'' w
          else (let m = new_message env c w body ChatTypeAnnouncement ('''', '''')
                in persistChat m (broadcastJSON env (MChatMessage m) w)))"

section \<open>Going live, ending, the microphone\<close>

definition system_message :: "env \<Rightarrow> cid \<Rightarrow> world \<Rightarrow> string \<Rightarrow> ChatMessage" where
  "system_message env c w body = (new_message env c w body ChatTypeAnnouncement ('''', ''''))
     \<lparr>chat_username := ''System'', chat_color := ''oklch(0.82 0.18 80)''\<rparr>"

definition dj_name :: "env \<Rightarrow> cid \<Rightarrow> world \<Rightarrow> string" where
  "dj_name env c w =
     (case deref_or_zero zero_room (GetRoomByID (env_faults env) (hub_room (w_hub w)) (w_pg w)) of
        None \<Rightarrow> DisplayName (w_clients w c)
      | Some r \<Rightarrow> if room_dj_name r \<noteq> '''' then room_dj_name r else DisplayName (w_clients w c))"

definition say_system :: "env \<Rightarrow> cid \<Rightarrow> string \<Rightarrow> world \<Rightarrow> world" where
  "say_system env c suffix w = (let m = system_message env c w (dj_name env c w @ suffix) in
     broadcastJSON env (MChatMessage m) (pg_do (InsertChatMessage (env_faults env) m) w))"

definition handle_go_live :: "env \<Rightarrow> cid \<Rightarrow> world \<Rightarrow> world" where
  "handle_go_live env c w =
     (let rid = hub_room (w_hub w); f = env_faults env; g = env_rfaults env in
      case PopNextTrack f (env_locked env) rid (w_pg w) of
        Inl _ \<Rightarrow> errorTo c ''no tracks in queue'' w
      | Inr (db, None) \<Rightarrow> errorTo c ''no tracks in queue'' (w\<lparr>w_pg := db\<rparr>)
      | Inr (db, Some e) \<Rightarrow>
          let ps = playing_from env w e;
              w1 = pg_do (SetNowPlaying f (env_now env) rid (track_id (entry_track e))) (w\<lparr>w_pg := db\<rparr>);
              w2 = redis_do (SetPlaybackState g ps) (pg_do (SetRoomLive f (env_now env) rid True) w1)
          in say_system env c '' is now live!''
               (broadcastQueue env (broadcastJSON env (MPlaybackState ps)
                 (broadcastJSON env (MTrackChanged (Some (entry_track e))) w2))))"

definition handle_end :: "env \<Rightarrow> cid \<Rightarrow> world \<Rightarrow> world" where
  "handle_end env c w =
     (let rid = hub_room (w_hub w); f = env_faults env; g = env_rfaults env;
          w1 = redis_do (ClearListeners g rid) (redis_do (ClearPlaybackState g rid)
                 (pg_do (ClearNowPlaying f rid) (pg_do (EndRoom f (env_now env) rid) w)))
      in broadcastJSON env (MRoomEnded ''DJ ended the session'')
           (say_system env c '' has ended the session. Thanks for listening!'' w1))"

definition handle_mic :: "env \<Rightarrow> cid \<Rightarrow> (bool \<times> bool) option \<Rightarrow> world \<Rightarrow> world" where
  "handle_mic env c payload w =
     (case payload of
        None \<Rightarrow> errorTo c ''invalid mic payload'' w
      | Some (act, pause) \<Rightarrow>
          if c \<notin> set (hub_clients (w_hub w)) then w
          else broadcastJSON env (MDJMicState act pause (DisplayName (w_clients w c)))
            (on_hub (\<lambda>h. h\<lparr>hub_mic_active := act, hub_mic_pause := pause,
               hub_mic_name := DisplayName (w_clients w c),
               hub_mic_owner := (if act then Some c else None)\<rparr>) w))"

section \<open>Reports to the playback service\<close>

definition throttled :: "env \<Rightarrow> cid \<Rightarrow> world \<Rightarrow> bool" where
  "throttled env c w \<longleftrightarrow> env_now env - cl_last_report (w_clients w c) < 2 * second"

definition stamp_report :: "env \<Rightarrow> cid \<Rightarrow> world \<Rightarrow> world" where
  "stamp_report env c w = on_client c (\<lambda>y. y\<lparr>cl_last_report := env_now env\<rparr>) w"

definition handle_report_duration :: "env \<Rightarrow> cid \<Rightarrow> (string \<times> int) option \<Rightarrow> world \<Rightarrow> world" where
  "handle_report_duration env c payload w =
     (if throttled env c w then w
      else (let w1 = stamp_report env c w in
        case payload of
          None \<Rightarrow> w1
        | Some (tid, d) \<Rightarrow> if d > 0 then w1\<lparr>w_reports := w_reports w1 @ [DurationReport tid d]\<rparr> else w1))"

definition handle_autoplay_end :: "env \<Rightarrow> cid \<Rightarrow> world \<Rightarrow> world" where
  "handle_autoplay_end env c w =
     (if throttled env c w then w
      else (let w1 = stamp_report env c w in w1\<lparr>w_reports := w_reports w1 @ [AutoplayEndReport]\<rparr>))"

section \<open>Dispatch\<close>

definition dj_only :: "cid \<Rightarrow> (world \<Rightarrow> world) \<Rightarrow> world \<Rightarrow> world" where
  "dj_only c body w = (if cl_is_dj (w_clients w c) then body w else errorTo c ''DJ key required'' w)"

fun handleInbound :: "env \<Rightarrow> cid \<Rightarrow> action \<Rightarrow> world \<Rightarrow> world" where
  "handleInbound env c (ActionSendChat p) w = handle_chat env c p w"
| "handleInbound env c (ActionReaction p) w = handle_reaction env c p w"
| "handleInbound env c (ActionSubmitTrack p) w = handle_submit env c p w"
| "handleInbound env c ActionDJSkip w = dj_only c (skipToNext env) w"
| "handleInbound env c ActionDJPause w = dj_only c (handle_pause env) w"
| "handleInbound env c ActionDJResume w = dj_only c (handle_resume env) w"
| "handleInbound env c (ActionDJApprove p) w = dj_only c (handle_approve env c p) w"
| "handleInbound env c (ActionDJReject p) w = dj_only c (handle_reject env c p) w"
| "handleInbound env c (ActionDJSetPolicy p) w = dj_only c (handle_set_policy env c p) w"
| "handleInbound env c (ActionDJAnnounce p) w = dj_only c (handle_announce env c p) w"
| "handleInbound env c ActionDJGoLive w = dj_only c (handle_go_live env c) w"
| "handleInbound env c ActionDJEndRoom w = dj_only c (handle_end env c) w"
| "handleInbound env c (ActionDJMic p) w = dj_only c (handle_mic env c p) w"
| "handleInbound env c (ActionReportDuration p) w = handle_report_duration env c p w"
| "handleInbound env c ActionAutoplayEnd w = handle_autoplay_end env c w"
| "handleInbound env c (ActionUnknown name) w = errorTo c (''unknown action: '' @ name) w"

end
