(* ===== verification/HubProps.thy ===== *)
theory HubProps
  imports Hub
begin

text \<open>
  What the hub's single operations do: the exact effect of a fan-out and its independence of the
  iteration order, the flush at shutdown, the bounds on every buffer, and the frame of each
  operation with respect to the registration state.
\<close>

named_theorems hub_frame "which parts of the world an operation leaves alone"

section \<open>Fan-out\<close>

lemma deliver_spec:
  "distinct cl \<Longrightarrow> snd (deliver m cl cs) = filter (\<lambda>c. \<not> snd (send m (cs c))) cl
    \<and> (\<forall>c. fst (deliver m cl cs) c = (if c \<in> set cl then fst (send m (cs c)) else cs c))"
proof (induction cl arbitrary: cs)
  case Nil
  then show ?case by simp
next
  case (Cons c cl)
  define cs1 where "cs1 = cs(c := fst (send m (cs c)))"
  have same: "cs1 d = cs d" if "d \<in> set cl" for d
    using that Cons.prems by (auto simp: cs1_def)
  have "filter (\<lambda>d. \<not> snd (send m (cs1 d))) cl = filter (\<lambda>d. \<not> snd (send m (cs d))) cl"
    by (rule filter_cong) (auto simp: same)
  with Cons.IH [of cs1] Cons.prems
  have stale: "snd (deliver m cl cs1) = filter (\<lambda>d. \<not> snd (send m (cs d))) cl"
    and cells: "\<And>d. fst (deliver m cl cs1) d = (if d \<in> set cl then fst (send m (cs1 d)) else cs1 d)"
    by auto
  have step: "deliver m (c # cl) cs = (fst (deliver m cl cs1),
      if snd (send m (cs c)) then snd (deliver m cl cs1) else c # snd (deliver m cl cs1))"
    by (simp add: split_beta cs1_def)
  show ?case
    unfolding step using Cons.prems by (auto simp: stale cells same) (auto simp: cs1_def)
qed

lemma neq_flip: "(\<lambda>x. c \<noteq> x \<and> P x) = (\<lambda>x. x \<noteq> c \<and> P x)"
  by auto

lemma evict_spec:
  "distinct stale \<Longrightarrow> set stale \<subseteq> set (hub_clients (w_hub w)) \<Longrightarrow>
    w_hub (evict stale w) = (w_hub w)\<lparr>hub_clients := filter (\<lambda>c. c \<notin> set stale) (hub_clients (w_hub w))\<rparr>
    \<and> (\<forall>c. w_clients (evict stale w) c = (if c \<in> set stale then close (w_clients w c) else w_clients w c))
    \<and> w_pg (evict stale w) = w_pg w \<and> w_redis (evict stale w) = w_redis w
    \<and> w_reports (evict stale w) = w_reports w \<and> w_shutdowns (evict stale w) = w_shutdowns w"
proof (induction stale arbitrary: w)
  case Nil
  then show ?case by simp
next
  case (Cons c stale)
  let ?w = "on_hub (\<lambda>h. h\<lparr>hub_clients := removeAll c (hub_clients h)\<rparr>) (on_client c close w)"
  have "set stale \<subseteq> set (hub_clients (w_hub ?w))" using Cons.prems by auto
  with Cons.IH [of ?w] Cons.prems show ?case
    by (simp add: on_client_apply removeAll_filter_not_eq neq_flip)
qed

lemma fanout_spec:
  assumes "distinct (hub_clients (w_hub w))"
  shows "w_hub (fanout m w) = (w_hub w)\<lparr>hub_clients :=
      filter (\<lambda>c. snd (send m (w_clients w c))) (hub_clients (w_hub w))\<rparr>"
    and "w_clients (fanout m w) c = (if c \<in> set (hub_clients (w_hub w))
      then (if snd (send m (w_clients w c)) then fst (send m (w_clients w c)) else close (w_clients w c))
      else w_clients w c)"
    and "w_pg (fanout m w) = w_pg w" and "w_redis (fanout m w) = w_redis w"
    and "w_reports (fanout m w) = w_reports w" and "w_shutdowns (fanout m w) = w_shutdowns w"
proof -
  let ?cl = "hub_clients (w_hub w)"
  obtain cs stale where d: "deliver m ?cl (w_clients w) = (cs, stale)" by fastforce
  have stale: "stale = filter (\<lambda>c. \<not> snd (send m (w_clients w c))) ?cl"
    and cs: "\<And>c. cs c = (if c \<in> set ?cl then fst (send m (w_clients w c)) else w_clients w c)"
    using deliver_spec [OF assms, of m "w_clients w"] d by auto
  have f: "fanout m w = evict stale (w\<lparr>w_clients := cs\<rparr>)"
    by (simp add: fanout_def d)
  have e: "distinct stale" "set stale \<subseteq> set (hub_clients (w_hub (w\<lparr>w_clients := cs\<rparr>)))"
    using assms by (auto simp: stale)
  note ev = evict_spec [OF e]
  have "filter (\<lambda>c. c \<notin> set stale) ?cl = filter (\<lambda>c. snd (send m (w_clients w c))) ?cl"
    by (auto simp: stale intro: filter_cong)
  then show "w_hub (fanout m w) = (w_hub w)\<lparr>hub_clients := filter (\<lambda>c. snd (send m (w_clients w c))) ?cl\<rparr>"
    using ev by (simp add: f)
  show "w_clients (fanout m w) c = (if c \<in> set ?cl
      then (if snd (send m (w_clients w c)) then fst (send m (w_clients w c)) else close (w_clients w c))
      else w_clients w c)"
    using ev by (auto simp: f cs stale send_delivered(3))
  show "w_pg (fanout m w) = w_pg w" "w_redis (fanout m w) = w_redis w"
    "w_reports (fanout m w) = w_reports w" "w_shutdowns (fanout m w) = w_shutdowns w"
    using ev by (simp_all add: f)
qed

text \<open>
  C7: A broadcast reaches every connected client exactly once, at the end of its buffer; the only
  clients it does not reach are those whose buffer is full or that are already dropped, and
  exactly those leave the room, closed. Nobody else's state changes, and neither does the order in
  which the map is iterated matter.
\<close>

theorem fanout_exact:
  assumes "distinct (hub_clients (w_hub w))"
  shows "(\<forall>c \<in> set (hub_clients (w_hub w)).
      if \<not> cl_done (w_clients w c) \<and> length (cl_send (w_clients w c)) < 256
      then c \<in> set (hub_clients (w_hub (fanout m w)))
        \<and> cl_send (w_clients (fanout m w) c) = cl_send (w_clients w c) @ [m]
        \<and> \<not> cl_done (w_clients (fanout m w) c)
      else c \<notin> set (hub_clients (w_hub (fanout m w)))
        \<and> w_clients (fanout m w) c = (w_clients w c)\<lparr>cl_done := True\<rparr>)
    \<and> (\<forall>c. c \<notin> set (hub_clients (w_hub w)) \<longrightarrow> w_clients (fanout m w) c = w_clients w c)
    \<and> (\<forall>ord. distinct ord \<and> set ord = set (hub_clients (w_hub w)) \<longrightarrow>
         (let w' = fanout m (on_hub (\<lambda>h. h\<lparr>hub_clients := ord\<rparr>) w) in
            w_clients w' = w_clients (fanout m w)
            \<and> set (hub_clients (w_hub w')) = set (hub_clients (w_hub (fanout m w)))))"
proof -
  have "w_clients (fanout m (on_hub (\<lambda>h. h\<lparr>hub_clients := ord\<rparr>) w)) = w_clients (fanout m w)
      \<and> set (hub_clients (w_hub (fanout m (on_hub (\<lambda>h. h\<lparr>hub_clients := ord\<rparr>) w))))
        = set (hub_clients (w_hub (fanout m w)))"
    if "distinct ord" "set ord = set (hub_clients (w_hub w))" for ord
    using that by (auto simp: fanout_spec assms fun_eq_iff)
  then show ?thesis
    by (auto simp: fanout_spec assms close_def send_def sendBufferSize_def Let_def)
qed

definition demo_client :: "string \<Rightarrow> bool \<Rightarrow> Client" where
  "demo_client s dj = (NewClient (demo_session\<lparr>session_id := s\<rparr>))\<lparr>cl_is_dj := dj, cl_registered := True\<rparr>"

definition demo_world :: world where
  "demo_world = \<lparr>w_hub = (NewHub ''r'' ''r'')\<lparr>hub_clients := [1, 2]\<rparr>,
     w_clients = (\<lambda>c. if c = 1 then demo_client ''dj'' True else demo_client ''l'' False),
     w_pg = empty_db, w_redis = empty_redis, w_reports = [], w_shutdowns = 0\<rparr>"

theorem fanout_exact_witness:
  "cl_send (w_clients (fanout (MAnnouncement ''hi'') demo_world) 2) = [MAnnouncement ''hi'']"
  using fanout_exact [of demo_world "MAnnouncement ''hi''"]
  by (simp add: demo_world_def NewHub_def demo_client_def NewClient_def)

lemma Run_quit_delivers:
  "distinct (hub_clients (w_hub w)) \<Longrightarrow> c \<in> set (hub_clients (w_hub w)) \<Longrightarrow> \<not> cl_done (w_clients w c)
    \<Longrightarrow> length (cl_send (w_clients w c)) + length ms \<le> sendBufferSize
    \<Longrightarrow> cl_send (w_clients (flush ms w) c) = cl_send (w_clients w c) @ ms"
proof (induction ms arbitrary: w)
  case Nil
  then show ?case by simp
next
  case (Cons m ms)
  let ?w = "fanout m (on_hub (\<lambda>h. h\<lparr>hub_broadcast := ms\<rparr>) w)"
  have "c \<in> set (hub_clients (w_hub ?w))" "\<not> cl_done (w_clients ?w c)"
    "cl_send (w_clients ?w c) = cl_send (w_clients w c) @ [m]" "distinct (hub_clients (w_hub ?w))"
    using Cons.prems by (auto simp: fanout_spec send_def)
  with Cons.IH [of ?w] Cons.prems show ?case by simp
qed

section \<open>Frames and bounds\<close>

text \<open>The registration state of a hub: what the shutdown protocol is about.\<close>

definition reg_state :: "hub \<Rightarrow> cid list \<times> bool \<times> bool \<times> int" where
  "reg_state h = (hub_clients h, hub_stopping h, hub_quit h, hub_pending h)"

lemma reg_state_enqueue [simp, hub_frame]: "reg_state (enqueueBroadcast p m h) = reg_state h"
  by (simp add: reg_state_def enqueueBroadcast_def)

lemma reg_state_broadcastJSON [simp, hub_frame]: "reg_state (w_hub (broadcastJSON env m w)) = reg_state (w_hub w)"
  by (simp add: broadcastJSON_def)

lemma broadcastJSON_frame [simp, hub_frame]:
  "w_clients (broadcastJSON env m w) = w_clients w" "w_pg (broadcastJSON env m w) = w_pg w"
  "w_redis (broadcastJSON env m w) = w_redis w" "w_shutdowns (broadcastJSON env m w) = w_shutdowns w"
  "w_reports (broadcastJSON env m w) = w_reports w"
  by (simp_all add: broadcastJSON_def)

lemma enqueue_hub_frame [simp, hub_frame]:
  "hub_room (enqueueBroadcast p m h) = hub_room h" "hub_mic_owner (enqueueBroadcast p m h) = hub_mic_owner h"
  "hub_mic_active (enqueueBroadcast p m h) = hub_mic_active h" "hub_persist (enqueueBroadcast p m h) = hub_persist h"
  "hub_clients (enqueueBroadcast p m h) = hub_clients h" "hub_quit (enqueueBroadcast p m h) = hub_quit h"
  "hub_stopping (enqueueBroadcast p m h) = hub_stopping h" "hub_pending (enqueueBroadcast p m h) = hub_pending h"
  "hub_mic_pause (enqueueBroadcast p m h) = hub_mic_pause h" "hub_mic_name (enqueueBroadcast p m h) = hub_mic_name h"
  by (simp_all add: enqueueBroadcast_def)

lemma broadcastJSON_hub [simp, hub_frame]:
  "w_hub (broadcastJSON env m w) = enqueueBroadcast (env_pick env) m (w_hub w)"
  by (simp add: broadcastJSON_def)

lemma broadcastListenerList_frame [simp, hub_frame]:
  "w_clients (broadcastListenerList env w) = w_clients w" "w_pg (broadcastListenerList env w) = w_pg w"
  "w_redis (broadcastListenerList env w) = w_redis w" "w_shutdowns (broadcastListenerList env w) = w_shutdowns w"
  "reg_state (w_hub (broadcastListenerList env w)) = reg_state (w_hub w)"
  "hub_room (w_hub (broadcastListenerList env w)) = hub_room (w_hub w)"
  "hub_mic_owner (w_hub (broadcastListenerList env w)) = hub_mic_owner (w_hub w)"
  by (simp_all add: broadcastListenerList_def)

lemma updateListenerCount_frame [simp, hub_frame]:
  "w_clients (updateListenerCount env mut w) = w_clients w" "w_pg (updateListenerCount env mut w) = w_pg w"
  "w_shutdowns (updateListenerCount env mut w) = w_shutdowns w"
  "w_redis (updateListenerCount env mut w) = fst (mut (w_redis w))"
  "reg_state (w_hub (updateListenerCount env mut w)) = reg_state (w_hub w)"
  "hub_room (w_hub (updateListenerCount env mut w)) = hub_room (w_hub w)"
  "hub_mic_owner (w_hub (updateListenerCount env mut w)) = hub_mic_owner (w_hub w)"
  by (simp_all add: updateListenerCount_def broadcastListenerCount_def reg_state_def split_beta)

lemma sendAll_frame [simp, hub_frame]:
  "w_hub (sendAll c ms w) = w_hub w" "w_pg (sendAll c ms w) = w_pg w" "w_redis (sendAll c ms w) = w_redis w"
  "w_shutdowns (sendAll c ms w) = w_shutdowns w"
  "cl_done (w_clients (sendAll c ms w) d) = cl_done (w_clients w d)"
  "cl_registered (w_clients (sendAll c ms w) d) = cl_registered (w_clients w d)"
  "cl_session (w_clients (sendAll c ms w) d) = cl_session (w_clients w d)"
  "cl_is_dj (w_clients (sendAll c ms w) d) = cl_is_dj (w_clients w d)"
  by (induction ms arbitrary: w) (auto simp: sendTo_def on_client_apply)

lemma sendInitialState_frame [simp, hub_frame]:
  "reg_state (w_hub (sendInitialState env c w)) = reg_state (w_hub w)"
  "w_pg (sendInitialState env c w) = w_pg w" "w_redis (sendInitialState env c w) = w_redis w"
  "w_shutdowns (sendInitialState env c w) = w_shutdowns w"
  "hub_mic_owner (w_hub (sendInitialState env c w)) = hub_mic_owner (w_hub w)"
  "cl_done (w_clients (sendInitialState env c w) d) = cl_done (w_clients w d)"
  "cl_registered (w_clients (sendInitialState env c w) d) = cl_registered (w_clients w d)"
  by (simp_all add: sendInitialState_def Let_def sendTo_def on_client_apply)

lemma onRegister_listen_frame [simp, hub_frame]:
  "w_hub (onRegister_listen env c w) = w_hub w" "w_clients (onRegister_listen env c w) = w_clients w"
  "w_redis (onRegister_listen env c w) = w_redis w" "w_shutdowns (onRegister_listen env c w) = w_shutdowns w"
  by (simp_all add: onRegister_listen_def Let_def)

lemma onRegister_frame [simp, hub_frame]:
  "reg_state (w_hub (onRegister env c w)) = reg_state (w_hub w)"
  "w_shutdowns (onRegister env c w) = w_shutdowns w"
  "hub_mic_owner (w_hub (onRegister env c w)) = hub_mic_owner (w_hub w)"
  "cl_done (w_clients (onRegister env c w) d) = cl_done (w_clients w d)"
  by (simp_all add: onRegister_def Let_def on_client_apply)

lemma onUnregister_io_frame [simp, hub_frame]:
  "reg_state (w_hub (onUnregister_io env c w)) = reg_state (w_hub w)"
  "w_shutdowns (onUnregister_io env c w) = w_shutdowns w" "w_clients (onUnregister_io env c w) = w_clients w"
  "hub_room (w_hub (onUnregister_io env c w)) = hub_room (w_hub w)"
  "hub_mic_owner (w_hub (onUnregister_io env c w)) = hub_mic_owner (w_hub w)"
  by (simp_all add: onUnregister_io_def Let_def)

lemma onUnregister_mic_frame [simp, hub_frame]:
  "reg_state (w_hub (onUnregister_mic env c w)) = reg_state (w_hub w)"
  "w_shutdowns (onUnregister_mic env c w) = w_shutdowns w" "w_clients (onUnregister_mic env c w) = w_clients w"
  "hub_room (w_hub (onUnregister_mic env c w)) = hub_room (w_hub w)"
  "w_pg (onUnregister_mic env c w) = w_pg w" "w_redis (onUnregister_mic env c w) = w_redis w"
  by (simp_all add: onUnregister_mic_def Let_def reg_state_def)

lemma reg_state_fields:
  "reg_state h = reg_state h' \<longleftrightarrow> hub_clients h = hub_clients h' \<and> hub_stopping h = hub_stopping h'
     \<and> hub_quit h = hub_quit h' \<and> hub_pending h = hub_pending h'"
  by (auto simp: reg_state_def)

text \<open>All buffers stay within their capacities.\<close>

definition buffers_ok :: "world \<Rightarrow> bool" where
  "buffers_ok w \<longleftrightarrow> length (hub_broadcast (w_hub w)) \<le> channelCap \<and> length (hub_persist (w_hub w)) \<le> channelCap
     \<and> (\<forall>c. buffer_ok (w_clients w c))"

lemma buffers_ok_broadcastJSON: "buffers_ok w \<Longrightarrow> buffers_ok (broadcastJSON env m w)"
  by (auto simp: buffers_ok_def enqueueBroadcast_def)

lemma buffers_ok_sendTo: "buffers_ok w \<Longrightarrow> buffers_ok (sendTo c m w)"
  by (simp add: buffers_ok_def sendTo_def on_client_apply SendJSON_def send_buffer_ok)

lemma buffers_ok_sendAll: "buffers_ok w \<Longrightarrow> buffers_ok (sendAll c ms w)"
  by (induction ms arbitrary: w) (auto simp: buffers_ok_sendTo)

lemma buffers_ok_persistChat: "buffers_ok w \<Longrightarrow> buffers_ok (persistChat m w)"
  by (simp add: buffers_ok_def persistChat_def)

lemma buffers_ok_fanout:
  "distinct (hub_clients (w_hub w)) \<Longrightarrow> buffers_ok w \<Longrightarrow> buffers_ok (fanout m w)"
  by (simp add: buffers_ok_def fanout_spec send_buffer_ok) (simp add: close_def buffer_ok_def)

end
