(* ===== verification/HubActionProps.thy ===== *)
theory HubActionProps
  imports HubActions HubProps QueueProps
begin

text \<open>
  What the inbound actions do: who may change what, the bounds on submissions and chat, and that
  the playback state, the now-playing row and the broadcasts of a transition agree.
\<close>

section \<open>Frames\<close>

text \<open>What no listener may touch: rooms, now playing, playback state, presence, microphone.\<close>

definition control_state where
  "control_state w = (db_rooms (w_pg w), db_now (w_pg w), db_tubes (w_pg w), w_redis w,
     reg_state (w_hub w), hub_room (w_hub w), hub_mic_active (w_hub w), hub_mic_pause (w_hub w),
     hub_mic_owner (w_hub w), w_shutdowns w)"

lemma control_state_on_client [simp, hub_frame]: "control_state (on_client c f w) = control_state w"
  by (simp add: control_state_def)

lemma control_state_broadcast [simp, hub_frame]: "control_state (broadcastJSON env m w) = control_state w"
  by (simp add: control_state_def)

lemma control_state_persistChat [simp, hub_frame]: "control_state (persistChat m w) = control_state w"
  by (simp add: control_state_def persistChat_def reg_state_def)

lemma control_state_reports [simp, hub_frame]: "control_state (w\<lparr>w_reports := r\<rparr>) = control_state w"
  by (simp add: control_state_def)

lemma errorTo_frame [simp, hub_frame]:
  "w_pg (errorTo c m w) = w_pg w" "w_hub (errorTo c m w) = w_hub w" "w_redis (errorTo c m w) = w_redis w"
  "control_state (errorTo c m w) = control_state w"
  by (simp_all add: errorTo_def)

lemma rejectTo_frame [simp, hub_frame]:
  "w_pg (rejectTo c m w) = w_pg w" "w_hub (rejectTo c m w) = w_hub w" "w_redis (rejectTo c m w) = w_redis w"
  "control_state (rejectTo c m w) = control_state w"
  by (simp_all add: rejectTo_def)

lemma persistChat_frame [simp, hub_frame]:
  "w_pg (persistChat m w) = w_pg w" "w_redis (persistChat m w) = w_redis w" "w_clients (persistChat m w) = w_clients w"
  "reg_state (w_hub (persistChat m w)) = reg_state (w_hub w)"
  "hub_mic_owner (w_hub (persistChat m w)) = hub_mic_owner (w_hub w)"
  "w_shutdowns (persistChat m w) = w_shutdowns w"
  "hub_room (w_hub (persistChat m w)) = hub_room (w_hub w)"
  by (simp_all add: persistChat_def reg_state_def)

lemma notify_list_frame [simp, hub_frame]:
  "w_pg (notify_list m cl w) = w_pg w" "w_redis (notify_list m cl w) = w_redis w" "w_hub (notify_list m cl w) = w_hub w"
  "control_state (notify_list m cl w) = control_state w" "w_shutdowns (notify_list m cl w) = w_shutdowns w"
  by (induction m cl w rule: notify_list.induct) auto

lemma notifyDJs_frame [simp, hub_frame]:
  "w_pg (notifyDJs m w) = w_pg w" "w_redis (notifyDJs m w) = w_redis w" "w_hub (notifyDJs m w) = w_hub w"
  "control_state (notifyDJs m w) = control_state w" "w_shutdowns (notifyDJs m w) = w_shutdowns w"
  by (simp_all add: notifyDJs_def)

lemma broadcastQueue_frame [simp, hub_frame]:
  "w_pg (broadcastQueue env w) = w_pg w" "w_redis (broadcastQueue env w) = w_redis w"
  "w_clients (broadcastQueue env w) = w_clients w" "control_state (broadcastQueue env w) = control_state w"
  "w_shutdowns (broadcastQueue env w) = w_shutdowns w"
  "reg_state (w_hub (broadcastQueue env w)) = reg_state (w_hub w)"
  "hub_mic_owner (w_hub (broadcastQueue env w)) = hub_mic_owner (w_hub w)"
  "hub_room (w_hub (broadcastQueue env w)) = hub_room (w_hub w)"
  by (simp_all add: broadcastQueue_def)

lemma handle_chat_frame [simp, hub_frame]:
  "w_pg (handle_chat env c p w) = w_pg w" "control_state (handle_chat env c p w) = control_state w"
  by (simp_all add: handle_chat_def Let_def split: option.split sum.split)

lemma handle_reaction_frame [simp, hub_frame]:
  "w_pg (handle_reaction env c p w) = w_pg w" "control_state (handle_reaction env c p w) = control_state w"
  by (simp_all add: handle_reaction_def Let_def split: option.split)

lemma reports_frame [simp, hub_frame]:
  "w_pg (handle_report_duration env c r w) = w_pg w" "control_state (handle_report_duration env c r w) = control_state w"
  "w_pg (handle_autoplay_end env c w) = w_pg w" "control_state (handle_autoplay_end env c w) = control_state w"
  by (simp_all add: handle_report_duration_def handle_autoplay_end_def stamp_report_def Let_def split: option.split prod.split)

section \<open>Store effects of a submission\<close>

text \<open>
  A submission either leaves the tables alone, stores the track only (when queueing it failed), or
  stores the track and appends one queue row of the submitter at the end of the table.
\<close>

definition row_of :: "QueueEntry \<Rightarrow> QueueRow" where
  "row_of e = \<lparr>qr_id = entry_id e, qr_room = entry_room e, qr_track = track_id (entry_track e),
     qr_submitter = entry_submitter e, qr_session = entry_session e, qr_status = entry_status e,
     qr_position = entry_position e, qr_created_at = entry_created_at e\<rparr>"

lemma UpsertTrack_frame:
  "UpsertTrack f t db = Inr db' \<Longrightarrow> \<exists>ts. db' = db\<lparr>db_tracks := db_tracks db @ ts\<rparr> \<and> length ts \<le> 1"
  by (auto simp: UpsertTrack_def split: if_splits intro: exI [of _ "[]"])

lemma AddToQueue_frame:
  "AddToQueue f e db = Inr (db', e') \<Longrightarrow> db' = db\<lparr>db_queue := db_queue db @ [row_of e']\<rparr>
     \<and> e' = e\<lparr>entry_position := entry_position e'\<rparr>"
  by (auto simp: AddToQueue_def Let_def row_of_def split: if_splits)

lemma submit_store_cases:
  "w_pg (submit_store env c p room w) = w_pg w
   \<or> (\<exists>ts rows. w_pg (submit_store env c p room w)
        = (w_pg w)\<lparr>db_tracks := db_tracks (w_pg w) @ ts, db_queue := db_queue (w_pg w) @ rows\<rparr>
      \<and> (rows = [] \<or> (\<exists>pos. rows = [row_of ((submitted_entry env c (submitted_track env p)
            (submit_status room (cl_is_dj (w_clients w c))) w)\<lparr>entry_position := pos\<rparr>)])))"
proof (cases "UpsertTrack (env_faults env) (submitted_track env p) (w_pg w)")
  case (Inl e)
  then show ?thesis by (simp add: submit_store_def Let_def)
next
  case (Inr db1)
  from UpsertTrack_frame [OF this] obtain ts where ts: "db1 = (w_pg w)\<lparr>db_tracks := db_tracks (w_pg w) @ ts\<rparr>"
    by blast
  let ?e = "submitted_entry env c (submitted_track env p) (submit_status room (cl_is_dj (w_clients w c))) (w\<lparr>w_pg := db1\<rparr>)"
  have e: "?e = submitted_entry env c (submitted_track env p) (submit_status room (cl_is_dj (w_clients w c))) w"
    by (simp add: submitted_entry_def)
  show ?thesis
  proof (cases "AddToQueue (env_faults env) ?e db1")
    case (Inl x)
    then have "w_pg (submit_store env c p room w) = (w_pg w)\<lparr>db_tracks := db_tracks (w_pg w) @ ts, db_queue := db_queue (w_pg w) @ []\<rparr>"
      using Inr ts by (simp add: submit_store_def Let_def)
    then show ?thesis by blast
  next
    case (Inr y)
    obtain db2 entry where y: "y = (db2, entry)" by (cases y)
    from AddToQueue_frame [OF Inr [unfolded y]]
    have d: "db2 = db1\<lparr>db_queue := db_queue db1 @ [row_of entry]\<rparr>" "entry = ?e\<lparr>entry_position := entry_position entry\<rparr>"
      by auto
    have "w_pg (submit_store env c p room w) = db2"
      using Inr y \<open>UpsertTrack _ _ _ = Inr db1\<close> by (simp add: submit_store_def Let_def)
    moreover have "row_of entry = row_of ((submitted_entry env c (submitted_track env p)
        (submit_status room (cl_is_dj (w_clients w c))) w)\<lparr>entry_position := entry_position entry\<rparr>)"
      using arg_cong [OF d(2), of row_of] by (simp add: e)
    ultimately show ?thesis using d(1) ts
      by (intro disjI2 exI [of _ ts] exI [of _ "[row_of entry]"]) auto
  qed
qed

lemma handle_submit_cases:
  assumes "w' = handle_submit env c payload w"
  obtains (unchanged) "w_pg w' = w_pg w"
  | (stored) p ts rows st where "payload = Some p" "submit_check env c p w = None"
      "w_pg w' = (w_pg w)\<lparr>db_tracks := db_tracks (w_pg w) @ ts, db_queue := db_queue (w_pg w) @ rows\<rparr>"
      "rows = [] \<or> (\<exists>pos. rows = [row_of ((submitted_entry env c (submitted_track env p) st w)\<lparr>entry_position := pos\<rparr>)])"
      "\<not> cl_is_dj (w_clients w c) \<Longrightarrow> st = (if \<exists>room. deref_or_zero zero_room
          (GetRoomByID (env_faults env) (hub_room (w_hub w)) (w_pg w)) = Some room \<and> room_policy room = PolicyApproval
          then QueuePending else QueueApproved)"
proof (cases "w_pg w' = w_pg w")
  case True
  then show ?thesis by (rule unchanged)
next
  case False
  then obtain p where p: "payload = Some p" using assms by (auto simp: handle_submit_def split: option.splits)
  have chk: "submit_check env c p w = None"
    using False assms p by (auto simp: handle_submit_def split: option.splits)
  define w1 where "w1 = (if cl_is_dj (w_clients w c) then w else on_client c (\<lambda>y. y\<lparr>cl_last_submit := env_now env\<rparr>) w)"
  have w1: "w_pg w1 = w_pg w" "w_hub w1 = w_hub w" "cl_is_dj (w_clients w1 c) = cl_is_dj (w_clients w c)"
    "session_id (cl_session (w_clients w1 c)) = session_id (cl_session (w_clients w c))"
    "DisplayName (w_clients w1 c) = DisplayName (w_clients w c)"
    by (auto simp: w1_def on_client_apply DisplayName_def split: option.split)
  obtain room where room: "deref_or_zero zero_room (GetRoomByID (env_faults env) (hub_room (w_hub w)) (w_pg w)) = Some room"
      "w' = submit_store env c p room w1"
    using False assms p chk w1(1) by (auto simp: handle_submit_def Let_def w1_def [symmetric] split: option.splits if_splits)
  have se: "submitted_entry env c t st w1 = submitted_entry env c t st w" for t st
    using w1 by (simp add: submitted_entry_def Let_def)
  from submit_store_cases [of env c p room w1] False room(2) w1(1)
  obtain ts rows where "w_pg w' = (w_pg w)\<lparr>db_tracks := db_tracks (w_pg w) @ ts, db_queue := db_queue (w_pg w) @ rows\<rparr>"
      "rows = [] \<or> (\<exists>pos. rows = [row_of ((submitted_entry env c (submitted_track env p)
         (submit_status room (cl_is_dj (w_clients w c))) w)\<lparr>entry_position := pos\<rparr>)])"
    by (auto simp: se w1)
  then show ?thesis
    using stored [where ts = ts and rows = rows and st = "submit_status room (cl_is_dj (w_clients w c))", OF p chk] room(1)
    by (auto simp: submit_status_def)
qed

section \<open>Who may do what\<close>

fun dj_action :: "action \<Rightarrow> bool" where
  "dj_action (ActionSendChat p) = False"
| "dj_action (ActionReaction p) = False"
| "dj_action (ActionSubmitTrack p) = False"
| "dj_action (ActionReportDuration p) = False"
| "dj_action ActionAutoplayEnd = False"
| "dj_action (ActionUnknown name) = False"
| "dj_action a = True"

lemma dj_action_refused:
  "dj_action a \<Longrightarrow> \<not> cl_is_dj (w_clients w c) \<Longrightarrow> handleInbound env c a w = errorTo c ''DJ key required'' w"
  by (cases a) (simp_all add: dj_only_def)

lemma control_state_pg:
  "db_rooms db = db_rooms (w_pg w) \<Longrightarrow> db_now db = db_now (w_pg w) \<Longrightarrow> db_tubes db = db_tubes (w_pg w)
    \<Longrightarrow> control_state (w\<lparr>w_pg := db\<rparr>) = control_state w"
  by (simp add: control_state_def)

lemma submit_store_control [simp, hub_frame]: "control_state (submit_store env c p room w) = control_state w"
proof (cases "UpsertTrack (env_faults env) (submitted_track env p) (w_pg w)")
  case (Inl e)
  then show ?thesis by (simp add: submit_store_def Let_def)
next
  case (Inr db1)
  from UpsertTrack_frame [OF Inr] have c1: "control_state (w\<lparr>w_pg := db1\<rparr>) = control_state w"
    by (auto intro: control_state_pg)
  let ?e = "submitted_entry env c (submitted_track env p) (submit_status room (cl_is_dj (w_clients w c))) (w\<lparr>w_pg := db1\<rparr>)"
  show ?thesis
  proof (cases "AddToQueue (env_faults env) ?e db1")
    case (Inl x)
    then show ?thesis using Inr c1 by (simp add: submit_store_def Let_def)
  next
    case added: (Inr y)
    obtain db2 entry where y: "y = (db2, entry)" by (cases y)
    from AddToQueue_frame [OF added [unfolded y]] have "control_state (w\<lparr>w_pg := db2\<rparr>) = control_state (w\<lparr>w_pg := db1\<rparr>)"
      by (simp add: control_state_def)
    then show ?thesis using Inr added y c1 by (simp add: submit_store_def Let_def)
  qed
qed

lemma handle_submit_control [simp, hub_frame]: "control_state (handle_submit env c payload w) = control_state w"
  by (simp add: handle_submit_def Let_def split: option.split)

text \<open>The rows a listener's action adds to the queue.\<close>

lemma listener_rows:
  assumes "\<not> cl_is_dj (w_clients w c)"
  obtains rows where "db_queue (w_pg (handleInbound env c a w)) = db_queue (w_pg w) @ rows"
    and "rows = [] \<or> (\<exists>p q. a = ActionSubmitTrack (Some p) \<and> submit_check env c p w = None \<and> rows = [q]
      \<and> qr_session q = session_id (cl_session (w_clients w c)) \<and> qr_room q = hub_room (w_hub w) \<and> active (qr_status q))"
proof (cases "w_pg (handleInbound env c a w) = w_pg w")
  case True
  then show ?thesis using that [of "[]"] by simp
next
  case changed: False
  then have "\<not> dj_action a" using assms by (auto simp: dj_action_refused)
  with changed obtain payload where a: "a = ActionSubmitTrack payload"
    by (cases a) auto
  then have "handleInbound env c a w = handle_submit env c payload w" by simp
  then show ?thesis
  proof (cases rule: handle_submit_cases)
    case unchanged
    then show ?thesis using changed by simp
  next
    case (stored p ts rows st)
    then show ?thesis using that [of rows] assms a
      by (auto simp: row_of_def submitted_entry_def Let_def active_def)
  qed
qed


text \<open>The surroundings of the worked examples: every store call succeeds.\<close>

definition demo_env :: "int \<Rightarrow> env" where
  "demo_env t = \<lparr>env_now = t, env_faults = no_faults, env_rfaults = (\<lambda>_. False), env_pick = True,
     env_uuid = (\<lambda>n. if n = 0 then ''u0'' else ''u1''), env_locked = no_locks,
     env_parse = (\<lambda>u. Some (''https'', ''youtu.be''))\<rparr>"


section \<open>Submissions\<close>

definition waiting :: "string \<Rightarrow> string \<Rightarrow> pgdb \<Rightarrow> nat" where
  "waiting rid sid db = affected (\<lambda>q. qr_room q = rid \<and> qr_session q = sid \<and> active (qr_status q)) (db_queue db)"

lemma submit_check_passed:
  assumes "submit_check env c p w = None" and "\<not> cl_is_dj (w_clients w c)"
  shows "5 * second \<le> env_now env - cl_last_submit (w_clients w c)"
    and "\<not> env_faults env CCountActiveQueueEntries \<Longrightarrow>
      waiting (hub_room (w_hub w)) (session_id (cl_session (w_clients w c))) (w_pg w) < 10"
    and "ValidateTrackSubmission (env_parse env) (sp_title p) (sp_artist p) (sp_source p) (sp_url p) (sp_duration p) False = None"
    and "\<not> ContainsProfanity (sp_title p)" and "\<not> ContainsProfanity (sp_artist p)"
  using assms by (auto simp: submit_check_def Let_def CountActiveQueueEntriesBySession_def waiting_def
      split: option.splits if_splits)

text \<open>
  The cap of ten holds: as long as the count query does not fail, a listener's action never
  raises the number of their session's waiting entries in the room above ten.
\<close>

theorem submission_cap:
  assumes "\<not> cl_is_dj (w_clients w c)" and "\<not> env_faults env CCountActiveQueueEntries"
    and "w' = handleInbound env c a w"
    and "rid = hub_room (w_hub w)" and "sid = session_id (cl_session (w_clients w c))"
  shows "waiting rid sid (w_pg w') \<le> max 10 (waiting rid sid (w_pg w))"
proof -
  from listener_rows [OF assms(1), of env a] obtain rows where
    rows: "db_queue (w_pg w') = db_queue (w_pg w) @ rows"
    and cases: "rows = [] \<or> (\<exists>p q. submit_check env c p w = None \<and> rows = [q])"
    unfolding assms(3) by metis
  from cases show ?thesis
  proof
    assume "rows = []"
    then show ?thesis using rows by (simp add: waiting_def)
  next
    assume "\<exists>p q. submit_check env c p w = None \<and> rows = [q]"
    then obtain p q where "submit_check env c p w = None" and q: "rows = [q]" by blast
    then have "waiting rid sid (w_pg w) < 10"
      using submit_check_passed(2) [of env c p w] assms by simp
    then show ?thesis using rows q by (simp add: waiting_def affected_append)
  qed
qed

definition demo_submission :: SubmitTrackPayload where
  "demo_submission = \<lparr>sp_title = ''Song'', sp_artist = ''Band'', sp_duration = 180, sp_source = ''youtube'',
     sp_url = ''https://youtu.be/x''\<rparr>"

definition demo_stage :: "RequestPolicy \<Rightarrow> world" where
  "demo_stage policy = demo_world\<lparr>w_pg := demo_db\<lparr>db_rooms := [(demo_room ''r'')\<lparr>room_policy := policy\<rparr>]\<rparr>\<rparr>"

lemma demo_stage_simps [simp]:
  "cl_is_dj (w_clients (demo_stage pol) (Suc 0))" "\<not> cl_is_dj (w_clients (demo_stage pol) 2)"
  "cl_session (w_clients (demo_stage pol) 2) = demo_session\<lparr>session_id := ''l''\<rparr>"
  "cl_last_submit (w_clients (demo_stage pol) 2) = zero_time" "cl_last_chat (w_clients (demo_stage pol) 2) = zero_time"
  "hub_room (w_hub (demo_stage pol)) = ''r''" "cl_send (w_clients (demo_stage pol) c) = []"
  "\<not> cl_done (w_clients (demo_stage pol) c)" "hub_clients (w_hub (demo_stage pol)) = [1, 2]"
  "w_pg (demo_stage pol) = demo_db\<lparr>db_rooms := [(demo_room ''r'')\<lparr>room_policy := pol\<rparr>]\<rparr>"
  "w_redis (demo_stage pol) = empty_redis"
  by (simp_all add: demo_stage_def demo_world_def demo_client_def NewClient_def NewHub_def)

lemma demo_env_simps [simp]:
  "env_now (demo_env t) = t" "env_faults (demo_env t) = no_faults" "env_rfaults (demo_env t) = (\<lambda>_. False)"
  "env_pick (demo_env t) = True" "env_locked (demo_env t) = no_locks"
  "env_uuid (demo_env t) = (\<lambda>n. if n = 0 then ''u0'' else ''u1'')"
  "env_parse (demo_env t) = (\<lambda>u. Some (''https'', ''youtu.be''))"
  by (simp_all add: demo_env_def)

lemma demo_validated: "ValidateTrackSubmission (env_parse (demo_env 7)) ''Song'' ''Band'' ''youtube'' ''https://youtu.be/x'' 180 False = None"
  unfolding demo_env_simps by code_simp

lemma demo_clean: "\<not> ContainsProfanity ''Song''" "\<not> ContainsProfanity ''Band''"
  by code_simp+

lemma demo_submit_check: "submit_check (demo_env 7) 2 demo_submission (demo_stage pol) = None"
  using demo_validated demo_clean
  by (simp add: submit_check_def demo_submission_def CountActiveQueueEntriesBySession_def affected_def
      demo_db_def demo_row_def zero_time_def second_def)

theorem submission_cap_witness:
  "waiting ''r'' ''l'' (w_pg (handleInbound (demo_env 7) 2 (ActionSubmitTrack (Some demo_submission)) (demo_stage PolicyOpen))) \<le> 10"
proof -
  have "waiting ''r'' ''l'' (w_pg (demo_stage PolicyOpen)) = 0"
    by (simp add: waiting_def affected_def demo_db_def demo_row_def)
  moreover have "waiting ''r'' ''l'' (w_pg (handleInbound (demo_env 7) 2 (ActionSubmitTrack (Some demo_submission)) (demo_stage PolicyOpen)))
      \<le> max 10 (waiting ''r'' ''l'' (w_pg (demo_stage PolicyOpen)))"
    by (rule submission_cap [OF _ _ refl]) simp_all
  ultimately show ?thesis by simp
qed

lemma track_row_ok_validated:
  assumes "submit_check env c p w = None"
  shows "track_row_ok (submitted_track env p)"
proof -
  have v: "ValidateTrackSubmission (env_parse env) (sp_title p) (sp_artist p) (sp_source p) (sp_url p) (sp_duration p)
      (cl_is_dj (w_clients w c)) = None"
    using assms by (simp add: submit_check_def Let_def split: option.splits)
  from validate_accepts [OF v] show ?thesis
    by (auto simp: track_row_ok_def submitted_track_def int4_ok_def MaxTrackDurationSecs_def)
qed

definition fresh_ids :: "env \<Rightarrow> pgdb \<Rightarrow> bool" where
  "fresh_ids env db \<longleftrightarrow> \<not> has_track (env_uuid env 0) db
     \<and> list_all (\<lambda>q. qr_track q \<noteq> env_uuid env 0 \<and> qr_id q \<noteq> env_uuid env 1) (db_queue db)"

lemma map_filter_cong: "(\<And>x. x \<in> set xs \<Longrightarrow> f x = g x) \<Longrightarrow> List.map_filter f xs = List.map_filter g xs"
  by (induction xs) (auto simp: map_filter_simps split: option.split)

lemma queue_view_new_track:
  assumes "list_all (\<lambda>q. qr_track q \<noteq> track_id t) (db_queue db)"
  shows "queue_view rid (db\<lparr>db_tracks := db_tracks db @ [t]\<rparr>) = queue_view rid db"
proof -
  have "join_track (db\<lparr>db_tracks := db_tracks db @ [t]\<rparr>) q = join_track db q" if "q \<in> set (approved_rows rid db)" for q
  proof -
    have "qr_track q \<noteq> track_id t" using that assms by (auto simp: approved_rows_mem list_all_iff)
    then have "find_row (\<lambda>x. track_id x = qr_track q) (db_tracks db @ [t]) = find_row (\<lambda>x. track_id x = qr_track q) (db_tracks db)"
      by (simp add: find_row_append find_row_simps split: option.split)
    then show ?thesis by (simp add: join_track_def)
  qed
  moreover have "approved_rows rid (db\<lparr>db_tracks := db_tracks db @ [t]\<rparr>) = approved_rows rid db"
    by (simp add: approved_rows_def)
  ultimately show ?thesis unfolding queue_view_def by (metis map_filter_cong)
qed

text \<open>The two store writes of an accepted submission.\<close>

definition with_track :: "env \<Rightarrow> SubmitTrackPayload \<Rightarrow> pgdb \<Rightarrow> pgdb" where
  "with_track env p db = db\<lparr>db_tracks := db_tracks db @ [submitted_track env p]\<rparr>"

lemma submit_store_success:
  assumes "\<not> env_faults env CUpsertTrack" "\<not> env_faults env CAddToQueue" and "submit_check env c p w' = None" and "fresh_ids env (w_pg w)"
    and "has_room (hub_room (w_hub w)) (w_pg w)"
    and "e = submitted_entry env c (submitted_track env p) (submit_status room (cl_is_dj (w_clients w c))) w"
  shows "w_pg (submit_store env c p room w) = (with_track env p (w_pg w))
      \<lparr>db_queue := db_queue (w_pg w) @ [queued_row e (with_track env p (w_pg w))]\<rparr>
    \<and> can_add e (with_track env p (w_pg w))"
proof -
  let ?t = "submitted_track env p" and ?db1 = "with_track env p (w_pg w)"
  have u: "UpsertTrack (env_faults env) ?t (w_pg w) = Inr ?db1"
    using assms track_row_ok_validated [OF assms(3)]
    by (simp add: UpsertTrack_def fresh_ids_def with_track_def submitted_track_def)
  have add: "can_add e ?db1"
    using assms(4,5) by (auto simp: can_add_def assms(6) submitted_entry_def Let_def has_track_def with_track_def
        fresh_ids_def list_all_iff has_room_def)
  have "e = submitted_entry env c ?t (submit_status room (cl_is_dj (w_clients w c))) (w\<lparr>w_pg := ?db1\<rparr>)"
    by (simp add: assms(6) submitted_entry_def)
  with u add show ?thesis using assms(1,2)
    by (simp add: submit_store_def Let_def AddToQueue_eq) (simp add: with_track_def)
qed

lemma stored_entry_submitted:
  assumes "can_add e (with_track env p db)" and "entry_track e = submitted_track env p" and "\<not> has_track (env_uuid env 0) db"
  shows "entry_track (stored_entry e (with_track env p db)) = (submitted_track env p)\<lparr>track_snippet := '''', track_created_at := zero_time\<rparr>"
    and "entry_session (stored_entry e (with_track env p db)) = entry_session e"
    and "entry_submitter (stored_entry e (with_track env p db)) = entry_submitter e"
proof -
  have "find_row (\<lambda>t. track_id t = env_uuid env 0) (db_tracks db @ [submitted_track env p]) = Some (submitted_track env p)"
    using assms(3)
    by (auto simp: find_row_append find_row_simps find_row_None has_track_def submitted_track_def
        split: option.split dest: find_row_Some)
  then show "entry_track (stored_entry e (with_track env p db)) = (submitted_track env p)\<lparr>track_snippet := '''', track_created_at := zero_time\<rparr>"
    "entry_session (stored_entry e (with_track env p db)) = entry_session e"
    "entry_submitter (stored_entry e (with_track env p db)) = entry_submitter e"
    by (simp_all add: stored_entry_def join_track_def queued_row_def assms(2) with_track_def)
      (simp_all add: submitted_track_def)
qed



text \<open>
  When the room cannot be read, the request policy is not enforced: a listener's submission
  that passes the checks is queued as approved, even in a room that is closed to requests or
  subject to approval.
\<close>

theorem unreadable_room_accepts_requests:
  assumes "env_faults env CGetRoom" "\<not> env_faults env CUpsertTrack" "\<not> env_faults env CAddToQueue"
    and "\<not> cl_is_dj (w_clients w c)" and "submit_check env c p w = None" and "fresh_ids env (w_pg w)"
    and "has_room (hub_room (w_hub w)) (w_pg w)"
  shows "\<exists>q. db_queue (w_pg (handleInbound env c (ActionSubmitTrack (Some p)) w)) = db_queue (w_pg w) @ [q]
    \<and> qr_status q = QueueApproved \<and> qr_room q = hub_room (w_hub w)"
proof -
  define w1 where "w1 = on_client c (\<lambda>y. y\<lparr>cl_last_submit := env_now env\<rparr>) w"
  have w1: "w_pg w1 = w_pg w" "w_hub w1 = w_hub w" "\<not> cl_is_dj (w_clients w1 c)"
    using assms(4) by (simp_all add: w1_def on_client_apply)
  have "handleInbound env c (ActionSubmitTrack (Some p)) w = submit_store env c p zero_room w1"
    using assms(1,4,5) by (simp add: handle_submit_def w1_def [symmetric] GetRoomByID_def Let_def)
      (simp add: zero_room_def)
  moreover define e where "e = submitted_entry env c (submitted_track env p) QueueApproved w1"
  moreover have "submit_status zero_room (cl_is_dj (w_clients w1 c)) = QueueApproved"
    by (simp add: submit_status_def zero_room_def)
  ultimately show ?thesis
    using submit_store_success [of env c p w w1 e zero_room] assms w1
    by (simp add: queued_row_def) (simp add: e_def submitted_entry_def Let_def w1)
qed

theorem unreadable_room_accepts_requests_witness:
  "\<exists>q. db_queue (w_pg (handleInbound ((demo_env 7)\<lparr>env_faults := \<lambda>c. c = CGetRoom\<rparr>) 2
        (ActionSubmitTrack (Some demo_submission)) (demo_stage PolicyClosed)))
      = db_queue (w_pg (demo_stage PolicyClosed)) @ [q]
    \<and> qr_status q = QueueApproved \<and> qr_room q = ''r''"
proof -
  let ?env = "(demo_env 7)\<lparr>env_faults := \<lambda>c. c = CGetRoom\<rparr>"
  have "submit_check ?env 2 demo_submission (demo_stage PolicyClosed) = None"
    using demo_validated demo_clean
    by (simp add: submit_check_def demo_submission_def CountActiveQueueEntriesBySession_def affected_def
        demo_db_def demo_row_def zero_time_def second_def)
  moreover have "fresh_ids ?env (w_pg (demo_stage PolicyClosed))"
    by (simp add: fresh_ids_def has_track_def demo_db_def demo_row_def demo_track_def)
  moreover have "has_room ''r'' (w_pg (demo_stage PolicyClosed))"
    by (simp add: has_room_def demo_room_def)
  ultimately show ?thesis
    using unreadable_room_accepts_requests [of ?env "demo_stage PolicyClosed" 2 demo_submission] by simp
qed

section \<open>Chat\<close>

lemma check_media_ok:
  "(\<exists>m. check_media parse p = Inr m) \<longleftrightarrow> cp_media_url p = '''' \<or>
     (\<exists>host. parse (cp_media_url p) = Some (''https'', host) \<and> to_lower host \<in> set giphy_hosts)"
  by (auto simp: check_media_def split: option.splits)

text \<open>
  C11: A listener's chat message is broadcast exactly when the account behind the connection has a
  verified email address, the message has text or media, is at most 500 bytes long, passes the word
  filter, shows media from GIPHY over https only, and at least half a second has passed since their
  last message; in that case, and in no other, the half second starts anew.
\<close>

theorem chat_gate:
  assumes "\<not> cl_is_dj (w_clients w c)" and "length (hub_broadcast (w_hub w)) < 256" and "\<not> hub_quit (w_hub w)"
    and "w' = handleInbound env c (ActionSendChat payload) w"
    and "sent = (\<exists>m. hub_broadcast (w_hub w') = hub_broadcast (w_hub w) @ [MChatMessage m])"
  shows "(sent \<longleftrightarrow> (\<exists>p u. payload = Some p \<and> cl_user (w_clients w c) = Some u \<and> user_email_verified u
        \<and> (cp_message p \<noteq> '''' \<or> cp_media_url p \<noteq> '''') \<and> length (cp_message p) \<le> 500
        \<and> \<not> ContainsProfanity (cp_message p)
        \<and> (cp_media_url p = '''' \<or> (\<exists>host. env_parse env (cp_media_url p) = Some (''https'', host)
              \<and> to_lower host \<in> set giphy_hosts))
        \<and> 500 * millisecond \<le> env_now env - cl_last_chat (w_clients w c)))
    \<and> (sent \<longrightarrow> cl_last_chat (w_clients w' c) = env_now env)
    \<and> (\<not> sent \<longrightarrow> w_hub w' = w_hub w \<and> cl_last_chat (w_clients w' c) = cl_last_chat (w_clients w c))"
proof -
  have err: "\<not> (\<exists>m. hub_broadcast (w_hub (errorTo c x w)) = hub_broadcast (w_hub w) @ [MChatMessage m])
      \<and> w_hub (errorTo c x w) = w_hub w \<and> cl_last_chat (w_clients (errorTo c x w) c) = cl_last_chat (w_clients w c)" for x
    by (simp add: errorTo_def on_client_apply sendError_def)
  have ok: "\<exists>m. hub_broadcast (w_hub (persistChat m1 (broadcastJSON env (MChatMessage m1) w1))) = hub_broadcast (w_hub w) @ [MChatMessage m]"
    "cl_last_chat (w_clients (persistChat m1 (broadcastJSON env (MChatMessage m1) w1)) c) = cl_last_chat (w_clients w1 c)"
    if "w_hub w1 = w_hub w" for m1 w1
    using assms(2,3) that by (auto simp: persistChat_def enqueueBroadcast_def channelCap_def)
  obtain u p where "cl_user (w_clients w c) = Some u \<and> payload = Some p
     \<or> (cl_user (w_clients w c) = None \<or> payload = None)" by (metis not_Some_eq)
  then show ?thesis
  proof
    assume "cl_user (w_clients w c) = None \<or> payload = None"
    then show ?thesis using err assms(1,4,5)
      by (auto simp: handle_chat_def Let_def)
  next
    assume up: "cl_user (w_clients w c) = Some u \<and> payload = Some p"
    show ?thesis
      using up err ok check_media_ok [of "env_parse env" p] assms(1,4,5)
      by (cases "check_media (env_parse env) p") (auto simp: handle_chat_def Let_def on_client_apply)
  qed
qed

definition demo_user :: "string \<Rightarrow> User" where
  "demo_user u = \<lparr>user_id = u, user_email = u @ ''@x.io'', user_email_verified = True, user_password_hash = ''h'',
     user_display_name = u, user_avatar_color = '''', user_avatar_url = '''', user_bio = '''', user_genres = [], user_created_at = 0,
     user_is_admin = False, user_city = '''', user_region = '''', user_country = '''', user_stage_name = '''', user_is_plus = False, user_plus_since = None,
     user_plus_expires_at = None, user_neon = 0, user_is_banned = False, user_signup_ip = '''',
     user_signup_agent = '''', user_verified_at = None, user_held_at = None\<rparr>"

theorem chat_gate_witness:
  "\<exists>m. hub_broadcast (w_hub (handleInbound (demo_env second) 2
        (ActionSendChat (Some \<lparr>cp_message = ''hi'', cp_media_url = '''', cp_media_type = ''''\<rparr>))
        (on_client 2 (\<lambda>x. x\<lparr>cl_user := Some (demo_user ''bo'')\<rparr>) (demo_stage PolicyOpen))))
      = [MChatMessage m]"
proof -
  let ?w = "on_client 2 (\<lambda>x. x\<lparr>cl_user := Some (demo_user ''bo'')\<rparr>) (demo_stage PolicyOpen)"
  have clean: "\<not> ContainsProfanity ''hi''" by code_simp
  have w: "hub_broadcast (w_hub ?w) = []" "\<not> hub_quit (w_hub ?w)"
    by (simp_all add: demo_stage_def demo_world_def NewHub_def)
  have u: "user_email_verified (demo_user ''bo'')" by (simp add: demo_user_def)
  show ?thesis
    using chat_gate [where w = ?w and c = 2 and env = "demo_env second" and payload = "Some \<lparr>cp_message = ''hi'', cp_media_url = '''', cp_media_type = ''''\<rparr>", OF _ _ _ refl refl] w u clean
    by (simp add: on_client_apply zero_time_def second_def millisecond_def del: handleInbound.simps)
qed

section \<open>Pausing and resuming\<close>

lemma get_put_playback [simp]:
  "\<not> env_rfaults env RPlayback \<Longrightarrow> rd_playback (w_redis (put_playback env ps w)) = (rd_playback (w_redis w))(ps_room ps \<mapsto> ps)"
  by (simp add: put_playback_def SetPlaybackState_def)

lemma put_playback_frame [simp, hub_frame]:
  "w_pg (put_playback env ps w) = w_pg w" "w_clients (put_playback env ps w) = w_clients w"
  "hub_room (w_hub (put_playback env ps w)) = hub_room (w_hub w)"
  by (simp_all add: put_playback_def)

lemma whole_seconds:
  "d div 1000 * 1000 \<le> (d :: int) \<and> d - d div 1000 * 1000 < 1000 \<and> d div 1000 * 1000 mod 1000 = 0"
  by presburger

text \<open>
  Pausing and resuming keeps the room's place in the track: after the DJ pauses a playing track
  and later resumes it, the same track plays from where it was paused, at most one second earlier
  (positions are kept in whole seconds), however long the pause lasted; no other room's playback
  and no table changes.
\<close>

theorem pause_resume_keeps_place:
  assumes "cl_is_dj (w_clients w c)" and "\<not> env_rfaults e1 RPlayback" and "\<not> env_rfaults e2 RPlayback"
    and "rd_playback (w_redis w) rid = Some ps" and "ps_room ps = rid" and "rid = hub_room (w_hub w)"
    and "ps_playing ps" and "ps_started_at ps \<le> unix_milli (env_now e1)"
    and "w1 = handleInbound e1 c ActionDJPause w" and "w2 = handleInbound e2 c ActionDJResume w1"
  shows "(\<exists>paused. rd_playback (w_redis w1) rid = Some paused \<and> \<not> ps_playing paused)
    \<and> (\<exists>ps2. rd_playback (w_redis w2) rid = Some ps2 \<and> ps_playing ps2 \<and> ps_track ps2 = ps_track ps
      \<and> (let before = unix_milli (env_now e1) - ps_started_at ps;
             after = unix_milli (env_now e2) - ps_started_at ps2
         in after \<le> before \<and> before - after < 1000 \<and> after mod 1000 = 0))
    \<and> w_pg w2 = w_pg w
    \<and> (\<forall>other. other \<noteq> rid \<longrightarrow> rd_playback (w_redis w2) other = rd_playback (w_redis w) other)"
proof -
  define paused where "paused = pause_state (env_now e1) ps"
  have w1: "w1 = put_playback e1 paused w"
    using assms by (simp add: dj_only_def handle_pause_def GetPlaybackState_def paused_def)
  have p: "ps_room paused = rid" "\<not> ps_playing paused" "ps_track paused = ps_track ps"
      "ps_pause_position paused = (unix_milli (env_now e1) - ps_started_at ps) div 1000"
    using assms by (simp_all add: paused_def pause_state_def go_div_nonneg)
  have s1: "rd_playback (w_redis w1) = (rd_playback (w_redis w))(rid \<mapsto> paused)" "hub_room (w_hub w1) = rid"
      "cl_is_dj (w_clients w1 c)" "w_pg w1 = w_pg w"
    using assms(1,2,5,6) p(1) unfolding w1 by simp_all
  have w2: "w2 = put_playback e2 (resume_state (env_now e2) paused) w1"
    using assms(3,10) s1 p(2) by (simp add: dj_only_def handle_resume_def GetPlaybackState_def)
  have "rd_playback (w_redis w2) = (rd_playback (w_redis w))(rid \<mapsto> resume_state (env_now e2) paused)" "w_pg w2 = w_pg w"
    using assms(3) s1 p(1) unfolding w2 by (simp_all add: resume_state_def)
  moreover have "let before = unix_milli (env_now e1) - ps_started_at ps;
             after = unix_milli (env_now e2) - ps_started_at (resume_state (env_now e2) paused)
         in after \<le> before \<and> before - after < 1000 \<and> after mod 1000 = 0"
    using p(4) whole_seconds [of "unix_milli (env_now e1) - ps_started_at ps"] by (simp add: resume_state_def Let_def)
  ultimately show ?thesis using s1(1) p by (simp add: resume_state_def)
qed

definition demo_playing :: world where
  "demo_playing = redis_do (SetPlaybackState (\<lambda>_. False)
     \<lparr>ps_room = ''r'', ps_track = ''t1'', ps_started_at = 0, ps_playing = True, ps_pause_position = 0\<rparr>) (demo_stage PolicyOpen)"

theorem pause_resume_keeps_place_witness:
  "\<exists>ps2. rd_playback (w_redis (handleInbound (demo_env (60 * minute)) 1 ActionDJResume
       (handleInbound (demo_env (90 * second + 5)) 1 ActionDJPause demo_playing))) ''r'' = Some ps2
     \<and> ps_track ps2 = ''t1'' \<and> ps_playing ps2"
proof -
  let ?ps = "\<lparr>ps_room = ''r'', ps_track = ''t1'', ps_started_at = 0, ps_playing = True, ps_pause_position = 0\<rparr> :: PlaybackState"
  have h: "cl_is_dj (w_clients demo_playing 1)" "''r'' = hub_room (w_hub demo_playing)"
    "rd_playback (w_redis demo_playing) ''r'' = Some ?ps"
    by (simp_all add: demo_playing_def SetPlaybackState_def)
  have t: "ps_started_at ?ps \<le> unix_milli (env_now (demo_env (90 * second + 5)))"
    by (simp add: unix_milli_def second_def millisecond_def)
  have f: "\<not> env_rfaults (demo_env k) RPlayback" "ps_room ?ps = ''r''" "ps_playing ?ps" "ps_track ?ps = ''t1''" for k by simp_all
  from pause_resume_keeps_place [OF h(1) f(1) f(1) h(3) f(2) h(2) f(3) t refl refl] f(4)
  show ?thesis by metis
qed

section \<open>Skipping and going live\<close>

lemma queue_view_has_track: "e \<in> set (queue_view rid db) \<Longrightarrow> \<exists>t. find_row (\<lambda>x. track_id x = track_id (entry_track e)) (db_tracks db) = Some t"
proof -
  assume "e \<in> set (queue_view rid db)"
  then obtain q where "join_track db q = Some e" by (auto simp: queue_view_def map_filter_def)
  then obtain t where t: "find_row (\<lambda>x. track_id x = qr_track q) (db_tracks db) = Some t" "track_id (entry_track e) = track_id t"
    by (auto simp: join_track_def)
  with find_row_Some [OF t(1)] show ?thesis by auto
qed

lemma enqueue_more:
  "\<not> hub_quit h \<Longrightarrow> length (hub_broadcast h) < channelCap \<Longrightarrow> hub_broadcast (enqueueBroadcast b m h) = hub_broadcast h @ [m]"
  by (simp add: enqueueBroadcast_def)

lemma SetNowPlaying_read:
  assumes "has_room rid db" and "find_row (\<lambda>t. track_id t = tid) (db_tracks db) = Some t"
  shows "\<exists>db'. SetNowPlaying no_faults now rid tid db = Inr db' \<and> GetNowPlaying no_faults rid db' = Inr (Some t)
    \<and> db_queue db' = db_queue db \<and> db_tracks db' = db_tracks db \<and> db_rooms db' = db_rooms db"
proof -
  have "has_track tid db" using find_row_Some [OF assms(2)] by (auto simp: has_track_def)
  then show ?thesis using assms
    by (simp add: SetNowPlaying_def GetNowPlaying_def find_row_append find_row_delete_where_same find_row_simps)
qed

text \<open>
  C6: A skip keeps the four views of what is playing in step: with the stores up, either the queue
  is empty and then playback state and now-playing row are cleared and the room is told that no
  track plays; or the first listed entry plays from now on, playback state and now-playing row name
  its track, the remaining entries are the queue, and the room is sent the track, the playback
  state and that queue, in this order.
\<close>

theorem skip_keeps_views_in_step:
  assumes "cl_is_dj (w_clients w c)" and "env_faults env = no_faults" and "env_rfaults env = (\<lambda>_. False)"
    and "env_locked env = no_locks" and "queue_ids_ok (w_pg w)" and "has_room rid (w_pg w)"
    and "\<not> hub_quit (w_hub w)" and "length (hub_broadcast (w_hub w)) + 3 \<le> channelCap"
    and "rid = hub_room (w_hub w)" and "w' = handleInbound env c ActionDJSkip w"
  shows "case queue_view rid (w_pg w) of
      [] \<Rightarrow> rd_playback (w_redis w') rid = None \<and> GetNowPlaying no_faults rid (w_pg w') = Inr None
        \<and> hub_broadcast (w_hub w') = hub_broadcast (w_hub w) @ [MTrackChanged None]
    | e # rest \<Rightarrow> (\<exists>ps t. rd_playback (w_redis w') rid = Some ps \<and> ps_playing ps
        \<and> ps_track ps = track_id (entry_track e) \<and> ps_started_at ps = unix_milli (env_now env)
        \<and> GetNowPlaying no_faults rid (w_pg w') = Inr (Some t) \<and> track_id t = ps_track ps
        \<and> queue_view rid (w_pg w') = rest
        \<and> hub_broadcast (w_hub w') = hub_broadcast (w_hub w)
            @ [MTrackChanged (Some (entry_track e)), MPlaybackState ps, MQueueUpdate rest])"
proof (cases "queue_view rid (w_pg w)")
  case Nil
  then show ?thesis
    using assms by (simp add: dj_only_def skipToNext_def Let_def PopNextTrack_def pop_select_no_locks
        ClearPlaybackState_def ClearNowPlaying_def GetNowPlaying_def find_row_delete_where_same enqueue_more)
next
  case (Cons e rest)
  let ?tid = "track_id (entry_track e)" and ?ps = "playing_from env w e"
  let ?db = "pop_commit e (w_pg w)"
  have pop: "PopNextTrack no_faults no_locks rid (w_pg w) = Inr (?db, Some e)"
    using Cons by (simp add: PopNextTrack_def pop_select_no_locks)
  obtain t where t: "find_row (\<lambda>x. track_id x = ?tid) (db_tracks (w_pg w)) = Some t"
    using queue_view_has_track [of e rid "w_pg w"] Cons by auto
  obtain db' where db': "SetNowPlaying no_faults (env_now env) rid ?tid ?db = Inr db'"
      "GetNowPlaying no_faults rid db' = Inr (Some t)" "db_queue db' = db_queue ?db" "db_tracks db' = db_tracks ?db"
    using SetNowPlaying_read [of rid ?db ?tid t "env_now env"] assms(6) t
    by (auto simp: pop_commit_def has_room_def)
  have "approved_rows rid db' = approved_rows rid ?db" "join_track db' = join_track ?db"
    using db' by (auto simp: approved_rows_def intro!: join_track_same)
  then have view: "queue_view rid db' = rest"
    using queue_view_pop_commit [OF assms(5) Cons] by (simp add: queue_view_def)
  have w': "w_pg w' = db'" "rd_playback (w_redis w') rid = Some ?ps"
      "hub_broadcast (w_hub w') = hub_broadcast (w_hub w) @ [MTrackChanged (Some (entry_track e)), MPlaybackState ?ps, MQueueUpdate rest]"
    using assms pop db'(1) view
    by (simp_all add: dj_only_def skipToNext_def Let_def SetPlaybackState_def broadcastQueue_def GetQueue_view
        enqueue_more playing_from_def)
  then show ?thesis using Cons db'(2) view find_row_Some [OF t] by (simp add: playing_from_def)
qed


theorem skip_keeps_views_in_step_witness:
  "\<exists>ps rest. hub_broadcast (w_hub (handleInbound (demo_env 7) 1 ActionDJSkip (demo_stage PolicyOpen)))
      = [MTrackChanged (Some ((demo_track ''t2'')\<lparr>track_created_at := zero_time\<rparr>)), MPlaybackState ps, MQueueUpdate rest]
    \<and> ps_track ps = ''t2''"
proof -
  have view: "queue_view ''r'' (w_pg (demo_stage PolicyOpen)) = map (the \<circ> join_track demo_db)
      [demo_row ''b'' ''t2'' QueueApproved 1, demo_row ''a'' ''t1'' QueueApproved 2]"
    by (simp add: queue_view_def approved_rows_def order_by_def demo_db_def demo_row_def map_filter_simps
        join_track_def find_row_simps demo_track_def)
  have h: "cl_is_dj (w_clients (demo_stage PolicyOpen) 1)" "queue_ids_ok (w_pg (demo_stage PolicyOpen))"
    "has_room ''r'' (w_pg (demo_stage PolicyOpen))" "\<not> hub_quit (w_hub (demo_stage PolicyOpen))"
    "hub_broadcast (w_hub (demo_stage PolicyOpen)) = []" "''r'' = hub_room (w_hub (demo_stage PolicyOpen))"
    by (simp_all add: queue_ids_ok_def demo_db_def demo_row_def has_room_def demo_room_def demo_stage_def
        demo_world_def NewHub_def demo_client_def)
  have track: "entry_track (the (join_track demo_db (demo_row ''b'' ''t2'' QueueApproved 1))) = (demo_track ''t2'')\<lparr>track_created_at := zero_time\<rparr>"
    by (simp add: join_track_def demo_db_def demo_row_def find_row_simps demo_track_def)
  have cap: "length (hub_broadcast (w_hub (demo_stage PolicyOpen))) + 3 \<le> channelCap"
    by (simp add: h(5) channelCap_def)
  note r = skip_keeps_views_in_step [OF h(1) demo_env_simps(2) [of 7] demo_env_simps(3) demo_env_simps(5) h(2) h(3) h(4) cap h(6) refl]
  from r show ?thesis
    unfolding view h(5) by (auto simp: track demo_track_def)
qed

end
