(* ===== verification/HubLifecycle.thy ===== *)
theory HubLifecycle
  imports HubActionProps
begin

text \<open>
  A room's hub as a transition system: registrations, departures, broadcasts, inbound actions and
  the two ways of shutting down, interleaved freely. Each step is one critical section or one
  channel hand-over of \<open>internal/ws/hub.go\<close>. The invariant settles the race between a client
  that registers and a hub that decides it is idle.
\<close>

section \<open>Quiet operations\<close>

text \<open>
  An operation is quiet when it touches neither the registration state nor the microphone's
  owner, keeps every connection's DJ flag, and closes channels at most.
\<close>

definition quiet :: "world \<Rightarrow> world \<Rightarrow> bool" where
  "quiet w w' \<longleftrightarrow> reg_state (w_hub w') = reg_state (w_hub w) \<and> w_shutdowns w' = w_shutdowns w
     \<and> hub_mic_owner (w_hub w') = hub_mic_owner (w_hub w)
     \<and> (\<forall>c. cl_is_dj (w_clients w' c) = cl_is_dj (w_clients w c)
          \<and> (cl_registered (w_clients w c) \<longrightarrow> cl_registered (w_clients w' c))
          \<and> (cl_done (w_clients w c) \<longrightarrow> cl_done (w_clients w' c)))"

named_theorems quiets "compositional rules for quiet operations"

lemma quiet_refl [simp, intro!, quiets]: "quiet w w"
  by (simp add: quiet_def)

lemma quiet_trans: "quiet w v \<Longrightarrow> quiet v u \<Longrightarrow> quiet w u"
  unfolding quiet_def by (elim conjE) (intro conjI; simp)

lemma quiet_broadcastJSON [quiets]: "quiet w v \<Longrightarrow> quiet w (broadcastJSON env m v)"
  by (rule quiet_trans) (auto simp: quiet_def reg_state_fields)

lemma quiet_pg_do [quiets]: "quiet w v \<Longrightarrow> quiet w (pg_do h v)"
  by (rule quiet_trans) (auto simp: quiet_def)

lemma quiet_redis_do [quiets]: "quiet w v \<Longrightarrow> quiet w (redis_do h v)"
  by (rule quiet_trans) (auto simp: quiet_def)

lemma quiet_pg [quiets]: "quiet w v \<Longrightarrow> quiet w (v\<lparr>w_pg := db\<rparr>)"
  by (rule quiet_trans) (auto simp: quiet_def)

lemma quiet_reports [quiets]: "quiet w v \<Longrightarrow> quiet w (v\<lparr>w_reports := r\<rparr>)"
  by (rule quiet_trans) (auto simp: quiet_def)

lemma quiet_persistChat [quiets]: "quiet w v \<Longrightarrow> quiet w (persistChat m v)"
  by (rule quiet_trans) (auto simp: quiet_def)

lemma quiet_on_client [quiets]:
  assumes "quiet w v" and "\<And>x. cl_is_dj (f x) = cl_is_dj x"
    and "\<And>x. cl_registered x \<Longrightarrow> cl_registered (f x)" and "\<And>x. cl_done x \<Longrightarrow> cl_done (f x)"
  shows "quiet w (on_client c f v)"
  by (rule quiet_trans [OF assms(1)]) (auto simp: quiet_def on_client_apply assms(2-))

lemma quiet_on_hub [quiets]:
  assumes "quiet w v" and "\<And>h. reg_state (f h) = reg_state h" and "\<And>h. hub_mic_owner (f h) = hub_mic_owner h"
  shows "quiet w (on_hub f v)"
  by (rule quiet_trans [OF assms(1)]) (auto simp: quiet_def assms(2-))

lemma client_sends_simp [simp]:
  "cl_is_dj (sendError m x) = cl_is_dj x" "cl_registered (sendError m x) = cl_registered x" "cl_done (sendError m x) = cl_done x"
  "cl_is_dj (rejectSubmit m x) = cl_is_dj x" "cl_registered (rejectSubmit m x) = cl_registered x" "cl_done (rejectSubmit m x) = cl_done x"
  "cl_is_dj (sendSubmitResult b m x) = cl_is_dj x" "cl_registered (sendSubmitResult b m x) = cl_registered x"
  "cl_done (sendSubmitResult b m x) = cl_done x"
  by (simp_all add: sendError_def rejectSubmit_def sendSubmitResult_def)

lemma quiet_errorTo [quiets]: "quiet w v \<Longrightarrow> quiet w (errorTo c m v)"
  unfolding errorTo_def by (rule quiet_on_client) auto

lemma quiet_rejectTo [quiets]: "quiet w v \<Longrightarrow> quiet w (rejectTo c m v)"
  unfolding rejectTo_def by (rule quiet_on_client) auto

lemma quiet_notify_list: "quiet w v \<Longrightarrow> quiet w (notify_list m cl v)"
proof (induction m cl v rule: notify_list.induct)
  case (2 m c rest v)
  have "quiet w (if cl_is_dj (w_clients v c) then on_client c (SendJSON m) v else v)"
    using 2(2) by (auto intro: quiet_on_client)
  then show ?case using 2(1) by simp
qed simp

lemma quiet_notifyDJs [quiets]: "quiet w v \<Longrightarrow> quiet w (notifyDJs m v)"
  by (simp add: notifyDJs_def quiet_notify_list)

lemma quiet_broadcastQueue [quiets]: "quiet w v \<Longrightarrow> quiet w (broadcastQueue env v)"
  by (simp add: broadcastQueue_def quiet_broadcastJSON)

lemma quiet_put_playback [quiets]: "quiet w v \<Longrightarrow> quiet w (put_playback env ps v)"
  by (simp add: put_playback_def quiets)

lemma quiet_say_system [quiets]: "quiet w v \<Longrightarrow> quiet w (say_system env c suffix v)"
  by (simp add: say_system_def Let_def quiets)

lemma quiet_sendAll [quiets]: "quiet w v \<Longrightarrow> quiet w (sendAll c ms v)"
  by (rule quiet_trans) (auto simp: quiet_def)

lemma quiet_sendTo [quiets]: "quiet w v \<Longrightarrow> quiet w (sendTo c m v)"
  unfolding sendTo_def by (rule quiet_on_client) auto

lemma quiet_broadcastListenerList [quiets]: "quiet w v \<Longrightarrow> quiet w (broadcastListenerList env v)"
  by (simp add: broadcastListenerList_def quiets)

lemma quiet_updateListenerCount [quiets]: "quiet w v \<Longrightarrow> quiet w (updateListenerCount env mut v)"
  by (rule quiet_trans) (auto simp: quiet_def)

lemma quiet_sendInitialState [quiets]: "quiet w v \<Longrightarrow> quiet w (sendInitialState env c v)"
  by (simp add: sendInitialState_def Let_def quiets)

lemma quiet_onRegister [quiets]: "quiet w v \<Longrightarrow> quiet w (onRegister env c v)"
  by (auto simp: onRegister_def onRegister_listen_def Let_def intro!: quiets)

lemma quiet_onUnregister_io [quiets]: "quiet w v \<Longrightarrow> quiet w (onUnregister_io env c v)"
  by (auto simp: onUnregister_io_def Let_def intro!: quiets)

lemma quiet_submit_store [quiets]: "quiet w v \<Longrightarrow> quiet w (submit_store env c p room v)"
  by (auto simp: submit_store_def Let_def intro!: quiets split: sum.split prod.split)

text \<open>Every inbound action but the microphone's is quiet, and that one sets the owner at most.\<close>

lemma quiet_handleInbound:
  assumes "\<forall>p. a \<noteq> ActionDJMic p"
  shows "quiet w (handleInbound env c a w)"
  using assms
  by (cases a)
    (auto simp: handle_chat_def handle_reaction_def handle_submit_def handle_pause_def handle_resume_def
      skipToNext_def handle_approve_def handle_reject_def handle_set_policy_def handle_announce_def
      handle_go_live_def handle_end_def handle_report_duration_def handle_autoplay_end_def stamp_report_def
      dj_only_def Let_def intro!: quiets split: option.split sum.split prod.split)

lemma handle_mic_effect:
  "quiet w (handleInbound env c (ActionDJMic p) w)
   \<or> (c \<in> set (hub_clients (w_hub w)) \<and> cl_is_dj (w_clients w c)
      \<and> hub_mic_owner (w_hub (handleInbound env c (ActionDJMic p) w)) \<in> {Some c, None}
      \<and> reg_state (w_hub (handleInbound env c (ActionDJMic p) w)) = reg_state (w_hub w)
      \<and> w_shutdowns (handleInbound env c (ActionDJMic p) w) = w_shutdowns w
      \<and> w_clients (handleInbound env c (ActionDJMic p) w) = w_clients w)"
  by (auto simp: dj_only_def handle_mic_def reg_state_def intro!: quiets split: option.split)

section \<open>The transition system\<close>

text \<open>
  Where a connection stands: not yet presented to the hub; counted in \<open>pendingRegs\<close>; received by
  the loop; refused by the loop; turned away by \<open>RegisterClient\<close>; handed back and its
  \<open>onUnregister\<close> started; past its microphone section; past the database check of an idle hub;
  holding the idle decision; finished.
\<close>

datatype phase = Fresh | Claimed | Joined | Refused | TurnedAway | Leaving | Deciding | Checking | Committed | Gone

record sys =
  sy_w :: world
  sy_phase :: "cid \<Rightarrow> phase"
  sy_running :: bool
  sy_idle :: bool
  sy_djstop :: bool

text \<open>\<open>sy_idle\<close> and \<open>sy_djstop\<close> record which of the two stop decisions has been taken.\<close>

definition sys_init :: "string \<Rightarrow> string \<Rightarrow> world \<Rightarrow> sys" where
  "sys_init rid slug w = \<lparr>sy_w = w\<lparr>w_hub := NewHub rid slug, w_shutdowns := 0\<rparr>,
     sy_phase = (\<lambda>_. Fresh), sy_running = True, sy_idle = False, sy_djstop = False\<rparr>"

definition goto :: "cid \<Rightarrow> phase \<Rightarrow> world \<Rightarrow> sys \<Rightarrow> sys" where
  "goto c ph w s = s\<lparr>sy_w := w, sy_phase := (sy_phase s)(c := ph)\<rparr>"

definition dj_leaves_unstarted :: "env \<Rightarrow> cid \<Rightarrow> world \<Rightarrow> bool" where
  "dj_leaves_unstarted env c w \<longleftrightarrow>
     cl_is_dj (w_clients w c) \<and> WasRoomEverLive (env_faults env) (hub_room (w_hub w)) (w_pg w) = Inr False"

definition dj_teardown :: "env \<Rightarrow> world \<Rightarrow> world" where
  "dj_teardown env w = (let rid = hub_room (w_hub w) in
     redis_do (ClearListeners (env_rfaults env) rid) (redis_do (ClearPlaybackState (env_rfaults env) rid)
       (pg_do (DeleteRoom (env_faults env) rid) (broadcastJSON env (MRoomEnded ''The DJ left before going live'') w))))"

definition room_offline :: "env \<Rightarrow> world \<Rightarrow> bool" where
  "room_offline env w = (case deref_or_zero zero_room (GetRoomByID (env_faults env) (hub_room (w_hub w)) (w_pg w)) of
     None \<Rightarrow> True | Some r \<Rightarrow> \<not> room_is_live r)"

inductive hub_step :: "sys \<Rightarrow> sys \<Rightarrow> bool" where
  claim: "sy_phase s c = Fresh \<Longrightarrow> RegisterClient_claim (w_hub (sy_w s)) = (h, ok)
    \<Longrightarrow> hub_step s (goto c (if ok then Claimed else TurnedAway) ((sy_w s)\<lparr>w_hub := h\<rparr>) s)"
| abort: "sy_phase s c = Claimed \<Longrightarrow> hub_quit (w_hub (sy_w s))
    \<Longrightarrow> hub_step s (goto c TurnedAway (on_hub RegisterClient_abort (sy_w s)) s)"
| received: "sy_phase s c = Claimed \<Longrightarrow> sy_running s
    \<Longrightarrow> hub_step s (goto c (if hub_stopping (w_hub (sy_w s)) then Refused else Joined) (Run_register c (sy_w s)) s)"
| joining: "sy_phase s c = Joined \<or> sy_phase s c = Leaving \<Longrightarrow> \<not> cl_registered (w_clients (sy_w s) c)
    \<Longrightarrow> hub_step s (s\<lparr>sy_w := onRegister env c (sy_w s)\<rparr>)"
| handed_back: "sy_phase s c = Joined \<or> sy_phase s c = Refused \<Longrightarrow> sy_running s
    \<Longrightarrow> hub_step s (goto c Leaving (Run_unregister c (sy_w s)) s)"
| dropped: "sy_phase s c = Joined \<or> sy_phase s c = Refused \<Longrightarrow> hub_quit (w_hub (sy_w s))
    \<Longrightarrow> hub_step s (goto c Gone (unregister_dead c (sy_w s)) s)"
| leave: "sy_phase s c = Leaving \<Longrightarrow> cl_registered (w_clients (sy_w s) c)
    \<Longrightarrow> hub_step s (goto c Deciding (onUnregister_mic env c (onUnregister_io env c (sy_w s))) s)"
| dj_left: "sy_phase s c = Deciding \<Longrightarrow> dj_leaves_unstarted env c (sy_w s)
    \<Longrightarrow> hub_step s ((goto c Gone (stop (dj_teardown env (sy_w s))) s)\<lparr>sy_djstop := True\<rparr>)"
| stays: "sy_phase s c = Deciding \<Longrightarrow> \<not> dj_leaves_unstarted env c (sy_w s)
    \<Longrightarrow> clientCount (w_hub (sy_w s)) \<noteq> 0 \<or> \<not> room_offline env (sy_w s)
    \<Longrightarrow> hub_step s (goto c Gone (sy_w s) s)"
| looks_idle: "sy_phase s c = Deciding \<Longrightarrow> \<not> dj_leaves_unstarted env c (sy_w s)
    \<Longrightarrow> clientCount (w_hub (sy_w s)) = 0 \<Longrightarrow> room_offline env (sy_w s)
    \<Longrightarrow> hub_step s (goto c Checking (sy_w s) s)"
| decide: "sy_phase s c = Checking \<Longrightarrow> idle_commit (w_hub (sy_w s)) = (h, idle)
    \<Longrightarrow> hub_step s ((goto c (if idle then Committed else Gone) ((sy_w s)\<lparr>w_hub := h\<rparr>) s)\<lparr>sy_idle := sy_idle s \<or> idle\<rparr>)"
| commit: "sy_phase s c = Committed \<Longrightarrow> hub_step s (goto c Gone (stop (sy_w s)) s)"
| fan: "sy_running s \<Longrightarrow> hub_step s (s\<lparr>sy_w := Run_broadcast (sy_w s)\<rparr>)"
| finish: "sy_running s \<Longrightarrow> hub_quit (w_hub (sy_w s))
    \<Longrightarrow> hub_step s (s\<lparr>sy_w := Run_quit (sy_w s), sy_running := False\<rparr>)"
| inbound: "sy_phase s c \<noteq> Fresh \<Longrightarrow> hub_step s (s\<lparr>sy_w := handleInbound env c a (sy_w s)\<rparr>)"
| list_timer: "hub_step s (s\<lparr>sy_w := listener_timer_fires env (sy_w s)\<rparr>)"
| persist: "hub_step s (s\<lparr>sy_w := persist_step f (sy_w s)\<rparr>)"
| outside: "hub_step s (s\<lparr>sy_w := broadcastJSON env m (sy_w s)\<rparr>)"

inductive reachable :: "sys \<Rightarrow> bool" where
  start: "reachable (sys_init rid slug w)"
| step: "reachable s \<Longrightarrow> hub_step s t \<Longrightarrow> reachable t"

text \<open>The steps of a departure, run in a row, are the function \<open>onUnregister\<close>.\<close>

lemma onUnregister_as_steps:
  "onUnregister env c w =
     (let v = onUnregister_mic env c (onUnregister_io env c w) in
      if dj_leaves_unstarted env c v then stop (dj_teardown env v)
      else if clientCount (w_hub v) \<noteq> 0 \<or> \<not> room_offline env v then v
      else (case idle_commit (w_hub v) of (h, idle) \<Rightarrow>
        if idle then stop (v\<lparr>w_hub := h\<rparr>) else v\<lparr>w_hub := h\<rparr>))"
proof -
  define v where "v = onUnregister_mic env c (onUnregister_io env c w)"
  have r: "hub_room (w_hub v) = hub_room (w_hub w)" by (simp add: v_def)
  have hub: "on_hub (\<lambda>_. h) v = v\<lparr>w_hub := h\<rparr>" for h by (simp add: on_hub_def)
  show ?thesis
    unfolding onUnregister_def v_def [symmetric] Let_def dj_leaves_unstarted_def dj_teardown_def r
    by (auto simp: onUnregister_idle_def room_offline_def hub Let_def split: prod.split)
qed

section \<open>The invariant\<close>

definition claimed :: "sys \<Rightarrow> cid set" where
  "claimed s = {c. sy_phase s c = Claimed}"

definition counts_ok :: "sys \<Rightarrow> bool" where
  "counts_ok s \<longleftrightarrow> finite (claimed s) \<and> hub_pending (w_hub (sy_w s)) = int (card (claimed s))
     \<and> distinct (hub_clients (w_hub (sy_w s)))
     \<and> (\<forall>c \<in> set (hub_clients (w_hub (sy_w s))). sy_phase s c = Joined \<or> hub_quit (w_hub (sy_w s)) \<and> sy_phase s c = Gone)"

definition stopping_ok :: "sys \<Rightarrow> bool" where
  "stopping_ok s \<longleftrightarrow> (hub_quit (w_hub (sy_w s)) \<longrightarrow> hub_stopping (w_hub (sy_w s)))
     \<and> w_shutdowns (sy_w s) = (if hub_quit (w_hub (sy_w s)) then 1 else 0)
     \<and> (hub_stopping (w_hub (sy_w s)) \<longleftrightarrow> sy_idle s \<or> sy_djstop s)
     \<and> (sy_djstop s \<longrightarrow> hub_quit (w_hub (sy_w s)))
     \<and> (\<forall>c. sy_phase s c = Committed \<longrightarrow> sy_idle s)"

definition idle_ok :: "sys \<Rightarrow> bool" where
  "idle_ok s \<longleftrightarrow> (sy_idle s \<and> \<not> sy_djstop s \<longrightarrow> hub_clients (w_hub (sy_w s)) = [] \<and> claimed s = {})"

definition refused_ok :: "sys \<Rightarrow> bool" where
  "refused_ok s \<longleftrightarrow> (\<forall>c. sy_phase s c = Refused \<longrightarrow> sy_djstop s
     \<and> cl_registered (w_clients (sy_w s) c) \<and> cl_done (w_clients (sy_w s) c))"

definition mic_ok :: "sys \<Rightarrow> bool" where
  "mic_ok s \<longleftrightarrow> hub_quit (w_hub (sy_w s)) \<or> (\<forall>c. hub_mic_owner (w_hub (sy_w s)) = Some c \<longrightarrow>
     (sy_phase s c = Joined \<or> sy_phase s c = Leaving) \<and> cl_is_dj (w_clients (sy_w s) c))"

definition joined_ok :: "sys \<Rightarrow> bool" where
  "joined_ok s \<longleftrightarrow> (\<forall>c. sy_phase s c = Joined \<longrightarrow>
     c \<in> set (hub_clients (w_hub (sy_w s))) \<or> cl_done (w_clients (sy_w s) c))"

definition hub_inv :: "sys \<Rightarrow> bool" where
  "hub_inv s \<longleftrightarrow> counts_ok s \<and> stopping_ok s \<and> idle_ok s \<and> refused_ok s \<and> mic_ok s \<and> joined_ok s"

lemmas hub_inv_defs = hub_inv_def counts_ok_def stopping_ok_def idle_ok_def refused_ok_def mic_ok_def joined_ok_def

lemma hub_invI: "counts_ok s \<Longrightarrow> stopping_ok s \<Longrightarrow> idle_ok s \<Longrightarrow> refused_ok s \<Longrightarrow> mic_ok s \<Longrightarrow> joined_ok s \<Longrightarrow> hub_inv s"
  by (simp add: hub_inv_def)

lemma hub_invD: "hub_inv s \<Longrightarrow> counts_ok s" "hub_inv s \<Longrightarrow> stopping_ok s" "hub_inv s \<Longrightarrow> idle_ok s"
  "hub_inv s \<Longrightarrow> refused_ok s" "hub_inv s \<Longrightarrow> mic_ok s"
  "hub_inv s \<Longrightarrow> joined_ok s"
  by (simp_all add: hub_inv_def)

lemma claimed_goto [simp]:
  "claimed (goto c ph w s) = (if ph = Claimed then insert c (claimed s) else claimed s - {c})"
  by (auto simp: claimed_def goto_def)

lemma goto_simps [simp]:
  "sy_w (goto c ph w s) = w" "sy_phase (goto c ph w s) d = (if d = c then ph else sy_phase s d)"
  "sy_idle (goto c ph w s) = sy_idle s" "sy_djstop (goto c ph w s) = sy_djstop s" "sy_running (goto c ph w s) = sy_running s"
  by (simp_all add: goto_def)

lemma claimed_simps [simp]:
  "claimed (s\<lparr>sy_w := w\<rparr>) = claimed s" "claimed (s\<lparr>sy_djstop := b\<rparr>) = claimed s"
  "claimed (s\<lparr>sy_idle := b\<rparr>) = claimed s" "claimed (s\<lparr>sy_running := b\<rparr>) = claimed s"
  "c \<in> claimed s \<longleftrightarrow> sy_phase s c = Claimed"
  by (simp_all add: claimed_def)

lemma inv_init: "hub_inv (sys_init rid slug w)"
  by (simp add: hub_inv_defs sys_init_def claimed_def NewHub_def)

lemma inv_quiet: "hub_inv s \<Longrightarrow> quiet (sy_w s) w \<Longrightarrow> hub_inv (s\<lparr>sy_w := w\<rparr>)"
  unfolding hub_inv_def
proof (elim conjE, intro conjI)
  assume q: "quiet (sy_w s) w" and inv: "counts_ok s" "stopping_ok s" "idle_ok s" "refused_ok s" "mic_ok s" "joined_ok s"
  have r: "hub_clients (w_hub w) = hub_clients (w_hub (sy_w s))" "hub_stopping (w_hub w) = hub_stopping (w_hub (sy_w s))"
    "hub_quit (w_hub w) = hub_quit (w_hub (sy_w s))" "hub_pending (w_hub w) = hub_pending (w_hub (sy_w s))"
    "w_shutdowns w = w_shutdowns (sy_w s)" "hub_mic_owner (w_hub w) = hub_mic_owner (w_hub (sy_w s))"
    "\<And>c. cl_is_dj (w_clients w c) = cl_is_dj (w_clients (sy_w s) c)"
    "\<And>c. cl_registered (w_clients (sy_w s) c) \<Longrightarrow> cl_registered (w_clients w c)"
    "\<And>c. cl_done (w_clients (sy_w s) c) \<Longrightarrow> cl_done (w_clients w c)"
    using q by (simp_all add: quiet_def reg_state_fields)
  show "counts_ok (s\<lparr>sy_w := w\<rparr>)" using inv(1) by (simp add: counts_ok_def r)
  show "stopping_ok (s\<lparr>sy_w := w\<rparr>)" using inv(2) by (auto simp: stopping_ok_def r)
  show "idle_ok (s\<lparr>sy_w := w\<rparr>)" using inv(3) by (simp add: idle_ok_def r)
  show "refused_ok (s\<lparr>sy_w := w\<rparr>)" using inv(4) by (simp add: refused_ok_def r)
  show "mic_ok (s\<lparr>sy_w := w\<rparr>)" using inv(5) by (simp add: mic_ok_def r)
  show "joined_ok (s\<lparr>sy_w := w\<rparr>)" using inv(6) r(9) by (auto simp: joined_ok_def r(1))
qed

lemma inv_claim:
  assumes "hub_inv s" and "sy_phase s c = Fresh" and "RegisterClient_claim (w_hub (sy_w s)) = (h, ok)"
  shows "hub_inv (goto c (if ok then Claimed else TurnedAway) ((sy_w s)\<lparr>w_hub := h\<rparr>) s)"
proof -
  have c: "c \<notin> claimed s" "c \<notin> set (hub_clients (w_hub (sy_w s)))"
    using assms(1,2) by (auto simp: hub_inv_def counts_ok_def)
  have h: "h = (if ok then (w_hub (sy_w s))\<lparr>hub_pending := hub_pending (w_hub (sy_w s)) + 1\<rparr> else w_hub (sy_w s))"
    "ok \<longleftrightarrow> \<not> hub_stopping (w_hub (sy_w s))"
    using assms(3) by (auto simp: RegisterClient_claim_def split: if_splits)
  note inv = hub_invD [OF assms(1)]
  show ?thesis
  proof (rule hub_invI)
    show "counts_ok (goto c (if ok then Claimed else TurnedAway) ((sy_w s)\<lparr>w_hub := h\<rparr>) s)"
      using inv(1) c by (auto simp: counts_ok_def h(1))
    show "stopping_ok (goto c (if ok then Claimed else TurnedAway) ((sy_w s)\<lparr>w_hub := h\<rparr>) s)"
      using inv(2) by (auto simp: stopping_ok_def h(1))
    show "idle_ok (goto c (if ok then Claimed else TurnedAway) ((sy_w s)\<lparr>w_hub := h\<rparr>) s)"
      using inv(2,3) by (auto simp: idle_ok_def stopping_ok_def h)
    show "refused_ok (goto c (if ok then Claimed else TurnedAway) ((sy_w s)\<lparr>w_hub := h\<rparr>) s)"
      using inv(4) by (simp add: refused_ok_def)
    show "mic_ok (goto c (if ok then Claimed else TurnedAway) ((sy_w s)\<lparr>w_hub := h\<rparr>) s)"
      using inv(5) assms(2) by (auto simp: mic_ok_def h(1))
    show "joined_ok (goto c (if ok then Claimed else TurnedAway) ((sy_w s)\<lparr>w_hub := h\<rparr>) s)"
      using inv(6) by (auto simp: joined_ok_def h(1))
  qed
qed

lemma inv_abort:
  assumes "hub_inv s" and "sy_phase s c = Claimed" and "hub_quit (w_hub (sy_w s))"
  shows "hub_inv (goto c TurnedAway (on_hub RegisterClient_abort (sy_w s)) s)"
proof -
  note inv = hub_invD [OF assms(1)]
  have card: "int (card (claimed s - {c})) = int (card (claimed s)) - 1"
    using inv(1) assms(2) by (intro card_release) (auto simp: counts_ok_def)
  show ?thesis
  proof (rule hub_invI)
    show "counts_ok (goto c TurnedAway (on_hub RegisterClient_abort (sy_w s)) s)"
      using inv(1) card assms(2) by (auto simp: counts_ok_def RegisterClient_abort_def)
    show "stopping_ok (goto c TurnedAway (on_hub RegisterClient_abort (sy_w s)) s)"
      using inv(2) by (auto simp: stopping_ok_def RegisterClient_abort_def)
    show "idle_ok (goto c TurnedAway (on_hub RegisterClient_abort (sy_w s)) s)"
      using inv(3) by (simp add: idle_ok_def RegisterClient_abort_def)
    show "refused_ok (goto c TurnedAway (on_hub RegisterClient_abort (sy_w s)) s)"
      using inv(4) by (simp add: refused_ok_def)
    show "mic_ok (goto c TurnedAway (on_hub RegisterClient_abort (sy_w s)) s)"
      using assms(3) by (simp add: mic_ok_def RegisterClient_abort_def)
    show "joined_ok (goto c TurnedAway (on_hub RegisterClient_abort (sy_w s)) s)"
      using inv(6) by (auto simp: joined_ok_def RegisterClient_abort_def)
  qed
qed

lemma inv_received:
  assumes "hub_inv s" and "sy_phase s c = Claimed"
  shows "hub_inv (goto c (if hub_stopping (w_hub (sy_w s)) then Refused else Joined) (Run_register c (sy_w s)) s)"
    (is "hub_inv ?t")
proof -
  note inv = hub_invD [OF assms(1)]
  have card: "int (card (claimed s - {c})) = int (card (claimed s)) - 1"
    using inv(1) assms(2) by (intro card_release) (auto simp: counts_ok_def)
  have c: "c \<notin> set (hub_clients (w_hub (sy_w s)))" using inv(1) assms(2) by (auto simp: counts_ok_def)
  have dj: "sy_djstop s" if "hub_stopping (w_hub (sy_w s))"
    using that inv(2,3) assms(2) claimed_simps(5) [of c s] by (auto simp: stopping_ok_def idle_ok_def)
  show ?thesis
  proof (rule hub_invI)
    show "counts_ok ?t" using inv(1) card c assms(2) by (auto simp: counts_ok_def Run_register_def)
    show "stopping_ok ?t" using inv(2) by (auto simp: stopping_ok_def Run_register_def)
    show "idle_ok ?t" using inv(2,3) dj assms(2) by (auto simp: idle_ok_def stopping_ok_def Run_register_def)
    show "refused_ok ?t" using inv(4) dj by (auto simp: refused_ok_def Run_register_def on_client_apply close_def)
    show "mic_ok ?t" using inv(5) assms(2) by (auto simp: mic_ok_def Run_register_def on_client_apply close_def)
    show "joined_ok ?t" using inv(6) by (auto simp: joined_ok_def Run_register_def on_client_apply close_def)
  qed
qed

lemma inv_handed_back:
  assumes "hub_inv s" and "sy_phase s c = Joined \<or> sy_phase s c = Refused"
  shows "hub_inv (goto c Leaving (Run_unregister c (sy_w s)) s)"
    (is "hub_inv ?t")
proof -
  note inv = hub_invD [OF assms(1)]
  have nc: "claimed s - {c} = claimed s" using assms(2) by auto
  have cl: "hub_clients (w_hub (Run_unregister c (sy_w s))) = removeAll c (hub_clients (w_hub (sy_w s)))"
    by (simp add: Run_unregister_def)
  show ?thesis
  proof (rule hub_invI)
    show "counts_ok ?t" using inv(1) by (auto simp: counts_ok_def cl nc) (auto simp: Run_unregister_def distinct_removeAll)
    show "stopping_ok ?t" using inv(2) by (auto simp: stopping_ok_def Run_unregister_def)
    show "idle_ok ?t" using inv(3) by (auto simp: idle_ok_def Run_unregister_def)
    show "refused_ok ?t" using inv(4) by (auto simp: refused_ok_def Run_unregister_def on_client_apply)
    show "mic_ok ?t" using inv(5) assms(2) by (auto simp: mic_ok_def Run_unregister_def on_client_apply close_def)
    show "joined_ok ?t" using inv(6) by (auto simp: joined_ok_def Run_unregister_def on_client_apply close_def)
  qed
qed

lemma inv_dropped:
  assumes "hub_inv s" and "sy_phase s c = Joined \<or> sy_phase s c = Refused" and "hub_quit (w_hub (sy_w s))"
  shows "hub_inv (goto c Gone (unregister_dead c (sy_w s)) s)"
    (is "hub_inv ?t")
proof -
  note inv = hub_invD [OF assms(1)]
  have nc: "claimed s - {c} = claimed s" using assms(2) by auto
  show ?thesis
  proof (rule hub_invI)
    show "counts_ok ?t" using inv(1) assms(3) by (auto simp: counts_ok_def unregister_dead_def nc)
    show "stopping_ok ?t" using inv(2) by (auto simp: stopping_ok_def unregister_dead_def)
    show "idle_ok ?t" using inv(3) by (simp add: idle_ok_def unregister_dead_def)
    show "refused_ok ?t" using inv(4) by (simp add: refused_ok_def unregister_dead_def on_client_apply)
    show "mic_ok ?t" using assms(3) by (simp add: mic_ok_def unregister_dead_def)
    show "joined_ok ?t" using inv(6) by (auto simp: joined_ok_def unregister_dead_def on_client_apply close_def)
  qed
qed

lemma inv_move:
  assumes "hub_inv s" and "quiet (sy_w s) w"
    and "sy_phase s c \<in> {Deciding, Checking, Committed}" and "ph = Gone \<or> ph = Checking \<or> ph = Committed \<and> sy_idle s"
  shows "hub_inv (goto c ph w s)"
proof -
  have i: "hub_inv (s\<lparr>sy_w := w\<rparr>)" by (rule inv_quiet) fact+
  note inv = hub_invD [OF i]
  have nc: "claimed s - {c} = claimed s" using assms(3) by auto
  show ?thesis
  proof (rule hub_invI)
    show "counts_ok (goto c ph w s)" using inv(1) assms(3,4) by (auto simp: counts_ok_def nc)
    show "stopping_ok (goto c ph w s)" using inv(2) assms(4) by (auto simp: stopping_ok_def)
    show "idle_ok (goto c ph w s)" using inv(3) assms(4) by (auto simp: idle_ok_def)
    show "refused_ok (goto c ph w s)" using inv(4) assms(4) by (auto simp: refused_ok_def)
    show "mic_ok (goto c ph w s)" using inv(5) assms(3) by (auto simp: mic_ok_def)
    show "joined_ok (goto c ph w s)" using inv(6) assms(4) by (auto simp: joined_ok_def)
  qed
qed

lemma inv_leave:
  assumes "hub_inv s" and "sy_phase s c = Leaving"
  shows "hub_inv (goto c Deciding (onUnregister_mic env c (onUnregister_io env c (sy_w s))) s)"
    (is "hub_inv ?t")
proof -
  let ?v = "onUnregister_io env c (sy_w s)"
  have i: "hub_inv (s\<lparr>sy_w := ?v\<rparr>)" by (rule inv_quiet) (auto intro: assms quiets)
  note inv = hub_invD [OF i]
  have r: "hub_clients (w_hub (onUnregister_mic env c ?v)) = hub_clients (w_hub ?v)"
    "hub_stopping (w_hub (onUnregister_mic env c ?v)) = hub_stopping (w_hub ?v)"
    "hub_quit (w_hub (onUnregister_mic env c ?v)) = hub_quit (w_hub ?v)"
    "hub_pending (w_hub (onUnregister_mic env c ?v)) = hub_pending (w_hub ?v)"
    using onUnregister_mic_frame(1) [of env c ?v, unfolded reg_state_fields] by blast+
  have owner: "hub_mic_owner (w_hub (onUnregister_mic env c ?v)) =
      (if hub_mic_owner (w_hub ?v) = Some c \<and> cl_is_dj (w_clients ?v c) then None else hub_mic_owner (w_hub ?v))"
    by (auto simp: onUnregister_mic_def Let_def)
  have nc: "claimed s - {c} = claimed s" using assms(2) by auto
  show ?thesis
  proof (rule hub_invI)
    show "counts_ok ?t" using inv(1) assms(2) by (auto simp: counts_ok_def nc r)
    show "stopping_ok ?t" using inv(2) by (auto simp: stopping_ok_def r)
    show "idle_ok ?t" using inv(3) by (auto simp: idle_ok_def r)
    show "refused_ok ?t" using inv(4) by (auto simp: refused_ok_def)
    show "mic_ok ?t" using inv(5) by (auto simp: mic_ok_def r owner)
    show "joined_ok ?t" using inv(6) by (auto simp: joined_ok_def r)
  qed
qed

lemma stop_simps [simp]:
  "hub_clients (w_hub (stop w)) = hub_clients (w_hub w)" "hub_quit (w_hub (stop w))"
  "hub_stopping (w_hub (stop w)) \<longleftrightarrow> \<not> hub_quit (w_hub w) \<or> hub_stopping (w_hub w)"
  "hub_pending (w_hub (stop w)) = hub_pending (w_hub w)" "w_clients (stop w) = w_clients w"
  "w_shutdowns (stop w) = (if hub_quit (w_hub w) then w_shutdowns w else Suc (w_shutdowns w))"
  by (simp_all add: stop_def)

lemma inv_stop:
  assumes "hub_inv s" and "sy_phase s c \<in> {Deciding, Committed}" and "dj \<or> sy_idle s"
  shows "hub_inv ((goto c Gone (stop (sy_w s)) s)\<lparr>sy_djstop := sy_djstop s \<or> dj\<rparr>)"
    (is "hub_inv ?t")
proof -
  note inv = hub_invD [OF assms(1)]
  have nc: "claimed s - {c} = claimed s" using assms(2) by auto
  show ?thesis
  proof (rule hub_invI)
    show "counts_ok ?t" using inv(1) assms(2) by (auto simp: counts_ok_def nc)
    show "stopping_ok ?t" using inv(2) assms(3) by (auto simp: stopping_ok_def)
    show "idle_ok ?t" using inv(3) by (auto simp: idle_ok_def)
    show "refused_ok ?t" using inv(4) by (auto simp: refused_ok_def)
    show "mic_ok ?t" by (simp add: mic_ok_def)
    show "joined_ok ?t" using inv(6) by (auto simp: joined_ok_def)
  qed
qed

lemma inv_dj_left:
  assumes "hub_inv s" and "sy_phase s c = Deciding"
  shows "hub_inv ((goto c Gone (stop (dj_teardown env (sy_w s))) s)\<lparr>sy_djstop := True\<rparr>)"
proof -
  have i: "hub_inv (s\<lparr>sy_w := dj_teardown env (sy_w s)\<rparr>)"
    by (rule inv_quiet) (auto simp: dj_teardown_def Let_def intro!: assms(1) quiets)
  have "(goto c Gone (stop (dj_teardown env (sy_w s))) s)\<lparr>sy_djstop := True\<rparr>
      = (goto c Gone (stop (sy_w (s\<lparr>sy_w := dj_teardown env (sy_w s)\<rparr>))) (s\<lparr>sy_w := dj_teardown env (sy_w s)\<rparr>))
          \<lparr>sy_djstop := sy_djstop (s\<lparr>sy_w := dj_teardown env (sy_w s)\<rparr>) \<or> True\<rparr>"
    by (simp add: goto_def)
  then show ?thesis using inv_stop [OF i, of c True] assms(2) by simp
qed

lemma inv_decide:
  assumes "hub_inv s" and "sy_phase s c = Checking" and "idle_commit (w_hub (sy_w s)) = (h, idle)"
  shows "hub_inv ((goto c (if idle then Committed else Gone) ((sy_w s)\<lparr>w_hub := h\<rparr>) s)\<lparr>sy_idle := sy_idle s \<or> idle\<rparr>)"
    (is "hub_inv ?t")
proof -
  note inv = hub_invD [OF assms(1)]
  have nc: "claimed s - {c} = claimed s" using assms(2) by auto
  have h: "h = (if idle then (w_hub (sy_w s))\<lparr>hub_stopping := True\<rparr> else w_hub (sy_w s))"
    "idle \<longleftrightarrow> hub_clients (w_hub (sy_w s)) = [] \<and> hub_pending (w_hub (sy_w s)) = 0"
    using assms(3) by (auto simp: idle_commit_def Let_def clientCount_def)
  have e: "idle \<Longrightarrow> claimed s = {}" using h(2) inv(1) by (auto simp: counts_ok_def)
  show ?thesis
  proof (rule hub_invI)
    show "counts_ok ?t" using inv(1) assms(2) by (auto simp: counts_ok_def nc h(1))
    show "stopping_ok ?t" using inv(2) by (auto simp: stopping_ok_def h(1))
    show "idle_ok ?t" using inv(3) e h(2) by (auto simp: idle_ok_def nc h(1))
    show "refused_ok ?t" using inv(4) by (auto simp: refused_ok_def)
    show "mic_ok ?t" using inv(5) assms(2) by (auto simp: mic_ok_def h(1))
    show "joined_ok ?t" using inv(6) by (auto simp: joined_ok_def h(1))
  qed
qed

text \<open>Fan-out only drops clients, and drops none from an empty room.\<close>

definition shrinks :: "world \<Rightarrow> world \<Rightarrow> bool" where
  "shrinks w w' \<longleftrightarrow> (\<exists>keep. hub_clients (w_hub w') = filter keep (hub_clients (w_hub w)))
     \<and> hub_stopping (w_hub w') = hub_stopping (w_hub w) \<and> hub_quit (w_hub w') = hub_quit (w_hub w)
     \<and> hub_pending (w_hub w') = hub_pending (w_hub w) \<and> hub_mic_owner (w_hub w') = hub_mic_owner (w_hub w)
     \<and> w_shutdowns w' = w_shutdowns w
     \<and> (\<forall>c \<in> set (hub_clients (w_hub w)). c \<in> set (hub_clients (w_hub w')) \<or> cl_done (w_clients w' c))
     \<and> (\<forall>c. cl_is_dj (w_clients w' c) = cl_is_dj (w_clients w c)
          \<and> (cl_registered (w_clients w c) \<longrightarrow> cl_registered (w_clients w' c))
          \<and> (cl_done (w_clients w c) \<longrightarrow> cl_done (w_clients w' c)))"

lemma shrinks_fanout:
  "distinct (hub_clients (w_hub w)) \<Longrightarrow> shrinks w (fanout m (on_hub (\<lambda>h. h\<lparr>hub_broadcast := rest\<rparr>) w))"
  unfolding shrinks_def by (auto simp: fanout_spec close_def)

lemma shrinks_trans: "shrinks w v \<Longrightarrow> shrinks v u \<Longrightarrow> shrinks w u"
  unfolding shrinks_def by (auto simp: filter_filter)

lemma shrinks_distinct: "shrinks w v \<Longrightarrow> distinct (hub_clients (w_hub w)) \<Longrightarrow> distinct (hub_clients (w_hub v))"
  by (auto simp: shrinks_def)

lemma shrinks_refl [simp]: "shrinks w w"
  unfolding shrinks_def by (auto intro: exI [of _ "\<lambda>_. True"])

lemma shrinks_flush: "distinct (hub_clients (w_hub w)) \<Longrightarrow> shrinks w (flush ms w)"
proof (induction ms arbitrary: w)
  case (Cons m ms)
  from shrinks_fanout [OF Cons.prems] have f: "shrinks w (fanout m (on_hub (\<lambda>h. h\<lparr>hub_broadcast := ms\<rparr>) w))" .
  from shrinks_trans [OF f Cons.IH [OF shrinks_distinct [OF f Cons.prems]]] show ?case by simp
qed simp

lemma inv_shrinks:
  assumes "hub_inv s" and "shrinks (sy_w s) w"
  shows "hub_inv (s\<lparr>sy_w := w, sy_running := b\<rparr>)"
    (is "hub_inv ?t")
proof -
  note inv = hub_invD [OF assms(1)]
  show ?thesis
  proof (rule hub_invI)
    show "counts_ok ?t" using inv(1) assms(2) by (auto simp: counts_ok_def shrinks_def claimed_def)
    show "stopping_ok ?t" using inv(2) assms(2) by (auto simp: stopping_ok_def shrinks_def)
    show "idle_ok ?t" using inv(3) assms(2) by (auto simp: idle_ok_def shrinks_def claimed_def)
    show "refused_ok ?t" using inv(4) assms(2) by (auto simp: refused_ok_def shrinks_def)
    show "mic_ok ?t" using inv(5) assms(2) by (auto simp: mic_ok_def shrinks_def)
    show "joined_ok ?t" using inv(6) assms(2) by (auto simp: joined_ok_def shrinks_def)
  qed
qed

lemma inv_inbound:
  assumes "hub_inv s"
  shows "hub_inv (s\<lparr>sy_w := handleInbound env c a (sy_w s)\<rparr>)"
proof (cases "quiet (sy_w s) (handleInbound env c a (sy_w s))")
  case True
  then show ?thesis by (rule inv_quiet [OF assms])
next
  case False
  then obtain p where a: "a = ActionDJMic p" using quiet_handleInbound by blast
  let ?w = "handleInbound env c (ActionDJMic p) (sy_w s)"
  note inv = hub_invD [OF assms]
  from handle_mic_effect [of "sy_w s" env c p] False a
  have e: "c \<in> set (hub_clients (w_hub (sy_w s)))" "cl_is_dj (w_clients (sy_w s) c)"
    "hub_mic_owner (w_hub ?w) \<in> {Some c, None}" "reg_state (w_hub ?w) = reg_state (w_hub (sy_w s))"
    "w_shutdowns ?w = w_shutdowns (sy_w s)" "w_clients ?w = w_clients (sy_w s)" by blast+
  then have r: "hub_clients (w_hub ?w) = hub_clients (w_hub (sy_w s))" "hub_stopping (w_hub ?w) = hub_stopping (w_hub (sy_w s))"
    "hub_quit (w_hub ?w) = hub_quit (w_hub (sy_w s))" "hub_pending (w_hub ?w) = hub_pending (w_hub (sy_w s))"
    by (simp_all add: reg_state_fields del: handleInbound.simps)
  have j: "hub_quit (w_hub (sy_w s)) \<or> sy_phase s c = Joined" using inv(1) e(1) by (auto simp: counts_ok_def)
  show ?thesis unfolding a
  proof (rule hub_invI)
    show "counts_ok (s\<lparr>sy_w := ?w\<rparr>)" using inv(1) by (simp add: counts_ok_def r del: handleInbound.simps)
    show "stopping_ok (s\<lparr>sy_w := ?w\<rparr>)" using inv(2) by (auto simp: stopping_ok_def r e(5) simp del: handleInbound.simps)
    show "idle_ok (s\<lparr>sy_w := ?w\<rparr>)" using inv(3) by (simp add: idle_ok_def r del: handleInbound.simps)
    show "refused_ok (s\<lparr>sy_w := ?w\<rparr>)" using inv(4) by (simp add: refused_ok_def e(6) del: handleInbound.simps)
    show "mic_ok (s\<lparr>sy_w := ?w\<rparr>)" using e(2,3) j by (auto simp: mic_ok_def r e(6) simp del: handleInbound.simps)
    show "joined_ok (s\<lparr>sy_w := ?w\<rparr>)" using inv(6) by (simp add: joined_ok_def r e(6) del: handleInbound.simps)
  qed
qed

theorem hub_inv_step: "hub_step s t \<Longrightarrow> hub_inv s \<Longrightarrow> hub_inv t"
proof (induction rule: hub_step.induct)
  case (fan s)
  have "shrinks (sy_w s) (Run_broadcast (sy_w s))"
    using fan.prems by (auto simp: Run_broadcast_def hub_inv_def counts_ok_def intro: shrinks_fanout split: list.split)
  from inv_shrinks [OF fan.prems this, of "sy_running s"] show ?case by simp
next
  case (finish s)
  have "shrinks (sy_w s) (Run_quit (sy_w s))"
    using finish.prems by (auto simp: Run_quit_def hub_inv_def counts_ok_def intro: shrinks_flush)
  from inv_shrinks [OF finish.prems this] show ?case .
next
  case (commit s c)
  then have "sy_idle s" by (auto simp: hub_inv_def stopping_ok_def)
  with commit(1) have "hub_inv ((goto c Gone (stop (sy_w s)) s)\<lparr>sy_djstop := sy_djstop s \<or> False\<rparr>)"
    by (intro inv_stop [OF commit.prems]) simp_all
  then show ?case by (simp only: simp_thms) (simp add: goto_def)
next
  case (persist s f)
  show ?case
    by (rule inv_quiet [OF persist.prems])
      (auto simp: persist_step_def insertChat_def reg_state_fields intro!: quiets split: list.split)
next
  case (list_timer s env)
  show ?case
    by (rule inv_quiet [OF list_timer.prems])
      (auto simp: listener_timer_fires_def reg_state_fields intro!: quiets split: option.split)
next
  case (claim s c h ok)
  then show ?case by (intro inv_claim)
next
  case (abort s c)
  then show ?case by (intro inv_abort)
next
  case (received s c)
  then show ?case by (intro inv_received)
next
  case (joining s c env)
  show ?case by (rule inv_quiet [OF joining.prems]) (intro quiets)
next
  case (decide s c h idle)
  then show ?case by (intro inv_decide)
next
  case (inbound s c env a)
  then show ?case by (intro inv_inbound)
next
  case (outside s env m)
  show ?case by (rule inv_quiet [OF outside.prems]) (intro quiets)
next
  case (stays s c env)
  then show ?case by (intro inv_move) simp_all
next
  case (looks_idle s c env)
  then show ?case by (intro inv_move) simp_all
qed (simp_all add: inv_handed_back inv_dropped inv_leave inv_dj_left)

lemma reachable_inv: "reachable s \<Longrightarrow> hub_inv s"
  by (induction rule: reachable.induct) (auto intro: inv_init hub_inv_step)

section \<open>Safety\<close>

inductive_cases hub_stepE: "hub_step s t"

text \<open>
  C1: A hub never shuts down under a connection it has accepted because it took itself for idle:
  in every reachable state in which the hub has stopped or decided to stop, and not because the DJ
  left an unstarted room, it has no connection, no registration is in flight, none has been refused
  by the loop, and whoever joined has been closed before; whatever the interleaving of
  registrations, departures and actions with the idle check. \<open>OnShutdown\<close> has been called exactly
  once if the hub has shut down and not at all before.
\<close>

theorem idle_shutdown_spares_clients:
  assumes "reachable s"
  shows "(hub_stopping (w_hub (sy_w s)) \<and> \<not> sy_djstop s \<longrightarrow>
      hub_clients (w_hub (sy_w s)) = [] \<and> hub_pending (w_hub (sy_w s)) = 0
      \<and> (\<forall>c. sy_phase s c \<noteq> Claimed \<and> sy_phase s c \<noteq> Refused
           \<and> (sy_phase s c = Joined \<longrightarrow> cl_done (w_clients (sy_w s) c))))
    \<and> w_shutdowns (sy_w s) = (if hub_quit (w_hub (sy_w s)) then 1 else 0)"
proof -
  note inv = hub_invD [OF reachable_inv [OF assms]]
  have "sy_phase s c \<noteq> Claimed" if "claimed s = {}" for c
    using that by (metis claimed_simps(5) empty_iff)
  with inv show ?thesis
    by (auto simp: counts_ok_def stopping_ok_def idle_ok_def refused_ok_def joined_ok_def)
qed

lemma demo_joined:
  "reachable (goto 1 Joined (Run_register 1 ((demo_world\<lparr>w_shutdowns := 0\<rparr>)\<lparr>w_hub := (NewHub ''r'' ''r'')\<lparr>hub_pending := 1\<rparr>\<rparr>))
     (goto 1 Claimed ((demo_world\<lparr>w_shutdowns := 0\<rparr>)\<lparr>w_hub := (NewHub ''r'' ''r'')\<lparr>hub_pending := 1\<rparr>\<rparr>) (sys_init ''r'' ''r'' demo_world)))"
proof -
  let ?s0 = "sys_init ''r'' ''r'' demo_world"
  have c: "RegisterClient_claim (w_hub (sy_w ?s0)) = ((NewHub ''r'' ''r'')\<lparr>hub_pending := 1\<rparr>, True)" "sy_phase ?s0 1 = Fresh"
    by (simp_all add: sys_init_def NewHub_def RegisterClient_claim_def)
  let ?s1 = "goto 1 Claimed ((sy_w ?s0)\<lparr>w_hub := (NewHub ''r'' ''r'')\<lparr>hub_pending := 1\<rparr>\<rparr>) ?s0"
  have r1: "reachable ?s1" using reachable.step [OF reachable.start hub_step.claim [OF c(2) c(1)]] by simp
  have h1: "sy_phase ?s1 1 = Claimed" "sy_running ?s1" "\<not> hub_stopping (w_hub (sy_w ?s1))"
    by (simp_all add: sys_init_def NewHub_def)
  from reachable.step [OF r1 hub_step.received [OF h1(1,2)]] h1(3)
  have "reachable (goto 1 Joined (Run_register 1 (sy_w ?s1)) ?s1)" by (simp only: if_False)
  then show ?thesis by (simp add: sys_init_def)
qed

definition faulty_env :: env where
  "faulty_env = (demo_env 7)\<lparr>env_faults := \<lambda>_. True\<rparr>"

lemma faulty_idle: "room_offline faulty_env w" "\<not> dj_leaves_unstarted faulty_env c w"
  by (simp_all add: room_offline_def dj_leaves_unstarted_def faulty_env_def GetRoomByID_def WasRoomEverLive_def zero_room_def)

theorem idle_shutdown_spares_clients_witness:
  "\<exists>s. reachable s \<and> hub_stopping (w_hub (sy_w s)) \<and> \<not> sy_djstop s \<and> sy_phase s 1 = Committed
     \<and> hub_clients (w_hub (sy_w s)) = []"
proof -
  obtain s2 where s2: "reachable s2" "sy_phase s2 1 = Joined" "sy_running s2" "\<not> sy_djstop s2"
      "hub_clients (w_hub (sy_w s2)) = [1]" "hub_pending (w_hub (sy_w s2)) = 0"
    using demo_joined by (auto simp: Run_register_def sys_init_def NewHub_def)
  define s3 where "s3 = (if cl_registered (w_clients (sy_w s2) 1) then s2 else s2\<lparr>sy_w := onRegister faulty_env 1 (sy_w s2)\<rparr>)"
  have "reachable s3" unfolding s3_def using s2(1,2) by (auto intro: reachable.step hub_step.joining)
  moreover have "cl_registered (w_clients (sy_w s3) 1)" by (simp add: s3_def onRegister_def Let_def on_client_apply)
  moreover have "sy_phase s3 1 = Joined" "sy_running s3" "\<not> sy_djstop s3"
    using s2 by (simp_all add: s3_def)
  moreover have "reg_state (w_hub (sy_w s3)) = reg_state (w_hub (sy_w s2))" by (simp add: s3_def)
  then have "hub_clients (w_hub (sy_w s3)) = [1]" "hub_pending (w_hub (sy_w s3)) = 0"
    using s2(5,6) by (simp_all only: reg_state_fields)
  ultimately have s3: "reachable s3" "cl_registered (w_clients (sy_w s3) 1)" "sy_phase s3 1 = Joined"
      "sy_running s3" "\<not> sy_djstop s3" "hub_clients (w_hub (sy_w s3)) = [1]" "hub_pending (w_hub (sy_w s3)) = 0" .
  let ?s4 = "goto 1 Leaving (Run_unregister 1 (sy_w s3)) s3"
  have r4: "reachable ?s4" using s3 by (intro reachable.step [OF s3(1)] hub_step.handed_back) simp_all
  have s4: "cl_registered (w_clients (sy_w ?s4) 1)" "hub_clients (w_hub (sy_w ?s4)) = []" "hub_pending (w_hub (sy_w ?s4)) = 0"
    using s3 by (simp_all add: Run_unregister_def on_client_apply close_def)
  let ?w5 = "onUnregister_mic faulty_env 1 (onUnregister_io faulty_env 1 (sy_w ?s4))"
  let ?s5 = "goto 1 Deciding ?w5 ?s4"
  have r5: "reachable ?s5" using s4(1) by (intro reachable.step [OF r4] hub_step.leave) simp_all
  have "reg_state (w_hub ?w5) = reg_state (w_hub (sy_w ?s4))" by simp
  then have s5: "hub_clients (w_hub ?w5) = []" "hub_pending (w_hub ?w5) = 0"
    using s4 by (simp_all only: reg_state_fields)
  let ?s6 = "goto 1 Checking ?w5 ?s5"
  have r6: "reachable ?s6"
    using reachable.step [OF r5 hub_step.looks_idle [of ?s5 1 faulty_env]] s5 by (simp add: faulty_idle clientCount_def)
  let ?s7 = "(goto 1 Committed (?w5\<lparr>w_hub := (w_hub ?w5)\<lparr>hub_stopping := True\<rparr>\<rparr>) ?s6)\<lparr>sy_idle := sy_idle ?s6 \<or> True\<rparr>"
  have "idle_commit (w_hub (sy_w ?s6)) = ((w_hub ?w5)\<lparr>hub_stopping := True\<rparr>, True)"
    using s5 by (simp add: idle_commit_def clientCount_def)
  from reachable.step [OF r6 hub_step.decide [OF _ this]] have r7: "reachable ?s7" by simp
  have f: "hub_stopping (w_hub (sy_w ?s7))" "\<not> sy_djstop ?s7" "sy_phase ?s7 1 = Committed" using s3(5) by simp_all
  have "hub_clients (w_hub (sy_w ?s7)) = []" using idle_shutdown_spares_clients [OF r7] f(1,2) by blast
  with r7 f show ?thesis by blast
qed

text \<open>
  C8: The microphone never outlives its holder: while the hub runs, a room whose microphone has an
  owner is held by a DJ's connection that is joined or whose departure has not been processed yet;
  an action left in the inbound queue by a dead connection cannot bring the microphone back.
\<close>

theorem mic_owner_present:
  assumes "reachable s" and "\<not> hub_quit (w_hub (sy_w s))" and "hub_mic_owner (w_hub (sy_w s)) = Some c"
  shows "cl_is_dj (w_clients (sy_w s) c) \<and> (sy_phase s c = Joined \<or> sy_phase s c = Leaving)"
  using reachable_inv [OF assms(1)] assms(2,3) by (simp add: hub_inv_def mic_ok_def)

theorem mic_owner_present_witness:
  "\<exists>s. reachable s \<and> hub_mic_owner (w_hub (sy_w s)) = Some 1 \<and> cl_is_dj (w_clients (sy_w s) 1)"
proof -
  obtain s2 where s2: "reachable s2" "sy_phase s2 1 = Joined" "\<not> hub_quit (w_hub (sy_w s2))"
      "hub_clients (w_hub (sy_w s2)) = [1]" "cl_is_dj (w_clients (sy_w s2) 1)"
    using demo_joined by (auto simp: Run_register_def sys_init_def NewHub_def demo_world_def demo_client_def)
  let ?s3 = "s2\<lparr>sy_w := handleInbound (demo_env 7) 1 (ActionDJMic (Some (True, False))) (sy_w s2)\<rparr>"
  have r: "reachable ?s3" using s2 by (intro reachable.step [OF s2(1)] hub_step.inbound) simp
  have q: "\<not> hub_quit (w_hub (sy_w ?s3))" "hub_mic_owner (w_hub (sy_w ?s3)) = Some 1"
    using s2 by (simp_all add: dj_only_def handle_mic_def)
  from mic_owner_present [OF r q] r q show ?thesis by blast
qed

text \<open>
  C9: When the DJ leaves a room that was never live, the final \<open>room_ended\<close> still reaches the
  listeners: although the hub stops at once, the loop's last turn delivers everything that was
  queued, in order and with \<open>room_ended\<close> last, to every connection with room in its buffer.
\<close>

theorem room_ended_delivered:
  assumes "distinct (hub_clients (w_hub w))" and "c \<in> set (hub_clients (w_hub w))"
    and "\<not> cl_done (w_clients w c)" and "\<not> hub_quit (w_hub w)"
    and "length (cl_send (w_clients w c)) + length (hub_broadcast (w_hub w)) < 256"
  shows "cl_send (w_clients (Run_quit (stop (dj_teardown env w))) c)
    = cl_send (w_clients w c) @ hub_broadcast (w_hub w) @ [MRoomEnded ''The DJ left before going live'']"
proof -
  have cap: "length (hub_broadcast (w_hub w)) < channelCap" using assms(5) by (simp add: channelCap_def)
  let ?v = "stop (dj_teardown env w)"
  have v: "hub_broadcast (w_hub ?v) = hub_broadcast (w_hub w) @ [MRoomEnded ''The DJ left before going live'']"
    using assms(4) cap by (simp add: dj_teardown_def Let_def stop_def enqueue_more)
  have "cl_send (w_clients (flush (hub_broadcast (w_hub ?v)) ?v) c) = cl_send (w_clients ?v c) @ hub_broadcast (w_hub ?v)"
    using assms v by (intro Run_quit_delivers) (simp_all add: dj_teardown_def Let_def sendBufferSize_def)
  then show ?thesis by (simp add: Run_quit_def v) (simp add: dj_teardown_def Let_def)
qed

theorem room_ended_delivered_witness:
  "cl_send (w_clients (Run_quit (stop (dj_teardown (demo_env 7) demo_world))) 2)
    = [MRoomEnded ''The DJ left before going live'']"
  using room_ended_delivered [of demo_world 2 "demo_env 7"]
  by (simp add: demo_world_def demo_client_def NewClient_def NewHub_def)

end
