(* ===== verification/Autoplay.thy ===== *)
theory Autoplay
  imports Store
begin

text \<open>
  The curated playlists of 24/7 rooms (\<open>internal/store/autoplay.go\<close>). A room has at most one
  playlist per status (\<open>live\<close>, \<open>staged\<close>); \<open>ap_index\<close> is the index of the track being played,
  -1 before the first one. The \<open>tracks\<close> column is JSON; its encoding is taken to be lossless.
\<close>

section \<open>Playlists\<close>

definition is_playlist :: "string \<Rightarrow> string \<Rightarrow> AutoplayPlaylist \<Rightarrow> bool" where
  "is_playlist rid status p \<longleftrightarrow> ap_room p = rid \<and> ap_status p = status"

definition GetAutoplayPlaylist :: "faults \<Rightarrow> string \<Rightarrow> string \<Rightarrow> pgdb \<Rightarrow> AutoplayPlaylist option fallible" where
  "GetAutoplayPlaylist f rid status db =
     failing (f CGetAutoplayPlaylist) (find_row (is_playlist rid status) (db_autoplay db))"

definition GetAutoplayPlaylists :: "faults \<Rightarrow> string \<Rightarrow> pgdb \<Rightarrow> AutoplayPlaylist list fallible" where
  "GetAutoplayPlaylists f rid db = failing (f CGetAutoplayPlaylist)
     (filter (is_playlist rid ''live'') (db_autoplay db) @ filter (is_playlist rid ''staged'') (db_autoplay db))"

text \<open>\<open>uid\<close> is the UUID drawn when the playlist has no id; on a conflict the stored id stays.\<close>

definition SaveAutoplayPlaylist :: "faults \<Rightarrow> string \<Rightarrow> AutoplayPlaylist \<Rightarrow> pgdb \<Rightarrow> pgdb fallible" where
  "SaveAutoplayPlaylist f uid p0 db =
     (let p = (if ap_id p0 = '''' then p0\<lparr>ap_id := uid\<rparr> else p0);
          same = is_playlist (ap_room p) (ap_status p) in
      if f CSaveAutoplayPlaylist \<or> \<not> has_room (ap_room p) db \<or> \<not> int4_ok (ap_index p) then Inl StoreError
      else if \<exists>q \<in> set (db_autoplay db). same q then
        Inr (db\<lparr>db_autoplay := update_where same
          (\<lambda>q. q\<lparr>ap_name := ap_name p, ap_tracks := ap_tracks p, ap_index := ap_index p,
                 ap_activated_at := ap_activated_at p\<rparr>) (db_autoplay db)\<rparr>)
      else if \<exists>q \<in> set (db_autoplay db). ap_id q = ap_id p then Inl StoreError
      else Inr (db\<lparr>db_autoplay := db_autoplay db @ [p]\<rparr>))"

definition UpdateAutoplayIndex :: "faults \<Rightarrow> string \<Rightarrow> int \<Rightarrow> pgdb \<Rightarrow> pgdb fallible" where
  "UpdateAutoplayIndex f rid i db =
     (if f CUpdateAutoplayIndex \<or> \<not> int4_ok i then Inl StoreError
      else Inr (db\<lparr>db_autoplay := update_where (is_playlist rid ''live'') (\<lambda>p. p\<lparr>ap_index := i\<rparr>) (db_autoplay db)\<rparr>))"

text \<open>One transaction deletes the live playlist and promotes the staged one.\<close>

definition promote_staged :: "gotime \<Rightarrow> string \<Rightarrow> pgdb \<Rightarrow> pgdb" where
  "promote_staged now rid db = db\<lparr>db_autoplay :=
     update_where (is_playlist rid ''staged'')
       (\<lambda>p. p\<lparr>ap_status := ''live'', ap_index := -1, ap_activated_at := Some now\<rparr>)
       (delete_where (is_playlist rid ''live'') (db_autoplay db))\<rparr>"

definition ActivateStagedPlaylist ::
  "faults \<Rightarrow> gotime \<Rightarrow> string \<Rightarrow> pgdb \<Rightarrow> pgdb \<times> AutoplayPlaylist option fallible" where
  "ActivateStagedPlaylist f now rid db =
     (if f CActivateStaged then (db, Inl StoreError)
      else (let db' = promote_staged now rid db in (db', GetAutoplayPlaylist f rid ''live'' db')))"

definition DeleteAutoplayPlaylist :: "faults \<Rightarrow> string \<Rightarrow> string \<Rightarrow> pgdb \<Rightarrow> pgdb fallible" where
  "DeleteAutoplayPlaylist f rid status db = failing (f CDeleteAutoplayPlaylist)
     (db\<lparr>db_autoplay := delete_where (is_playlist rid status) (db_autoplay db)\<rparr>)"

definition computeNextPlayIndex :: "int \<Rightarrow> int \<Rightarrow> int" where
  "computeNextPlayIndex currentIndex len =
     (if len \<le> 0 then 0 else if currentIndex < 0 then 0 else go_mod (currentIndex + 1) len)"

text \<open>An index that cannot be stored is dropped; the track is returned all the same.\<close>

definition GetNextAutoplayTrack ::
  "faults \<Rightarrow> string \<Rightarrow> pgdb \<Rightarrow> pgdb \<times> (AutoplayTrack \<times> int) option fallible" where
  "GetNextAutoplayTrack f rid db =
     (case GetAutoplayPlaylist f rid ''live'' db of
        Inl e \<Rightarrow> (db, Inl e)
      | Inr None \<Rightarrow> (db, Inr None)
      | Inr (Some p) \<Rightarrow>
          if ap_tracks p = [] then (db, Inr None)
          else (let i = computeNextPlayIndex (ap_index p) (int (length (ap_tracks p))) in
            (or_zero db (UpdateAutoplayIndex f rid i db), Inr (Some (ap_tracks p ! nat i, i)))))"

section \<open>Track rows and rooms\<close>

definition UpsertAutoplayTrack :: "faults \<Rightarrow> Track \<Rightarrow> pgdb \<Rightarrow> (pgdb \<times> Track) fallible" where
  "UpsertAutoplayTrack f t db =
     (let refresh = (\<lambda>r. r\<lparr>track_title := track_title t, track_artist := track_artist t,
            track_duration := (if track_duration t > 0 then track_duration t else track_duration r),
            track_source := track_source t, track_url := track_url t, track_gradient := track_gradient t,
            track_snippet := track_snippet t\<rparr>) in
      if f CUpsertAutoplayTrack \<or> \<not> track_row_ok t then Inl StoreError
      else case find_row (\<lambda>r. track_id r = track_id t) (db_tracks db) of
          None \<Rightarrow> Inr (db\<lparr>db_tracks := db_tracks db @ [t]\<rparr>, t)
        | Some r \<Rightarrow> Inr (db\<lparr>db_tracks := update_where (\<lambda>r. track_id r = track_id t) refresh (db_tracks db)\<rparr>,
                         t\<lparr>track_duration := track_duration (refresh r)\<rparr>))"

definition GetAutoplayRooms :: "faults \<Rightarrow> pgdb \<Rightarrow> Room list fallible" where
  "GetAutoplayRooms f db = failing (f CGetAutoplayRooms)
     (map (\<lambda>r. zero_room\<lparr>room_id := room_id r, room_slug := room_slug r, room_name := room_name r,
        room_description := room_description r, room_genre := room_genre r, room_is_live := room_is_live r,
        room_is_official := room_is_official r, room_is_autoplay := room_is_autoplay r\<rparr>)
      (filter room_is_autoplay (db_rooms db)))"

definition SetRoomAutoplay :: "faults \<Rightarrow> gotime \<Rightarrow> string \<Rightarrow> bool \<Rightarrow> pgdb \<Rightarrow> pgdb fallible" where
  "SetRoomAutoplay f now rid autoplay db = failing (f CSetRoomAutoplay)
     (db\<lparr>db_rooms := update_where (\<lambda>r. room_id r = rid)
        (\<lambda>r. r\<lparr>room_is_autoplay := autoplay, room_is_live := autoplay, room_ended_at := None,
              room_last_active := Some now\<rparr>) (db_rooms db)\<rparr>)"

section \<open>Looping\<close>

lemma next_index_range:
  assumes "0 < len"
  shows "0 \<le> computeNextPlayIndex i len \<and> computeNextPlayIndex i len < len"
  using assms by (simp add: computeNextPlayIndex_def go_mod_nonneg)

lemma next_index_step: "0 < len \<Longrightarrow> 0 \<le> i \<Longrightarrow> computeNextPlayIndex i len = (i + 1) mod len"
  by (simp add: computeNextPlayIndex_def go_mod_nonneg)

text \<open>The tracks of \<open>n\<close> successive advances, the stores being up.\<close>

fun advances :: "nat \<Rightarrow> string \<Rightarrow> pgdb \<Rightarrow> AutoplayTrack list" where
  "advances 0 rid db = []"
| "advances (Suc n) rid db = (case GetNextAutoplayTrack (\<lambda>_. False) rid db of
     (db', Inr (Some (t, _))) \<Rightarrow> t # advances n rid db'
   | _ \<Rightarrow> [])"

lemma find_live_update:
  assumes "find_row (is_playlist rid ''live'') ps = Some p"
  shows "find_row (is_playlist rid ''live'') (update_where (is_playlist rid ''live'') (\<lambda>p. p\<lparr>ap_index := i\<rparr>) ps)
    = Some (p\<lparr>ap_index := i\<rparr>)"
  using assms find_row_Some [OF assms]
  by (subst find_row_update_where) (auto simp: is_playlist_def)

lemma advance_once:
  assumes "find_row (is_playlist rid ''live'') (db_autoplay db) = Some p" and "ap_tracks p \<noteq> []"
    and "int (length (ap_tracks p)) < 2 ^ 31"
    and "i = computeNextPlayIndex (ap_index p) (int (length (ap_tracks p)))"
  shows "\<exists>db'. GetNextAutoplayTrack (\<lambda>_. False) rid db = (db', Inr (Some (ap_tracks p ! nat i, i)))
    \<and> find_row (is_playlist rid ''live'') (db_autoplay db') = Some (p\<lparr>ap_index := i\<rparr>)"
proof -
  have "0 \<le> i \<and> i < int (length (ap_tracks p))"
    unfolding assms(4) using assms(2) by (intro next_index_range) simp
  then have "int4_ok i" using assms(3) by (simp add: int4_ok_def)
  then show ?thesis using assms
    by (simp add: GetNextAutoplayTrack_def GetAutoplayPlaylist_def UpdateAutoplayIndex_def Let_def find_live_update)
qed

lemma advances_from:
  assumes "find_row (is_playlist rid ''live'') (db_autoplay db) = Some p" and "ap_tracks p = ts" and "ts \<noteq> []"
    and "int (length ts) < 2 ^ 31" and "computeNextPlayIndex (ap_index p) (int (length ts)) = int k mod int (length ts)"
  shows "advances n rid db = map (\<lambda>j. ts ! ((k + j) mod length ts)) [0..<n]"
  using assms
proof (induction n arbitrary: db p k)
  case 0
  then show ?case by simp
next
  case (Suc n)
  let ?i = "int k mod int (length ts)"
  from Suc.prems obtain db' where db': "GetNextAutoplayTrack (\<lambda>_. False) rid db = (db', Inr (Some (ts ! nat ?i, ?i)))"
      "find_row (is_playlist rid ''live'') (db_autoplay db') = Some (p\<lparr>ap_index := ?i\<rparr>)"
    using advance_once [of rid db p ?i] by auto
  have pos: "0 < int (length ts)" using Suc.prems(3) by simp
  then have "computeNextPlayIndex ?i (int (length ts)) = int (Suc k) mod int (length ts)"
    by (simp add: next_index_step mod_simps add.commute)
  then have "advances n rid db' = map (\<lambda>j. ts ! ((Suc k + j) mod length ts)) [0..<n]"
    using Suc.prems db'(2) by (intro Suc.IH [OF db'(2)]) auto
  moreover have "nat ?i = k mod length ts" by (simp add: nat_mod_as_int [symmetric] flip: of_nat_mod)
  ultimately show ?case
    using db'(1) by (simp add: upt_conv_Cons map_Suc_upt [symmetric] del: upt_Suc)
qed

text \<open>
  C12: A 24/7 room loops its playlist: after the staged playlist has been activated, the n-th
  advance plays the n-th track, counting round and round, every track in turn and none skipped.
\<close>

theorem activated_playlist_loops:
  assumes "find_row (is_playlist rid ''staged'') (db_autoplay db) = Some p" and "ap_tracks p \<noteq> []"
    and "int (length (ap_tracks p)) < 2 ^ 31"
    and "ActivateStagedPlaylist (\<lambda>_. False) now rid db = (db', r)"
  shows "advances n rid db' = map (\<lambda>j. ap_tracks p ! (j mod length (ap_tracks p))) [0..<n]"
proof -
  have "find_row (is_playlist rid ''live'') (db_autoplay db')
      = Some (p\<lparr>ap_status := ''live'', ap_index := -1, ap_activated_at := Some now\<rparr>)"
  proof -
    define up where "up = (\<lambda>q::AutoplayPlaylist. q\<lparr>ap_status := ''live'', ap_index := -1, ap_activated_at := Some now\<rparr>)"
    have "find_row (is_playlist rid ''live'') (update_where (is_playlist rid ''staged'') up
        (delete_where (is_playlist rid ''live'') ps)) = map_option up (find_row (is_playlist rid ''staged'') ps)" for ps
      by (induction ps) (auto simp: find_row_simps delete_where_def update_where_Cons is_playlist_def up_def)
    with assms(1,4) show ?thesis
      by (auto simp: ActivateStagedPlaylist_def promote_staged_def Let_def up_def)
  qed
  from advances_from [OF this, of "ap_tracks p" 0 n] assms(2,3) show ?thesis
    by (simp add: computeNextPlayIndex_def)
qed

definition demo_auto :: "string \<Rightarrow> AutoplayTrack" where
  "demo_auto t = \<lparr>at_title = t, at_artist = '''', at_duration = 0, at_source = ''youtube'', at_url = t,
     at_gradient = '''', at_snippet = ''''\<rparr>"

definition demo_playlist :: AutoplayPlaylist where
  "demo_playlist = \<lparr>ap_id = ''p'', ap_room = ''r'', ap_status = ''staged'', ap_name = ''n'',
     ap_tracks = [demo_auto ''a'', demo_auto ''b''], ap_index = 0, ap_created_at = 0, ap_activated_at = None\<rparr>"

theorem activated_playlist_loops_witness:
  "advances 3 ''r'' (fst (ActivateStagedPlaylist (\<lambda>_. False) 9 ''r'' (empty_db\<lparr>db_autoplay := [demo_playlist]\<rparr>)))
    = [demo_auto ''a'', demo_auto ''b'', demo_auto ''a'']"
proof -
  let ?db = "empty_db\<lparr>db_autoplay := [demo_playlist]\<rparr>"
  obtain db' r where a: "ActivateStagedPlaylist (\<lambda>_. False) 9 ''r'' ?db = (db', r)" by fastforce
  have "find_row (is_playlist ''r'' ''staged'') (db_autoplay ?db) = Some demo_playlist"
    by (simp add: find_row_simps is_playlist_def demo_playlist_def)
  from activated_playlist_loops [OF this _ _ a, of 3] a show ?thesis
    by (simp add: demo_playlist_def eval_nat_numeral)
qed

end
