(* ===== verification/Playback.thy ===== *)
theory Playback
  imports HubActions Autoplay
begin

text \<open>
  The playback services (\<open>internal/playback/sync.go\<close>, \<open>internal/playback/idle_monitor.go\<close>) and the
  hub manager of \<open>internal/ws/hub.go\<close>. \<open>sv_timers\<close> is the map of advance timers: a timer is armed
  for an instant or has fired; \<open>sv_go\<close> lists the rooms whose advance was started on a goroutine of
  its own and has not run yet. SHA-256 is the argument \<open>sha\<close>.
\<close>

datatype timer = Armed gotime | Fired

record server =
  sv_pg :: pgdb
  sv_redis :: redis
  sv_hubs :: "string \<rightharpoonup> hub"
  sv_timers :: "string \<rightharpoonup> timer"
  sv_last :: "string \<rightharpoonup> gotime"
  sv_go :: "string list"
  sv_idle_since :: "string \<rightharpoonup> gotime"

definition sv_pg_do :: "(pgdb \<Rightarrow> pgdb fallible) \<Rightarrow> server \<Rightarrow> server" where
  "sv_pg_do f sv = sv\<lparr>sv_pg := or_zero (sv_pg sv) (f (sv_pg sv))\<rparr>"

definition sv_redis_do :: "(redis \<Rightarrow> redis fallible) \<Rightarrow> server \<Rightarrow> server" where
  "sv_redis_do f sv = sv\<lparr>sv_redis := or_zero (sv_redis sv) (f (sv_redis sv))\<rparr>"

definition broadcastTo :: "env \<Rightarrow> string \<Rightarrow> wsmsg \<Rightarrow> server \<Rightarrow> server" where
  "broadcastTo env rid m sv = (case sv_hubs sv rid of
       None \<Rightarrow> sv
     | Some h \<Rightarrow> sv\<lparr>sv_hubs := (sv_hubs sv)(rid \<mapsto> enqueueBroadcast (env_pick env) m h)\<rparr>)"

lemma server_access [simp]:
  "sv_pg (sv_redis_do g sv) = sv_pg sv" "sv_pg (broadcastTo env rid m sv) = sv_pg sv"
  "sv_redis (sv_pg_do f sv) = sv_redis sv" "sv_redis (broadcastTo env rid m sv) = sv_redis sv"
  "sv_hubs (sv_pg_do f sv) = sv_hubs sv" "sv_hubs (sv_redis_do g sv) = sv_hubs sv"
  "sv_timers (sv_pg_do f sv) = sv_timers sv" "sv_timers (sv_redis_do g sv) = sv_timers sv"
  "sv_timers (broadcastTo env rid m sv) = sv_timers sv"
  "sv_last (sv_pg_do f sv) = sv_last sv" "sv_last (sv_redis_do g sv) = sv_last sv" "sv_last (broadcastTo env rid m sv) = sv_last sv"
  "sv_go (sv_pg_do f sv) = sv_go sv" "sv_go (sv_redis_do g sv) = sv_go sv" "sv_go (broadcastTo env rid m sv) = sv_go sv"
  "sv_idle_since (sv_pg_do f sv) = sv_idle_since sv" "sv_idle_since (sv_redis_do g sv) = sv_idle_since sv"
  "sv_idle_since (broadcastTo env rid m sv) = sv_idle_since sv"
  "sv_pg (sv_pg_do f sv) = or_zero (sv_pg sv) (f (sv_pg sv))"
  "sv_redis (sv_redis_do g sv) = or_zero (sv_redis sv) (g (sv_redis sv))"
  by (simp_all add: sv_pg_do_def sv_redis_do_def broadcastTo_def split: option.split)

section \<open>The hub manager\<close>

definition GetOrCreate :: "string \<Rightarrow> string \<Rightarrow> server \<Rightarrow> server" where
  "GetOrCreate rid slug sv = (case sv_hubs sv rid of
       Some _ \<Rightarrow> sv
     | None \<Rightarrow> sv\<lparr>sv_hubs := (sv_hubs sv)(rid \<mapsto> NewHub rid slug)\<rparr>)"

definition GetHub :: "string \<Rightarrow> server \<Rightarrow> hub option" where
  "GetHub rid sv = sv_hubs sv rid"

definition Remove :: "string \<Rightarrow> server \<Rightarrow> server" where
  "Remove rid sv = sv\<lparr>sv_hubs := (sv_hubs sv)(rid := None)\<rparr>"

section \<open>Advancing\<close>

definition room_of :: "env \<Rightarrow> string \<Rightarrow> server \<Rightarrow> Room option" where
  "room_of env rid sv = deref_or_zero zero_room (GetRoomByID (env_faults env) rid (sv_pg sv))"

definition is_autoplay_room :: "env \<Rightarrow> string \<Rightarrow> server \<Rightarrow> bool" where
  "is_autoplay_room env rid sv = (case room_of env rid sv of None \<Rightarrow> False | Some r \<Rightarrow> room_is_autoplay r)"

definition CancelAdvance :: "string \<Rightarrow> server \<Rightarrow> server" where
  "CancelAdvance rid sv = sv\<lparr>sv_timers := (sv_timers sv)(rid := None)\<rparr>"

definition effective_duration :: "env \<Rightarrow> string \<Rightarrow> Track \<Rightarrow> server \<Rightarrow> int option" where
  "effective_duration env rid t sv =
     (if track_duration t \<le> 0 then (if is_autoplay_room env rid sv then Some 600 else None)
      else Some (track_duration t))"

definition ScheduleAdvance :: "env \<Rightarrow> string \<Rightarrow> Track option \<Rightarrow> int \<Rightarrow> server \<Rightarrow> server" where
  "ScheduleAdvance env rid track startedAtUnix sv =
     (let sv1 = CancelAdvance rid sv in
      case track of None \<Rightarrow> sv1
      | Some t \<Rightarrow> (case effective_duration env rid t sv1 of None \<Rightarrow> sv1
        | Some d \<Rightarrow>
            (let elapsed = env_now env - from_milli startedAtUnix;
                 remaining = int64 (int64 (d * second) - elapsed) in
             if remaining \<le> 0 then sv1\<lparr>sv_go := sv_go sv1 @ [rid]\<rparr>
             else sv1\<lparr>sv_timers := (sv_timers sv1)(rid \<mapsto>
                    Armed (env_now env + int64 (remaining + 500 * millisecond)))\<rparr>)))"

text \<open>The critical section at the head of \<open>advanceTrack\<close>.\<close>

definition advance_claim :: "gotime \<Rightarrow> string \<Rightarrow> server \<Rightarrow> server \<times> bool" where
  "advance_claim now rid sv =
     (if (case sv_last sv rid of None \<Rightarrow> False | Some t \<Rightarrow> now - t < 10 * second) then (sv, False)
      else (CancelAdvance rid (sv\<lparr>sv_last := (sv_last sv)(rid \<mapsto> now)\<rparr>), True))"

definition start_playing :: "env \<Rightarrow> string \<Rightarrow> string \<Rightarrow> server \<Rightarrow> server" where
  "start_playing env rid tid sv =
     sv_redis_do (SetPlaybackState (env_rfaults env)
         \<lparr>ps_room = rid, ps_track = tid, ps_started_at = unix_milli (env_now env), ps_playing = True,
          ps_pause_position = 0\<rparr>)
       (sv_pg_do (SetNowPlaying (env_faults env) (env_now env) rid tid) sv)"

definition stop_playing :: "env \<Rightarrow> string \<Rightarrow> server \<Rightarrow> server" where
  "stop_playing env rid sv = broadcastTo env rid (MTrackChanged None)
     (sv_pg_do (ClearNowPlaying (env_faults env) rid)
       (sv_redis_do (ClearPlaybackState (env_rfaults env) rid) sv))"

definition announce_playing :: "env \<Rightarrow> string \<Rightarrow> Track \<Rightarrow> server \<Rightarrow> server" where
  "announce_playing env rid t sv = broadcastTo env rid
     (MPlaybackState \<lparr>ps_room = rid, ps_track = track_id t, ps_started_at = unix_milli (env_now env),
        ps_playing = True, ps_pause_position = 0\<rparr>)
     (broadcastTo env rid (MTrackChanged (Some t)) sv)"

definition hex_digit :: "nat \<Rightarrow> char" where
  "hex_digit n = ''0123456789abcdef'' ! n"

definition hex_encode :: "string \<Rightarrow> string" where
  "hex_encode s = concat (map (\<lambda>c. let n = of_char c :: nat in [hex_digit (n div 16), hex_digit (n mod 16)]) s)"

definition autoplayTrackID :: "(string \<Rightarrow> string) \<Rightarrow> string \<Rightarrow> string \<Rightarrow> string" where
  "autoplayTrackID sha roomID sourceURL =
     ''auto-'' @ hex_encode (take 8 (sha (roomID @ [CHR 0x00] @ sourceURL)))"

definition autoplay_track :: "(string \<Rightarrow> string) \<Rightarrow> env \<Rightarrow> string \<Rightarrow> AutoplayTrack \<Rightarrow> Track" where
  "autoplay_track sha env rid a = \<lparr>track_id = autoplayTrackID sha rid (at_url a), track_title = at_title a,
     track_artist = at_artist a, track_duration = at_duration a, track_source = at_source a,
     track_url = at_url a, track_gradient = at_gradient a, track_snippet = at_snippet a,
     track_created_at = env_now env\<rparr>"

definition advanceAutoplay :: "(string \<Rightarrow> string) \<Rightarrow> env \<Rightarrow> string \<Rightarrow> server \<Rightarrow> server" where
  "advanceAutoplay sha env rid sv =
     (case GetNextAutoplayTrack (env_faults env) rid (sv_pg sv) of
        (db, Inr (Some (a, idx))) \<Rightarrow>
          (let t0 = autoplay_track sha env rid a; sv1 = sv\<lparr>sv_pg := db\<rparr>;
               (sv2, t) = (case UpsertAutoplayTrack (env_faults env) t0 (sv_pg sv1) of
                   Inl _ \<Rightarrow> (sv1, t0) | Inr (db', t') \<Rightarrow> (sv1\<lparr>sv_pg := db'\<rparr>, t'));
               sv3 = announce_playing env rid t (start_playing env rid (track_id t) sv2)
           in ScheduleAdvance env rid (Some t) (unix_milli (env_now env)) sv3)
      | (db, _) \<Rightarrow> stop_playing env rid (sv\<lparr>sv_pg := db\<rparr>))"

definition advance_body :: "(string \<Rightarrow> string) \<Rightarrow> env \<Rightarrow> string \<Rightarrow> server \<Rightarrow> server" where
  "advance_body sha env rid sv =
     (case GetHub rid sv of None \<Rightarrow> sv
      | Some _ \<Rightarrow> (case PopNextTrack (env_faults env) (env_locked env) rid (sv_pg sv) of
          Inl _ \<Rightarrow> sv
        | Inr (db, None) \<Rightarrow>
            (let sv1 = sv\<lparr>sv_pg := db\<rparr> in
             if is_autoplay_room env rid sv1 then advanceAutoplay sha env rid sv1 else stop_playing env rid sv1)
        | Inr (db, Some e) \<Rightarrow>
            (let t = entry_track e;
                 sv1 = announce_playing env rid t (start_playing env rid (track_id t) (sv\<lparr>sv_pg := db\<rparr>));
                 sv2 = broadcastTo env rid (MQueueUpdate (or_zero [] (GetQueue (env_faults env) rid (sv_pg sv1)))) sv1
             in ScheduleAdvance env rid (Some t) (unix_milli (env_now env)) sv2)))"

definition advanceTrack :: "(string \<Rightarrow> string) \<Rightarrow> env \<Rightarrow> string \<Rightarrow> server \<Rightarrow> server" where
  "advanceTrack sha env rid sv = (case advance_claim (env_now env) rid sv of
     (sv1, claimed) \<Rightarrow> if claimed then advance_body sha env rid sv1 else sv1)"

text \<open>A timer whose instant has come runs \<open>advanceTrack\<close>; so does a started goroutine.\<close>

definition timer_fires :: "(string \<Rightarrow> string) \<Rightarrow> env \<Rightarrow> string \<Rightarrow> server \<Rightarrow> server" where
  "timer_fires sha env rid sv = (case sv_timers sv rid of
       Some (Armed t) \<Rightarrow> if t \<le> env_now env
         then advanceTrack sha env rid (sv\<lparr>sv_timers := (sv_timers sv)(rid \<mapsto> Fired)\<rparr>) else sv
     | _ \<Rightarrow> sv)"

definition goroutine_runs :: "(string \<Rightarrow> string) \<Rightarrow> env \<Rightarrow> server \<Rightarrow> server" where
  "goroutine_runs sha env sv = (case sv_go sv of
     [] \<Rightarrow> sv | rid # rest \<Rightarrow> advanceTrack sha env rid (sv\<lparr>sv_go := rest\<rparr>))"

section \<open>Reports from clients\<close>

definition handleClientEndReport :: "(string \<Rightarrow> string) \<Rightarrow> env \<Rightarrow> string \<Rightarrow> server \<Rightarrow> server" where
  "handleClientEndReport sha env rid sv =
     (if \<not> is_autoplay_room env rid sv then sv
      else case or_zero None (GetPlaybackState (env_rfaults env) rid (sv_redis sv)) of
          None \<Rightarrow> sv
        | Some ps \<Rightarrow>
            if \<not> ps_playing ps \<or> ps_track ps = '''' then sv
            else (let elapsed = env_now env - from_milli (ps_started_at ps);
                      track = deref_or_zero zero_track (GetTrack (env_faults env) (ps_track ps) (sv_pg sv));
                      known = (case track of None \<Rightarrow> None
                               | Some t \<Rightarrow> if track_duration t > 0 then Some (track_duration t) else None)
                  in if (case known of Some d \<Rightarrow> elapsed < int64 (int64 (d * second) - 5 * second)
                                     | None \<Rightarrow> elapsed < 60 * second)
                     then sv else advanceTrack sha env rid sv))"

definition handleDurationReport :: "env \<Rightarrow> string \<Rightarrow> string \<Rightarrow> int \<Rightarrow> server \<Rightarrow> server" where
  "handleDurationReport env rid tid d sv =
     (if d < 60 \<or> d > MaxTrackDurationSecs then sv
      else if \<not> is_autoplay_room env rid sv then sv
      else case or_zero None (GetPlaybackState (env_rfaults env) rid (sv_redis sv)) of
          None \<Rightarrow> sv
        | Some ps \<Rightarrow>
            if ps_track ps \<noteq> tid \<or> \<not> ps_playing ps then sv
            else (case deref_or_zero zero_track (GetTrack (env_faults env) tid (sv_pg sv)) of
                None \<Rightarrow> sv
              | Some t \<Rightarrow>
                  if track_duration t > 0 then sv
                  else (case UpdateTrackDuration (env_faults env) tid d (sv_pg sv) of
                      Inl _ \<Rightarrow> sv
                    | Inr (db, won) \<Rightarrow>
                        if \<not> won then sv\<lparr>sv_pg := db\<rparr>
                        else ScheduleAdvance env rid (Some (t\<lparr>track_duration := d\<rparr>)) (ps_started_at ps)
                               (sv\<lparr>sv_pg := db\<rparr>))))"

definition Stop :: "server \<Rightarrow> server" where
  "Stop sv = sv\<lparr>sv_timers := Map.empty\<rparr>"

definition start_autoplay_room :: "(string \<Rightarrow> string) \<Rightarrow> env \<Rightarrow> Room \<Rightarrow> server \<Rightarrow> server" where
  "start_autoplay_room sha env room sv =
     (let rid = room_id room;
          sv1 = GetOrCreate rid (room_slug room) (sv_pg_do (SetRoomAutoplay (env_faults env) (env_now env) rid True) sv);
          fresh = advanceAutoplay sha env rid sv1
      in case or_zero None (GetPlaybackState (env_rfaults env) rid (sv_redis sv1)) of
           None \<Rightarrow> fresh
         | Some ps \<Rightarrow>
             if ps_playing ps \<and> ps_track ps \<noteq> '''' then
               (case deref_or_zero zero_track (GetTrack (env_faults env) (ps_track ps) (sv_pg sv1)) of
                  None \<Rightarrow> fresh
                | Some t \<Rightarrow> ScheduleAdvance env rid (Some t) (ps_started_at ps) sv1)
             else fresh)"

definition StartAutoplayRooms :: "(string \<Rightarrow> string) \<Rightarrow> env \<Rightarrow> server \<Rightarrow> server" where
  "StartAutoplayRooms sha env sv = (case GetAutoplayRooms (env_faults env) (sv_pg sv) of
     Inl _ \<Rightarrow> sv | Inr rooms \<Rightarrow> fold (start_autoplay_room sha env) rooms sv)"

section \<open>The idle monitor\<close>

definition idleTimeout :: duration where "idleTimeout = 15 * minute"

definition closeRoom :: "env \<Rightarrow> string \<Rightarrow> server \<Rightarrow> server" where
  "closeRoom env rid sv =
     (let f = env_faults env; g = env_rfaults env in
      broadcastTo env rid (MRoomEnded ''Room auto-closed after 15 minutes of inactivity'')
       (sv_redis_do (ClearListeners g rid) (sv_redis_do (ClearPlaybackState g rid)
         (sv_pg_do (ClearNowPlaying f rid) (sv_pg_do (EndRoom f (env_now env) rid) sv)))))"

definition room_active :: "(string \<rightharpoonup> PlaybackState) \<Rightarrow> (string \<rightharpoonup> nat) \<Rightarrow> string \<Rightarrow> bool" where
  "room_active playbacks queueCounts rid \<longleftrightarrow>
     (case playbacks rid of None \<Rightarrow> False | Some ps \<Rightarrow> ps_track ps \<noteq> '''')
     \<or> (case queueCounts rid of None \<Rightarrow> False | Some n \<Rightarrow> n > 0)"

definition check_room ::
  "env \<Rightarrow> (string \<rightharpoonup> PlaybackState) \<Rightarrow> (string \<rightharpoonup> nat) \<Rightarrow> Room \<Rightarrow> server \<Rightarrow> server" where
  "check_room env playbacks queueCounts room sv =
     (let rid = room_id room; forget = (\<lambda>sv. sv\<lparr>sv_idle_since := (sv_idle_since sv)(rid := None)\<rparr>) in
      if \<not> room_is_live room then sv
      else if room_active playbacks queueCounts rid then forget sv
      else case sv_idle_since sv rid of
          None \<Rightarrow> sv\<lparr>sv_idle_since := (sv_idle_since sv)(rid \<mapsto> env_now env)\<rparr>
        | Some since \<Rightarrow> if env_now env - since \<ge> idleTimeout then forget (closeRoom env rid sv) else sv)"

definition idle_check :: "env \<Rightarrow> server \<Rightarrow> server" where
  "idle_check env sv0 =
     (let f = env_faults env; g = env_rfaults env;
          sv = sv0\<lparr>sv_pg := (case CleanupGhostRooms f (env_now env) (1 * hour) (sv_pg sv0) of
                 Inl _ \<Rightarrow> sv_pg sv0 | Inr (db, _) \<Rightarrow> db)\<rparr> in
      case ListRooms f (env_now env) True '''' (sv_pg sv) of
        Inl _ \<Rightarrow> sv
      | Inr rooms \<Rightarrow>
          (let liveIDs = map room_id (filter room_is_live rooms) in
           case GetPlaybackStates g liveIDs (sv_redis sv) of
             Inl _ \<Rightarrow> sv
           | Inr playbacks \<Rightarrow>
               (case GetApprovedQueueCounts f liveIDs (sv_pg sv) of
                  Inl _ \<Rightarrow> sv
                | Inr counts \<Rightarrow>
                    (let sv1 = fold (check_room env playbacks counts) rooms sv in
                     sv1\<lparr>sv_idle_since := (\<lambda>rid. if rid \<in> set liveIDs then sv_idle_since sv1 rid else None)\<rparr>))))"

end
