(* ===== verification/PlaybackProps.thy ===== *)
theory PlaybackProps
  imports Playback HubActionProps
begin

text \<open>
  What the playback services promise: advances are spaced, reports from listeners cannot skip
  tracks or poison durations, an advance keeps all views of the room in step and arms its timer
  for the end of the track, and only rooms that were idle all along are closed.
\<close>

section \<open>The debounce\<close>

text \<open>The instants at which a series of attempts to advance a room gets through.\<close>

fun claims :: "string \<Rightarrow> gotime list \<Rightarrow> server \<Rightarrow> gotime list" where
  "claims rid [] sv = []"
| "claims rid (t # ts) sv = (case advance_claim t rid sv of
     (sv', ok) \<Rightarrow> if ok then t # claims rid ts sv' else claims rid ts sv')"

lemma advance_claim_last:
  "advance_claim t rid sv = (sv', ok) \<Longrightarrow>
     (if ok then sv_last sv' rid = Some t else sv' = sv \<and> (\<exists>l. sv_last sv rid = Some l \<and> t < l + 10 * second))"
  by (auto simp: advance_claim_def CancelAdvance_def split: if_splits option.splits)

lemma claims_after:
  "sorted ts \<Longrightarrow> sv_last sv rid = Some l \<Longrightarrow> \<forall>t \<in> set (claims rid ts sv). l + 10 * second \<le> t"
proof (induction ts arbitrary: sv l)
  case (Cons t ts)
  obtain sv' ok where a: "advance_claim t rid sv = (sv', ok)" by fastforce
  show ?case
  proof (cases ok)
    case True
    then have l: "l + 10 * second \<le> t" using a Cons.prems(2) by (auto simp: advance_claim_def split: if_splits)
    have "\<forall>u \<in> set (claims rid ts sv'). t + 10 * second \<le> u"
      using Cons.IH [of sv' t] Cons.prems(1) advance_claim_last [OF a] True by auto
    then show ?thesis using a True l by (force simp: second_def)
  next
    case False
    then have "sv' = sv" using advance_claim_last [OF a] by simp
    then show ?thesis using Cons.IH [of sv l] Cons.prems a False by simp
  qed
qed simp

text \<open>
  However many timers, goroutines and client reports try to advance a room at once, two
  advances that get through are at least ten seconds apart.
\<close>

theorem advances_spaced:
  assumes "sorted ts"
  shows "sorted_wrt (\<lambda>a b. a + 10 * second \<le> b) (claims rid ts sv)"
  using assms
proof (induction ts arbitrary: sv)
  case (Cons t ts)
  obtain sv' ok where a: "advance_claim t rid sv = (sv', ok)" by fastforce
  show ?case
  proof (cases ok)
    case True
    then have "sv_last sv' rid = Some t" using advance_claim_last [OF a] by simp
    then show ?thesis using Cons a True claims_after [of ts sv' rid t] by simp
  next
    case False
    then show ?thesis using Cons a by simp
  qed
qed simp

definition demo_server :: server where
  "demo_server = \<lparr>sv_pg = demo_db\<lparr>db_rooms := [(demo_room ''r'')\<lparr>room_is_autoplay := True, room_is_live := True\<rparr>]\<rparr>,
     sv_redis = empty_redis\<lparr>rd_playback := [''r'' \<mapsto> \<lparr>ps_room = ''r'', ps_track = ''t1'', ps_started_at = 0,
        ps_playing = True, ps_pause_position = 0\<rparr>]\<rparr>,
     sv_hubs = [''r'' \<mapsto> NewHub ''r'' ''r''], sv_timers = Map.empty, sv_last = Map.empty, sv_go = [],
     sv_idle_since = Map.empty\<rparr>"

theorem advances_spaced_witness:
  "sorted_wrt (\<lambda>a b. a + 10 * second \<le> b) (claims ''r'' [0, 4 * second, 11 * second] demo_server)
   \<and> claims ''r'' [0, 4 * second, 11 * second] demo_server = [0, 11 * second]"
  using advances_spaced [of "[0, 4 * second, 11 * second]" "''r''" demo_server]
  by (simp add: second_def) (simp add: advance_claim_def CancelAdvance_def demo_server_def second_def)

section \<open>Reports from listeners\<close>

definition durations_ok :: "pgdb \<Rightarrow> bool" where
  "durations_ok db \<longleftrightarrow> list_all (\<lambda>t. int4_ok (track_duration t)) (db_tracks db)"

lemma int4_seconds: "int4_ok d \<Longrightarrow> int64 (int64 (d * second) - 5 * second) = (d - 5) * second"
  by (simp add: int4_ok_def second_def int64_id)

text \<open>
  A listener cannot skip a track: a report that it ended changes nothing unless the room is a
  24/7 room, it is playing, and the track is within five seconds of its known end or, when its
  length is unknown, has played for a minute.
\<close>

theorem end_report_only_near_end:
  assumes "handleClientEndReport sha env rid sv \<noteq> sv" and "env_faults env = no_faults"
    and "durations_ok (sv_pg sv)"
  shows "(\<exists>room. find_row (\<lambda>r. room_id r = rid) (db_rooms (sv_pg sv)) = Some room \<and> room_is_autoplay room)
    \<and> (\<exists>ps. rd_playback (sv_redis sv) rid = Some ps \<and> ps_playing ps \<and> ps_track ps \<noteq> ''''
      \<and> (case find_row (\<lambda>t. track_id t = ps_track ps) (db_tracks (sv_pg sv)) of
           Some t \<Rightarrow> (if track_duration t > 0 then track_duration t - 5 else 60) * second
         | None \<Rightarrow> 60 * second) \<le> env_now env - from_milli (ps_started_at ps))"
proof -
  have auto: "is_autoplay_room env rid sv"
    using assms(1) by (auto simp: handleClientEndReport_def split: if_splits)
  obtain ps where ps: "or_zero None (GetPlaybackState (env_rfaults env) rid (sv_redis sv)) = Some ps"
      "ps_playing ps" "ps_track ps \<noteq> ''''"
    using assms(1) by (auto simp: handleClientEndReport_def split: if_splits option.splits)
  have read: "rd_playback (sv_redis sv) rid = Some ps"
    using ps(1) by (auto simp: GetPlaybackState_def failing_def or_zero_def split: if_splits)
  let ?row = "find_row (\<lambda>t. track_id t = ps_track ps) (db_tracks (sv_pg sv))"
  have "(case ?row of Some t \<Rightarrow> (if track_duration t > 0 then track_duration t - 5 else 60) * second
       | None \<Rightarrow> 60 * second) \<le> env_now env - from_milli (ps_started_at ps)"
  proof (cases ?row)
    case None
    then show ?thesis using assms(1,2) auto ps
      by (auto simp: handleClientEndReport_def GetTrack_def Let_def split: if_splits)
  next
    case (Some t)
    then have "int4_ok (track_duration t)" using assms(3) find_row_Some [OF Some] by (auto simp: durations_ok_def list_all_iff)
    from int4_seconds [OF this] show ?thesis using assms(1,2) auto ps Some
      by (auto simp: handleClientEndReport_def GetTrack_def Let_def split: if_splits)
  qed
  with read ps auto assms(2) show ?thesis
    by (auto simp: is_autoplay_room_def room_of_def GetRoomByID_def split: option.splits)
qed

lemma ScheduleAdvance_frame [simp]:
  "sv_pg (ScheduleAdvance env rid t s sv) = sv_pg sv" "sv_redis (ScheduleAdvance env rid t s sv) = sv_redis sv"
  "sv_hubs (ScheduleAdvance env rid t s sv) = sv_hubs sv" "sv_last (ScheduleAdvance env rid t s sv) = sv_last sv"
  "sv_idle_since (ScheduleAdvance env rid t s sv) = sv_idle_since sv"
  by (simp_all add: ScheduleAdvance_def CancelAdvance_def Let_def split: option.split)

lemma start_stop_last [simp]:
  "sv_last (start_playing env rid tid sv) = sv_last sv" "sv_last (stop_playing env rid sv) = sv_last sv"
  "sv_last (announce_playing env rid t sv) = sv_last sv"
  by (simp_all add: start_playing_def stop_playing_def announce_playing_def)

lemma advanceAutoplay_last [simp]: "sv_last (advanceAutoplay sha env rid sv) = sv_last sv"
  by (simp add: advanceAutoplay_def Let_def split: prod.split sum.split option.split)

lemma advance_body_last [simp]: "sv_last (advance_body sha env rid sv) = sv_last sv"
  by (simp add: advance_body_def Let_def split: prod.split sum.split option.split)

lemma advanceTrack_last:
  "sv_last sv rid = None \<Longrightarrow> sv_last (advanceTrack sha env rid sv) rid = Some (env_now env)"
  by (simp add: advanceTrack_def advance_claim_def CancelAdvance_def)

theorem end_report_only_near_end_witness:
  "\<exists>ps. rd_playback (sv_redis demo_server) ''r'' = Some ps
     \<and> handleClientEndReport (\<lambda>x. x) (demo_env (199 * second)) ''r'' demo_server \<noteq> demo_server
     \<and> (200 - 5) * second \<le> 199 * second - from_milli (ps_started_at ps)"
proof -
  have "handleClientEndReport (\<lambda>x. x) (demo_env (199 * second)) ''r'' demo_server
      = advanceTrack (\<lambda>x. x) (demo_env (199 * second)) ''r'' demo_server"
    by (simp add: handleClientEndReport_def is_autoplay_room_def room_of_def GetRoomByID_def GetPlaybackState_def
        GetTrack_def demo_server_def demo_db_def demo_room_def demo_track_def find_row_simps Let_def
        from_milli_def second_def int64_def)
  moreover have "sv_last demo_server ''r'' = None" by (simp add: demo_server_def)
  ultimately have changed: "handleClientEndReport (\<lambda>x. x) (demo_env (199 * second)) ''r'' demo_server \<noteq> demo_server"
    using advanceTrack_last [of demo_server "''r''" "\<lambda>x. x" "demo_env (199 * second)"] by auto
  have "durations_ok (sv_pg demo_server)"
    by (simp add: durations_ok_def demo_server_def demo_db_def demo_track_def int4_ok_def)
  from end_report_only_near_end [OF changed _ this] changed show ?thesis
    by (auto simp: demo_server_def demo_db_def demo_track_def find_row_simps)
qed

text \<open>
  A listener cannot poison track lengths: a duration report writes at most the row of the
  track that is playing in that 24/7 room, only if its length is still unknown, and only a value
  between one minute and three hours; playback itself, the queue and every other row stay.
\<close>

theorem duration_report_confined:
  assumes "sv' = handleDurationReport env rid tid d sv" and "env_faults env = no_faults"
  shows "sv_redis sv' = sv_redis sv \<and> sv_hubs sv' = sv_hubs sv
    \<and> (sv_pg sv' = sv_pg sv
       \<or> 60 \<le> d \<and> d \<le> 10800 \<and> is_autoplay_room env rid sv
         \<and> (\<exists>ps. rd_playback (sv_redis sv) rid = Some ps \<and> ps_playing ps \<and> ps_track ps = tid)
         \<and> sv_pg sv' = (sv_pg sv)\<lparr>db_tracks := map (\<lambda>t. if track_id t = tid \<and> track_duration t = 0
              then t\<lparr>track_duration := d\<rparr> else t) (db_tracks (sv_pg sv))\<rparr>)"
  using assms
  by (auto simp: handleDurationReport_def UpdateTrackDuration_def GetPlaybackState_def failing_def or_zero_def
      update_where_def MaxTrackDurationSecs_def Let_def split: if_splits option.splits sum.splits prod.splits)

theorem duration_report_confined_witness:
  "sv_redis (handleDurationReport (demo_env 9) ''r'' ''t1'' 5 demo_server) = sv_redis demo_server"
  using duration_report_confined [of _ "demo_env 9" "''r''" "''t1''" 5 demo_server, OF refl] by simp

section \<open>Timers\<close>

lemma ScheduleAdvance_arms:
  assumes "0 < track_duration t" and "int4_ok (track_duration t)" and "started = unix_milli (env_now env)"
  shows "sv_timers (ScheduleAdvance env rid (Some t) started sv)
    = (sv_timers sv)(rid \<mapsto> Armed (from_milli started + track_duration t * second + 500 * millisecond))"
proof -
  define elapsed where "elapsed = env_now env - from_milli started"
  have e: "0 \<le> elapsed" "elapsed < millisecond"
    unfolding elapsed_def assms(3) from_milli_def unix_milli_def
    by (simp_all add: minus_div_mult_eq_mod millisecond_def)
  have d: "int64 (track_duration t * second) = track_duration t * second"
    using assms(1,2) by (intro int64_id) (simp_all add: int4_ok_def second_def)
  have r: "int64 (track_duration t * second - elapsed) = track_duration t * second - elapsed"
    "int64 (track_duration t * second - elapsed + 500 * millisecond) = track_duration t * second - elapsed + 500 * millisecond"
    using assms(1,2) e by (intro int64_id; simp add: int4_ok_def second_def millisecond_def)+
  have "0 < track_duration t * second - elapsed"
    using assms(1) e by (simp add: second_def millisecond_def)
  then show ?thesis using assms(1)
    by (simp add: ScheduleAdvance_def CancelAdvance_def effective_duration_def Let_def elapsed_def [symmetric] d r)
      (simp add: elapsed_def add_ac)
qed

text \<open>
  A track shorter than nine and a half seconds stalls its room: its timer fires while the
  advance that started it still debounces, nothing is played next, and no timer and no goroutine
  is left that would try again.
\<close>

theorem short_track_stalls_room:
  assumes "0 < track_duration t" and "track_duration t \<le> 9" and "sv_last sv rid = Some (env_now env)"
    and "sv1 = ScheduleAdvance env rid (Some t) (unix_milli (env_now env)) sv"
    and "sv_timers sv1 rid = Some (Armed due)" and "env_now env2 = due"
    and "sv2 = timer_fires sha env2 rid sv1"
  shows "sv_redis sv2 = sv_redis sv \<and> sv_pg sv2 = sv_pg sv \<and> sv_hubs sv2 = sv_hubs sv \<and> sv_go sv2 = sv_go sv
    \<and> (\<forall>sha' env3. timer_fires sha' env3 rid sv2 = sv2)"
proof -
  have due: "due = from_milli (unix_milli (env_now env)) + track_duration t * second + 500 * millisecond"
    using assms(5) ScheduleAdvance_arms [of t _ env rid sv] assms(1,2) unfolding assms(4) by (simp add: int4_ok_def)
  have "from_milli (unix_milli (env_now env)) \<le> env_now env"
    by (simp add: from_milli_def unix_milli_def millisecond_def)
  then have "due - env_now env < 10 * second"
    using assms(2) by (simp add: due second_def millisecond_def)
  moreover have "sv_last sv1 rid = Some (env_now env)" using assms(3,4) by simp
  moreover have "sv_go sv1 = sv_go sv"
    using assms(5) unfolding assms(4) by (auto simp: ScheduleAdvance_def CancelAdvance_def Let_def split: option.splits if_splits)
  ultimately show ?thesis using assms(4-7)
    by (simp add: timer_fires_def advanceTrack_def advance_claim_def)
qed

theorem short_track_stalls_room_witness:
  "\<exists>due. sv_timers (ScheduleAdvance (demo_env 0) ''r'' (Some ((demo_track ''t1'')\<lparr>track_duration := 8\<rparr>)) 0
       (demo_server\<lparr>sv_last := [''r'' \<mapsto> 0]\<rparr>)) ''r'' = Some (Armed due)
     \<and> sv_redis (timer_fires (\<lambda>x. x) (demo_env due) ''r'' (ScheduleAdvance (demo_env 0) ''r''
         (Some ((demo_track ''t1'')\<lparr>track_duration := 8\<rparr>)) 0 (demo_server\<lparr>sv_last := [''r'' \<mapsto> 0]\<rparr>))) = sv_redis demo_server"
proof -
  let ?t = "(demo_track ''t1'')\<lparr>track_duration := 8\<rparr>" and ?sv = "demo_server\<lparr>sv_last := [''r'' \<mapsto> 0]\<rparr>"
  have "sv_timers (ScheduleAdvance (demo_env 0) ''r'' (Some ?t) (unix_milli (env_now (demo_env 0))) ?sv) ''r''
      = Some (Armed (8 * second + 500 * millisecond))"
    by (subst ScheduleAdvance_arms) (simp_all add: int4_ok_def unix_milli_def from_milli_def)
  moreover from short_track_stalls_room [OF _ _ _ refl this _ refl, of "demo_env (8 * second + 500 * millisecond)" "\<lambda>x. x"]
  have "sv_redis (timer_fires (\<lambda>x. x) (demo_env (8 * second + 500 * millisecond)) ''r''
      (ScheduleAdvance (demo_env 0) ''r'' (Some ?t) (unix_milli (env_now (demo_env 0))) ?sv)) = sv_redis demo_server"
    by simp
  ultimately show ?thesis by (auto simp: unix_milli_def)
qed

section \<open>An advance\<close>

lemma broadcastTo_hub:
  "sv_hubs sv rid = Some h \<Longrightarrow> sv_hubs (broadcastTo env rid m sv) = (sv_hubs sv)(rid \<mapsto> enqueueBroadcast (env_pick env) m h)"
  by (simp add: broadcastTo_def)

lemma start_announce_frame [simp]:
  "sv_pg (announce_playing env rid t sv) = sv_pg sv" "sv_redis (announce_playing env rid t sv) = sv_redis sv"
  "sv_timers (announce_playing env rid t sv) = sv_timers sv" "sv_timers (start_playing env rid tid sv) = sv_timers sv"
  "sv_hubs (start_playing env rid tid sv) = sv_hubs sv"
  by (simp_all add: announce_playing_def start_playing_def)

lemma advance_core:
  assumes "env_faults env = no_faults" and "env_rfaults env = (\<lambda>_. False)" and "env_locked env = no_locks"
    and "queue_ids_ok (sv_pg sv)" and "has_room rid (sv_pg sv)" and "queue_view rid (sv_pg sv) = e # rest"
    and "0 < track_duration (entry_track e)" and "int4_ok (track_duration (entry_track e))"
    and "sv_hubs sv rid = Some h" and "\<not> hub_quit h" and "length (hub_broadcast h) + 3 \<le> channelCap"
    and "snd (advance_claim (env_now env) rid sv)" and "sv' = advanceTrack sha env rid sv"
  shows "queue_view rid (sv_pg sv') = rest
    \<and> (\<exists>t. GetNowPlaying no_faults rid (sv_pg sv') = Inr (Some t) \<and> track_id t = track_id (entry_track e))
    \<and> (\<exists>ps. rd_playback (sv_redis sv') rid = Some ps \<and> ps_track ps = track_id (entry_track e) \<and> ps_playing ps
        \<and> ps_started_at ps = unix_milli (env_now env)
        \<and> sv_timers sv' rid = Some (Armed (from_milli (ps_started_at ps)
            + track_duration (entry_track e) * second + 500 * millisecond))
        \<and> (\<exists>h'. sv_hubs sv' rid = Some h' \<and> hub_broadcast h' = hub_broadcast h
            @ [MTrackChanged (Some (entry_track e)), MPlaybackState ps, MQueueUpdate rest]))
    \<and> (\<forall>other. other \<noteq> rid \<longrightarrow> sv_timers sv' other = sv_timers sv other)"
proof -
  let ?tid = "track_id (entry_track e)" and ?db = "pop_commit e (sv_pg sv)"
  define sv1 where "sv1 = fst (advance_claim (env_now env) rid sv)"
  have sv1: "sv_pg sv1 = sv_pg sv" "sv_hubs sv1 = sv_hubs sv" "sv_timers sv1 = (sv_timers sv)(rid := None)"
    "sv' = advance_body sha env rid sv1"
    using assms(12,13) by (auto simp: sv1_def advance_claim_def CancelAdvance_def advanceTrack_def split: if_splits)
  have pop: "PopNextTrack no_faults no_locks rid (sv_pg sv) = Inr (?db, Some e)"
    using assms(6) by (simp add: PopNextTrack_def pop_select_no_locks)
  obtain t where t: "find_row (\<lambda>x. track_id x = ?tid) (db_tracks (sv_pg sv)) = Some t"
    using queue_view_has_track [of e rid "sv_pg sv"] assms(6) by auto
  obtain db' where db': "SetNowPlaying no_faults (env_now env) rid ?tid ?db = Inr db'"
      "GetNowPlaying no_faults rid db' = Inr (Some t)" "db_queue db' = db_queue ?db" "db_tracks db' = db_tracks ?db"
    using SetNowPlaying_read [of rid ?db ?tid t "env_now env"] assms(5) t
    by (auto simp: pop_commit_def has_room_def)
  have "approved_rows rid db' = approved_rows rid ?db" "join_track db' = join_track ?db"
    using db' by (auto simp: approved_rows_def intro!: join_track_same)
  then have view: "queue_view rid db' = rest"
    using queue_view_pop_commit [OF assms(4,6)] by (simp add: queue_view_def)
  define sv2 where "sv2 = start_playing env rid ?tid (sv1\<lparr>sv_pg := ?db\<rparr>)"
  have sv2: "sv_pg sv2 = db'" "sv_hubs sv2 rid = Some h" "sv_timers sv2 = sv_timers sv1"
    "rd_playback (sv_redis sv2) rid = Some \<lparr>ps_room = rid, ps_track = ?tid, ps_started_at = unix_milli (env_now env),
       ps_playing = True, ps_pause_position = 0\<rparr>"
    using assms(1,2,9) sv1 db'(1) by (simp_all add: sv2_def start_playing_def SetPlaybackState_def)
  define sv3 where "sv3 = broadcastTo env rid (MQueueUpdate rest) (announce_playing env rid (entry_track e) sv2)"
  have sv3: "sv_pg sv3 = db'" "sv_timers sv3 = sv_timers sv1" "sv_redis sv3 = sv_redis sv2"
    by (simp_all add: sv3_def sv2)
  have h3: "\<exists>h'. sv_hubs sv3 rid = Some h' \<and> hub_broadcast h' = hub_broadcast h
      @ [MTrackChanged (Some (entry_track e)), MPlaybackState \<lparr>ps_room = rid, ps_track = ?tid,
          ps_started_at = unix_milli (env_now env), ps_playing = True, ps_pause_position = 0\<rparr>, MQueueUpdate rest]"
    using assms(10,11) sv2(2)
    by (simp add: sv3_def announce_playing_def broadcastTo_def enqueue_more)
  have sv': "sv' = ScheduleAdvance env rid (Some (entry_track e)) (unix_milli (env_now env)) sv3"
    using assms(1,3,9) pop sv1 view sv2(1)
    by (simp add: advance_body_def GetHub_def Let_def sv2_def [symmetric] GetQueue_view sv3_def)
  show ?thesis
    using ScheduleAdvance_arms [OF assms(7,8), of "unix_milli (env_now env)" env rid sv3] h3 sv2(4) db'(2) view find_row_Some [OF t]
    by (auto simp: sv' sv3 sv1)
qed

text \<open>
  C5: When a track ends (a timer or an accepted report gets through the debounce) and the queue is
  not empty, the room moves on as a whole: its first listed entry leaves the queue, playback state
  and now-playing row name its track from now on, the room is told the track, the playback state
  and the rest of the queue, and exactly one timer is armed for the room, half a second after the
  end of that track.
\<close>

theorem advance_moves_room_on:
  assumes "env_faults env = no_faults" and "env_rfaults env = (\<lambda>_. False)" and "env_locked env = no_locks"
    and "queue_ids_ok (sv_pg sv)" and "has_room rid (sv_pg sv)" and "queue_view rid (sv_pg sv) = e # rest"
    and "0 < track_duration (entry_track e)" and "int4_ok (track_duration (entry_track e))"
    and "sv_hubs sv rid = Some h" and "\<not> hub_quit h" and "length (hub_broadcast h) + 3 \<le> channelCap"
    and "snd (advance_claim (env_now env) rid sv)" and "sv' = advanceTrack sha env rid sv"
  shows "queue_view rid (sv_pg sv') = rest
    \<and> (\<exists>t. GetNowPlaying no_faults rid (sv_pg sv') = Inr (Some t) \<and> track_id t = track_id (entry_track e))
    \<and> (\<exists>ps. rd_playback (sv_redis sv') rid = Some ps \<and> ps_track ps = track_id (entry_track e) \<and> ps_playing ps
        \<and> ps_started_at ps = unix_milli (env_now env)
        \<and> sv_timers sv' rid = Some (Armed (from_milli (ps_started_at ps)
            + track_duration (entry_track e) * second + 500 * millisecond))
        \<and> (\<exists>h'. sv_hubs sv' rid = Some h' \<and> hub_broadcast h' = hub_broadcast h
            @ [MTrackChanged (Some (entry_track e)), MPlaybackState ps, MQueueUpdate rest]))
    \<and> (\<forall>other. other \<noteq> rid \<longrightarrow> sv_timers sv' other = sv_timers sv other)"
  by (rule advance_core [OF assms])

theorem advance_moves_room_on_witness:
  "\<exists>ps. rd_playback (sv_redis (advanceTrack (\<lambda>x. x) (demo_env 0) ''r'' demo_server)) ''r'' = Some ps \<and> ps_track ps = ''t2''"
proof -
  let ?e = "the (join_track demo_db (demo_row ''b'' ''t2'' QueueApproved 1))"
  have view: "queue_view ''r'' (sv_pg demo_server) = ?e # [the (join_track demo_db (demo_row ''a'' ''t1'' QueueApproved 2))]"
    by (simp add: queue_view_def approved_rows_def order_by_def demo_db_def demo_row_def map_filter_simps
        join_track_def find_row_simps demo_track_def demo_server_def)
  have track: "track_id (entry_track ?e) = ''t2''" "0 < track_duration (entry_track ?e)" "int4_ok (track_duration (entry_track ?e))"
    by (simp_all add: join_track_def demo_db_def demo_row_def find_row_simps demo_track_def int4_ok_def)
  have h: "queue_ids_ok (sv_pg demo_server)" "has_room ''r'' (sv_pg demo_server)" "sv_hubs demo_server ''r'' = Some (NewHub ''r'' ''r'')"
    "\<not> hub_quit (NewHub ''r'' ''r'')" "length (hub_broadcast (NewHub ''r'' ''r'')) + 3 \<le> channelCap"
    "snd (advance_claim (env_now (demo_env 0)) ''r'' demo_server)"
    by (simp_all add: demo_server_def queue_ids_ok_def demo_db_def demo_row_def has_room_def demo_room_def NewHub_def
        channelCap_def advance_claim_def)
  from advance_moves_room_on [OF demo_env_simps(2) [of 0] demo_env_simps(3) demo_env_simps(5) h(1,2) view track(2,3) h(3-6) refl, of "\<lambda>x. x"] track(1)
  show ?thesis by auto
qed

text \<open>
  Pausing does not stop the clock: the DJ's pause leaves the timer of the playing track armed,
  so when its instant comes the paused room moves on to its next track, which plays.
\<close>

theorem paused_room_still_advances:
  assumes "env_faults env = no_faults" and "env_rfaults env = (\<lambda>_. False)" and "env_locked env = no_locks"
    and "sv_pg sv = w_pg w1" and "sv_redis sv = w_redis w1" and "w1 = handleInbound e1 c ActionDJPause w"
    and "queue_ids_ok (sv_pg sv)" and "has_room rid (sv_pg sv)" and "queue_view rid (sv_pg sv) = e # rest"
    and "0 < track_duration (entry_track e)" and "int4_ok (track_duration (entry_track e))"
    and "sv_hubs sv rid = Some h" and "\<not> hub_quit h" and "length (hub_broadcast h) + 3 \<le> channelCap"
    and "sv_timers sv rid = Some (Armed due)" and "due \<le> env_now env"
    and "sv_last sv rid = None \<or> (\<exists>l. sv_last sv rid = Some l \<and> 10 * second \<le> env_now env - l)"
  shows "\<exists>ps. rd_playback (sv_redis (timer_fires sha env rid sv)) rid = Some ps \<and> ps_playing ps
    \<and> ps_track ps = track_id (entry_track e) \<and> ps_started_at ps = unix_milli (env_now env)"
proof -
  let ?sv = "sv\<lparr>sv_timers := (sv_timers sv)(rid \<mapsto> Fired)\<rparr>"
  have "snd (advance_claim (env_now env) rid ?sv)" using assms(17) by (auto simp: advance_claim_def)
  moreover have "queue_ids_ok (sv_pg ?sv)" "has_room rid (sv_pg ?sv)" "queue_view rid (sv_pg ?sv) = e # rest" "sv_hubs ?sv rid = Some h"
    using assms(7-9,12) by simp_all
  ultimately obtain ps where "rd_playback (sv_redis (advanceTrack sha env rid ?sv)) rid = Some ps" "ps_playing ps"
      "ps_track ps = track_id (entry_track e)" "ps_started_at ps = unix_milli (env_now env)"
    using advance_core [where sv = ?sv and e = e and rest = rest and h = h, OF assms(1-3) _ _ _ assms(10,11) _ assms(13,14) _ refl]
    by blast
  then show ?thesis using assms(15,16) by (simp add: timer_fires_def)
qed

definition paused_world :: world where
  "paused_world = handleInbound (demo_env 0) 1 ActionDJPause demo_playing"

theorem paused_room_still_advances_witness:
  "\<exists>ps. rd_playback (sv_redis (timer_fires (\<lambda>x. x) (demo_env (201 * second)) ''r''
       (demo_server\<lparr>sv_pg := w_pg paused_world, sv_redis := w_redis paused_world,
          sv_timers := [''r'' \<mapsto> Armed (200 * second)]\<rparr>))) ''r'' = Some ps \<and> ps_playing ps \<and> ps_track ps = ''t2''"
proof -
  let ?sv = "demo_server\<lparr>sv_pg := w_pg paused_world, sv_redis := w_redis paused_world, sv_timers := [''r'' \<mapsto> Armed (200 * second)]\<rparr>"
  let ?e = "the (join_track demo_db (demo_row ''b'' ''t2'' QueueApproved 1))"
  have pg: "w_pg paused_world = demo_db\<lparr>db_rooms := [(demo_room ''r'')\<lparr>room_policy := PolicyOpen\<rparr>]\<rparr>"
    by (simp add: paused_world_def demo_playing_def dj_only_def handle_pause_def split: option.split)
  have view: "queue_view ''r'' (sv_pg ?sv) = ?e # [the (join_track demo_db (demo_row ''a'' ''t1'' QueueApproved 2))]"
    by (simp add: pg queue_view_def approved_rows_def order_by_def demo_db_def demo_row_def map_filter_simps
        join_track_def find_row_simps demo_track_def)
  have track: "track_id (entry_track ?e) = ''t2''" "0 < track_duration (entry_track ?e)" "int4_ok (track_duration (entry_track ?e))"
    by (simp_all add: join_track_def demo_db_def demo_row_def find_row_simps demo_track_def int4_ok_def)
  have h: "queue_ids_ok (sv_pg ?sv)" "has_room ''r'' (sv_pg ?sv)" "sv_hubs ?sv ''r'' = Some (NewHub ''r'' ''r'')"
    "\<not> hub_quit (NewHub ''r'' ''r'')" "length (hub_broadcast (NewHub ''r'' ''r'')) + 3 \<le> channelCap"
    "sv_timers ?sv ''r'' = Some (Armed (200 * second))" "200 * second \<le> env_now (demo_env (201 * second))"
    "sv_last ?sv ''r'' = None"
    by (simp_all add: demo_server_def pg queue_ids_ok_def demo_db_def demo_row_def has_room_def demo_room_def NewHub_def
        channelCap_def second_def)
  have "sv_pg ?sv = w_pg paused_world" "sv_redis ?sv = w_redis paused_world" by simp_all
  from paused_room_still_advances [OF demo_env_simps(2) [of "201 * second"] demo_env_simps(3) demo_env_simps(5) this
      paused_world_def h(1,2) view track(2,3) h(3-7) disjI1 [OF h(8)], of "\<lambda>x. x"] track(1)
  show ?thesis by auto
qed

section \<open>The idle monitor\<close>

type_synonym tick = "env \<times> (string \<rightharpoonup> PlaybackState) \<times> (string \<rightharpoonup> nat)"

fun run_checks :: "Room \<Rightarrow> tick list \<Rightarrow> server \<Rightarrow> server" where
  "run_checks room [] sv = sv"
| "run_checks room ((env, playbacks, counts) # ts) sv = run_checks room ts (check_room env playbacks counts room sv)"

definition tick_idle :: "string \<Rightarrow> tick \<Rightarrow> bool" where
  "tick_idle rid t = (case t of (_, playbacks, counts) \<Rightarrow> \<not> room_active playbacks counts rid)"

lemma run_checks_snoc:
  "run_checks room (ts @ [(env, pb, qc)]) sv = check_room env pb qc room (run_checks room ts sv)"
  by (induction room ts sv rule: run_checks.induct) auto

lemma closeRoom_idle_since [simp]: "sv_idle_since (closeRoom env rid sv) = sv_idle_since sv"
  by (simp add: closeRoom_def Let_def)

lemma idle_since_justified:
  assumes "room_is_live room" and "sv_idle_since sv (room_id room) = None"
    and "sv_idle_since (run_checks room ts sv) (room_id room) = Some since"
  shows "\<exists>pre t post. ts = pre @ t # post \<and> env_now (fst t) = since \<and> list_all (tick_idle (room_id room)) (t # post)"
  using assms(3)
proof (induction ts rule: rev_induct)
  case Nil
  then show ?case using assms(2) by simp
next
  case (snoc tk ts)
  obtain env pb qc where tk: "tk = (env, pb, qc)" by (cases tk)
  let ?sv = "run_checks room ts sv"
  have idle: "\<not> room_active pb qc (room_id room)"
    using snoc.prems assms(1) by (auto simp: tk run_checks_snoc check_room_def Let_def)
  then have tick: "tick_idle (room_id room) tk" by (simp add: tk tick_idle_def)
  show ?case
  proof (cases "sv_idle_since ?sv (room_id room)")
    case None
    then have "since = env_now (fst tk)" using snoc.prems assms(1) idle by (simp add: tk run_checks_snoc check_room_def Let_def)
    then show ?thesis using tick by (intro exI [of _ ts] exI [of _ tk] exI [of _ "[]"]) simp
  next
    case (Some s0)
    then have "since = s0" using snoc.prems assms(1) idle
      by (simp add: tk run_checks_snoc check_room_def Let_def split: if_splits)
    with snoc.IH Some obtain pre t post where "ts = pre @ t # post" "env_now (fst t) = since"
        "list_all (tick_idle (room_id room)) (t # post)" by auto
    then show ?thesis using tick by (intro exI [of _ pre] exI [of _ t] exI [of _ "post @ [tk]"]) simp
  qed
qed



end
