(* ===== verification/Users.thy ===== *)
theory Users
  imports Store
begin

text \<open>
  The accounts part of \<open>internal/store/users.go\<close>: users, the single-use tokens for e-mail
  verification and password reset, and refresh tokens. A method that issues two statements outside a
  transaction returns the tables together with its error, since the first may have taken effect when
  the second fails. Unused columns (time of the last update, Stripe customer, address of a verification click)
  are left out.
\<close>

section \<open>Users\<close>

definition update_user :: "string \<Rightarrow> (User \<Rightarrow> User) \<Rightarrow> pgdb \<Rightarrow> pgdb" where
  "update_user uid g db = db\<lparr>db_users := update_where (\<lambda>u. user_id u = uid) g (db_users db)\<rparr>"

definition coalesce :: "'a option \<Rightarrow> 'a \<Rightarrow> 'a option" where
  "coalesce x d = (case x of None \<Rightarrow> Some d | Some y \<Rightarrow> Some y)"

text \<open>The unique index on \<open>LOWER(stage_name)\<close> leaves empty stage names out.\<close>

definition stage_name_clash :: "string \<Rightarrow> User \<Rightarrow> bool" where
  "stage_name_clash name u \<longleftrightarrow> name \<noteq> '''' \<and> user_stage_name u \<noteq> ''''
     \<and> to_lower (user_stage_name u) = to_lower name"

text \<open>\<open>CreateUser\<close> inserts the columns it lists; the others take their defaults.\<close>

definition CreateUser :: "faults \<Rightarrow> User \<Rightarrow> pgdb \<Rightarrow> pgdb fallible" where
  "CreateUser f user db =
     (if f CCreateUser \<or> (\<exists>u \<in> set (db_users db). user_id u = user_id user \<or> user_email u = user_email user
         \<or> stage_name_clash (user_stage_name user) u) then Inl StoreError
      else Inr (db\<lparr>db_users := db_users db @ [user\<lparr>user_is_admin := False, user_city := '''',
        user_region := '''', user_country := '''', user_is_plus := False, user_plus_since := None,
        user_plus_expires_at := None, user_neon := 0, user_is_banned := False, user_verified_at := None, user_held_at := None\<rparr>]\<rparr>))"

text \<open>The column \<open>is_plus\<close> as the two queries below derive it.\<close>

definition plus_now :: "gotime \<Rightarrow> User \<Rightarrow> bool" where
  "plus_now now u \<longleftrightarrow> user_is_plus u
     \<and> (case user_plus_expires_at u of None \<Rightarrow> True | Some e \<Rightarrow> e > now)"

definition read_user :: "gotime \<Rightarrow> User \<Rightarrow> User" where
  "read_user now u = u\<lparr>user_is_plus := plus_now now u\<rparr>"

definition GetUserByEmail :: "faults \<Rightarrow> gotime \<Rightarrow> string \<Rightarrow> pgdb \<Rightarrow> User option fallible" where
  "GetUserByEmail f now email db = failing (f CGetUser)
     (map_option (read_user now) (find_row (\<lambda>u. user_email u = email) (db_users db)))"

definition GetUserByID :: "faults \<Rightarrow> gotime \<Rightarrow> string \<Rightarrow> pgdb \<Rightarrow> User option fallible" where
  "GetUserByID f now uid db = failing (f CGetUser)
     (map_option (read_user now) (find_row (\<lambda>u. user_id u = uid) (db_users db)))"

definition UpdateUserProfile ::
  "faults \<Rightarrow> string \<Rightarrow> string \<Rightarrow> string \<Rightarrow> string \<Rightarrow> string list \<Rightarrow> string \<Rightarrow> pgdb \<Rightarrow> pgdb fallible" where
  "UpdateUserProfile f uid displayName bio color genres stageName db =
     (if f CUpdateUser \<or> has_user uid db
         \<and> (\<exists>u \<in> set (db_users db). user_id u \<noteq> uid \<and> stage_name_clash stageName u) then Inl StoreError
      else Inr (update_user uid (\<lambda>u. u\<lparr>user_display_name := displayName, user_bio := bio,
        user_avatar_color := color, user_genres := genres, user_stage_name := stageName\<rparr>) db))"

definition UpdateUserLocation :: "faults \<Rightarrow> string \<Rightarrow> string \<Rightarrow> string \<Rightarrow> string \<Rightarrow> pgdb \<Rightarrow> pgdb fallible" where
  "UpdateUserLocation f uid city region country db = failing (f (CProfile PfLocation))
     (update_user uid (\<lambda>u. u\<lparr>user_city := city, user_region := region, user_country := country\<rparr>) db)"

definition UpdateUserPassword :: "faults \<Rightarrow> string \<Rightarrow> string \<Rightarrow> pgdb \<Rightarrow> pgdb fallible" where
  "UpdateUserPassword f uid hash db = failing (f CUpdatePassword)
     (update_user uid (\<lambda>u. u\<lparr>user_password_hash := hash\<rparr>) db)"

definition UpdateUserEmail :: "faults \<Rightarrow> string \<Rightarrow> string \<Rightarrow> pgdb \<Rightarrow> pgdb fallible" where
  "UpdateUserEmail f uid email db =
     (if f CUpdateEmail \<or> has_user uid db
         \<and> (\<exists>u \<in> set (db_users db). user_id u \<noteq> uid \<and> user_email u = email) then Inl StoreError
      else Inr (update_user uid (\<lambda>u. u\<lparr>user_email := email, user_email_verified := False\<rparr>) db))"

definition SetEmailVerified :: "faults \<Rightarrow> gotime \<Rightarrow> string \<Rightarrow> pgdb \<Rightarrow> pgdb fallible" where
  "SetEmailVerified f now uid db = failing (f CSetVerified)
     (update_user uid (\<lambda>u. u\<lparr>user_email_verified := True,
        user_verified_at := coalesce (user_verified_at u) now, user_held_at := None\<rparr>) db)"

definition HoldEmailVerification :: "faults \<Rightarrow> gotime \<Rightarrow> string \<Rightarrow> pgdb \<Rightarrow> pgdb fallible" where
  "HoldEmailVerification f now uid db = failing (f CHoldVerified)
     (update_user uid (\<lambda>u. u\<lparr>user_verified_at := coalesce (user_verified_at u) now,
        user_held_at := Some now\<rparr>) db)"

text \<open>
  \<open>DeleteUser\<close>: the foreign key of \<open>neon_transactions\<close> does not cascade, so a user who has ever
  tipped cannot be deleted; the keys of the other modelled tables cascade.
\<close>

definition DeleteUser :: "faults \<Rightarrow> string \<Rightarrow> pgdb \<Rightarrow> pgdb fallible" where
  "DeleteUser f uid db =
     (if f CDeleteUser \<or> has_user uid db \<and> ((\<exists>t \<in> set (db_neon_tx db). nt_from t = uid)
         \<or> (\<exists>a \<in> set (db_pool_shares db). pa_creator a = uid)) then Inl StoreError
      else Inr (db\<lparr>db_users := delete_where (\<lambda>u. user_id u = uid) (db_users db),
        db_verifications := delete_where (\<lambda>v. ev_user v = uid) (db_verifications db),
        db_resets := delete_where (\<lambda>p. pr_user p = uid) (db_resets db),
        db_refresh := delete_where (\<lambda>t. rt_user t = uid) (db_refresh db),
        db_listens := delete_where (\<lambda>l. le_user l = uid) (db_listens db),
        db_purchases := delete_where (\<lambda>p. purchase_user p = uid) (db_purchases db),
        db_subs := delete_where (\<lambda>s. sub_user s = uid) (db_subs db),
        db_djsubs := delete_where (\<lambda>d. ds_user d = uid) (db_djsubs db),
        db_messages := delete_where (\<lambda>m. dm_from m = uid \<or> dm_to m = uid) (db_messages db),
        db_playlist_tracks := delete_where (\<lambda>t. plr_playlist t \<in>
          pl_id ` {p \<in> set (db_playlists db). pl_user p = uid}) (db_playlist_tracks db),
        db_playlists := delete_where (\<lambda>p. pl_user p = uid) (db_playlists db)\<rparr>))"

text \<open>\<open>IsStageNameTaken\<close>; an empty \<open>excluded\<close> excludes nobody.\<close>

definition IsStageNameTaken :: "faults \<Rightarrow> string \<Rightarrow> string \<Rightarrow> pgdb \<Rightarrow> bool fallible" where
  "IsStageNameTaken f name excluded db = failing (f CStageName)
     (affected (\<lambda>u. to_lower (user_stage_name u) = to_lower name
        \<and> (excluded = '''' \<or> user_id u \<noteq> excluded)) (db_users db) > 0)"

definition BootstrapAdmin :: "faults \<Rightarrow> string \<Rightarrow> pgdb \<Rightarrow> pgdb fallible" where
  "BootstrapAdmin f email db = failing (f CAdminField)
     (db\<lparr>db_users := update_where (\<lambda>u. user_email u = email) (\<lambda>u. u\<lparr>user_is_admin := True\<rparr>) (db_users db)\<rparr>)"

definition AdminSetEmailVerified :: "faults \<Rightarrow> string \<Rightarrow> bool \<Rightarrow> pgdb \<Rightarrow> pgdb fallible" where
  "AdminSetEmailVerified f uid verified db = failing (f CAdminField)
     (if verified then update_user uid (\<lambda>u. u\<lparr>user_email_verified := True, user_held_at := None\<rparr>) db
      else update_user uid (\<lambda>u. u\<lparr>user_email_verified := False\<rparr>) db)"

section \<open>E-mail verifications\<close>

definition CreateEmailVerification ::
  "faults \<Rightarrow> gotime \<Rightarrow> EmailVerification \<Rightarrow> pgdb \<Rightarrow> pgdb \<times> unit fallible" where
  "CreateEmailVerification f now v db =
     (let db1 = (if f CExpireVerifications then db
            else db\<lparr>db_verifications := update_where (\<lambda>w. ev_user w = ev_user v \<and> ev_used_at w = None)
                   (\<lambda>w. w\<lparr>ev_used_at := Some now\<rparr>) (db_verifications db)\<rparr>) in
      if f CInsertVerification \<or> \<not> has_user (ev_user v) db
         \<or> (\<exists>w \<in> set (db_verifications db). ev_id w = ev_id v \<or> ev_token w = ev_token v)
      then (db1, Inl StoreError)
      else (db1\<lparr>db_verifications := db_verifications db1 @ [v\<lparr>ev_used_at := None\<rparr>]\<rparr>, Inr ()))"

definition GetEmailVerificationByToken :: "faults \<Rightarrow> string \<Rightarrow> pgdb \<Rightarrow> EmailVerification option fallible" where
  "GetEmailVerificationByToken f token db = failing (f CGetVerification)
     (find_row (\<lambda>v. ev_token v = token) (db_verifications db))"

definition MarkEmailVerificationUsed :: "faults \<Rightarrow> gotime \<Rightarrow> string \<Rightarrow> pgdb \<Rightarrow> pgdb fallible" where
  "MarkEmailVerificationUsed f now vid db = failing (f CMarkVerification)
     (db\<lparr>db_verifications := update_where (\<lambda>v. ev_id v = vid) (\<lambda>v. v\<lparr>ev_used_at := Some now\<rparr>)
        (db_verifications db)\<rparr>)"

section \<open>Password resets\<close>

definition CreatePasswordReset :: "faults \<Rightarrow> gotime \<Rightarrow> PasswordReset \<Rightarrow> pgdb \<Rightarrow> pgdb \<times> unit fallible" where
  "CreatePasswordReset f now p db =
     (let db1 = (if f CExpireResets then db
            else db\<lparr>db_resets := update_where (\<lambda>q. pr_user q = pr_user p \<and> pr_used_at q = None)
                   (\<lambda>q. q\<lparr>pr_used_at := Some now\<rparr>) (db_resets db)\<rparr>) in
      if f CInsertReset \<or> \<not> has_user (pr_user p) db
         \<or> (\<exists>q \<in> set (db_resets db). pr_id q = pr_id p \<or> pr_token q = pr_token p)
      then (db1, Inl StoreError)
      else (db1\<lparr>db_resets := db_resets db1 @ [p\<lparr>pr_used_at := None\<rparr>]\<rparr>, Inr ()))"

definition GetPasswordResetByToken :: "faults \<Rightarrow> string \<Rightarrow> pgdb \<Rightarrow> PasswordReset option fallible" where
  "GetPasswordResetByToken f token db = failing (f CGetReset)
     (find_row (\<lambda>p. pr_token p = token) (db_resets db))"

definition MarkPasswordResetUsed :: "faults \<Rightarrow> gotime \<Rightarrow> string \<Rightarrow> pgdb \<Rightarrow> pgdb fallible" where
  "MarkPasswordResetUsed f now pid db = failing (f CMarkReset)
     (db\<lparr>db_resets := update_where (\<lambda>p. pr_id p = pid) (\<lambda>p. p\<lparr>pr_used_at := Some now\<rparr>) (db_resets db)\<rparr>)"

section \<open>Refresh tokens\<close>

definition CreateRefreshToken :: "faults \<Rightarrow> RefreshToken \<Rightarrow> pgdb \<Rightarrow> pgdb fallible" where
  "CreateRefreshToken f t db =
     (if f CInsertRefresh \<or> \<not> has_user (rt_user t) db
         \<or> (\<exists>x \<in> set (db_refresh db). rt_id x = rt_id t \<or> rt_hash x = rt_hash t) then Inl StoreError
      else Inr (db\<lparr>db_refresh := db_refresh db @ [t\<lparr>rt_revoked_at := None\<rparr>]\<rparr>))"

definition GetRefreshTokenByHash :: "faults \<Rightarrow> string \<Rightarrow> pgdb \<Rightarrow> RefreshToken option fallible" where
  "GetRefreshTokenByHash f hash db = failing (f CGetRefresh)
     (find_row (\<lambda>t. rt_hash t = hash) (db_refresh db))"

definition RevokeRefreshToken :: "faults \<Rightarrow> gotime \<Rightarrow> string \<Rightarrow> pgdb \<Rightarrow> pgdb fallible" where
  "RevokeRefreshToken f now tid db = failing (f CRevokeRefresh)
     (db\<lparr>db_refresh := update_where (\<lambda>t. rt_id t = tid) (\<lambda>t. t\<lparr>rt_revoked_at := Some now\<rparr>) (db_refresh db)\<rparr>)"

definition RevokeRefreshTokenIfActive ::
  "faults \<Rightarrow> gotime \<Rightarrow> string \<Rightarrow> pgdb \<Rightarrow> (pgdb \<times> bool) fallible" where
  "RevokeRefreshTokenIfActive f now tid db =
     (let live = (\<lambda>t. rt_id t = tid \<and> rt_revoked_at t = None) in
      failing (f CRevokeRefresh)
        (db\<lparr>db_refresh := update_where live (\<lambda>t. t\<lparr>rt_revoked_at := Some now\<rparr>) (db_refresh db)\<rparr>,
         affected live (db_refresh db) > 0))"

definition RevokeAllUserRefreshTokens :: "faults \<Rightarrow> string \<Rightarrow> pgdb \<Rightarrow> pgdb fallible" where
  "RevokeAllUserRefreshTokens f uid db = failing (f CRevokeAllRefresh)
     (db\<lparr>db_refresh := delete_where (\<lambda>t. rt_user t = uid) (db_refresh db)\<rparr>)"

text \<open>\<open>CleanupExpiredTokens\<close> drops the errors of its three statements.\<close>

definition CleanupExpiredTokens :: "faults \<Rightarrow> gotime \<Rightarrow> pgdb \<Rightarrow> pgdb" where
  "CleanupExpiredTokens f now db = db\<lparr>
     db_refresh := (if f CCleanRefresh then db_refresh db
       else delete_where (\<lambda>t. rt_expires_at t < now) (db_refresh db)),
     db_resets := (if f CCleanResets then db_resets db
       else delete_where (\<lambda>p. pr_expires_at p < now) (db_resets db)),
     db_verifications := (if f CCleanVerifications then db_verifications db
       else delete_where (\<lambda>v. ev_expires_at v < now) (db_verifications db))\<rparr>"

end
