(* ===== verification/Http.thy ===== *)
theory Http
  imports Models
begin

text \<open>
  What the HTTP handlers answer: \<open>http.Error\<close> with its status and message, or \<open>writeJSON\<close> with
  its status and the value written. A request body that does not decode is \<open>None\<close>; the user of the
  request (\<open>middleware.GetUser\<close>) is \<open>None\<close> for an anonymous one.
\<close>

datatype 'a response = HttpError nat string | HttpOK nat 'a

fun refused :: "'a response \<Rightarrow> bool" where
  "refused (HttpError code msg) = True"
| "refused (HttpOK code body) = False"

lemma refused_iff: "refused r \<longleftrightarrow> (\<exists>code msg. r = HttpError code msg)"
  by (cases r) auto

fun_cases refusedE: "refused r"

end
