(* ===== verification/Neon.thy ===== *)
theory Neon
  imports Users Playback Http
begin

text \<open>
  Neon, the currency of tips, and subscriptions: the statements of \<open>internal/store/monetization.go\<close>
  and the handlers of \<open>internal/handlers/monetization.go\<close>. A method of the store that runs inside a
  transaction either commits all of its statements or none; one that runs two statements on the pool
  without a transaction returns the tables together with its error.

  \<open>month\<close> stands for \<open>time.Time.AddDate(0, 1, 0)\<close> in the time zone the server is configured for.
\<close>

section \<open>Balances\<close>

text \<open>\<open>CreditNeon\<close>: the foreign key of the purchase refuses a user that does not exist, so the
  transaction of a credit to nobody is rolled back. \<open>fresh\<close> is the new row's UUID.\<close>

definition CreditNeon ::
  "faults \<Rightarrow> string \<Rightarrow> string \<Rightarrow> int \<Rightarrow> string \<Rightarrow> int \<Rightarrow> string \<Rightarrow> pgdb \<Rightarrow> pgdb fallible" where
  "CreditNeon f fresh uid amount pack price payment db =
     (if f CCreditNeon \<or> \<not> int4_ok amount \<or> \<not> int4_ok price
         \<or> (\<exists>u \<in> set (db_users db). user_id u = uid \<and> \<not> int4_ok (user_neon u + amount))
         \<or> \<not> has_user uid db \<or> (\<exists>p \<in> set (db_purchases db). purchase_id p = fresh)
      then Inl StoreError
      else Inr (db\<lparr>db_users := update_where (\<lambda>u. user_id u = uid)
                     (\<lambda>u. u\<lparr>user_neon := user_neon u + amount\<rparr>) (db_users db),
                   db_purchases := db_purchases db @ [\<lparr>purchase_id = fresh, purchase_user = uid,
                     purchase_pack = pack, purchase_amount = amount, purchase_price = price,
                     purchase_payment = payment\<rparr>]\<rparr>))"

datatype spend_error = SpendFailed | InsufficientNeon

definition fill_tube :: "int \<Rightarrow> NeonTube \<Rightarrow> NeonTube" where
  "fill_tube amount t = t\<lparr>tube_fill := tube_fill t + amount, tube_total := tube_total t + amount\<rparr>"

definition SpendNeon ::
  "faults \<Rightarrow> string \<Rightarrow> string \<Rightarrow> string \<Rightarrow> string option \<Rightarrow> int \<Rightarrow> pgdb \<Rightarrow> spend_error + pgdb" where
  "SpendNeon f fresh uid rid dj amount db =
     (let payer = (\<lambda>u. user_id u = uid \<and> user_neon u \<ge> amount) in
      if f CSpendNeon \<or> \<not> int4_ok amount
         \<or> (\<exists>u \<in> set (db_users db). payer u \<and> \<not> int4_ok (user_neon u - amount)) then Inl SpendFailed
      else if affected payer (db_users db) = 0 then Inl InsufficientNeon
      else if (\<exists>t \<in> set (db_neon_tx db). nt_id t = fresh) \<or> \<not> has_room rid db
         \<or> (\<exists>t \<in> set (db_tubes db). tube_room t = rid \<and> \<not> int4_ok (tube_fill t + amount))
        then Inl SpendFailed
      else Inr (db\<lparr>db_users := update_where payer (\<lambda>u. u\<lparr>user_neon := user_neon u - amount\<rparr>) (db_users db),
                   db_neon_tx := db_neon_tx db @ [\<lparr>nt_id = fresh, nt_from = uid, nt_room = rid,
                     nt_dj = dj, nt_amount = amount\<rparr>],
                   db_tubes := (if \<exists>t \<in> set (db_tubes db). tube_room t = rid
                     then update_where (\<lambda>t. tube_room t = rid) (fill_tube amount) (db_tubes db)
                     else db_tubes db @ [\<lparr>tube_room = rid, tube_level = 1, tube_fill = amount,
                       tube_target = 100, tube_total = amount\<rparr>])\<rparr>))"

definition GetNeonBalance :: "faults \<Rightarrow> string \<Rightarrow> pgdb \<Rightarrow> int fallible" where
  "GetNeonBalance f uid db =
     (if f CGetNeonBalance then Inl StoreError
      else case find_row (\<lambda>u. user_id u = uid) (db_users db) of
          None \<Rightarrow> Inl StoreError
        | Some u \<Rightarrow> Inr (user_neon u))"

section \<open>Tubes\<close>

definition level_target :: "(int \<rightharpoonup> int) \<Rightarrow> int \<Rightarrow> int" where
  "level_target targets lv =
     (case targets lv of None \<Rightarrow> 100 | Some g \<Rightarrow> if g \<le> 0 then 100 else g)"

definition next_level :: "int \<Rightarrow> int \<Rightarrow> int" where
  "next_level maxLevel lv = (if lv + 1 > maxLevel then 1 else lv + 1)"

text \<open>The loop of \<open>ResolveTubeOverflow\<close>: every round consumes a positive target.\<close>

function settle :: "(int \<rightharpoonup> int) \<Rightarrow> int \<Rightarrow> NeonTube \<Rightarrow> NeonTube \<times> bool" where
  "settle targets maxLevel t =
     (if 0 < tube_target t \<and> tube_target t \<le> tube_fill t then
        (let overflow = tube_fill t - tube_target t;
             lv = next_level maxLevel (tube_level t);
             target = level_target targets lv in
         (fst (settle targets maxLevel
            (t\<lparr>tube_level := lv, tube_fill := overflow, tube_target := target\<rparr>)), True))
      else (t, False))"
  by pat_completeness auto
termination
  by (relation "measure (\<lambda>(targets, maxLevel, t). nat (tube_fill t))") auto

declare settle.simps [simp del]

definition ResolveTubeOverflow ::
  "faults \<Rightarrow> string \<Rightarrow> (int \<rightharpoonup> int) \<Rightarrow> int \<Rightarrow> pgdb \<Rightarrow> (pgdb \<times> NeonTube \<times> bool) fallible" where
  "ResolveTubeOverflow f rid targets maxLevel db =
     (if f CResolveTube then Inl StoreError
      else case find_row (\<lambda>t. tube_room t = rid) (db_tubes db) of
          None \<Rightarrow> Inr (db, default_tube rid, False)
        | Some t \<Rightarrow>
            (case settle targets maxLevel t of (t', leveled) \<Rightarrow>
              if \<not> leveled then Inr (db, t', False)
              else if \<not> int4_ok (tube_level t') \<or> \<not> int4_ok (tube_fill t') \<or> \<not> int4_ok (tube_target t')
                then Inl StoreError
              else Inr (db\<lparr>db_tubes := update_where (\<lambda>t. tube_room t = rid)
                     (\<lambda>t. t\<lparr>tube_level := tube_level t', tube_fill := tube_fill t',
                            tube_target := tube_target t'\<rparr>) (db_tubes db)\<rparr>, t', True)))"

fun color_of :: "(int \<times> string \<times> int) list \<Rightarrow> int \<Rightarrow> string" where
  "color_of [] lv = ''cyan''"
| "color_of ((l, c, g) # rest) lv = (if l = lv then c else color_of rest lv)"

definition getTubeColor :: "int \<Rightarrow> string" where
  "getTubeColor lv = color_of TubeLevels lv"


section \<open>Plus and channel subscriptions\<close>

definition ActivatePlus ::
  "faults \<Rightarrow> gotime \<Rightarrow> string \<Rightarrow> gotime \<Rightarrow> string \<Rightarrow> pgdb \<Rightarrow> pgdb \<times> unit fallible" where
  "ActivatePlus f now uid periodEnd stripe db =
     (if f CPlus then (db, Inl StoreError)
      else let db1 = update_user uid (\<lambda>u. u\<lparr>user_is_plus := True,
                 user_plus_since := coalesce (user_plus_since u) now,
                 user_plus_expires_at := Some periodEnd\<rparr>) db;
               sid = ''plus:'' @ uid in
        if f CSubscriptions \<or> \<not> has_user uid db then (db1, Inl StoreError)
        else if \<exists>s \<in> set (db_subs db). sub_id s = sid
        then (db1\<lparr>db_subs := update_where (\<lambda>s. sub_id s = sid)
                (\<lambda>s. s\<lparr>sub_status := ''active'', sub_end := periodEnd\<rparr>) (db_subs db)\<rparr>, Inr ())
        else (db1\<lparr>db_subs := db_subs db @ [\<lparr>sub_id = sid, sub_user = uid, sub_type = ''plus'',
                sub_target = None, sub_price = 799, sub_status = ''active'', sub_stripe = stripe,
                sub_start = now, sub_end = periodEnd, sub_cancelled_at = None\<rparr>]\<rparr>, Inr ()))"

definition AdminSetPlus :: "faults \<Rightarrow> gotime \<Rightarrow> string \<Rightarrow> bool \<Rightarrow> pgdb \<Rightarrow> pgdb fallible" where
  "AdminSetPlus f now uid isPlus db = failing (f CPlus)
     (if isPlus
      then update_user uid (\<lambda>u. u\<lparr>user_is_plus := True, user_plus_expires_at := None,
             user_plus_since := coalesce (user_plus_since u) now\<rparr>) db
      else update_user uid (\<lambda>u. u\<lparr>user_is_plus := False\<rparr>) db)"

definition DeactivatePlus :: "faults \<Rightarrow> gotime \<Rightarrow> string \<Rightarrow> pgdb \<Rightarrow> pgdb \<times> unit fallible" where
  "DeactivatePlus f now uid db =
     (if f CPlus then (db, Inl StoreError)
      else let db1 = update_user uid (\<lambda>u. u\<lparr>user_is_plus := False\<rparr>) db in
        if f CSubscriptions then (db1, Inl StoreError)
        else (db1\<lparr>db_subs := update_where
                (\<lambda>s. sub_user s = uid \<and> sub_type s = ''plus'' \<and> sub_status s = ''active'')
                (\<lambda>s. s\<lparr>sub_status := ''cancelled'', sub_cancelled_at := Some now\<rparr>) (db_subs db)\<rparr>, Inr ()))"

definition GetDJSubSettings :: "faults \<Rightarrow> string \<Rightarrow> pgdb \<Rightarrow> DJSubSettings option fallible" where
  "GetDJSubSettings f dj db = failing (f CGetDJSubSettings) (find_row (\<lambda>d. ds_user d = dj) (db_djsubs db))"

definition UpsertDJSubSettings :: "faults \<Rightarrow> string \<Rightarrow> int \<Rightarrow> bool \<Rightarrow> pgdb \<Rightarrow> pgdb fallible" where
  "UpsertDJSubSettings f dj price enabled db =
     (if f CDJSubSettings \<or> \<not> int4_ok price \<or> \<not> has_user dj db then Inl StoreError
      else Inr (if \<exists>d \<in> set (db_djsubs db). ds_user d = dj
        then db\<lparr>db_djsubs := update_where (\<lambda>d. ds_user d = dj)
               (\<lambda>d. d\<lparr>ds_price := price, ds_enabled := enabled\<rparr>) (db_djsubs db)\<rparr>
        else db\<lparr>db_djsubs := db_djsubs db @ [\<lparr>ds_user = dj, ds_price = price, ds_enabled = enabled\<rparr>]\<rparr>))"

definition SubscribeToDJ_row ::
  "faults \<Rightarrow> gotime \<Rightarrow> gotime \<Rightarrow> string \<Rightarrow> string \<Rightarrow> string \<Rightarrow> int \<Rightarrow> string \<Rightarrow> pgdb \<Rightarrow> pgdb fallible" where
  "SubscribeToDJ_row f now periodEnd fresh uid dj price stripe db =
     (if f CSubscriptions \<or> \<not> int4_ok price \<or> \<not> has_user uid db
         \<or> (\<exists>s \<in> set (db_subs db). sub_id s = fresh) then Inl StoreError
      else Inr (db\<lparr>db_subs := db_subs db @ [\<lparr>sub_id = fresh, sub_user = uid, sub_type = ''dj_sub'',
        sub_target = Some dj, sub_price = price, sub_status = ''active'', sub_stripe = stripe,
        sub_start = now, sub_end = periodEnd, sub_cancelled_at = None\<rparr>]\<rparr>))"

definition dj_sub_row :: "string \<Rightarrow> Subscription \<Rightarrow> bool" where
  "dj_sub_row dj s \<longleftrightarrow> sub_target s = Some dj \<and> sub_type s = ''dj_sub'' \<and> sub_status s = ''active''"

definition GetDJSubscription :: "faults \<Rightarrow> string \<Rightarrow> string \<Rightarrow> pgdb \<Rightarrow> Subscription option fallible" where
  "GetDJSubscription f uid dj db = failing (f CGetSubscription)
     (find_row (\<lambda>s. sub_user s = uid \<and> dj_sub_row dj s) (db_subs db))"

definition GetDJSubscriberCount :: "faults \<Rightarrow> string \<Rightarrow> pgdb \<Rightarrow> nat fallible" where
  "GetDJSubscriberCount f dj db = failing (f CGetSubscription) (affected (dj_sub_row dj) (db_subs db))"

section \<open>The handlers\<close>

text \<open>\<open>dev\<close> is \<open>devPayments\<close>: \<open>requirePayments\<close> refuses the purchase endpoints without it.\<close>

definition SubscribePlus ::
  "bool \<Rightarrow> (gotime \<Rightarrow> gotime) \<Rightarrow> env \<Rightarrow> User option \<Rightarrow> pgdb \<Rightarrow> pgdb \<times> (string \<times> User option) response" where
  "SubscribePlus dev month env user db =
     (if \<not> dev then (db, HttpError 503 ''purchases are not available yet'')
      else case user of
          None \<Rightarrow> (db, HttpError 401 ''login required'')
        | Some u \<Rightarrow>
            if user_is_plus u then (db, HttpOK 200 (''already_plus'', None))
            else (case ActivatePlus (env_faults env) (env_now env) (user_id u) (month (env_now env))
                    (''dev_'' @ user_id u) db of
                (db', Inl _) \<Rightarrow> (db', HttpError 500 ''failed to activate Plus'')
              | (db', Inr _) \<Rightarrow> (db', HttpOK 200 (''active'', deref_or_zero zero_user
                  (GetUserByID (env_faults env) (env_now env) (user_id u) db')))))"

definition CancelPlus :: "env \<Rightarrow> User option \<Rightarrow> pgdb \<Rightarrow> pgdb \<times> (string \<times> User option) response" where
  "CancelPlus env user db =
     (case user of
        None \<Rightarrow> (db, HttpError 401 ''login required'')
      | Some u \<Rightarrow>
          (case DeactivatePlus (env_faults env) (env_now env) (user_id u) db of
              (db', Inl _) \<Rightarrow> (db', HttpError 500 ''failed to cancel Plus'')
            | (db', Inr _) \<Rightarrow> (db', HttpOK 200 (''cancelled'', deref_or_zero zero_user
                (GetUserByID (env_faults env) (env_now env) (user_id u) db')))))"

definition GetDJSubSettings_handler :: "faults \<Rightarrow> string \<Rightarrow> pgdb \<Rightarrow> DJSubSettings response" where
  "GetDJSubSettings_handler f dj db =
     (case GetDJSubSettings f dj db of
        Inl _ \<Rightarrow> HttpError 500 ''internal error''
      | Inr None \<Rightarrow> HttpOK 200 \<lparr>ds_user = dj, ds_price = 499, ds_enabled = False\<rparr>
      | Inr (Some d) \<Rightarrow> HttpOK 200 d)"

definition clamp_price :: "int \<Rightarrow> int" where
  "clamp_price p = (let p1 = (if p < 99 then 99 else p) in if p1 > 4999 then 4999 else p1)"

definition UpdateDJSubSettings ::
  "faults \<Rightarrow> User option \<Rightarrow> (int \<times> bool) option \<Rightarrow> pgdb \<Rightarrow> pgdb \<times> (int \<times> bool) response" where
  "UpdateDJSubSettings f user req db =
     (case user of
        None \<Rightarrow> (db, HttpError 401 ''login required'')
      | Some u \<Rightarrow>
          (case req of
              None \<Rightarrow> (db, HttpError 400 ''invalid JSON'')
            | Some (price, enabled) \<Rightarrow>
                (case UpsertDJSubSettings f (user_id u) (clamp_price price) enabled db of
                    Inl _ \<Rightarrow> (db, HttpError 500 ''failed to update settings'')
                  | Inr db' \<Rightarrow> (db', HttpOK 200 (clamp_price price, enabled)))))"

text \<open>\<open>existing, _\<close> and \<open>settings, _\<close>: after a failed read both pointers are to zero structs.\<close>

definition SubscribeToDJ ::
  "bool \<Rightarrow> (gotime \<Rightarrow> gotime) \<Rightarrow> env \<Rightarrow> User option \<Rightarrow> string \<Rightarrow> pgdb \<Rightarrow> pgdb \<times> (string \<times> int) response" where
  "SubscribeToDJ dev month env user dj db =
     (if \<not> dev then (db, HttpError 503 ''purchases are not available yet'')
      else case user of
          None \<Rightarrow> (db, HttpError 401 ''login required'')
        | Some u \<Rightarrow>
            if dj = user_id u then (db, HttpError 400 ''cannot subscribe to yourself'')
            else (case deref_or_zero zero_subscription (GetDJSubscription (env_faults env) (user_id u) dj db) of
                Some _ \<Rightarrow> (db, HttpOK 200 (''already_subscribed'', 0))
              | None \<Rightarrow>
                  (let price = (case deref_or_zero zero_dj_settings (GetDJSubSettings (env_faults env) dj db) of
                         None \<Rightarrow> 499 | Some d \<Rightarrow> ds_price d) in
                   case SubscribeToDJ_row (env_faults env) (env_now env) (month (env_now env))
                          (env_uuid env 0) (user_id u) dj price (''dev_'' @ user_id u) db of
                     Inl _ \<Rightarrow> (db, HttpError 500 ''failed to subscribe'')
                   | Inr db' \<Rightarrow> (db', HttpOK 200 (''active'', price)))))"

definition GetDJSubscription_handler :: "faults \<Rightarrow> User option \<Rightarrow> string \<Rightarrow> pgdb \<Rightarrow> Subscription option" where
  "GetDJSubscription_handler f user dj db =
     (case user of
        None \<Rightarrow> None
      | Some u \<Rightarrow> deref_or_zero zero_subscription (GetDJSubscription f (user_id u) dj db))"

definition BuyNeon ::
  "bool \<Rightarrow> env \<Rightarrow> User option \<Rightarrow> string option \<Rightarrow> pgdb \<Rightarrow> pgdb \<times> (int \<times> int) response" where
  "BuyNeon dev env user req db =
     (if \<not> dev then (db, HttpError 503 ''purchases are not available yet'')
      else case user of
          None \<Rightarrow> (db, HttpError 401 ''login required'')
        | Some u \<Rightarrow>
            (case req of
                None \<Rightarrow> (db, HttpError 400 ''invalid JSON'')
              | Some pid \<Rightarrow>
                  (case find_row (\<lambda>p. pack_id p = pid) NeonPacks of
                      None \<Rightarrow> (db, HttpError 400 ''unknown pack'')
                    | Some p \<Rightarrow>
                        (case CreditNeon (env_faults env) (env_uuid env 0) (user_id u) (pack_amount p)
                                (pack_id p) (pack_price p) (''dev_'' @ user_id u) db of
                            Inl _ \<Rightarrow> (db, HttpError 500 ''failed to purchase neon'')
                          | Inr db' \<Rightarrow> (db', HttpOK 200 (pack_amount p,
                              or_zero 0 (GetNeonBalance (env_faults env) (user_id u) db')))))))"

definition GetNeonBalance_handler :: "faults \<Rightarrow> User option \<Rightarrow> pgdb \<Rightarrow> int" where
  "GetNeonBalance_handler f user db =
     (case user of None \<Rightarrow> 0 | Some u \<Rightarrow> or_zero 0 (GetNeonBalance f (user_id u) db))"

definition gift_name :: "User \<Rightarrow> string" where
  "gift_name u =
     (let n = (if user_stage_name u = '''' then user_display_name u else user_stage_name u) in
      if n = '''' then ''Someone'' else n)"

text \<open>The three broadcasts of \<open>SendNeon\<close>; without a hub nothing is sent.\<close>

definition announce_gift :: "env \<Rightarrow> string \<Rightarrow> User \<Rightarrow> int \<Rightarrow> NeonTube \<Rightarrow> bool \<Rightarrow> server \<Rightarrow> server" where
  "announce_gift env rid u amount tube poweredUp sv =
     (let sv1 = broadcastTo env rid (MTubeUpdate tube)
                  (broadcastTo env rid (MNeonGift (gift_name u) amount) sv) in
      if poweredUp then broadcastTo env rid (MPowerUp (tube_level tube) (getTubeColor (tube_level tube))) sv1
      else sv1)"

definition tube_targets :: "int \<rightharpoonup> int" where
  "tube_targets = map_of (map (\<lambda>(l, c, g). (l, g)) TubeLevels)"

definition settle_room :: "env \<Rightarrow> string \<Rightarrow> pgdb \<Rightarrow> pgdb \<times> NeonTube \<times> bool" where
  "settle_room env rid db =
     (case ResolveTubeOverflow (env_faults env) rid tube_targets (int (length TubeLevels)) db of
        Inl _ \<Rightarrow> (db, or_zero zero_tube (GetNeonTube (env_faults env) rid db), False)
      | Inr r \<Rightarrow> r)"

definition SendNeon ::
  "env \<Rightarrow> User option \<Rightarrow> (string \<times> int) option \<Rightarrow> server \<Rightarrow> server \<times> (int \<times> NeonTube \<times> bool) response" where
  "SendNeon env user req sv =
     (case user of
        None \<Rightarrow> (sv, HttpError 401 ''login required'')
      | Some u \<Rightarrow>
          (case req of
              None \<Rightarrow> (sv, HttpError 400 ''invalid JSON'')
            | Some (rid, amount) \<Rightarrow>
                if amount < 1 \<or> amount > 10000 then (sv, HttpError 400 ''amount must be 1-10000'')
                else (case deref_or_zero zero_room (GetRoomByID (env_faults env) rid (sv_pg sv)) of
                    None \<Rightarrow> (sv, HttpError 404 ''room not found'')
                  | Some room \<Rightarrow>
                      if room_creator room \<noteq> '''' \<and> room_creator room = user_id u
                      then (sv, HttpError 400 ''you cannot send neon to your own room'')
                      else (case SpendNeon (env_faults env) (env_uuid env 0) (user_id u) rid None amount (sv_pg sv) of
                          Inl InsufficientNeon \<Rightarrow> (sv, HttpError 402 ''insufficient neon balance'')
                        | Inl SpendFailed \<Rightarrow> (sv, HttpError 500 ''failed to send neon'')
                        | Inr db \<Rightarrow>
                            (case settle_room env rid db of (db', tube, poweredUp) \<Rightarrow>
                              (announce_gift env rid u amount tube poweredUp (sv\<lparr>sv_pg := db'\<rparr>),
                               HttpOK 200 (or_zero 0 (GetNeonBalance (env_faults env) (user_id u) db'),
                                 tube, poweredUp)))))))"

end
