(* ===== verification/NeonProps.thy ===== *)
theory NeonProps
  imports Neon PlaybackProps
begin

text \<open>
  The ledger of neon: balances, purchases, tips and tube totals agree in every state that sign-ups,
  purchases, tips and deletions can produce; the tube climbs through its levels as through a cycle.
\<close>

section \<open>The tube\<close>

definition tube_wf :: "NeonTube \<Rightarrow> bool" where
  "tube_wf t \<longleftrightarrow> tube_level t \<in> {1..5} \<and> tube_targets (tube_level t) = Some (tube_target t) \<and> 0 \<le> tube_fill t"

text \<open>The neon that the levels below \<open>lv\<close> take, and the neon of a full cycle.\<close>

fun below_level :: "(int \<times> string \<times> int) list \<Rightarrow> int \<Rightarrow> int" where
  "below_level [] lv = 0"
| "below_level ((l, c, g) # rest) lv = (if l < lv then g else 0) + below_level rest lv"

definition tube_cycle :: int where "tube_cycle = below_level TubeLevels 6"

definition tube_position :: "NeonTube \<Rightarrow> int" where
  "tube_position t = below_level TubeLevels (tube_level t) + tube_fill t"

lemma tube_cycle_eq: "tube_cycle = 3850"
  by (simp add: tube_cycle_def TubeLevels_def)

lemma tube_targets_simps:
  "tube_targets 1 = Some 100" "tube_targets 2 = Some 250" "tube_targets 3 = Some 500"
  "tube_targets 4 = Some 1000" "tube_targets 5 = Some 2000"
  by (simp_all add: tube_targets_def TubeLevels_def)

lemma level_cases:
  assumes "lv \<in> {1..5 :: int}"
  obtains "lv = 1" | "lv = 2" | "lv = 3" | "lv = 4" | "lv = 5"
  using assms by force

lemma levels: "length TubeLevels = 5"
  by (simp add: TubeLevels_def)

lemma level_step:
  assumes "tube_wf t" and "tube_target t \<le> tube_fill t"
    and t': "t' = t\<lparr>tube_level := next_level 5 (tube_level t), tube_fill := tube_fill t - tube_target t,
      tube_target := level_target tube_targets (next_level 5 (tube_level t))\<rparr>"
  shows "tube_wf t'" and "tube_position t' mod tube_cycle = tube_position t mod tube_cycle"
proof -
  from assms(1) have lv: "tube_level t \<in> {1..5}"
    and tg: "tube_targets (tube_level t) = Some (tube_target t)" and "0 \<le> tube_fill t"
    by (auto simp: tube_wf_def)
  from lv have "tube_wf t' \<and> tube_position t' mod tube_cycle = tube_position t mod tube_cycle"
  proof (cases rule: level_cases)
    case 5
    have "tube_position t = tube_position t' + tube_cycle"
      using 5 tg by (simp add: t' tube_position_def tube_cycle_eq TubeLevels_def next_level_def tube_targets_simps)
    then show ?thesis
      using 5 tg assms(2) by (simp add: t' tube_wf_def next_level_def level_target_def tube_targets_simps)
  qed (use tg assms(2) in \<open>simp_all add: t' tube_wf_def next_level_def level_target_def tube_targets_simps
        tube_position_def TubeLevels_def\<close>)
  then show "tube_wf t'" and "tube_position t' mod tube_cycle = tube_position t mod tube_cycle" by auto
qed

lemma wf_target_pos: "tube_wf t \<Longrightarrow> 0 < tube_target t \<and> below_level TubeLevels (tube_level t) + tube_target t \<le> tube_cycle
    \<and> tube_target t \<le> 2000 \<and> 0 \<le> below_level TubeLevels (tube_level t)"
  unfolding tube_wf_def by (elim conjE, erule level_cases)
    (auto simp: tube_targets_simps TubeLevels_def tube_cycle_eq)

lemma settle_invariant:
  "tube_wf t \<Longrightarrow> tube_wf (fst (settle tube_targets 5 t))
     \<and> tube_position (fst (settle tube_targets 5 t)) mod tube_cycle = tube_position t mod tube_cycle
     \<and> tube_fill (fst (settle tube_targets 5 t)) < tube_target (fst (settle tube_targets 5 t))
     \<and> tube_total (fst (settle tube_targets 5 t)) = tube_total t
     \<and> tube_room (fst (settle tube_targets 5 t)) = tube_room t"
proof (induction "nat (tube_fill t)" arbitrary: t rule: less_induct)
  case less
  note pos = wf_target_pos [OF less.prems]
  show ?case
  proof (cases "tube_target t \<le> tube_fill t")
    case True
    let ?t = "t\<lparr>tube_level := next_level 5 (tube_level t), tube_fill := tube_fill t - tube_target t,
      tube_target := level_target tube_targets (next_level 5 (tube_level t))\<rparr>"
    have "nat (tube_fill ?t) < nat (tube_fill t)" using True pos by simp
    from less.hyps [OF this level_step(1) [OF less.prems True refl]] level_step(2) [OF less.prems True refl]
    show ?thesis using True pos by (subst (1 2 3 4 5 6) settle.simps) (simp add: Let_def)
  next
    case False
    then show ?thesis using less.prems by (subst (1 2 3 4 5 6) settle.simps) simp
  qed
qed

lemma settle_flag: "tube_wf t \<Longrightarrow> snd (settle tube_targets 5 t) \<longleftrightarrow> tube_target t \<le> tube_fill t"
  using wf_target_pos [of t] by (subst settle.simps) (auto simp: Let_def)

lemma settled_position:
  assumes "tube_wf t" and "tube_fill t < tube_target t"
  shows "tube_position t mod tube_cycle = tube_position t"
  using assms wf_target_pos [of t] by (intro mod_pos_pos_trivial) (auto simp: tube_position_def tube_wf_def)

lemma settle_unchanged: "\<not> snd (settle targets m t) \<Longrightarrow> fst (settle targets m t) = t"
  by (subst settle.simps, subst (asm) settle.simps) (auto simp: Let_def split: if_splits)

lemma settled_in_range:
  assumes "tube_wf t" and "tube_fill t < tube_target t"
  shows "int4_ok (tube_level t) \<and> int4_ok (tube_fill t) \<and> int4_ok (tube_target t)"
  using assms wf_target_pos [of t] by (auto simp: tube_wf_def int4_ok_def)

text \<open>
  C17: Resolving the overflow of a tube ends, never fails on the tube's own numbers, and leaves the
  tube at the level and fill that the neon reaches when it is poured around the cycle of the five
  levels (100, 250, 500, 1000 and 2000 neon): no neon is lost or counted twice however many levels one tip
  crosses, the lifetime total is kept, a level-up is reported exactly when the target was reached,
  and the stored row is the one that is returned.
\<close>

theorem tube_climbs_cycle:
  assumes "\<not> f CResolveTube" and "find_row (\<lambda>t. tube_room t = rid) (db_tubes db) = Some t" and "tube_wf t"
  shows "\<exists>db' t' up. ResolveTubeOverflow f rid tube_targets (int (length TubeLevels)) db = Inr (db', t', up)
    \<and> tube_wf t' \<and> tube_fill t' < tube_target t'
    \<and> tube_position t' = tube_position t mod 3850 \<and> tube_total t' = tube_total t
    \<and> (up \<longleftrightarrow> tube_target t \<le> tube_fill t)
    \<and> find_row (\<lambda>t. tube_room t = rid) (db_tubes db') = Some t'"
proof -
  obtain t' up where s: "settle tube_targets 5 t = (t', up)" by fastforce
  note inv = settle_invariant [OF assms(3), unfolded s, simplified]
  have pos: "tube_position t' = tube_position t mod 3850"
    using settled_position [of t'] inv by (simp add: tube_cycle_eq)
  have up: "up \<longleftrightarrow> tube_target t \<le> tube_fill t" using settle_flag [OF assms(3)] s by simp
  show ?thesis
  proof (cases up)
    case True
    then have "t\<lparr>tube_level := tube_level t', tube_fill := tube_fill t', tube_target := tube_target t'\<rparr> = t'"
      using inv by simp
    then show ?thesis
      using True inv pos up settled_in_range [of t'] find_row_Some [OF assms(2)] assms(1,2)
      by (auto simp: ResolveTubeOverflow_def levels s find_row_update_where)
  next
    case False
    then have "t' = t" using settle_unchanged [of tube_targets 5 t] s by simp
    then show ?thesis using False inv pos up assms(1,2)
      by (intro exI [of _ db] exI [of _ t] exI [of _ False]) (simp add: ResolveTubeOverflow_def levels s)
  qed
qed

theorem tube_climbs_cycle_witness:
  "\<exists>db' t' up. ResolveTubeOverflow no_faults ''r'' tube_targets (int (length TubeLevels))
      (empty_db\<lparr>db_tubes := [\<lparr>tube_room = ''r'', tube_level = 1, tube_fill = 400, tube_target = 100,
        tube_total = 400\<rparr>]\<rparr>) = Inr (db', t', up)
    \<and> up \<and> tube_level t' = 3 \<and> tube_fill t' = 50"
proof -
  let ?t = "\<lparr>tube_room = ''r'', tube_level = 1, tube_fill = 400, tube_target = 100, tube_total = 400\<rparr>"
  have "tube_wf ?t" by (simp add: tube_wf_def tube_targets_simps)
  from tube_climbs_cycle [OF _ _ this, of no_faults "''r''" "empty_db\<lparr>db_tubes := [?t]\<rparr>"]
  obtain db' t' up where r: "ResolveTubeOverflow no_faults ''r'' tube_targets (int (length TubeLevels))
      (empty_db\<lparr>db_tubes := [?t]\<rparr>) = Inr (db', t', up)" and wf: "tube_wf t'" and
    fill: "tube_fill t' < tube_target t'" and pos: "tube_position t' = 400" and up: up
    by (auto simp: find_row_simps no_faults_def tube_position_def TubeLevels_def)
  from wf have lv: "tube_level t' \<in> {1..5}" "tube_targets (tube_level t') = Some (tube_target t')" "0 \<le> tube_fill t'"
    by (auto simp: tube_wf_def)
  from lv(1) have "tube_level t' = 3 \<and> tube_fill t' = 50"
    by (cases rule: level_cases)
      (use lv fill pos in \<open>simp_all add: tube_position_def TubeLevels_def tube_targets_simps\<close>)
  then show ?thesis using r up by auto
qed

section \<open>The ledger\<close>

definition bought :: "pgdb \<Rightarrow> string \<Rightarrow> int" where
  "bought db uid = sum_list (map purchase_amount (filter (\<lambda>p. purchase_user p = uid) (db_purchases db)))"

definition tipped :: "pgdb \<Rightarrow> string \<Rightarrow> int" where
  "tipped db uid = sum_list (map nt_amount (filter (\<lambda>t. nt_from t = uid) (db_neon_tx db)))"

definition received :: "pgdb \<Rightarrow> string \<Rightarrow> int" where
  "received db rid = sum_list (map nt_amount (filter (\<lambda>t. nt_room t = rid) (db_neon_tx db)))"

definition balances_ok :: "pgdb \<Rightarrow> bool" where
  "balances_ok db \<longleftrightarrow> (\<forall>u \<in> set (db_users db).
     0 \<le> user_neon u \<and> user_neon u = bought db (user_id u) - tipped db (user_id u))"

definition tubes_ok :: "pgdb \<Rightarrow> bool" where
  "tubes_ok db \<longleftrightarrow> (\<forall>t \<in> set (db_tubes db). tube_wf t \<and> tube_total t = received db (tube_room t))
     \<and> (\<forall>x \<in> set (db_neon_tx db). 0 < nt_amount x \<and> nt_room x \<in> tube_room ` set (db_tubes db))"

text \<open>The foreign keys of the ledger's tables.\<close>

definition ledger_keys :: "pgdb \<Rightarrow> bool" where
  "ledger_keys db \<longleftrightarrow> distinct (map user_id (db_users db)) \<and> (\<forall>p \<in> set (db_purchases db). has_user (purchase_user p) db)
     \<and> (\<forall>x \<in> set (db_neon_tx db). has_user (nt_from x) db \<and> has_room (nt_room x) db)"

definition ledger_ok :: "pgdb \<Rightarrow> bool" where
  "ledger_ok db \<longleftrightarrow> balances_ok db \<and> tubes_ok db \<and> ledger_keys db"

lemmas ledger_defs = ledger_ok_def balances_ok_def tubes_ok_def ledger_keys_def
lemmas ledger_sums = bought_def tipped_def received_def

lemma no_rows_sum: "(\<And>r. r \<in> set rows \<Longrightarrow> \<not> p r) \<Longrightarrow> sum_list (map k (filter p rows)) = (0 :: int)"
  by (simp add: filter_empty_conv [THEN iffD2])

lemma ledger_empty: "ledger_ok empty_db"
  by (simp add: ledger_defs empty_db_def)

lemma has_user_map: "has_user uid db \<longleftrightarrow> uid \<in> set (map user_id (db_users db))"
  by (auto simp: has_user_def)

lemma CreditNeon_ledger:
  assumes "ledger_ok db" and "CreditNeon f fresh uid amount pack price pay db = Inr db'" and "0 \<le> amount"
  shows "ledger_ok db'"
proof -
  from assms(2) have db': "db' = db\<lparr>db_users := update_where (\<lambda>u. user_id u = uid)
        (\<lambda>u. u\<lparr>user_neon := user_neon u + amount\<rparr>) (db_users db),
      db_purchases := db_purchases db @ [\<lparr>purchase_id = fresh, purchase_user = uid, purchase_pack = pack,
        purchase_amount = amount, purchase_price = price, purchase_payment = pay\<rparr>]\<rparr>"
    and user: "has_user uid db"
    by (auto simp: CreditNeon_def split: if_splits)
  have sums: "bought db' v = bought db v + (if v = uid then amount else 0)" "tipped db' = tipped db"
    "received db' = received db" for v
    by (auto simp: ledger_sums db')
  have keys: "has_user v db' = has_user v db" "has_room v db' = has_room v db" for v
    by (simp_all add: db' has_user_map has_room_def map_update_where)
  have "balances_ok db'" using assms(1,3)
    by (simp add: ledger_ok_def balances_ok_def sums) (simp add: db' ball_update_where, fastforce)
  moreover have "tubes_ok db' \<and> ledger_keys db'" using assms(1) user
    by (simp add: ledger_defs sums keys) (simp add: db' map_update_where)
  ultimately show ?thesis by (simp add: ledger_ok_def)
qed

lemma fill_tube_room [simp]: "tube_room (fill_tube n t) = tube_room t"
  by (simp add: fill_tube_def)

lemma SpendNeon_elim:
  assumes "SpendNeon f fresh uid rid dj amount db = Inr db'"
  obtains "has_room rid db" and "\<exists>u \<in> set (db_users db). user_id u = uid \<and> amount \<le> user_neon u"
    and "db' = db\<lparr>db_users := update_where (\<lambda>u. user_id u = uid \<and> user_neon u \<ge> amount)
        (\<lambda>u. u\<lparr>user_neon := user_neon u - amount\<rparr>) (db_users db),
      db_neon_tx := db_neon_tx db @ [\<lparr>nt_id = fresh, nt_from = uid, nt_room = rid, nt_dj = dj, nt_amount = amount\<rparr>],
      db_tubes := (if \<exists>t \<in> set (db_tubes db). tube_room t = rid
        then update_where (\<lambda>t. tube_room t = rid) (fill_tube amount) (db_tubes db)
        else db_tubes db @ [\<lparr>tube_room = rid, tube_level = 1, tube_fill = amount, tube_target = 100,
          tube_total = amount\<rparr>])\<rparr>"
  using assms by (auto simp: SpendNeon_def Let_def affected_def filter_empty_conv split: if_splits)

lemma SpendNeon_ledger:
  assumes ok: "ledger_ok db" and spend: "SpendNeon f fresh uid rid dj amount db = Inr db'" and "0 < amount"
  shows "ledger_ok db'"
  using spend
proof (rule SpendNeon_elim)
  assume room: "has_room rid db" and user: "\<exists>u \<in> set (db_users db). user_id u = uid \<and> amount \<le> user_neon u"
    and db': "db' = db\<lparr>db_users := update_where (\<lambda>u. user_id u = uid \<and> user_neon u \<ge> amount)
        (\<lambda>u. u\<lparr>user_neon := user_neon u - amount\<rparr>) (db_users db),
      db_neon_tx := db_neon_tx db @ [\<lparr>nt_id = fresh, nt_from = uid, nt_room = rid, nt_dj = dj, nt_amount = amount\<rparr>],
      db_tubes := (if \<exists>t \<in> set (db_tubes db). tube_room t = rid
        then update_where (\<lambda>t. tube_room t = rid) (fill_tube amount) (db_tubes db)
        else db_tubes db @ [\<lparr>tube_room = rid, tube_level = 1, tube_fill = amount, tube_target = 100,
          tube_total = amount\<rparr>])\<rparr>"
  have sums: "bought db' = bought db" "tipped db' v = tipped db v + (if v = uid then amount else 0)"
    "received db' r = received db r + (if r = rid then amount else 0)" for v r
    by (auto simp: ledger_sums db')
  have keys: "has_user v db' = has_user v db" "has_room r db' = has_room r db" for v r
    by (simp_all add: db' has_user_map has_room_def map_update_where)
  have rich: "amount \<le> user_neon u" if "u \<in> set (db_users db)" "user_id u = uid" for u
    using user that ok unfolding ledger_ok_def ledger_keys_def by (metis distinct_map inj_onD)
  have "balances_ok db'" using ok rich
    by (simp add: ledger_ok_def balances_ok_def sums) (simp add: db' ball_update_where, fastforce)
  moreover have "ledger_keys db'" using ok room user
    by (simp add: ledger_ok_def ledger_keys_def keys) (auto simp: db' has_user_def map_update_where)
  moreover have "tubes_ok db'"
  proof (cases "\<exists>t \<in> set (db_tubes db). tube_room t = rid")
    case True
    then have tubes: "db_tubes db' = update_where (\<lambda>t. tube_room t = rid) (fill_tube amount) (db_tubes db)"
      by (simp add: db')
    then have "tube_room ` set (db_tubes db') = tube_room ` set (db_tubes db)"
      by (simp add: keys_update_where)
    moreover have "\<forall>t \<in> set (db_tubes db'). tube_wf t \<and> tube_total t = received db' (tube_room t)"
      using ok \<open>0 < amount\<close> unfolding tubes ball_update_where
      by (simp add: ledger_ok_def tubes_ok_def sums fill_tube_def tube_wf_def)
    ultimately show ?thesis using ok True \<open>0 < amount\<close>
      by (auto simp: ledger_ok_def tubes_ok_def db')
  next
    case False
    then have "nt_room x \<noteq> rid" if "x \<in> set (db_neon_tx db)" for x
      using ok that unfolding ledger_ok_def tubes_ok_def by (metis imageE)
    then have "received db rid = 0" by (auto simp: received_def intro!: no_rows_sum)
    have tubes: "db_tubes db' = db_tubes db @ [\<lparr>tube_room = rid, tube_level = 1, tube_fill = amount,
        tube_target = 100, tube_total = amount\<rparr>]" using False by (simp add: db')
    have "\<forall>t \<in> set (db_tubes db'). tube_wf t \<and> tube_total t = received db' (tube_room t)"
      using ok \<open>0 < amount\<close> False \<open>received db rid = 0\<close> unfolding tubes
      by (simp add: sums ball_Un tube_wf_def tube_targets_simps ledger_ok_def tubes_ok_def)
    moreover have "\<forall>x \<in> set (db_neon_tx db'). 0 < nt_amount x \<and> nt_room x \<in> tube_room ` set (db_tubes db')"
      using ok \<open>0 < amount\<close> unfolding tubes by (simp add: db' ledger_ok_def tubes_ok_def)
    ultimately show ?thesis by (simp add: tubes_ok_def)
  qed
  ultimately show ?thesis by (simp add: ledger_ok_def)
qed

lemma ResolveTubeOverflow_ledger:
  assumes ok: "ledger_ok db"
    and r: "ResolveTubeOverflow f rid tube_targets (int (length TubeLevels)) db = Inr (db', t', up)"
  shows "ledger_ok db'"
proof (cases "db' = db")
  case True
  then show ?thesis using ok by simp
next
  case False
  then obtain t where t: "find_row (\<lambda>t. tube_room t = rid) (db_tubes db) = Some t"
    and s: "settle tube_targets 5 t = (t', True)"
    and db': "db' = db\<lparr>db_tubes := update_where (\<lambda>t. tube_room t = rid) (\<lambda>t. t\<lparr>tube_level := tube_level t',
      tube_fill := tube_fill t', tube_target := tube_target t'\<rparr>) (db_tubes db)\<rparr>"
    using r by (auto simp: ResolveTubeOverflow_def levels split: option.splits prod.splits if_splits)
  have "tube_wf t'"
    using settle_invariant [of t] s ok find_row_Some [OF t] by (auto simp: ledger_ok_def tubes_ok_def)
  then have "tubes_ok db'" using ok
    by (simp add: ledger_ok_def tubes_ok_def db' ball_update_where keys_update_where received_def tube_wf_def)
  moreover have "balances_ok db' \<and> ledger_keys db'" using ok
    by (auto simp: ledger_defs db' ledger_sums has_user_def has_room_def)
  ultimately show ?thesis by (simp add: ledger_ok_def)
qed

lemma CreateUser_ledger:
  assumes ok: "ledger_ok db" and r: "CreateUser f u db = Inr db'"
  shows "ledger_ok db'"
proof -
  from r obtain u' where db': "db' = db\<lparr>db_users := db_users db @ [u']\<rparr>" and u': "user_neon u' = 0"
    and new: "\<not> has_user (user_id u') db"
    by (auto simp: CreateUser_def has_user_def split: if_splits)
  have "bought db (user_id u') = 0" "tipped db (user_id u') = 0"
    using ok new by (auto simp: ledger_defs ledger_sums intro!: no_rows_sum)
  then show ?thesis using ok new u'
    by (auto simp: ledger_defs ledger_sums db' has_user_def has_room_def)
qed

lemma DeleteUser_ledger:
  assumes ok: "ledger_ok db" and r: "DeleteUser f uid db = Inr db'"
  shows "ledger_ok db'"
proof -
  from r have parts: "db_users db' = delete_where (\<lambda>u. user_id u = uid) (db_users db)"
    "db_purchases db' = delete_where (\<lambda>p. purchase_user p = uid) (db_purchases db)"
    "db_neon_tx db' = db_neon_tx db" "db_tubes db' = db_tubes db" "db_rooms db' = db_rooms db"
    and free: "has_user uid db \<Longrightarrow> \<forall>t \<in> set (db_neon_tx db). nt_from t \<noteq> uid"
    by (auto simp: DeleteUser_def split: if_splits)
  have keys: "has_user v db' \<longleftrightarrow> has_user v db \<and> v \<noteq> uid" "has_room v db' = has_room v db" for v
    by (auto simp: has_user_def has_room_def parts)
  have sums: "v \<noteq> uid \<Longrightarrow> bought db' v = bought db v" "tipped db' = tipped db" "received db' = received db" for v
    by (auto simp: ledger_sums parts delete_where_def intro!: arg_cong [of _ _ sum_list] arg_cong [of _ _ "map purchase_amount"]
        filter_cong)
  have "distinct (map user_id (db_users db'))" using ok
    by (auto simp: ledger_defs parts delete_where_def distinct_map_filter)
  then show ?thesis using ok free
    by (auto simp: ledger_defs keys sums parts)
qed

lemma CreateRoom_ledger:
  assumes ok: "ledger_ok db" and r: "CreateRoom f room db = Inr db'"
  shows "ledger_ok db'"
proof -
  from r obtain r' where db': "db' = db\<lparr>db_rooms := db_rooms db @ [r']\<rparr>"
    by (auto simp only: CreateRoom_def sum.inject split: if_splits)
  have "has_room rid db \<Longrightarrow> has_room rid db'" "has_user uid db' = has_user uid db"
    "bought db' = bought db" "tipped db' = tipped db" "received db' = received db" for rid uid
    by (auto simp: db' has_user_def has_room_def ledger_sums)
  then show ?thesis using ok by (simp add: ledger_defs) (simp add: db', fastforce)
qed

lemma delete_rooms_ledger:
  assumes ok: "ledger_ok db" and r: "delete_rooms p db = Inr db'"
  shows "ledger_ok db'"
proof -
  from r have parts: "db_users db' = db_users db" "db_purchases db' = db_purchases db"
    "db_neon_tx db' = db_neon_tx db" "db_rooms db' = delete_where p (db_rooms db)"
    "db_tubes db' = delete_where (\<lambda>t. tube_room t \<in> room_id ` {r \<in> set (db_rooms db). p r}) (db_tubes db)"
    and free: "\<forall>t \<in> set (db_neon_tx db). nt_room t \<notin> room_id ` {r \<in> set (db_rooms db). p r}"
    by (auto simp: delete_rooms_def Let_def split: if_splits)
  have sums: "bought db' = bought db" "tipped db' = tipped db" "received db' = received db"
    and users: "has_user v db' = has_user v db" for v
    by (auto simp: ledger_sums parts has_user_def)
  have kept: "has_room (nt_room x) db'" "nt_room x \<in> tube_room ` set (db_tubes db')"
    if "x \<in> set (db_neon_tx db)" for x
  proof -
    have keys: "has_room (nt_room x) db" "nt_room x \<in> tube_room ` set (db_tubes db)"
      using ok that by (auto simp: ledger_defs)
    have gone: "nt_room x \<notin> room_id ` {r \<in> set (db_rooms db). p r}" using free that by blast
    show "has_room (nt_room x) db'" using keys(1) gone
      unfolding has_room_def parts set_delete_where by (metis (mono_tags, lifting) imageI mem_Collect_eq)
    show "nt_room x \<in> tube_room ` set (db_tubes db')" using keys(2) gone by (fastforce simp: parts)
  qed
  from ok kept show ?thesis
    by (simp add: ledger_defs sums users) (simp add: parts, fastforce)
qed

section \<open>Reachable ledgers\<close>

text \<open>What sign-ups, purchases, tips and deletions can make of an empty database, for any
  users, any requests and any failing calls.\<close>

inductive trading :: "server \<Rightarrow> bool" where
  start: "sv_pg sv = empty_db \<Longrightarrow> trading sv"
| signup: "trading sv \<Longrightarrow> CreateUser f u (sv_pg sv) = Inr db \<Longrightarrow> trading (sv\<lparr>sv_pg := db\<rparr>)"
| open_room: "trading sv \<Longrightarrow> CreateRoom f room (sv_pg sv) = Inr db \<Longrightarrow> trading (sv\<lparr>sv_pg := db\<rparr>)"
| purchase: "trading sv \<Longrightarrow> BuyNeon dev env user pack (sv_pg sv) = (db, answer) \<Longrightarrow> trading (sv\<lparr>sv_pg := db\<rparr>)"
| tip: "trading sv \<Longrightarrow> SendNeon env user request sv = (sv', answer') \<Longrightarrow> trading sv'"
| delete_account: "trading sv \<Longrightarrow> DeleteUser f uid (sv_pg sv) = Inr db \<Longrightarrow> trading (sv\<lparr>sv_pg := db\<rparr>)"
| delete_room: "trading sv \<Longrightarrow> DeleteRoom f rid (sv_pg sv) = Inr db \<Longrightarrow> trading (sv\<lparr>sv_pg := db\<rparr>)"
| clean_up: "trading sv \<Longrightarrow> CleanupGhostRooms f now age (sv_pg sv) = Inr (db, n) \<Longrightarrow> trading (sv\<lparr>sv_pg := db\<rparr>)"

lemma broadcastTo_pg [simp]: "sv_pg (broadcastTo env rid m sv) = sv_pg sv"
  by (simp add: broadcastTo_def split: option.split)

lemma announce_gift_pg [simp]: "sv_pg (announce_gift env rid u n t up sv) = sv_pg sv"
  by (simp add: announce_gift_def Let_def)

lemma BuyNeon_cases:
  assumes "BuyNeon dev env user pack db = (db', r)"
  obtains "db' = db" and "refused r"
  | u p where "user = Some u" and "p \<in> set NeonPacks" and "pack = Some (pack_id p)"
    and "CreditNeon (env_faults env) (env_uuid env 0) (user_id u) (pack_amount p) (pack_id p) (pack_price p)
           (''dev_'' @ user_id u) db = Inr db'"
    and "r = HttpOK 200 (pack_amount p, or_zero 0 (GetNeonBalance (env_faults env) (user_id u) db'))"
proof -
  from assms consider "db' = db" "refused r"
    | u pid p where "user = Some u" "pack = Some pid" "find_row (\<lambda>p. pack_id p = pid) NeonPacks = Some p"
      "CreditNeon (env_faults env) (env_uuid env 0) (user_id u) (pack_amount p) (pack_id p) (pack_price p)
           (''dev_'' @ user_id u) db = Inr db'"
      "r = HttpOK 200 (pack_amount p, or_zero 0 (GetNeonBalance (env_faults env) (user_id u) db'))"
    by (auto simp: BuyNeon_def split: if_splits option.splits sum.splits)
  then show thesis by cases (use that find_row_Some in \<open>fastforce+\<close>)
qed

lemma SendNeon_cases:
  assumes "SendNeon env user request sv = (sv', r)"
  obtains "sv' = sv" and "refused r"
  | u rid amount room db db' tube up where "user = Some u" and "request = Some (rid, amount)"
    and "1 \<le> amount" and "amount \<le> 10000"
    and "deref_or_zero zero_room (GetRoomByID (env_faults env) rid (sv_pg sv)) = Some room"
    and "room_creator room = '''' \<or> room_creator room \<noteq> user_id u"
    and "SpendNeon (env_faults env) (env_uuid env 0) (user_id u) rid None amount (sv_pg sv) = Inr db"
    and "settle_room env rid db = (db', tube, up)"
    and "sv' = announce_gift env rid u amount tube up (sv\<lparr>sv_pg := db'\<rparr>)"
    and "r = HttpOK 200 (or_zero 0 (GetNeonBalance (env_faults env) (user_id u) db'), tube, up)"
proof (cases "sv' = sv \<and> refused r")
  case False
  with assms obtain u rid amount where u: "user = Some u" and q: "request = Some (rid, amount)"
    and n: "1 \<le> amount" "amount \<le> 10000"
    by (auto simp: SendNeon_def split: option.splits if_splits)
  with assms False obtain room where room: "deref_or_zero zero_room (GetRoomByID (env_faults env) rid (sv_pg sv)) = Some room"
      "room_creator room = '''' \<or> room_creator room \<noteq> user_id u"
    by (auto simp: SendNeon_def split: option.splits if_splits)
  with assms False u q n obtain db where
    db: "SpendNeon (env_faults env) (env_uuid env 0) (user_id u) rid None amount (sv_pg sv) = Inr db"
    by (auto simp: SendNeon_def split: sum.splits spend_error.splits)
  obtain db' tube up where s: "settle_room env rid db = (db', tube, up)" by (cases "settle_room env rid db")
  show thesis by (rule that(2) [OF u q n room db s]) (use assms u q n room db s in \<open>auto simp: SendNeon_def\<close>)
qed (use that in blast)

lemma pack_amount_pos: "p \<in> set NeonPacks \<Longrightarrow> 0 < pack_amount p"
  by (auto simp: NeonPacks_def)

lemma settle_room_ledger: "ledger_ok db \<Longrightarrow> settle_room env rid db = (db', tube, up) \<Longrightarrow> ledger_ok db'"
  using ResolveTubeOverflow_ledger by (auto simp: settle_room_def split: sum.splits)

lemma SendNeon_ledger:
  assumes "SendNeon env user request sv = (sv', r)" and "ledger_ok (sv_pg sv)"
  shows "ledger_ok (sv_pg sv')"
  using assms(1)
proof (cases rule: SendNeon_cases)
  case (2 u rid amount room db db' tube up)
  have "ledger_ok db" by (rule SpendNeon_ledger [OF assms(2) 2(7)]) (use 2(3) in simp)
  then show ?thesis using settle_room_ledger [OF _ 2(8)] by (simp add: 2(9))
qed (use assms(2) in simp)

lemma trading_ledger: "trading sv \<Longrightarrow> ledger_ok (sv_pg sv)"
proof (induction rule: trading.induct)
  case (purchase sv dev env user pack db answer)
  from purchase(2) show ?case
    by (cases rule: BuyNeon_cases) (use purchase(3) pack_amount_pos in \<open>force intro: CreditNeon_ledger\<close>)+
next
  case (tip sv env user request sv' answer')
  then show ?case by (blast intro: SendNeon_ledger)
next
  case (delete_room sv f rid db)
  then show ?case by (auto simp: DeleteRoom_def intro: delete_rooms_ledger split: if_splits)
next
  case (clean_up sv f now age db n)
  then show ?case by (auto simp: CleanupGhostRooms_def Let_def intro: delete_rooms_ledger split: if_splits sum.splits)
qed (auto simp: ledger_empty intro: CreateUser_ledger DeleteUser_ledger CreateRoom_ledger)


definition demo_shop :: server where
  "demo_shop = demo_server\<lparr>sv_pg := empty_db\<lparr>db_rooms := [demo_room ''r''],
     db_users := [demo_user ''bo'']\<rparr>\<rparr>"

definition demo_bought :: server where
  "demo_bought = demo_shop\<lparr>sv_pg := fst (BuyNeon True (demo_env 0) (Some (demo_user ''bo'')) (Some ''starter'')
     (sv_pg demo_shop))\<rparr>"

definition demo_tipped :: server where
  "demo_tipped = fst (SendNeon (demo_env 0) (Some (demo_user ''bo'')) (Some (''r'', 30)) demo_bought)"

lemma demo_shop_trading: "trading demo_shop"
proof -
  let ?s0 = "demo_server\<lparr>sv_pg := empty_db\<rparr>"
  let ?s1 = "?s0\<lparr>sv_pg := empty_db\<lparr>db_rooms := [demo_room ''r'']\<rparr>\<rparr>"
  have "trading ?s0" by (rule trading.start) simp
  then have "trading ?s1"
    using trading.open_room [of ?s0 no_faults "demo_room ''r''" "empty_db\<lparr>db_rooms := [demo_room ''r'']\<rparr>"]
    by (simp add: CreateRoom_def no_faults_def has_room_def empty_db_def demo_room_def)
  then show ?thesis
    using trading.signup [of ?s1 no_faults "demo_user ''bo''"
        "empty_db\<lparr>db_rooms := [demo_room ''r''], db_users := [demo_user ''bo'']\<rparr>"]
    by (simp add: CreateUser_def no_faults_def empty_db_def demo_user_def demo_shop_def)
qed

lemma demo_bought_db:
  "sv_pg demo_bought = (sv_pg demo_shop)\<lparr>db_users := [(demo_user ''bo'')\<lparr>user_neon := 100\<rparr>],
     db_purchases := [\<lparr>purchase_id = ''u0'', purchase_user = ''bo'', purchase_pack = ''starter'',
       purchase_amount = 100, purchase_price = 199, purchase_payment = ''dev_bo''\<rparr>]\<rparr>"
  by (simp add: demo_bought_def BuyNeon_def NeonPacks_def find_row_simps CreditNeon_def demo_shop_def
      demo_env_def no_faults_def int4_ok_def empty_db_def demo_user_def has_user_def update_where_def)

lemma demo_tipped_trading: "trading demo_tipped"
proof -
  have "trading demo_bought" unfolding demo_bought_def
    by (rule trading.purchase [OF demo_shop_trading]) (rule prod.collapse [symmetric])
  then show ?thesis unfolding demo_tipped_def
    by (rule trading.tip) (rule prod.collapse [symmetric])
qed

lemma demo_tipped_db:
  "sv_pg demo_tipped = (sv_pg demo_bought)\<lparr>db_users := [(demo_user ''bo'')\<lparr>user_neon := 70\<rparr>],
     db_neon_tx := [\<lparr>nt_id = ''u0'', nt_from = ''bo'', nt_room = ''r'', nt_dj = None, nt_amount = 30\<rparr>],
     db_tubes := [\<lparr>tube_room = ''r'', tube_level = 1, tube_fill = 30, tube_target = 100, tube_total = 30\<rparr>]\<rparr>"
  by (simp add: demo_tipped_def SendNeon_def demo_bought_db demo_shop_def demo_env_def no_faults_def
      GetRoomByID_def find_row_simps demo_room_def demo_user_def SpendNeon_def int4_ok_def affected_def
      has_room_def empty_db_def update_where_def settle_room_def ResolveTubeOverflow_def settle.simps)


text \<open>
  A tip either is refused and changes nothing at all, neither the database nor any room, or it
  moves exactly its amount: between 1 and 10000 neon that the sender had leave the sender's balance,
  one transaction records them, nobody else's row changes, and the room exists. A room that could be
  read is not the sender's own.
\<close>

theorem tip_all_or_nothing:
  assumes "SendNeon env (Some u) (Some (rid, amount)) sv = (sv', answer)"
    and "distinct (map user_id (db_users (sv_pg sv)))"
  shows "(refused answer \<and> sv' = sv)
    \<or> (\<not> refused answer \<and> 1 \<le> amount \<and> amount \<le> 10000 \<and> has_room rid (sv_pg sv)
       \<and> (\<exists>payer \<in> set (db_users (sv_pg sv)). user_id payer = user_id u \<and> amount \<le> user_neon payer)
       \<and> db_users (sv_pg sv') = update_where (\<lambda>x. user_id x = user_id u)
           (\<lambda>x. x\<lparr>user_neon := user_neon x - amount\<rparr>) (db_users (sv_pg sv))
       \<and> db_neon_tx (sv_pg sv') = db_neon_tx (sv_pg sv) @
           [\<lparr>nt_id = env_uuid env 0, nt_from = user_id u, nt_room = rid, nt_dj = None, nt_amount = amount\<rparr>]
       \<and> (env_faults env CGetRoom \<or> (\<exists>room. find_row (\<lambda>r. room_id r = rid) (db_rooms (sv_pg sv)) = Some room
            \<and> (room_creator room = '''' \<or> room_creator room \<noteq> user_id u))))"
  using assms(1)
proof (cases rule: SendNeon_cases)
  case (2 u' rid' amount' room db db' tube up)
  then have same: "u' = u" "rid' = rid" "amount' = amount" by auto
  note parts = 2 [unfolded same]
  have kept: "db_users db' = db_users db" "db_neon_tx db' = db_neon_tx db"
    using parts(8) by (auto simp: settle_room_def ResolveTubeOverflow_def split: sum.splits option.splits
        prod.splits if_splits)
  from parts(7) show ?thesis
  proof (rule SpendNeon_elim)
    assume r: "has_room rid (sv_pg sv)"
      and payer: "\<exists>x \<in> set (db_users (sv_pg sv)). user_id x = user_id u \<and> amount \<le> user_neon x"
      and db: "db = (sv_pg sv)\<lparr>db_users := update_where (\<lambda>x. user_id x = user_id u \<and> user_neon x \<ge> amount)
        (\<lambda>x. x\<lparr>user_neon := user_neon x - amount\<rparr>) (db_users (sv_pg sv)),
      db_neon_tx := db_neon_tx (sv_pg sv) @ [\<lparr>nt_id = env_uuid env 0, nt_from = user_id u, nt_room = rid,
        nt_dj = None, nt_amount = amount\<rparr>],
      db_tubes := (if \<exists>t \<in> set (db_tubes (sv_pg sv)). tube_room t = rid
        then update_where (\<lambda>t. tube_room t = rid) (fill_tube amount) (db_tubes (sv_pg sv))
        else db_tubes (sv_pg sv) @ [\<lparr>tube_room = rid, tube_level = 1, tube_fill = amount, tube_target = 100,
          tube_total = amount\<rparr>])\<rparr>"
    have rich: "amount \<le> user_neon x" if "x \<in> set (db_users (sv_pg sv))" "user_id x = user_id u" for x
      using payer that assms(2) by (metis distinct_map inj_onD)
    have "db_users (sv_pg sv') = update_where (\<lambda>x. user_id x = user_id u)
        (\<lambda>x. x\<lparr>user_neon := user_neon x - amount\<rparr>) (db_users (sv_pg sv))"
      using rich by (auto simp: parts(9) kept db update_where_def)
    moreover have "env_faults env CGetRoom \<or> (\<exists>room. find_row (\<lambda>r. room_id r = rid) (db_rooms (sv_pg sv)) = Some room
            \<and> (room_creator room = '''' \<or> room_creator room \<noteq> user_id u))"
      using parts(5,6) by (auto simp: GetRoomByID_def failing_def split: if_splits)
    ultimately show ?thesis using r payer parts(3,4,9,10) kept db by simp
  qed
qed simp

theorem tip_all_or_nothing_witness:
  "db_users (sv_pg demo_tipped) = [(demo_user ''bo'')\<lparr>user_neon := 70\<rparr>] \<and> length (db_neon_tx (sv_pg demo_tipped)) = 1"
proof -
  obtain answer where "SendNeon (demo_env 0) (Some (demo_user ''bo'')) (Some (''r'', 30)) demo_bought
      = (demo_tipped, answer)"
    unfolding demo_tipped_def by (metis prod.collapse)
  from tip_all_or_nothing [OF this] show ?thesis
    using demo_tipped_db by (auto simp: demo_bought_db demo_shop_def demo_user_def empty_db_def update_where_def)
qed

section \<open>Channel subscriptions\<close>

definition prices_ok :: "pgdb \<Rightarrow> bool" where
  "prices_ok db \<longleftrightarrow> (\<forall>d \<in> set (db_djsubs db). 99 \<le> ds_price d \<and> ds_price d \<le> 4999)"

lemma clamp_price_bounds: "99 \<le> clamp_price p \<and> clamp_price p \<le> 4999"
  by (simp add: clamp_price_def Let_def)

lemma UpdateDJSubSettings_prices:
  assumes "prices_ok db" and "UpdateDJSubSettings f user req db = (db', answer)"
  shows "prices_ok db'"
  using assms clamp_price_bounds
  by (auto simp: UpdateDJSubSettings_def UpsertDJSubSettings_def prices_ok_def set_update_where
      split: option.splits if_splits sum.splits)

text \<open>
  A channel subscription is only opened to somebody else's channel and only when an existing one
  could be ruled out; it is recorded once, at the DJ's own price or the default of 499 cents, which
  lies between 99 and 4999 cents; but when the DJ's settings cannot be read, the price is zero.
\<close>

theorem dj_subscription_terms:
  assumes "SubscribeToDJ dev month env (Some u) dj db = (db', HttpOK 200 (''active'', price))"
    and "prices_ok db"
  shows "dev \<and> dj \<noteq> user_id u \<and> \<not> env_faults env CGetSubscription
    \<and> find_row (\<lambda>s. sub_user s = user_id u \<and> dj_sub_row dj s) (db_subs db) = None
    \<and> (if env_faults env CGetDJSubSettings then price = 0 else 99 \<le> price \<and> price \<le> 4999)
    \<and> (\<exists>s. db' = db\<lparr>db_subs := db_subs db @ [s]\<rparr> \<and> sub_user s = user_id u \<and> dj_sub_row dj s
         \<and> sub_price s = price)"
proof -
  have price: "99 \<le> ds_price d \<and> ds_price d \<le> 4999"
    if "find_row (\<lambda>d. ds_user d = dj) (db_djsubs db) = Some d" for d
    using assms(2) find_row_Some [OF that] by (auto simp: prices_ok_def)
  from assms(1) have "dev" "dj \<noteq> user_id u" and
    none: "deref_or_zero zero_subscription (GetDJSubscription (env_faults env) (user_id u) dj db) = None"
    and p: "price = (case deref_or_zero zero_dj_settings (GetDJSubSettings (env_faults env) dj db) of
                         None \<Rightarrow> 499 | Some d \<Rightarrow> ds_price d)"
    and row: "SubscribeToDJ_row (env_faults env) (env_now env) (month (env_now env))
          (env_uuid env 0) (user_id u) dj price (''dev_'' @ user_id u) db = Inr db'"
    by (auto simp: SubscribeToDJ_def Let_def split: if_splits option.splits sum.splits)
  moreover have "\<not> env_faults env CGetSubscription"
    "find_row (\<lambda>s. sub_user s = user_id u \<and> dj_sub_row dj s) (db_subs db) = None"
    using none by (auto simp: GetDJSubscription_def failing_def split: if_splits)
  moreover have "if env_faults env CGetDJSubSettings then price = 0 else 99 \<le> price \<and> price \<le> 4999"
    using price by (auto simp: p GetDJSubSettings_def zero_dj_settings_def failing_def split: option.split)
  moreover have "\<exists>s. db' = db\<lparr>db_subs := db_subs db @ [s]\<rparr> \<and> sub_user s = user_id u \<and> dj_sub_row dj s
         \<and> sub_price s = price"
    using row by (auto simp: SubscribeToDJ_row_def dj_sub_row_def split: if_splits)
  ultimately show ?thesis by blast
qed

text \<open>A DJ who has switched subscriptions off, at 700 cents, while the settings cannot be read.\<close>

theorem dj_subscription_terms_witness:
  "\<exists>db'. SubscribeToDJ True (\<lambda>t. t) ((demo_env 0)\<lparr>env_faults := (\<lambda>c. c = CGetDJSubSettings)\<rparr>)
      (Some (demo_user ''bo'')) ''dj'' (empty_db\<lparr>db_users := [demo_user ''bo''],
        db_djsubs := [\<lparr>ds_user = ''dj'', ds_price = 700, ds_enabled = False\<rparr>]\<rparr>) = (db', HttpOK 200 (''active'', 0))
    \<and> (\<exists>s. db_subs db' = [s] \<and> sub_price s = 0)"
proof -
  let ?env = "(demo_env 0)\<lparr>env_faults := (\<lambda>c. c = CGetDJSubSettings)\<rparr>"
  let ?db = "empty_db\<lparr>db_users := [demo_user ''bo''],
        db_djsubs := [\<lparr>ds_user = ''dj'', ds_price = 700, ds_enabled = False\<rparr>]\<rparr>"
  obtain db' where r: "SubscribeToDJ True (\<lambda>t. t) ?env (Some (demo_user ''bo'')) ''dj'' ?db
      = (db', HttpOK 200 (''active'', 0))"
    by (simp add: SubscribeToDJ_def demo_user_def GetDJSubscription_def GetDJSubSettings_def find_row_simps
        SubscribeToDJ_row_def zero_dj_settings_def int4_ok_def has_user_def empty_db_def)
  from dj_subscription_terms [OF r] show ?thesis
    using r by (auto simp: prices_ok_def empty_db_def)
qed

end
