(* ===== verification/Checks.thy ===== *)
theory Checks
  imports Moderation
begin

text \<open>
  The checks on what clients send: inline styles and log lines
  (\<open>internal/handlers/stylevalidate.go\<close>), cover art (\<open>coverart.go\<close>), the client's address
  (\<open>clientip.go\<close>), and disposable mail domains (\<open>internal/antispam/disposable.go\<close>). The embedded
  block list is an argument.
\<close>

section \<open>Splitting and searching\<close>

text \<open>\<open>strings.Split\<close> at a one-byte separator, \<open>strings.Contains\<close>, and what follows the first
  occurrence of a byte (\<open>strings.Index\<close>, \<open>strings.SplitN\<close> in two).\<close>

fun split_at :: "char \<Rightarrow> string \<Rightarrow> string list" where
  "split_at c [] = [[]]"
| "split_at c (x # s) = (if x = c then [] # split_at c s
     else (case split_at c s of [] \<Rightarrow> [[x]] | w # ws \<Rightarrow> (x # w) # ws))"

fun contains_text :: "string \<Rightarrow> string \<Rightarrow> bool" where
  "contains_text [] p = (p = [])"
| "contains_text (x # s) p = (has_prefix (x # s) p \<or> contains_text s p)"

fun after_first :: "char \<Rightarrow> string \<Rightarrow> string option" where
  "after_first c [] = None"
| "after_first c (x # s) = (if x = c then Some s else after_first c s)"

definition before_last :: "char \<Rightarrow> string \<Rightarrow> string option" where
  "before_last c s = map_option rev (after_first c (rev s))"

lemma split_at_nonempty [simp]: "split_at c s \<noteq> []"
  by (cases s) (auto split: list.split)

lemma split_at_whole: "c \<notin> set s \<Longrightarrow> split_at c s = [s]"
  by (induction s) auto

lemma split_at_append: "split_at c (s @ c # t) = split_at c s @ split_at c t"
  by (induction s) (auto split: list.split)

lemma after_first_None [simp]: "after_first c s = None \<longleftrightarrow> c \<notin> set s"
  by (induction s) auto

lemma after_first_Some: "after_first c s = Some t \<longleftrightarrow> (\<exists>u. s = u @ c # t \<and> c \<notin> set u)"
proof (induction s)
  case Nil
  then show ?case by simp
next
  case (Cons x s)
  show ?case
  proof (cases "x = c")
    case True
    then show ?thesis by (auto simp: Cons_eq_append_conv)
  next
    case False
    then have "(\<exists>u. x # s = u @ c # t \<and> c \<notin> set u) \<longleftrightarrow> (\<exists>u. s = u @ c # t \<and> c \<notin> set u)"
      by (auto simp: Cons_eq_append_conv)
    with Cons False show ?thesis by simp
  qed
qed

lemma suffix_after_first:
  "u @ c # s = t @ c # b \<Longrightarrow> c \<notin> set u \<Longrightarrow> s = b \<or> (\<exists>r. s = r @ c # b)"
proof (induction u arbitrary: t)
  case Nil
  then show ?case by (cases t) auto
next
  case (Cons x u)
  then show ?case by (cases t) auto
qed

lemma after_first_shorter: "after_first c s = Some t \<Longrightarrow> length t < length s"
  by (auto simp: after_first_Some)

section \<open>Styles, covers, log lines\<close>

definition css_char :: "char \<Rightarrow> bool" where
  "css_char c = (let n = of_char c :: nat in
     48 \<le> n \<and> n \<le> 57 \<or> 65 \<le> n \<and> n \<le> 90 \<or> 97 \<le> n \<and> n \<le> 122 \<or> c \<in> set ''#%.,()/- ''
     \<or> n \<in> {9, 10, 12, 13})"

definition banned_css :: "string list" where
  "banned_css = [''url'', ''image-set'', ''expression'', ''javascript'', ''@import'']"

definition validateCSSValue :: "string \<Rightarrow> nat \<Rightarrow> string option" where
  "validateCSSValue v maxLen =
     (if v = '''' then None
      else if length v > maxLen then Some ''style value is too long''
      else if list_ex (contains_text (lower_text v)) banned_css then Some ''style value contains disallowed content''
      else if \<not> list_all css_char v then Some ''style value contains disallowed characters''
      else None)"

text \<open>\<open>sanitizeLogValue\<close> on valid UTF-8; the ellipsis is three bytes.\<close>

definition sanitizeLogValue :: "string \<Rightarrow> string" where
  "sanitizeLogValue s =
     (let t = filter (\<lambda>c. let n = of_char c :: nat in \<not> (n < 32 \<or> n = 127)) s in
      if length t > 120 then take 120 t @ [CHR 0xE2, CHR 0x80, CHR 0xA6] else t)"

definition maxDataURLCoverBytes :: nat where "maxDataURLCoverBytes = 128 * 1024"
definition maxDataURLDetailBytes :: nat where "maxDataURLDetailBytes = 512 * 1024"

definition isDataURL :: "string \<Rightarrow> bool" where
  "isDataURL s = has_prefix s ''data:''"

definition validateCoverArt :: "string \<Rightarrow> bool" where
  "validateCoverArt cover \<longleftrightarrow> \<not> (isDataURL cover \<and> length cover > maxDataURLCoverBytes)"

definition stripOversizedCover :: "string \<Rightarrow> nat \<Rightarrow> string" where
  "stripOversizedCover cover maxBytes = (if isDataURL cover \<and> length cover > maxBytes then '''' else cover)"

lemma stripOversizedCover_bounded: "isDataURL (stripOversizedCover s n) \<Longrightarrow> length (stripOversizedCover s n) \<le> n"
  by (auto simp: stripOversizedCover_def isDataURL_def has_prefix_def split: if_splits)

section \<open>The client's address\<close>

definition ClientIP :: "string \<Rightarrow> string \<Rightarrow> string" where
  "ClientIP xff remoteAddr =
     (case find (\<lambda>e. e \<noteq> '''') (map trim_space (rev (if xff = '''' then [] else split_at (CHR '','') xff))) of
        Some ip \<Rightarrow> ip
      | None \<Rightarrow> (case before_last (CHR '':'') remoteAddr of None \<Rightarrow> remoteAddr | Some host \<Rightarrow> host))"

text \<open>
  The address that rate limits are keyed by is the one the edge proxy saw: whatever a client
  puts into its own X-Forwarded-For header, with the proxy's entry appended the result is that entry.
\<close>

theorem client_ip_is_the_peer:
  assumes "CHR '','' \<notin> set peer" and "trim_space peer \<noteq> ''''"
  shows "ClientIP (forged @ '','' @ peer) remoteAddr = trim_space peer
    \<and> ClientIP peer remoteAddr = trim_space peer"
proof -
  have "split_at (CHR '','') (forged @ CHR '','' # peer) = split_at (CHR '','') forged @ [peer]"
    by (simp add: split_at_append split_at_whole [OF assms(1)])
  moreover have "peer \<noteq> ''''" using assms(2) by (auto simp: trim_space_def)
  ultimately show ?thesis
    using assms by (simp add: ClientIP_def split_at_whole)
qed

theorem client_ip_is_the_peer_witness:
  "ClientIP ''6.6.6.6, 7.7.7.7, 203.0.113.9'' ''10.0.0.1:443'' = ''203.0.113.9''"
proof -
  have "trim_space '' 203.0.113.9'' = ''203.0.113.9''" by code_simp
  with client_ip_is_the_peer [of "'' 203.0.113.9''" "''6.6.6.6, 7.7.7.7''" "''10.0.0.1:443''"]
  show ?thesis by simp
qed

section \<open>Disposable mail\<close>

definition extraDisposableDomains :: "string list" where
  "extraDisposableDomains = [''tempmail.com'', ''burnermail.io'', ''throwaway.com'', ''minutemail.com'',
     ''tempmailaddress.com'', ''mailtemp.net'', ''mail-temporaire.fr'',
     ''disposableemailaddresses.emailmiser.com'', ''mailzilla.com'', ''uglymail.com'',
     ''mailnator.com'', ''tempmailer.com'']"

definition neverDisposable :: "string list" where
  "neverDisposable = [''gmail.com'', ''googlemail.com'', ''yahoo.com'', ''outlook.com'', ''hotmail.com'',
     ''live.com'', ''msn.com'', ''icloud.com'', ''me.com'', ''aol.com'', ''protonmail.com'', ''proton.me'',
     ''fastmail.com'', ''hey.com'', ''zoho.com'', ''gmx.com'', ''gmx.de'', ''web.de'', ''mail.com'']"

definition loadDisposableDomains :: "string \<Rightarrow> string list" where
  "loadDisposableDomains raw =
     filter (\<lambda>d. d \<noteq> '''' \<and> \<not> has_prefix d ''#'') (map (\<lambda>l. to_lower (trim_space l)) (split_at (CHR 0x0A) raw))
     @ map to_lower extraDisposableDomains"

text \<open>The loop over a domain and its parents.\<close>

function blocked_domain :: "string list \<Rightarrow> string \<Rightarrow> bool" where
  "blocked_domain blocked d =
     (if d = '''' then False
      else if d \<in> set blocked then True
      else (case after_first (CHR ''.'') d of None \<Rightarrow> False | Some d' \<Rightarrow> blocked_domain blocked d'))"
  by pat_completeness auto
termination by (relation "measure (\<lambda>(blocked, d). length d)") (auto dest: after_first_shorter)

declare blocked_domain.simps [simp del]

definition IsDisposableEmail :: "string \<Rightarrow> string \<Rightarrow> bool" where
  "IsDisposableEmail raw email =
     (case after_first (CHR ''@'') email of
        None \<Rightarrow> False
      | Some rest \<Rightarrow>
          (let domain = to_lower (trim_space rest) in
           if domain = '''' \<or> domain \<in> set neverDisposable then False
           else blocked_domain (loadDisposableDomains raw) domain))"

lemma blocked_domain_iff:
  "blocked_domain blocked d \<longleftrightarrow> (\<exists>b \<in> set blocked. b \<noteq> '''' \<and> (d = b \<or> has_suffix d (''.'' @ b)))"
proof (induction blocked d rule: blocked_domain.induct)
  case (1 blocked d)
  show ?case
  proof (cases "d = '''' \<or> d \<in> set blocked")
    case True
    then show ?thesis by (auto simp: blocked_domain.simps [of blocked d] has_suffix_iff)
  next
    case False
    show ?thesis
    proof (cases "after_first (CHR ''.'') d")
      case None
      then have "\<not> blocked_domain blocked d" using False by (simp add: blocked_domain.simps [of blocked d] del: after_first_None)
      then show ?thesis using False None by (auto simp: has_suffix_iff)
    next
      case (Some d')
      then obtain u where d: "d = u @ CHR ''.'' # d'" and u: "CHR ''.'' \<notin> set u"
        by (auto simp: after_first_Some)
      have suffix: "has_suffix d (''.'' @ b) \<longleftrightarrow> d' = b \<or> has_suffix d' (''.'' @ b)" for b
      proof
        assume "has_suffix d (''.'' @ b)"
        then obtain t where "u @ CHR ''.'' # d' = t @ CHR ''.'' # b" by (auto simp: has_suffix_iff d)
        from suffix_after_first [OF this u] show "d' = b \<or> has_suffix d' (''.'' @ b)"
          by (auto simp: has_suffix_iff)
      next
        assume "d' = b \<or> has_suffix d' (''.'' @ b)"
        then show "has_suffix d (''.'' @ b)"
          by (auto simp: has_suffix_iff d)
      qed
      have "blocked_domain blocked d \<longleftrightarrow> blocked_domain blocked d'"
        using False Some by (simp add: blocked_domain.simps [of blocked d])
      also have "\<dots> \<longleftrightarrow> (\<exists>b \<in> set blocked. b \<noteq> '''' \<and> has_suffix d (''.'' @ b))"
        using "1.IH" False Some by (simp add: suffix [simplified])
      finally show ?thesis using False by auto
    qed
  qed
qed

text \<open>
  An address is refused as disposable exactly when the part after its first @ is, in lower case
  and without surrounding blanks, a listed domain or a subdomain of one, and not one of the major
  providers; walking up the parent domains misses none and adds none.
\<close>

theorem disposable_exact:
  "IsDisposableEmail raw email \<longleftrightarrow> (\<exists>local rest. email = local @ ''@'' @ rest \<and> CHR ''@'' \<notin> set local
     \<and> to_lower (trim_space rest) \<notin> set neverDisposable
     \<and> (\<exists>b \<in> set (loadDisposableDomains raw). b \<noteq> '''' \<and>
          (to_lower (trim_space rest) = b \<or> has_suffix (to_lower (trim_space rest)) (''.'' @ b))))"
proof (cases "after_first (CHR ''@'') email")
  case None
  then have "\<not> IsDisposableEmail raw email" by (simp add: IsDisposableEmail_def del: after_first_None)
  with None show ?thesis by auto
next
  case (Some rest)
  have first: "(\<exists>local. email = local @ ''@'' @ r \<and> CHR ''@'' \<notin> set local) \<longleftrightarrow> r = rest" for r
    using after_first_Some [of "CHR ''@''" email r] Some by auto
  have "to_lower (trim_space rest) = '''' \<Longrightarrow> \<not> blocked_domain blocked (to_lower (trim_space rest))" for blocked
    by (simp add: blocked_domain.simps)
  then have "IsDisposableEmail raw email \<longleftrightarrow> to_lower (trim_space rest) \<notin> set neverDisposable
      \<and> blocked_domain (loadDisposableDomains raw) (to_lower (trim_space rest))"
    using Some by (auto simp: IsDisposableEmail_def Let_def)
  then show ?thesis unfolding blocked_domain_iff using first by metis
qed

end
