(* ===== verification/Auth.thy ===== *)
theory Auth
  imports Users Playback RateLimit Checks Http
begin

text \<open>
  Accounts over HTTP: the handlers of \<open>internal/handlers/auth.go\<close>, the identity middleware of
  \<open>internal/middleware/jwt.go\<close> and its cache of users (\<open>cache.go\<close>).

  What the handlers take from other libraries and services is the record \<open>outside\<close>: SHA-256,
  bcrypt, the signing and the verification of access tokens, the captcha, the mail checks, and which
  addresses are loopback. \<open>crypto/rand\<close> is the sequence of tokens drawn in the request; it does not fail.
  E-mails are sent in goroutines of their own and change nothing that is modelled.
\<close>

record outside =
  sha :: "string \<Rightarrow> string"
  bcrypt_hash :: "string \<Rightarrow> string option"
  bcrypt_match :: "string \<Rightarrow> string \<Rightarrow> bool"
  mint :: "User \<Rightarrow> string option"
  token_user :: "gotime \<Rightarrow> string \<Rightarrow> string option"
  random_token :: "nat \<Rightarrow> string"
  captcha_ok :: "string \<Rightarrow> bool"
  mail_ok :: "string \<Rightarrow> bool"
  disposable :: "string \<Rightarrow> bool"
  domain_ok :: "string \<Rightarrow> bool"
  loopback :: "string \<Rightarrow> bool"
  wide_classes :: "string \<Rightarrow> bool \<times> bool \<times> bool"

text \<open>The configuration of the handler: the rate limiter may be absent.\<close>

record auth_config =
  cf_limiter :: "limiter option"
  cf_verify_hold :: duration
  cf_session_ttl :: duration

section \<open>Checks\<close>

text \<open>\<open>wide_classes\<close> tells which of upper case, lower case and digit occur among the code points
  above 127 of a password.\<close>

definition validatePassword :: "outside \<Rightarrow> string \<Rightarrow> string option" where
  "validatePassword ext pw =
     (if length pw < 8 then Some ''password must be at least 8 characters''
      else if length pw > 128 then Some ''password must be 128 characters or less''
      else case wide_classes ext pw of (up, low, dig) \<Rightarrow>
        let code = (\<lambda>c. of_char c :: nat);
            hasUpper = (up \<or> list_ex (\<lambda>c. 65 \<le> code c \<and> code c \<le> 90) pw);
            hasLower = (low \<or> list_ex (\<lambda>c. 97 \<le> code c \<and> code c \<le> 122) pw);
            hasDigit = (dig \<or> list_ex (\<lambda>c. 48 \<le> code c \<and> code c \<le> 57) pw) in
        if \<not> hasUpper \<or> \<not> hasLower \<or> \<not> hasDigit
        then Some ''password must contain uppercase, lowercase, and a digit'' else None)"

definition maxUserAgentLen :: nat where "maxUserAgentLen = 512"

definition truncateUserAgent :: "string \<Rightarrow> string" where
  "truncateUserAgent ua = take maxUserAgentLen ua"

definition shouldHoldVerification :: "gotime \<Rightarrow> gotime \<Rightarrow> duration \<Rightarrow> bool" where
  "shouldHoldVerification created now threshold =
     (if threshold \<le> 0 then False else now - created < threshold)"

definition link_session :: "auth_config \<Rightarrow> env \<Rightarrow> Session option \<Rightarrow> string \<Rightarrow> server \<Rightarrow> server" where
  "link_session cf env session uid sv =
     (case session of
        None \<Rightarrow> sv
      | Some s \<Rightarrow>
          if env_rfaults env RSession then sv
          else (case UpdateSessionUser (env_now env) (cf_session_ttl cf) (session_id s) uid [(sv_redis sv, False)] of
              Inl _ \<Rightarrow> sv
            | Inr r \<Rightarrow> sv\<lparr>sv_redis := r\<rparr>))"

text \<open>One call of the limiter; without a limiter everything is allowed.\<close>

definition limited :: "auth_config \<Rightarrow> (limiter \<Rightarrow> redis \<Rightarrow> redis \<times> bool) \<Rightarrow> server \<Rightarrow> server \<times> bool" where
  "limited cf call sv =
     (case cf_limiter cf of
        None \<Rightarrow> (sv, True)
      | Some rl \<Rightarrow> (case call rl (sv_redis sv) of (r, ok) \<Rightarrow> (sv\<lparr>sv_redis := r\<rparr>, ok)))"

definition limiter_do :: "auth_config \<Rightarrow> (redis \<Rightarrow> redis) \<Rightarrow> server \<Rightarrow> server" where
  "limiter_do cf call sv =
     (case cf_limiter cf of None \<Rightarrow> sv | Some rl \<Rightarrow> sv\<lparr>sv_redis := call (sv_redis sv)\<rparr>)"

section \<open>Issuing tokens\<close>

definition refresh_life :: duration where "refresh_life = 30 * 24 * hour"

text \<open>The access token is the zero string when signing failed and the caller drops the error.\<close>

definition issue_refresh :: "outside \<Rightarrow> env \<Rightarrow> nat \<Rightarrow> string \<Rightarrow> server \<Rightarrow> server" where
  "issue_refresh ext env i uid sv =
     sv_pg_do (CreateRefreshToken (env_faults env) \<lparr>rt_id = env_uuid env i, rt_user = uid,
       rt_hash = sha ext (random_token ext i), rt_expires_at = env_now env + refresh_life,
       rt_revoked_at = None\<rparr>) sv"

definition tokens_for :: "outside \<Rightarrow> nat \<Rightarrow> User \<Rightarrow> User \<times> string \<times> string" where
  "tokens_for ext i u = (u, (case mint ext u of None \<Rightarrow> '''' | Some a \<Rightarrow> a), random_token ext i)"

type_synonym session_reply = "(User \<times> string \<times> string) response"

section \<open>Signing in\<close>

definition Login ::
  "outside \<Rightarrow> auth_config \<Rightarrow> env \<Rightarrow> string \<Rightarrow> Session option \<Rightarrow> (string \<times> string) option
     \<Rightarrow> server \<Rightarrow> server \<times> session_reply" where
  "Login ext cf env ip session req sv =
     (case req of
        None \<Rightarrow> (sv, HttpError 400 ''invalid JSON'')
      | Some (address, password) \<Rightarrow>
          (case limited cf (\<lambda>rl. AllowLogin rl (loopback ext) (env_rfaults env) (env_now env) ip) sv of (sv1, allowed) \<Rightarrow>
            if \<not> allowed then (sv1, HttpError 429 (''too many login attempts '' @ em_dash @ '' please try again later''))
            else
              (let email = to_lower (trim_space address);
                   failed = limiter_do cf (RecordLoginFailure (env_rfaults env) (env_now env) email) sv1;
                   blocked = (case cf_limiter cf of None \<Rightarrow> False
                     | Some rl \<Rightarrow> LoginAccountBlocked rl (env_rfaults env) (env_now env) email (sv_redis sv1)) in
               if blocked then (sv1, HttpError 429 (''too many login attempts '' @ em_dash @ '' please try again later''))
               else case or_zero None (GetUserByEmail (env_faults env) (env_now env) email (sv_pg sv1)) of
                   None \<Rightarrow> (failed, HttpError 401 ''invalid email or password'')
                 | Some u \<Rightarrow>
                     if \<not> bcrypt_match ext (user_password_hash u) password
                     then (failed, HttpError 401 ''invalid email or password'')
                     else if user_is_banned u then (sv1, HttpError 403 ''account suspended'')
                     else (let sv2 = limiter_do cf (ClearLoginFailures (env_rfaults env) email) sv1;
                               sv3 = issue_refresh ext env 0 (user_id u) sv2 in
                           (link_session cf env session (user_id u) sv3, HttpOK 200 (tokens_for ext 0 u))))))"

record signup_request =
  su_email :: string
  su_password :: string
  su_stage_name :: string
  su_display_name :: string
  su_website :: string
  su_captcha :: string

definition Signup_user :: "env \<Rightarrow> string \<Rightarrow> string \<Rightarrow> Session option \<Rightarrow> string \<Rightarrow> string \<Rightarrow> string \<Rightarrow> User" where
  "Signup_user env ip agent session email name hash = zero_user\<lparr>user_id := env_uuid env 1, user_email := email,
     user_password_hash := hash, user_display_name := name, user_stage_name := name,
     user_avatar_color := (case session of None \<Rightarrow> ''oklch(0.70 0.18 30)'' | Some s \<Rightarrow> session_color s),
     user_created_at := env_now env, user_signup_ip := ip, user_signup_agent := truncateUserAgent agent\<rparr>"

text \<open>What \<open>Signup\<close> does once all its checks have passed and the password is hashed.\<close>

definition Signup_create ::
  "outside \<Rightarrow> auth_config \<Rightarrow> env \<Rightarrow> Session option \<Rightarrow> User \<Rightarrow> server \<Rightarrow> server \<times> (User \<times> string \<times> string) option response" where
  "Signup_create ext cf env session user sv =
     (case CreateUser (env_faults env) user (sv_pg sv) of
        Inl _ \<Rightarrow> (sv, HttpError 500 ''failed to create account'')
      | Inr db \<Rightarrow>
          (let v = \<lparr>ev_id = env_uuid env 2, ev_user = user_id user, ev_token = random_token ext 2,
                     ev_expires_at = env_now env + 24 * hour, ev_used_at = None\<rparr>;
               sv1 = sv\<lparr>sv_pg := fst (CreateEmailVerification (env_faults env) (env_now env) v db)\<rparr> in
           case mint ext user of
             None \<Rightarrow> (sv1, HttpError 500 ''internal error'')
           | Some a \<Rightarrow>
               (link_session cf env session (user_id user) (issue_refresh ext env 0 (user_id user) sv1),
                HttpOK 201 (Some (user, a, random_token ext 0)))))"

definition Signup ::
  "outside \<Rightarrow> auth_config \<Rightarrow> env \<Rightarrow> string \<Rightarrow> string \<Rightarrow> Session option \<Rightarrow> signup_request option
     \<Rightarrow> server \<Rightarrow> server \<times> (User \<times> string \<times> string) option response" where
  "Signup ext cf env ip agent session req sv =
     (case req of
        None \<Rightarrow> (sv, HttpError 400 ''invalid JSON'')
      | Some q \<Rightarrow>
          if su_website q \<noteq> '''' then (sv, HttpOK 201 None)
          else (case limited cf (\<lambda>rl. AllowSignup rl (loopback ext) (env_rfaults env) (env_now env) ip) sv of (sv1, allowed) \<Rightarrow>
            (let email = to_lower (trim_space (su_email q));
                 given = trim_space (su_stage_name q);
                 name = (if given = '''' then trim_space (su_display_name q) else given) in
             if \<not> allowed then (sv1, HttpError 429 (''too many signup attempts '' @ em_dash @ '' please try again later''))
             else if \<not> captcha_ok ext (su_captcha q) then (sv1, HttpError 400 (''captcha verification failed '' @ em_dash @ '' please try again''))
             else if \<not> mail_ok ext email then (sv1, HttpError 400 ''invalid email address'')
             else if disposable ext email then (sv1, HttpError 400 (''disposable email addresses are not allowed '' @ em_dash @ '' please use a permanent email''))
             else if \<not> domain_ok ext email then (sv1, HttpError 400 (''this email domain cannot receive mail '' @ em_dash @ '' please check for typos''))
             else (case validatePassword ext (su_password q) of
                 Some msg \<Rightarrow> (sv1, HttpError 400 msg)
               | None \<Rightarrow>
                   if length name < 2 \<or> length name > 30
                   then (sv1, HttpError 400 ''stage name must be 2-30 characters'')
                   else if ContainsProfanity name
                   then (sv1, HttpError 400 ''stage name contains inappropriate language'')
                   else (case IsStageNameTaken (env_faults env) name '''' (sv_pg sv1) of
                       Inl _ \<Rightarrow> (sv1, HttpError 500 ''internal error'')
                     | Inr True \<Rightarrow> (sv1, HttpError 409 ''this stage name is already taken'')
                     | Inr False \<Rightarrow>
                         (case deref_or_zero zero_user (GetUserByEmail (env_faults env) (env_now env) email (sv_pg sv1)) of
                             Some _ \<Rightarrow> (sv1, HttpError 409 ''an account with this email already exists'')
                           | None \<Rightarrow>
                               (case bcrypt_hash ext (su_password q) of
                                   None \<Rightarrow> (sv1, HttpError 500 ''internal error'')
                                 | Some h \<Rightarrow> Signup_create ext cf env session
                                     (Signup_user env ip agent session email name h) sv1)))))))"

section \<open>Refreshing and signing out\<close>

definition rotationGrace :: duration where "rotationGrace = 15 * second"

text \<open>After the rotation, a failed look-up of the user yields the zero user: \<open>user, _ :=\<close>.\<close>

definition RefreshToken_issue :: "outside \<Rightarrow> env \<Rightarrow> string \<Rightarrow> server \<Rightarrow> server \<times> session_reply" where
  "RefreshToken_issue ext env uid sv =
     (case deref_or_zero zero_user (GetUserByID (env_faults env) (env_now env) uid (sv_pg sv)) of
        None \<Rightarrow> (sv, HttpError 401 ''user not found'')
      | Some u \<Rightarrow>
          if user_is_banned u then (sv, HttpError 403 ''account suspended'')
          else (issue_refresh ext env 0 (user_id u) sv, HttpOK 200 (tokens_for ext 0 u)))"

definition RefreshToken_handler :: "outside \<Rightarrow> env \<Rightarrow> string option \<Rightarrow> server \<Rightarrow> server \<times> session_reply" where
  "RefreshToken_handler ext env req sv =
     (case req of
        None \<Rightarrow> (sv, HttpError 400 ''invalid JSON'')
      | Some token \<Rightarrow>
          (case or_zero None (GetRefreshTokenByHash (env_faults env) (sha ext token) (sv_pg sv)) of
              None \<Rightarrow> (sv, HttpError 401 ''invalid refresh token'')
            | Some rt \<Rightarrow>
                (case rt_revoked_at rt of
                    Some revoked \<Rightarrow>
                      ((if env_now env - revoked > rotationGrace
                        then sv_pg_do (RevokeAllUserRefreshTokens (env_faults env) (rt_user rt)) sv else sv),
                       HttpError 401 ''refresh token expired or revoked'')
                  | None \<Rightarrow>
                      if rt_expires_at rt < env_now env
                      then (sv, HttpError 401 ''refresh token expired or revoked'')
                      else (case RevokeRefreshTokenIfActive (env_faults env) (env_now env) (rt_id rt) (sv_pg sv) of
                          Inl _ \<Rightarrow> (sv, HttpError 401 ''refresh token expired or revoked'')
                        | Inr (db, rotated) \<Rightarrow>
                            if \<not> rotated then (sv\<lparr>sv_pg := db\<rparr>, HttpError 401 ''refresh token expired or revoked'')
                            else RefreshToken_issue ext env (rt_user rt) (sv\<lparr>sv_pg := db\<rparr>)))))"

definition Logout :: "env \<Rightarrow> User option \<Rightarrow> server \<Rightarrow> server \<times> string response" where
  "Logout env user sv =
     ((case user of None \<Rightarrow> sv
         | Some u \<Rightarrow> sv_pg_do (RevokeAllUserRefreshTokens (env_faults env) (user_id u)) sv),
      HttpOK 200 ''logged out'')"

section \<open>E-mail verification\<close>

definition VerifyEmail :: "auth_config \<Rightarrow> env \<Rightarrow> string \<Rightarrow> server \<Rightarrow> server \<times> string response" where
  "VerifyEmail cf env token sv =
     (if token = '''' then (sv, HttpError 400 ''token is required'')
      else case or_zero None (GetEmailVerificationByToken (env_faults env) token (sv_pg sv)) of
          None \<Rightarrow> (sv, HttpError 400 ''invalid verification token'')
        | Some v \<Rightarrow>
            if ev_used_at v \<noteq> None then (sv, HttpError 400 ''token already used'')
            else if ev_expires_at v < env_now env then (sv, HttpError 400 ''verification token expired'')
            else (let sv1 = sv_pg_do (MarkEmailVerificationUsed (env_faults env) (env_now env) (ev_id v)) sv in
              case or_zero None (GetUserByID (env_faults env) (env_now env) (ev_user v) (sv_pg sv1)) of
                None \<Rightarrow> (sv1, HttpError 400 ''invalid verification token'')
              | Some u \<Rightarrow>
                  if shouldHoldVerification (user_created_at u) (env_now env) (cf_verify_hold cf)
                  then (sv_pg_do (HoldEmailVerification (env_faults env) (env_now env) (user_id u)) sv1,
                        HttpOK 200 ''email verified'')
                  else (sv_pg_do (SetEmailVerified (env_faults env) (env_now env) (ev_user v)) sv1,
                        HttpOK 200 ''email verified'')))"

definition ResendVerification ::
  "outside \<Rightarrow> auth_config \<Rightarrow> env \<Rightarrow> User option \<Rightarrow> server \<Rightarrow> server \<times> string response" where
  "ResendVerification ext cf env user sv =
     (case user of
        None \<Rightarrow> (sv, HttpError 401 ''authentication required'')
      | Some u \<Rightarrow>
          if user_email_verified u then (sv, HttpOK 200 ''already verified'')
          else (case limited cf (\<lambda>rl. AllowEmailSend (env_rfaults env) (env_now env) ''verify'' (user_email u)) sv of
              (sv1, allowed) \<Rightarrow>
                if \<not> allowed
                then (sv1, HttpError 429 (''a verification email was sent recently '' @ em_dash
                       @ '' please wait before requesting another''))
                else (let v = \<lparr>ev_id = env_uuid env 0, ev_user = user_id u, ev_token = random_token ext 0,
                              ev_expires_at = env_now env + 24 * hour, ev_used_at = None\<rparr> in
                  (sv1\<lparr>sv_pg := fst (CreateEmailVerification (env_faults env) (env_now env) v (sv_pg sv1))\<rparr>,
                   HttpOK 200 ''verification email sent''))))"

section \<open>Passwords\<close>

abbreviation reset_answer :: string where
  "reset_answer \<equiv> ''if that email exists, a reset link has been sent''"

definition ForgotPassword ::
  "outside \<Rightarrow> auth_config \<Rightarrow> env \<Rightarrow> string \<Rightarrow> string option \<Rightarrow> server \<Rightarrow> server \<times> string response" where
  "ForgotPassword ext cf env ip req sv =
     (case req of
        None \<Rightarrow> (sv, HttpError 400 ''invalid JSON'')
      | Some address \<Rightarrow>
          (let email = to_lower (trim_space address) in
           case limited cf (\<lambda>rl. AllowPasswordResetIP rl (loopback ext) (env_rfaults env) (env_now env) ip) sv of
             (sv1, allowed) \<Rightarrow>
               if \<not> allowed then (sv1, HttpError 429 (''too many requests '' @ em_dash @ '' please try again later''))
               else (case limited cf (\<lambda>rl. AllowEmailSend (env_rfaults env) (env_now env) ''reset'' email) sv1 of
                 (sv2, quiet_ok) \<Rightarrow>
                   if \<not> quiet_ok then (sv2, HttpOK 200 reset_answer)
                   else (case deref_or_zero zero_user (GetUserByEmail (env_faults env) (env_now env) email (sv_pg sv2)) of
                       None \<Rightarrow> (sv2, HttpOK 200 reset_answer)
                     | Some u \<Rightarrow>
                         (let p = \<lparr>pr_id = env_uuid env 0, pr_user = user_id u, pr_token = random_token ext 0,
                                    pr_expires_at = env_now env + hour, pr_used_at = None\<rparr> in
                          (sv2\<lparr>sv_pg := fst (CreatePasswordReset (env_faults env) (env_now env) p (sv_pg sv2))\<rparr>,
                           HttpOK 200 reset_answer))))))"

text \<open>The three writes of \<open>ResetPassword\<close> run outside a transaction and their errors are dropped.\<close>

definition ResetPassword ::
  "outside \<Rightarrow> env \<Rightarrow> (string \<times> string) option \<Rightarrow> server \<Rightarrow> server \<times> string response" where
  "ResetPassword ext env req sv =
     (case req of
        None \<Rightarrow> (sv, HttpError 400 ''invalid JSON'')
      | Some (token, password) \<Rightarrow>
          (case validatePassword ext password of
              Some msg \<Rightarrow> (sv, HttpError 400 msg)
            | None \<Rightarrow>
                (case or_zero None (GetPasswordResetByToken (env_faults env) token (sv_pg sv)) of
                    None \<Rightarrow> (sv, HttpError 400 ''invalid or expired reset token'')
                  | Some p \<Rightarrow>
                      if pr_used_at p \<noteq> None then (sv, HttpError 400 ''reset token already used'')
                      else if pr_expires_at p < env_now env then (sv, HttpError 400 ''reset token expired'')
                      else (case bcrypt_hash ext password of
                          None \<Rightarrow> (sv, HttpError 500 ''internal error'')
                        | Some h \<Rightarrow>
                            (sv_pg_do (RevokeAllUserRefreshTokens (env_faults env) (pr_user p))
                              (sv_pg_do (UpdateUserPassword (env_faults env) (pr_user p) h)
                                (sv_pg_do (MarkPasswordResetUsed (env_faults env) (env_now env) (pr_id p)) sv)),
                             HttpOK 200 ''password reset successfully'')))))"

definition ChangePassword ::
  "outside \<Rightarrow> env \<Rightarrow> User option \<Rightarrow> (string \<times> string) option \<Rightarrow> server \<Rightarrow> server \<times> session_reply" where
  "ChangePassword ext env user req sv =
     (case user of
        None \<Rightarrow> (sv, HttpError 401 ''authentication required'')
      | Some u \<Rightarrow>
          (case req of
              None \<Rightarrow> (sv, HttpError 400 ''invalid JSON'')
            | Some (current, password) \<Rightarrow>
                if \<not> bcrypt_match ext (user_password_hash u) current
                then (sv, HttpError 401 ''current password is incorrect'')
                else (case validatePassword ext password of
                    Some msg \<Rightarrow> (sv, HttpError 400 msg)
                  | None \<Rightarrow>
                      (case bcrypt_hash ext password of
                          None \<Rightarrow> (sv, HttpError 500 ''internal error'')
                        | Some h \<Rightarrow>
                            (issue_refresh ext env 0 (user_id u)
                              (sv_pg_do (RevokeAllUserRefreshTokens (env_faults env) (user_id u))
                                (sv_pg_do (UpdateUserPassword (env_faults env) (user_id u) h) sv)),
                             HttpOK 200 (tokens_for ext 0 u))))))"

definition DeleteAccount ::
  "outside \<Rightarrow> env \<Rightarrow> User option \<Rightarrow> string option \<Rightarrow> server \<Rightarrow> server \<times> string response" where
  "DeleteAccount ext env user req sv =
     (case user of
        None \<Rightarrow> (sv, HttpError 401 ''authentication required'')
      | Some u \<Rightarrow>
          if req = None \<or> req = Some '''' then (sv, HttpError 400 ''password confirmation required'')
          else if \<not> bcrypt_match ext (user_password_hash u) (the req)
          then (sv, HttpError 401 ''incorrect password'')
          else (let sv1 = sv_pg_do (RevokeAllUserRefreshTokens (env_faults env) (user_id u)) sv in
            case DeleteUser (env_faults env) (user_id u) (sv_pg sv1) of
              Inl _ \<Rightarrow> (sv1, HttpError 500 ''failed to delete account'')
            | Inr db \<Rightarrow> (sv1\<lparr>sv_pg := db\<rparr>, HttpOK 200 ''account deleted'')))"

definition CheckStageName :: "env \<Rightarrow> string \<Rightarrow> server \<Rightarrow> bool response" where
  "CheckStageName env query sv =
     (let name = trim_space query in
      if name = '''' then HttpOK 200 False
      else case IsStageNameTaken (env_faults env) name '''' (sv_pg sv) of
          Inl _ \<Rightarrow> HttpError 500 ''internal error''
        | Inr taken \<Rightarrow> HttpOK 200 (\<not> taken))"

section \<open>The profile\<close>

text \<open>The body of \<open>UpdateProfile\<close>: a field is absent or given; an absent list of genres is nil.\<close>

record profile_request =
  pq_display_name :: "string option"
  pq_bio :: "string option"
  pq_genres :: "string list option"
  pq_avatar_color :: "string option"
  pq_stage_name :: "string option"

definition profile_name :: "User \<Rightarrow> profile_request \<Rightarrow> (nat \<times> string) + string" where
  "profile_name u q =
     (case pq_display_name q of
        None \<Rightarrow> Inr (user_display_name u)
      | Some s \<Rightarrow> (let name = trim_space s in
          if length name < 2 \<or> length name > 30 then Inl (400, ''display name must be 2-30 characters'') else Inr name))"

definition profile_bio :: "User \<Rightarrow> profile_request \<Rightarrow> (nat \<times> string) + string" where
  "profile_bio u q =
     (case pq_bio q of
        None \<Rightarrow> Inr (user_bio u)
      | Some s \<Rightarrow> (let b = trim_space s in
          if length b > 300 then Inl (400, ''bio must be 300 characters or less'')
          else if ContainsProfanity b then Inl (400, ''bio contains inappropriate language'')
          else Inr b))"

definition profile_color :: "User \<Rightarrow> profile_request \<Rightarrow> (nat \<times> string) + string" where
  "profile_color u q =
     (case pq_avatar_color q of
        None \<Rightarrow> Inr (user_avatar_color u)
      | Some c \<Rightarrow> if validateCSSValue c 80 \<noteq> None then Inl (400, ''invalid avatar color'') else Inr c)"

definition profile_genres :: "User \<Rightarrow> profile_request \<Rightarrow> string list" where
  "profile_genres u q = (case pq_genres q of None \<Rightarrow> user_genres u | Some gs \<Rightarrow> take 5 gs)"

text \<open>The stage name, and the display name that is kept in step with it.\<close>

definition profile_stage :: "env \<Rightarrow> pgdb \<Rightarrow> User \<Rightarrow> profile_request \<Rightarrow> string \<Rightarrow> (nat \<times> string) + (string \<times> string)" where
  "profile_stage env db u q displayName =
     (case pq_stage_name q of
        None \<Rightarrow> Inr (user_stage_name u, displayName)
      | Some s \<Rightarrow> (let sn = trim_space s in
          if length sn < 2 \<or> length sn > 30 then Inl (400, ''stage name must be 2-30 characters'')
          else if ContainsProfanity sn then Inl (400, ''stage name contains inappropriate language'')
          else if to_lower sn = to_lower (user_stage_name u) then Inr (sn, sn)
          else case IsStageNameTaken (env_faults env) sn (user_id u) db of
              Inl _ \<Rightarrow> Inl (500, ''internal error'')
            | Inr taken \<Rightarrow> if taken then Inl (409, ''this stage name is already taken'') else Inr (sn, sn)))"

definition save_profile ::
  "env \<Rightarrow> User \<Rightarrow> string \<Rightarrow> string \<Rightarrow> string \<Rightarrow> string list \<Rightarrow> string \<Rightarrow> server \<Rightarrow> server \<times> User response" where
  "save_profile env u displayName bio color genres stageName sv =
     (case UpdateUserProfile (env_faults env) (user_id u) displayName bio color genres stageName (sv_pg sv) of
        Inl _ \<Rightarrow> (sv, HttpError 500 ''failed to update profile'')
      | Inr db \<Rightarrow> (sv\<lparr>sv_pg := db\<rparr>,
          (case deref_or_zero zero_user (GetUserByID (env_faults env) (env_now env) (user_id u) db) of
             None \<Rightarrow> HttpOK 200 u
           | Some updated \<Rightarrow> HttpOK 200 updated)))"

definition UpdateProfile ::
  "env \<Rightarrow> User option \<Rightarrow> profile_request option \<Rightarrow> server \<Rightarrow> server \<times> User response" where
  "UpdateProfile env user req sv =
     (case user of
        None \<Rightarrow> (sv, HttpError 401 ''authentication required'')
      | Some u \<Rightarrow>
          (case req of
              None \<Rightarrow> (sv, HttpError 400 ''invalid JSON'')
            | Some q \<Rightarrow>
                (case profile_name u q of
                    Inl (code, msg) \<Rightarrow> (sv, HttpError code msg)
                  | Inr name \<Rightarrow>
                (case profile_bio u q of
                    Inl (code, msg) \<Rightarrow> (sv, HttpError code msg)
                  | Inr bio \<Rightarrow>
                (case profile_color u q of
                    Inl (code, msg) \<Rightarrow> (sv, HttpError code msg)
                  | Inr color \<Rightarrow>
                (case profile_stage env (sv_pg sv) u q name of
                    Inl (code, msg) \<Rightarrow> (sv, HttpError code msg)
                  | Inr (stageName, displayName) \<Rightarrow>
                      save_profile env u displayName bio color (profile_genres u q) stageName sv))))))"

definition GetMe :: "User option \<Rightarrow> User response" where
  "GetMe user = (case user of None \<Rightarrow> HttpError 401 ''authentication required'' | Some u \<Rightarrow> HttpOK 200 u)"

text \<open>
  The goroutine of \<open>Signup\<close> that looks up the place of the new user's address, a step of its own
  after the request; \<open>geolocateIP\<close> asks a web service and gives three empty strings on any error.
\<close>

definition locate_signup ::
  "(string \<Rightarrow> string \<times> string \<times> string) \<Rightarrow> env \<Rightarrow> string \<Rightarrow> string \<Rightarrow> server \<Rightarrow> server" where
  "locate_signup geolocateIP env ip uid sv =
     (if ip \<in> {'''', ''127.0.0.1'', ''::1'', ''[''} then sv
      else (case geolocateIP ip of (city, region, country) \<Rightarrow>
        if country \<noteq> '''' then sv_pg_do (UpdateUserLocation (env_faults env) uid city region country) sv else sv))"

end
