(* ===== verification/Cache.thy ===== *)
theory Cache
  imports Users Redis
begin

text \<open>
  The in-process caches of \<open>internal/middleware/cache.go\<close> (users and sessions, the same code twice)
  and the two middlewares that read through them: \<open>SessionMiddleware\<close> of \<open>session.go\<close> and
  \<open>AuthMiddleware\<close> of \<open>jwt.go\<close>. What a cache promises its reader is the locale \<open>ttl_cache\<close>; that a
  reader never sees a value older than the time to live is proved there and holds of both caches.
\<close>

section \<open>A cache of entries that expire\<close>

record 'v cache =
  entries :: "string \<rightharpoonup> 'v \<times> gotime"
  last_gc :: gotime

definition cacheGCInterval :: duration where "cacheGCInterval = 2 * minute"
definition sessionCacheTTL :: duration where "sessionCacheTTL = 20 * second"
definition userCacheTTL :: duration where "userCacheTTL = 20 * second"

definition cache_load :: "gotime \<Rightarrow> string \<Rightarrow> 'v cache \<Rightarrow> 'v cache \<times> 'v option" where
  "cache_load now k c =
     (case entries c k of
        None \<Rightarrow> (c, None)
      | Some (v, e) \<Rightarrow>
          if now > e then (c\<lparr>entries := (entries c)(k := None)\<rparr>, None) else (c, Some v))"

definition unexpired :: "gotime \<Rightarrow> ('v \<times> gotime) option \<Rightarrow> ('v \<times> gotime) option" where
  "unexpired now x = (case x of None \<Rightarrow> None | Some (v, e) \<Rightarrow> if now > e then None else Some (v, e))"

definition cache_gc :: "gotime \<Rightarrow> 'v cache \<Rightarrow> 'v cache" where
  "cache_gc now c =
     (if now - last_gc c < cacheGCInterval then c
      else c\<lparr>entries := (\<lambda>k. unexpired now (entries c k)), last_gc := now\<rparr>)"

definition cache_store :: "duration \<Rightarrow> gotime \<Rightarrow> string \<Rightarrow> 'v \<Rightarrow> 'v cache \<Rightarrow> 'v cache" where
  "cache_store ttl now k v c = cache_gc now (c\<lparr>entries := (entries c)(k \<mapsto> (v, now + ttl))\<rparr>)"

definition cache_drop :: "string \<Rightarrow> 'v cache \<Rightarrow> 'v cache" where
  "cache_drop k c = c\<lparr>entries := (entries c)(k := None)\<rparr>"

definition getCachedUser :: "gotime \<Rightarrow> string \<Rightarrow> User cache \<Rightarrow> User cache \<times> User option" where
  "getCachedUser = cache_load"

definition putCachedUser :: "gotime \<Rightarrow> string \<Rightarrow> User \<Rightarrow> User cache \<Rightarrow> User cache" where
  "putCachedUser = cache_store userCacheTTL"

definition InvalidateCachedUser :: "string \<Rightarrow> User cache \<Rightarrow> User cache" where
  "InvalidateCachedUser = cache_drop"

definition getCachedSession :: "gotime \<Rightarrow> string \<Rightarrow> Session cache \<Rightarrow> Session cache \<times> Session option" where
  "getCachedSession = cache_load"

definition putCachedSession :: "gotime \<Rightarrow> string \<Rightarrow> Session \<Rightarrow> Session cache \<Rightarrow> Session cache" where
  "putCachedSession = cache_store sessionCacheTTL"

definition invalidateCachedSession :: "string \<Rightarrow> Session cache \<Rightarrow> Session cache" where
  "invalidateCachedSession = cache_drop"

section \<open>Reading through a cache\<close>

text \<open>A read takes the cached value, or else what the store returned; only a value is cached.\<close>

definition read_through where
  "read_through get put now k loaded c =
     (case get now k c of
        (c', Some v) \<Rightarrow> (c', Some v)
      | (c', None) \<Rightarrow> (case loaded of None \<Rightarrow> (c', None) | Some v \<Rightarrow> (put now k v c', Some v)))"

text \<open>A history of a cache: reads, with the instant and what the store held then, and invalidations.\<close>

datatype 'v cache_event = ReadAt gotime string "'v option" | Invalidated string

fun cache_history where
  "cache_history get put forget c [] = c"
| "cache_history get put forget c (ReadAt t k loaded # evs) =
     cache_history get put forget (fst (read_through get put t k loaded c)) evs"
| "cache_history get put forget c (Invalidated k # evs) = cache_history get put forget (forget k c) evs"

lemma cache_history_snoc:
  "cache_history get put forget c (evs @ [ReadAt t k loaded])
     = fst (read_through get put t k loaded (cache_history get put forget c evs))"
  "cache_history get put forget c (evs @ [Invalidated k]) = forget k (cache_history get put forget c evs)"
  by (induction get put forget c evs rule: cache_history.induct) simp_all

fun event_before :: "gotime \<Rightarrow> 'v cache_event \<Rightarrow> bool" where
  "event_before now (ReadAt t k loaded) = (t \<le> now)"
| "event_before now (Invalidated k) = True"

text \<open>
  The least a cache promises, for reads at instants that do not run backwards: what it finds was put
  there for this key at most \<open>ttl\<close> ago. It may forget anything at any time.
\<close>

locale lossy_cache =
  fixes get :: "gotime \<Rightarrow> string \<Rightarrow> 'c \<Rightarrow> 'c \<times> 'v option"
    and put :: "gotime \<Rightarrow> string \<Rightarrow> 'v \<Rightarrow> 'c \<Rightarrow> 'c"
    and forget :: "string \<Rightarrow> 'c \<Rightarrow> 'c"
    and empty :: 'c
    and ttl :: duration
  assumes finds_nothing: "snd (get now k empty) = None"
    and finds_put: "t \<le> now \<Longrightarrow> snd (get now k (put t k v c)) = Some u \<Longrightarrow> u = v \<and> now \<le> t + ttl"
    and finds_other: "t \<le> now \<Longrightarrow> k' \<noteq> k \<Longrightarrow> snd (get now k' (put t k v c)) = Some u \<Longrightarrow> snd (get now k' c) = Some u"
    and finds_after_get: "t \<le> now \<Longrightarrow> snd (get now k' (fst (get t k c))) = Some u \<Longrightarrow> snd (get now k' c) = Some u"
    and finds_after_forget: "snd (get now k' (forget k c)) = Some u \<Longrightarrow> snd (get now k' c) = Some u"
begin

lemma read_through_hit: "snd (get t k c) = Some v \<Longrightarrow> snd (read_through get put t k loaded c) = Some v"
  by (cases "get t k c") (auto simp: read_through_def)

lemma read_through_miss: "snd (get t k c) = None \<Longrightarrow> snd (read_through get put t k loaded c) = loaded"
  by (cases "get t k c") (auto simp: read_through_def split: option.splits)

lemma finds_read_through:
  assumes "t \<le> now" and "snd (get now k' (fst (read_through get put t k loaded c))) = Some u"
  shows "k' = k \<and> loaded = Some u \<and> now \<le> t + ttl \<or> snd (get now k' c) = Some u"
proof (cases "get t k c")
  case (Pair c' r)
  have keeps: "snd (get now k' c') = Some u \<Longrightarrow> snd (get now k' c) = Some u"
    using finds_after_get [OF assms(1), of k' k c] Pair by simp
  show ?thesis
  proof (cases "r = None \<and> loaded \<noteq> None")
    case True
    then obtain v where v: "r = None" "loaded = Some v" by auto
    then have "snd (get now k' (put t k v c')) = Some u"
      using assms(2) Pair by (simp add: read_through_def)
    then show ?thesis
      using finds_put [OF assms(1)] finds_other [OF assms(1)] keeps v by (cases "k' = k") blast+
  next
    case False
    then have "fst (read_through get put t k loaded c) = c'"
      using Pair by (auto simp: read_through_def split: option.splits)
    then show ?thesis using assms(2) keeps by simp
  qed
qed

text \<open>Whatever is found in the cache was read from the store at most \<open>ttl\<close> ago.\<close>

lemma cached_value_recent:
  assumes "\<forall>e \<in> set evs. event_before now e"
    and "snd (get now k (cache_history get put forget empty evs)) = Some v"
  shows "\<exists>t. now - ttl \<le> t \<and> t \<le> now \<and> ReadAt t k (Some v) \<in> set evs"
  using assms
proof (induction evs rule: rev_induct)
  case Nil
  then show ?case by (simp add: finds_nothing)
next
  case (snoc e evs)
  note found = snoc.prems(2)
  show ?case
  proof (cases e)
    case (ReadAt t k' loaded)
    have "t \<le> now" using snoc.prems(1) ReadAt by simp
    from finds_read_through [OF this found [unfolded ReadAt cache_history_snoc]] show ?thesis
    proof
      assume "k = k' \<and> loaded = Some v \<and> now \<le> t + ttl"
      then show ?thesis using ReadAt \<open>t \<le> now\<close> by (intro exI [of _ t]) simp
    next
      assume "snd (get now k (cache_history get put forget empty evs)) = Some v"
      then show ?thesis using snoc.IH snoc.prems(1) by auto
    qed
  next
    case (Invalidated k')
    from finds_after_forget [OF found [unfolded Invalidated cache_history_snoc]]
    show ?thesis using snoc.IH snoc.prems(1) by auto
  qed
qed

lemma read_recent:
  assumes "\<forall>e \<in> set evs. event_before now e"
    and "snd (read_through get put now k loaded (cache_history get put forget empty evs)) = Some v"
  shows "loaded = Some v \<or> (\<exists>t. now - ttl \<le> t \<and> t \<le> now \<and> ReadAt t k (Some v) \<in> set evs)"
proof (cases "snd (get now k (cache_history get put forget empty evs))")
  case None
  then show ?thesis using assms(2) by (simp add: read_through_miss)
next
  case (Some u)
  then have "u = v" using assms(2) by (simp add: read_through_hit)
  then show ?thesis using cached_value_recent [OF assms(1)] Some by blast
qed

end

text \<open>A cache that forgets only what expires or is invalidated.\<close>

locale ttl_cache =
  fixes get :: "gotime \<Rightarrow> string \<Rightarrow> 'c \<Rightarrow> 'c \<times> 'v option"
    and put :: "gotime \<Rightarrow> string \<Rightarrow> 'v \<Rightarrow> 'c \<Rightarrow> 'c"
    and forget :: "string \<Rightarrow> 'c \<Rightarrow> 'c"
    and empty :: 'c
    and ttl :: duration
  assumes get_empty: "snd (get now k empty) = None"
    and get_put: "t \<le> now \<Longrightarrow> snd (get now k (put t k v c)) = (if now \<le> t + ttl then Some v else None)"
    and get_put_other: "t \<le> now \<Longrightarrow> k' \<noteq> k \<Longrightarrow> snd (get now k' (put t k v c)) = snd (get now k' c)"
    and get_get: "t \<le> now \<Longrightarrow> snd (get now k' (fst (get t k c))) = snd (get now k' c)"
    and get_drop: "snd (get now k' (forget k c)) = (if k' = k then None else snd (get now k' c))"

sublocale ttl_cache \<subseteq> lossy_cache
  by unfold_locales (auto simp: get_empty get_put get_put_other get_get get_drop split: if_splits)

context ttl_cache
begin

text \<open>An invalidation is seen by the next read.\<close>

lemma read_after_drop: "snd (read_through get put now k loaded (forget k c)) = loaded"
  by (rule read_through_miss) (simp add: get_drop)

end

definition empty_cache :: "'v cache" where
  "empty_cache = \<lparr>entries = Map.empty, last_gc = 0\<rparr>"

text \<open>What a read at \<open>now\<close> finds does not depend on entries that have expired by then.\<close>

lemma cache_load_result: "snd (cache_load now k c) = map_option fst (unexpired now (entries c k))"
  by (auto simp: cache_load_def unexpired_def split: option.split)

lemma unexpired_later: "t \<le> now \<Longrightarrow> unexpired now (unexpired t x) = unexpired now x"
  by (auto simp: unexpired_def split: option.splits)

lemma unexpired_None [simp]: "unexpired now None = None"
  by (simp add: unexpired_def)

lemma entries_gc: "t \<le> now \<Longrightarrow> unexpired now (entries (cache_gc t c) k) = unexpired now (entries c k)"
  by (simp add: cache_gc_def unexpired_later)

lemma entries_load: "t \<le> now \<Longrightarrow> unexpired now (entries (fst (cache_load t k c)) k') = unexpired now (entries c k')"
  by (auto simp: cache_load_def unexpired_def split: option.splits)

lemma cache_laws: "ttl_cache cache_load (cache_store ttl) cache_drop empty_cache ttl"
  by unfold_locales
    (auto simp: cache_load_result cache_store_def entries_gc entries_load cache_drop_def empty_cache_def,
     auto simp: unexpired_def)

interpretation users: ttl_cache getCachedUser putCachedUser InvalidateCachedUser empty_cache userCacheTTL
  unfolding getCachedUser_def putCachedUser_def InvalidateCachedUser_def by (rule cache_laws)

interpretation sessions: ttl_cache getCachedSession putCachedSession invalidateCachedSession empty_cache sessionCacheTTL
  unfolding getCachedSession_def putCachedSession_def invalidateCachedSession_def by (rule cache_laws)

section \<open>The middlewares\<close>

text \<open>\<open>resolve\<close> of \<open>SessionMiddleware\<close>: Redis is asked, and the session's life prolonged there, on a
  cache miss only.\<close>

definition resolve_session ::
  "rfaults \<Rightarrow> gotime \<Rightarrow> duration \<Rightarrow> string \<Rightarrow> Session cache \<Rightarrow> redis \<Rightarrow> Session cache \<times> redis \<times> Session option" where
  "resolve_session f now sessionTTL sid c r =
     (case getCachedSession now sid c of
        (c1, Some s) \<Rightarrow> (c1, r, Some s)
      | (c1, None) \<Rightarrow>
          (case or_zero None (GetSession f now sid r) of
              None \<Rightarrow> (c1, r, None)
            | Some s \<Rightarrow> (putCachedSession now sid s c1,
                or_zero r (RefreshSession f now sessionTTL (session_id s) r), Some s)))"

text \<open>The cookie is tried first, then the header; empty values are ignored.\<close>

definition SessionMiddleware ::
  "rfaults \<Rightarrow> gotime \<Rightarrow> duration \<Rightarrow> string option \<Rightarrow> string \<Rightarrow> Session cache \<Rightarrow> redis
     \<Rightarrow> Session cache \<times> redis \<times> Session option" where
  "SessionMiddleware f now sessionTTL cookie header c r =
     (let try_header = (\<lambda>c r. if header \<noteq> '''' then resolve_session f now sessionTTL header c r else (c, r, None)) in
      case cookie of
        None \<Rightarrow> try_header c r
      | Some sid \<Rightarrow>
          if sid = '''' then try_header c r
          else (case resolve_session f now sessionTTL sid c r of
              (c1, r1, Some s) \<Rightarrow> (c1, r1, Some s)
            | (c1, r1, None) \<Rightarrow> try_header c1 r1))"

text \<open>
  \<open>AuthMiddleware\<close> on the user id of a valid access token (\<open>None\<close> without one). After a failed read
  the pointer is to a zero struct, which is not cached but does become the user of the request.
\<close>

definition AuthMiddleware ::
  "faults \<Rightarrow> gotime \<Rightarrow> string option \<Rightarrow> User cache \<Rightarrow> pgdb \<Rightarrow> User cache \<times> User option" where
  "AuthMiddleware f now claims c db =
     (let admit = (\<lambda>u. if user_is_banned u then None else Some u) in
      case claims of
        None \<Rightarrow> (c, None)
      | Some uid \<Rightarrow>
          (case getCachedUser now uid c of
              (c1, Some u) \<Rightarrow> (c1, admit u)
            | (c1, None) \<Rightarrow>
                (case GetUserByID f now uid db of
                    Inl _ \<Rightarrow> (c1, admit zero_user)
                  | Inr None \<Rightarrow> (c1, None)
                  | Inr (Some u) \<Rightarrow> (putCachedUser now uid u c1, admit u))))"

datatype auth_event = Request gotime faults string pgdb | Mutated string

fun auth_run :: "auth_event list \<Rightarrow> User cache \<Rightarrow> User cache" where
  "auth_run [] c = c"
| "auth_run (Request t f uid db # evs) c = auth_run evs (fst (AuthMiddleware f t (Some uid) c db))"
| "auth_run (Mutated uid # evs) c = auth_run evs (InvalidateCachedUser uid c)"

fun request_before :: "gotime \<Rightarrow> auth_event \<Rightarrow> bool" where
  "request_before now (Request t f uid db) = (t \<le> now)"
| "request_before now (Mutated uid) = True"

fun as_read :: "auth_event \<Rightarrow> User cache_event" where
  "as_read (Request t f uid db) = ReadAt t uid (or_zero None (GetUserByID f t uid db))"
| "as_read (Mutated uid) = Invalidated uid"

lemma as_read_before [simp]: "event_before now (as_read e) = request_before now e"
  by (cases e) simp_all

lemma AuthMiddleware_read:
  "AuthMiddleware f now (Some uid) c db =
     (let r = read_through getCachedUser putCachedUser now uid (or_zero None (GetUserByID f now uid db)) c in
      (fst r, (case (if snd (getCachedUser now uid c) = None \<and> f CGetUser then Some zero_user else snd r) of
         None \<Rightarrow> None | Some u \<Rightarrow> if user_is_banned u then None else Some u)))"
  by (cases "getCachedUser now uid c"; cases "GetUserByID f now uid db")
    (auto simp: AuthMiddleware_def read_through_def GetUserByID_def failing_def split: option.splits if_splits)

lemma auth_run_history:
  "auth_run evs c = cache_history getCachedUser putCachedUser InvalidateCachedUser c (map as_read evs)"
  by (induction evs c rule: auth_run.induct) (simp_all add: AuthMiddleware_read Let_def)

text \<open>
  C20: The user a request runs as is never banned and is at most twenty seconds old: it is what the
  database held for the token's user id at an instant within the last twenty seconds at which a
  request asked, so a ban or a change of the account takes hold at the latest then. The one
  exception is a failed read, which makes the request run as an empty user rather than as nobody.
\<close>

theorem identity_recent:
  assumes "\<forall>e \<in> set evs. request_before now e"
    and "AuthMiddleware f now (Some uid) (auth_run evs empty_cache) db = (c', Some u)"
  shows "\<not> user_is_banned u \<and> ((f CGetUser \<and> u = zero_user)
    \<or> (\<exists>t f' db'. (Request t f' uid db' \<in> set evs \<or> (t, f', db') = (now, f, db))
         \<and> now - 20 * second \<le> t \<and> t \<le> now \<and> GetUserByID f' t uid db' = Inr (Some u)))"
proof -
  let ?c = "auth_run evs empty_cache"
  let ?loaded = "or_zero None (GetUserByID f now uid db)"
  have before: "\<forall>e \<in> set (map as_read evs). event_before now e"
    using assms(1) by simp
  have banned: "\<not> user_is_banned u"
    using assms(2) by (auto simp: AuthMiddleware_read Let_def split: option.splits if_splits)
  have read: "\<exists>f' db'. GetUserByID f' t uid db' = Inr (Some u) \<and> Request t f' uid db' \<in> set evs"
    if "ReadAt t uid (Some u) \<in> set (map as_read evs)" for t
  proof -
    from that obtain x where "x \<in> set evs" and x: "as_read x = ReadAt t uid (Some u)" by auto
    then show ?thesis by (cases x rule: auth_event.exhaust) (auto simp: or_zero_def split: sum.splits)
  qed
  show ?thesis
  proof (cases "snd (getCachedUser now uid ?c) = None")
    case True
    then have "(f CGetUser \<and> u = zero_user) \<or> ?loaded = Some u"
      using assms(2) by (auto simp: AuthMiddleware_read Let_def users.read_through_miss split: option.splits if_splits)
    then show ?thesis
    proof
      assume "?loaded = Some u"
      then have "GetUserByID f now uid db = Inr (Some u)" by (simp add: or_zero_def split: sum.splits)
      then show ?thesis using banned
        by (intro conjI disjI2 exI [of _ now] exI [of _ f] exI [of _ db]) (simp_all add: second_def)
    qed (use banned in simp)
  next
    case False
    then have "snd (getCachedUser now uid ?c) = Some u"
      using assms(2) by (auto simp: AuthMiddleware_read Let_def users.read_through_hit split: option.splits if_splits)
    from users.cached_value_recent [OF before this [unfolded auth_run_history]] read
    show ?thesis using banned by (fastforce simp: userCacheTTL_def)
  qed
qed

text \<open>An account banned after a request at instant 0 is still let in ten seconds later, as it was then.\<close>

theorem identity_recent_witness:
  "\<exists>t f' db'. (Request t f' ''bo'' db' = Request 0 (\<lambda>_. False) ''bo'' (empty_db\<lparr>db_users := [zero_user\<lparr>user_id := ''bo''\<rparr>]\<rparr>)
        \<or> (t, f', db') = (10 * second, \<lambda>_. False, empty_db\<lparr>db_users := [zero_user\<lparr>user_id := ''bo'', user_is_banned := True\<rparr>]\<rparr>))
      \<and> - 10 * second \<le> t \<and> GetUserByID f' t ''bo'' db' = Inr (Some (zero_user\<lparr>user_id := ''bo''\<rparr>))"
proof -
  let ?bo = "zero_user\<lparr>user_id := ''bo''\<rparr>"
  let ?db = "empty_db\<lparr>db_users := [?bo]\<rparr>"
  let ?banned = "empty_db\<lparr>db_users := [?bo\<lparr>user_is_banned := True\<rparr>]\<rparr>"
  obtain c' where "AuthMiddleware (\<lambda>_. False) (10 * second) (Some ''bo'')
      (auth_run [Request 0 (\<lambda>_. False) ''bo'' ?db] empty_cache) ?banned = (c', Some ?bo)"
    by (simp add: AuthMiddleware_def getCachedUser_def putCachedUser_def cache_load_def cache_store_def cache_gc_def
        empty_cache_def GetUserByID_def find_row_simps read_user_def plus_now_def zero_user_def userCacheTTL_def
        second_def cacheGCInterval_def minute_def)
  from identity_recent [OF _ this] show ?thesis by (auto simp: second_def)
qed

end
