(* ===== verification/AuthProps.thy ===== *)
theory AuthProps
  imports Auth Cache NeonProps
begin

text \<open>
  What the account handlers guarantee together: every one of them writes the database through a
  handful of statements (\<open>account_write\<close>), so what each statement keeps holds along every run of
  requests; refresh and reset tokens work once; the answers do not tell who is registered.
\<close>

section \<open>Requests and runs\<close>

datatype auth_call =
    CallLogin string "Session option" "(string \<times> string) option"
  | CallSignup string string "Session option" "signup_request option"
  | CallRefresh "string option"
  | CallLogout "User option"
  | CallVerify string
  | CallResend "User option"
  | CallForgot string "string option"
  | CallReset "(string \<times> string) option"
  | CallChange "User option" "(string \<times> string) option"
  | CallDelete "User option" "string option"
  | CallUpdate "User option" "profile_request option"
  | CallLocate "string \<Rightarrow> string \<times> string \<times> string" string string
  | CallCleanup

fun serve :: "outside \<Rightarrow> auth_config \<Rightarrow> env \<Rightarrow> auth_call \<Rightarrow> server \<Rightarrow> server" where
  "serve ext cf env (CallLogin ip session req) sv = fst (Login ext cf env ip session req sv)"
| "serve ext cf env (CallSignup ip agent session req) sv = fst (Signup ext cf env ip agent session req sv)"
| "serve ext cf env (CallRefresh req) sv = fst (RefreshToken_handler ext env req sv)"
| "serve ext cf env (CallLogout user) sv = fst (Logout env user sv)"
| "serve ext cf env (CallVerify token) sv = fst (VerifyEmail cf env token sv)"
| "serve ext cf env (CallResend user) sv = fst (ResendVerification ext cf env user sv)"
| "serve ext cf env (CallForgot ip req) sv = fst (ForgotPassword ext cf env ip req sv)"
| "serve ext cf env (CallReset req) sv = fst (ResetPassword ext env req sv)"
| "serve ext cf env (CallChange user req) sv = fst (ChangePassword ext env user req sv)"
| "serve ext cf env (CallDelete user req) sv = fst (DeleteAccount ext env user req sv)"
| "serve ext cf env (CallUpdate user req) sv = fst (UpdateProfile env user req sv)"
| "serve ext cf env (CallLocate geolocateIP ip uid) sv = locate_signup geolocateIP env ip uid sv"
| "serve ext cf env CallCleanup sv = sv\<lparr>sv_pg := CleanupExpiredTokens (env_faults env) (env_now env) (sv_pg sv)\<rparr>"

fun serve_all :: "auth_config \<Rightarrow> (outside \<times> env \<times> auth_call) list \<Rightarrow> server \<Rightarrow> server" where
  "serve_all cf [] sv = sv"
| "serve_all cf ((ext, env, call) # rest) sv = serve_all cf rest (serve ext cf env call sv)"

section \<open>The statements behind the handlers\<close>

text \<open>Every refresh token that is stored is the hash of a token drawn in the request.\<close>

inductive account_write :: "outside \<Rightarrow> pgdb \<Rightarrow> pgdb \<Rightarrow> bool" for ext where
  create_user: "CreateUser f u db = Inr db' \<Longrightarrow> account_write ext db db'"
| issue: "CreateRefreshToken f t db = Inr db' \<Longrightarrow> rt_hash t = sha ext (random_token ext i) \<Longrightarrow> account_write ext db db'"
| rotate: "RevokeRefreshTokenIfActive f now tid db = Inr (db', rotated) \<Longrightarrow> account_write ext db db'"
| revoke_all: "RevokeAllUserRefreshTokens f uid db = Inr db' \<Longrightarrow> account_write ext db db'"
| new_verification: "account_write ext db (fst (CreateEmailVerification f now v db))"
| use_verification: "MarkEmailVerificationUsed f now vid db = Inr db' \<Longrightarrow> account_write ext db db'"
| verify: "SetEmailVerified f now uid db = Inr db' \<Longrightarrow> account_write ext db db'"
| hold: "HoldEmailVerification f now uid db = Inr db' \<Longrightarrow> account_write ext db db'"
| new_reset: "pr_token p = random_token ext i \<Longrightarrow> account_write ext db (fst (CreatePasswordReset f now p db))"
| use_reset: "MarkPasswordResetUsed f now pid db = Inr db' \<Longrightarrow> account_write ext db db'"
| set_password: "UpdateUserPassword f uid h db = Inr db' \<Longrightarrow> account_write ext db db'"
| delete_user: "DeleteUser f uid db = Inr db' \<Longrightarrow> account_write ext db db'"
| profile: "UpdateUserProfile f uid name bio color genres stage db = Inr db' \<Longrightarrow> account_write ext db db'"
| place: "UpdateUserLocation f uid city region country db = Inr db' \<Longrightarrow> account_write ext db db'"
| clean: "account_write ext db (CleanupExpiredTokens f now db)"

abbreviation account_writes :: "outside \<Rightarrow> pgdb \<Rightarrow> pgdb \<Rightarrow> bool" where
  "account_writes ext \<equiv> (account_write ext)\<^sup>*\<^sup>*"

lemma or_zero_writes:
  assumes "account_writes ext db x" and "\<And>x'. r = Inr x' \<Longrightarrow> account_write ext x x'"
  shows "account_writes ext db (or_zero x r)"
  using assms by (cases r) (auto intro: rtranclp.rtrancl_into_rtrancl)

lemma statement_writes:
  assumes "account_writes ext db x"
  shows "account_writes ext db (or_zero x (RevokeAllUserRefreshTokens f uid x))"
    "account_writes ext db (or_zero x (MarkEmailVerificationUsed f now vid x))"
    "account_writes ext db (or_zero x (SetEmailVerified f now uid x))"
    "account_writes ext db (or_zero x (HoldEmailVerification f now uid x))"
    "account_writes ext db (or_zero x (MarkPasswordResetUsed f now pid x))"
    "account_writes ext db (or_zero x (UpdateUserPassword f uid h x))"
  by (rule or_zero_writes [OF assms], erule account_write.intros)+

lemma writes_step: "account_writes ext db x \<Longrightarrow> account_write ext x x' \<Longrightarrow> account_writes ext db x'"
  by (rule rtranclp.rtrancl_into_rtrancl)

lemma limited_pg: "limited cf call sv = (sv', ok) \<Longrightarrow> sv_pg sv' = sv_pg sv"
  by (auto simp: limited_def split: option.splits prod.splits)

lemma limiter_do_pg [simp]: "sv_pg (limiter_do cf call sv) = sv_pg sv"
  by (simp add: limiter_do_def split: option.splits)

lemma link_session_pg [simp]: "sv_pg (link_session cf env session uid sv) = sv_pg sv"
  by (simp add: link_session_def split: option.splits sum.splits)

lemma issue_refresh_writes:
  "account_writes ext db (sv_pg sv) \<Longrightarrow> account_writes ext db (sv_pg (issue_refresh ext env i uid sv))"
  unfolding issue_refresh_def by (auto intro!: or_zero_writes account_write.issue)

lemma Login_writes: "account_writes ext (sv_pg sv) (sv_pg (fst (Login ext cf env ip session req sv)))"
  by (auto simp: Login_def Let_def intro!: issue_refresh_writes dest!: limited_pg split: option.splits prod.splits)

lemma Signup_create_writes:
  "account_writes ext (sv_pg sv) (sv_pg (fst (Signup_create ext cf env session u sv)))"
proof (cases "CreateUser (env_faults env) u (sv_pg sv)")
  case (Inr db)
  have "account_writes ext (sv_pg sv) (fst (CreateEmailVerification (env_faults env) (env_now env) v db))" for v
    using account_write.create_user [OF Inr] account_write.new_verification by (blast intro: writes_step)
  then show ?thesis
    by (auto simp: Signup_create_def Inr Let_def intro!: issue_refresh_writes split: option.splits)
qed (simp add: Signup_create_def)

lemma Signup_writes: "account_writes ext (sv_pg sv) (sv_pg (fst (Signup ext cf env ip agent session req sv)))"
proof (cases "sv_pg (fst (Signup ext cf env ip agent session req sv)) = sv_pg sv")
  case False
  then obtain q where q: "req = Some q" and "su_website q = ''''"
    by (auto simp: Signup_def split: option.splits if_splits)
  obtain sv1 ok where l: "limited cf (\<lambda>rl. AllowSignup rl (loopback ext) (env_rfaults env) (env_now env) ip) sv = (sv1, ok)"
    by fastforce
  let ?email = "to_lower (trim_space (su_email q))"
  let ?name = "if trim_space (su_stage_name q) = '''' then trim_space (su_display_name q) else trim_space (su_stage_name q)"
  note pg = limited_pg [OF l]
  note defs = Signup_def q \<open>su_website q = ''''\<close> l pg Let_def
  have c1: "ok \<and> captcha_ok ext (su_captcha q) \<and> mail_ok ext ?email \<and> \<not> disposable ext ?email \<and> domain_ok ext ?email"
    by (rule ccontr) (use False l in \<open>simp add: defs split: if_splits\<close>)
  have c2: "validatePassword ext (su_password q) = None"
    by (rule ccontr) (use False l c1 in \<open>clarsimp simp: defs\<close>)
  have c3: "\<not> (length ?name < 2 \<or> length ?name > 30)" and c4: "\<not> ContainsProfanity ?name"
    by (rule ccontr, use False l c1 c2 in \<open>simp add: defs\<close>)+
  have c5: "IsStageNameTaken (env_faults env) ?name '''' (sv_pg sv1) = Inr False"
    by (cases "IsStageNameTaken (env_faults env) ?name '''' (sv_pg sv1)")
      (use False l c1 c2 c3 c4 in \<open>simp_all add: defs split: bool.splits\<close>)
  have c6: "deref_or_zero zero_user (GetUserByEmail (env_faults env) (env_now env) ?email (sv_pg sv1)) = None"
    by (rule ccontr) (use False l c1 c2 c3 c4 c5 in \<open>clarsimp simp: defs\<close>)
  obtain h where c7: "bcrypt_hash ext (su_password q) = Some h"
    using False l c1 c2 c3 c4 c5 c6 by (cases "bcrypt_hash ext (su_password q)") (simp_all add: defs)
  have "Signup ext cf env ip agent session req sv
      = Signup_create ext cf env session (Signup_user env ip agent session ?email ?name h) sv1"
    using c1 c2 c3 c4 c5 c6 c7 by (simp add: defs)
  then show ?thesis using Signup_create_writes [of ext sv1 cf env session] pg by simp
qed simp

lemma RefreshToken_writes: "account_writes ext (sv_pg sv) (sv_pg (fst (RefreshToken_handler ext env req sv)))"
proof -
  have issue: "account_writes ext db (sv_pg (fst (RefreshToken_issue ext env uid x)))"
    if "account_writes ext db (sv_pg x)" for db uid x
    using that by (auto simp: RefreshToken_issue_def intro: issue_refresh_writes split: option.splits)
  have rotate: "RevokeRefreshTokenIfActive f now tid db = Inr (db', rotated) \<Longrightarrow> account_writes ext db db'"
    for f now tid db db' rotated
    by (rule r_into_rtranclp) (rule account_write.rotate)
  show ?thesis
    by (auto simp: RefreshToken_handler_def intro!: issue statement_writes
        dest: rotate split: option.splits sum.splits prod.splits)
qed

lemma Logout_writes: "account_writes ext (sv_pg sv) (sv_pg (fst (Logout env user sv)))"
  by (auto simp: Logout_def intro!: statement_writes split: option.splits)

lemma VerifyEmail_writes: "account_writes ext (sv_pg sv) (sv_pg (fst (VerifyEmail cf env token sv)))"
  by (auto simp: VerifyEmail_def Let_def intro!: statement_writes split: option.splits)

lemma ResendVerification_writes: "account_writes ext (sv_pg sv) (sv_pg (fst (ResendVerification ext cf env user sv)))"
proof -
  have "account_writes ext db (fst (CreateEmailVerification f now v db))" for v f now db
    by (rule r_into_rtranclp) (rule account_write.new_verification)
  then show ?thesis
    by (auto simp: ResendVerification_def Let_def dest!: limited_pg split: option.splits prod.splits)
qed

lemma ForgotPassword_writes: "account_writes ext (sv_pg sv) (sv_pg (fst (ForgotPassword ext cf env ip req sv)))"
proof -
  have "pr_token p = random_token ext i \<Longrightarrow> account_writes ext db (fst (CreatePasswordReset f now p db))" for p i f now db
    by (rule r_into_rtranclp) (rule account_write.new_reset)
  then show ?thesis
    by (auto simp: ForgotPassword_def Let_def dest!: limited_pg split: option.splits prod.splits)
qed

lemma ResetPassword_writes: "account_writes ext (sv_pg sv) (sv_pg (fst (ResetPassword ext env req sv)))"
  by (auto simp: ResetPassword_def intro!: statement_writes split: option.splits)

lemma ChangePassword_writes: "account_writes ext (sv_pg sv) (sv_pg (fst (ChangePassword ext env user req sv)))"
  by (auto simp: ChangePassword_def intro!: issue_refresh_writes statement_writes split: option.splits)

lemma DeleteAccount_writes: "account_writes ext (sv_pg sv) (sv_pg (fst (DeleteAccount ext env user req sv)))"
proof -
  have "account_writes ext (sv_pg sv) (sv_pg (sv_pg_do (RevokeAllUserRefreshTokens f uid) sv))" for f uid
    by (auto intro!: statement_writes)
  then show ?thesis
    by (auto simp: DeleteAccount_def Let_def split: option.splits sum.splits
        intro: writes_step [OF _ account_write.delete_user])
qed

lemma UpdateProfile_writes: "account_writes ext (sv_pg sv) (sv_pg (fst (UpdateProfile env user req sv)))"
proof -
  have "UpdateUserProfile f uid name bio color genres stage db = Inr db' \<Longrightarrow> account_writes ext db db'"
    for f uid name bio color genres stage db db'
    by (rule r_into_rtranclp) (rule account_write.profile)
  then show ?thesis
    by (auto simp: UpdateProfile_def Let_def save_profile_def split: option.splits sum.splits)
qed

lemma locate_signup_writes: "account_writes ext (sv_pg sv) (sv_pg (locate_signup geolocateIP env ip uid sv))"
proof -
  have "UpdateUserLocation f uid city region country db = Inr db' \<Longrightarrow> account_writes ext db db'"
    for f uid city region country db db'
    by (rule r_into_rtranclp) (rule account_write.place)
  then show ?thesis
    by (auto simp: locate_signup_def intro!: or_zero_writes account_write.place split: prod.splits)
qed

lemmas handler_writes = UpdateProfile_writes locate_signup_writes Login_writes Signup_writes RefreshToken_writes Logout_writes VerifyEmail_writes
  ResendVerification_writes ForgotPassword_writes ResetPassword_writes ChangePassword_writes DeleteAccount_writes

lemma serve_writes: "account_writes ext (sv_pg sv) (sv_pg (serve ext cf env call sv))"
  by (cases call) (auto simp: handler_writes intro: account_write.clean)

text \<open>What every statement keeps, every run of requests keeps.\<close>

lemma serve_all_keeps:
  assumes "P (sv_pg sv)" and "\<forall>(ext, env, call) \<in> set calls. Q ext"
    and step: "\<And>ext db db'. Q ext \<Longrightarrow> account_write ext db db' \<Longrightarrow> P db \<Longrightarrow> P db'"
  shows "P (sv_pg (serve_all cf calls sv))"
  using assms(1,2)
proof (induction cf calls sv rule: serve_all.induct)
  case (2 cf ext env call rest sv)
  have "P db \<Longrightarrow> P db'" if "account_writes ext db db'" for db db'
    using that 2(3) step by (induction rule: rtranclp_induct) auto
  then have "P (sv_pg (serve ext cf env call sv))" using serve_writes 2(2) by blast
  then show ?case using 2 by simp
qed simp

section \<open>Keys of the account tables\<close>

lemma distinct_map_delete_where: "distinct (map k rows) \<Longrightarrow> distinct (map k (delete_where p rows))"
  by (simp add: delete_where_def distinct_map_filter)

text \<open>The keys of the account tables as the migrations declare them: primary keys, unique columns,
  the unique index on stage names, and the references to users.\<close>

definition stage_names :: "pgdb \<Rightarrow> string list" where
  "stage_names db = map (to_lower \<circ> user_stage_name) (filter (\<lambda>u. user_stage_name u \<noteq> '''') (db_users db))"

definition users_wf :: "pgdb \<Rightarrow> bool" where
  "users_wf db \<longleftrightarrow> distinct (map user_id (db_users db)) \<and> distinct (map user_email (db_users db))
     \<and> distinct (stage_names db)"

definition tokens_wf :: "pgdb \<Rightarrow> bool" where
  "tokens_wf db \<longleftrightarrow> distinct (map rt_id (db_refresh db)) \<and> distinct (map rt_hash (db_refresh db))
     \<and> distinct (map ev_token (db_verifications db)) \<and> distinct (map pr_id (db_resets db))
     \<and> distinct (map pr_token (db_resets db))"

definition owners_wf :: "pgdb \<Rightarrow> bool" where
  "owners_wf db \<longleftrightarrow> rt_user ` set (db_refresh db) \<subseteq> user_id ` set (db_users db)
     \<and> ev_user ` set (db_verifications db) \<subseteq> user_id ` set (db_users db)
     \<and> pr_user ` set (db_resets db) \<subseteq> user_id ` set (db_users db)"

definition accounts_wf :: "pgdb \<Rightarrow> bool" where
  "accounts_wf db \<longleftrightarrow> users_wf db \<and> tokens_wf db \<and> owners_wf db"

lemmas accounts_defs = accounts_wf_def users_wf_def tokens_wf_def owners_wf_def stage_names_def

lemmas statement_defs = UpdateUserLocation_def CreateRefreshToken_def RevokeRefreshTokenIfActive_def RevokeAllUserRefreshTokens_def
  CreateEmailVerification_def MarkEmailVerificationUsed_def SetEmailVerified_def HoldEmailVerification_def
  CreatePasswordReset_def MarkPasswordResetUsed_def UpdateUserPassword_def CleanupExpiredTokens_def
  update_user_def

lemma has_user_image: "has_user uid db \<longleftrightarrow> uid \<in> user_id ` set (db_users db)"
  by (auto simp: has_user_def)

lemma stage_names_update:
  "(\<And>u. user_stage_name (g u) = user_stage_name u) \<Longrightarrow>
   map (to_lower \<circ> user_stage_name) (filter (\<lambda>u. user_stage_name u \<noteq> []) (update_where p g us))
     = map (to_lower \<circ> user_stage_name) (filter (\<lambda>u. user_stage_name u \<noteq> []) us)"
  by (induction us) (auto simp: update_where_def)

lemma create_user_wf:
  assumes "accounts_wf db" and "CreateUser f u db = Inr db'"
  shows "accounts_wf db'"
proof -
  obtain u' where db': "db' = db\<lparr>db_users := db_users db @ [u']\<rparr>" and u': "user_stage_name u' = user_stage_name u"
    "user_id u' = user_id u" "user_email u' = user_email u"
    and new: "\<forall>x \<in> set (db_users db). user_id x \<noteq> user_id u \<and> user_email x \<noteq> user_email u
      \<and> \<not> stage_name_clash (user_stage_name u) x"
    using assms(2) by (auto simp: CreateUser_def split: if_splits)
  have "users_wf db'" using assms(1) new
    by (auto simp: accounts_wf_def users_wf_def stage_names_def db' u' stage_name_clash_def)
  moreover have "tokens_wf db' \<and> owners_wf db'" using assms(1)
    by (auto simp: accounts_wf_def tokens_wf_def owners_wf_def db')
  ultimately show ?thesis by (simp add: accounts_wf_def)
qed

lemma delete_user_wf:
  assumes "accounts_wf db" and "DeleteUser f uid db = Inr db'"
  shows "accounts_wf db'"
proof -
  have parts: "db_users db' = delete_where (\<lambda>u. user_id u = uid) (db_users db)"
    "db_verifications db' = delete_where (\<lambda>v. ev_user v = uid) (db_verifications db)"
    "db_resets db' = delete_where (\<lambda>p. pr_user p = uid) (db_resets db)"
    "db_refresh db' = delete_where (\<lambda>t. rt_user t = uid) (db_refresh db)"
    using assms(2) by (auto simp: DeleteUser_def split: if_splits)
  have "k x \<in> user_id ` set (db_users db')"
    if "x \<in> set (delete_where (\<lambda>x. k x = uid) rows)" "k ` set rows \<subseteq> user_id ` set (db_users db)" for k :: "'a \<Rightarrow> string" and x rows
    using that by (auto simp: parts)
  from this [of _ rt_user] this [of _ ev_user] this [of _ pr_user]
  have "owners_wf db'" using assms(1)
    by (auto simp: accounts_wf_def owners_wf_def parts)
  moreover have "tokens_wf db'" using assms(1)
    by (simp add: accounts_wf_def tokens_wf_def parts distinct_map_delete_where)
  moreover have "distinct (stage_names db')"
  proof -
    have "stage_names db' = map (to_lower \<circ> user_stage_name)
        (filter (\<lambda>u. user_id u \<noteq> uid) (filter (\<lambda>u. user_stage_name u \<noteq> '''') (db_users db)))"
      by (simp add: stage_names_def parts delete_where_def conj_commute)
    then show ?thesis using assms(1)
      by (simp only: accounts_wf_def users_wf_def stage_names_def distinct_map_filter)
  qed
  ultimately show ?thesis using assms(1)
    by (simp add: accounts_wf_def users_wf_def parts distinct_map_delete_where)
qed

lemma profile_wf:
  assumes "accounts_wf db" and "UpdateUserProfile f uid name bio color genres stage db = Inr db'"
  shows "accounts_wf db'"
proof -
  have free: "\<forall>u \<in> set (db_users db). user_id u \<noteq> uid \<longrightarrow> \<not> stage_name_clash stage u" if "has_user uid db"
    using assms(2) that by (auto simp: UpdateUserProfile_def split: if_splits)
  define g :: "User \<Rightarrow> User" where "g = (\<lambda>u. u\<lparr>user_display_name := name, user_bio := bio,
    user_avatar_color := color, user_genres := genres, user_stage_name := stage\<rparr>)"
  have db': "db' = db\<lparr>db_users := update_where (\<lambda>u. user_id u = uid) g (db_users db)\<rparr>"
    using assms(2) by (auto simp: UpdateUserProfile_def update_user_def g_def split: if_splits)
  have keys: "map user_id (db_users db') = map user_id (db_users db)" "map user_email (db_users db') = map user_email (db_users db)"
    by (simp_all add: db' g_def map_update_where)
  have names: "distinct (stage_names db')"
  proof (cases "has_user uid db")
    case True
    have "distinct (map (to_lower \<circ> user_stage_name) (filter (\<lambda>u. user_stage_name u \<noteq> [])
        (update_where (\<lambda>u. user_id u = uid) g (db_users db))))"
    proof (rule distinct_index_update)
      show "(to_lower \<circ> user_stage_name) v \<noteq> (to_lower \<circ> user_stage_name) (g u)"
        if "user_stage_name (g u) \<noteq> []" "v \<in> set (db_users db)" "user_id v \<noteq> uid" "user_stage_name v \<noteq> []" for u v
        using that free [OF True] by (auto simp: g_def stage_name_clash_def)
    qed (use assms(1) in \<open>simp_all add: accounts_wf_def users_wf_def stage_names_def\<close>)
    then show ?thesis by (simp add: stage_names_def db')
  next
    case False
    then have "db' = db" by (simp add: db' has_user_def update_where_none)
    then show ?thesis using assms(1) by (simp add: accounts_wf_def users_wf_def)
  qed
  have "user_id ` set (db_users db') = user_id ` set (db_users db)"
    using keys(1) by (metis set_map)
  then have "owners_wf db'" using assms(1) by (simp add: accounts_wf_def owners_wf_def) (simp add: db')
  moreover have "tokens_wf db'" using assms(1) by (simp add: accounts_wf_def tokens_wf_def db')
  ultimately show ?thesis using assms(1) names keys by (simp add: accounts_wf_def users_wf_def)
qed

lemma account_write_wf: "account_write ext db db' \<Longrightarrow> accounts_wf db \<Longrightarrow> accounts_wf db'"
proof (induction rule: account_write.induct)
  case (issue f t db db' i)
  then have "db' = db\<lparr>db_refresh := db_refresh db @ [t\<lparr>rt_revoked_at := None\<rparr>]\<rparr>" "has_user (rt_user t) db"
    "\<forall>x \<in> set (db_refresh db). rt_id x \<noteq> rt_id t \<and> rt_hash x \<noteq> rt_hash t"
    by (auto simp: CreateRefreshToken_def split: if_splits)
  then show ?case using issue(3) by (auto simp: accounts_defs has_user_image)
next
  case (new_verification db f now v)
  then show ?case
    by (simp add: CreateEmailVerification_def Let_def accounts_defs has_user_image map_update_where keys_update_where)
      (auto)
next
  case (new_reset p i db f now)
  then show ?case
    by (simp add: CreatePasswordReset_def Let_def accounts_defs has_user_image map_update_where keys_update_where)
      (auto)
next
  case (create_user f u db db')
  then show ?case by (blast intro: create_user_wf)
next
  case (delete_user f uid db db')
  then show ?case by (blast intro: delete_user_wf)
next
  case (profile f uid name bio color genres stage db db')
  then show ?case by (blast intro: profile_wf)
next
  case (clean db f now)
  then show ?case
    by (auto simp: CleanupExpiredTokens_def accounts_defs distinct_map_delete_where)
qed (auto simp: statement_defs accounts_defs Let_def map_update_where
    keys_update_where stage_names_update distinct_map_delete_where)


section \<open>Refresh tokens work once\<close>

definition token_spent :: "string \<Rightarrow> pgdb \<Rightarrow> bool" where
  "token_spent h db \<longleftrightarrow> (\<forall>t \<in> set (db_refresh db). rt_hash t = h \<longrightarrow> rt_revoked_at t \<noteq> None)"

definition never_draws :: "string \<Rightarrow> outside \<Rightarrow> bool" where
  "never_draws h ext \<longleftrightarrow> (\<forall>i. sha ext (random_token ext i) \<noteq> h)"

lemma token_spent_update:
  "token_spent h db \<Longrightarrow> (\<And>t. rt_hash (g t) = rt_hash t) \<Longrightarrow> (\<And>t. rt_revoked_at t \<noteq> None \<Longrightarrow> rt_revoked_at (g t) \<noteq> None)
   \<Longrightarrow> token_spent h (db\<lparr>db_refresh := update_where p g (db_refresh db)\<rparr>)"
  by (auto simp: token_spent_def ball_update_where)

lemma account_write_spent:
  "account_write ext db db' \<Longrightarrow> never_draws h ext \<Longrightarrow> token_spent h db \<Longrightarrow> token_spent h db'"
proof (induction rule: account_write.induct)
  case (rotate f now tid db db' rotated)
  then show ?case by (auto simp: RevokeRefreshTokenIfActive_def Let_def intro!: token_spent_update)
next
  case (issue f t db db' i)
  then have "rt_hash t \<noteq> h" unfolding never_draws_def by metis
  then show ?case using issue by (auto simp: CreateRefreshToken_def token_spent_def split: if_splits)
next
  case (clean db f now)
  then show ?case by (auto simp: CleanupExpiredTokens_def token_spent_def)
qed (auto simp: statement_defs token_spent_def never_draws_def CreateUser_def DeleteUser_def
    UpdateUserProfile_def Let_def split: if_splits)

lemma RefreshToken_ok:
  assumes "RefreshToken_handler ext env (Some tok) sv = (sv', HttpOK code tokens)"
  obtains rt db where "find_row (\<lambda>t. rt_hash t = sha ext tok) (db_refresh (sv_pg sv)) = Some rt"
    and "rt_revoked_at rt = None" and "env_now env \<le> rt_expires_at rt"
    and "RevokeRefreshTokenIfActive (env_faults env) (env_now env) (rt_id rt) (sv_pg sv) = Inr (db, True)"
    and "RefreshToken_issue ext env (rt_user rt) (sv\<lparr>sv_pg := db\<rparr>) = (sv', HttpOK code tokens)"
  using assms
  by (auto simp: RefreshToken_handler_def GetRefreshTokenByHash_def failing_def or_zero_def
      split: option.splits sum.splits prod.splits if_splits)

lemma RefreshToken_issue_writes:
  "account_writes ext (sv_pg sv) (sv_pg (fst (RefreshToken_issue ext env uid sv)))"
  by (auto simp: RefreshToken_issue_def intro: issue_refresh_writes split: option.splits)

lemma spent_refused:
  assumes "token_spent (sha ext tok) (sv_pg sv)"
  shows "refused (snd (RefreshToken_handler ext env (Some tok) sv))"
proof (rule ccontr)
  assume "\<not> refused (snd (RefreshToken_handler ext env (Some tok) sv))"
  then obtain sv' code tokens where "RefreshToken_handler ext env (Some tok) sv = (sv', HttpOK code tokens)"
    by (cases "RefreshToken_handler ext env (Some tok) sv"; cases "snd (RefreshToken_handler ext env (Some tok) sv)") auto
  then show False
    by (rule RefreshToken_ok) (use assms in \<open>auto simp: token_spent_def dest: find_row_Some\<close>)
qed

lemma refresh_spends:
  assumes "RefreshToken_handler ext env (Some tok) sv = (sv', HttpOK code tokens)"
    and "accounts_wf (sv_pg sv)" and "never_draws (sha ext tok) ext"
  shows "token_spent (sha ext tok) (sv_pg sv')"
  using assms(1)
proof (rule RefreshToken_ok)
  fix rt db
  assume rt: "find_row (\<lambda>t. rt_hash t = sha ext tok) (db_refresh (sv_pg sv)) = Some rt"
    and revoke: "RevokeRefreshTokenIfActive (env_faults env) (env_now env) (rt_id rt) (sv_pg sv) = Inr (db, True)"
    and issue: "RefreshToken_issue ext env (rt_user rt) (sv\<lparr>sv_pg := db\<rparr>) = (sv', HttpOK code tokens)"
  have "t = rt" if "t \<in> set (db_refresh (sv_pg sv))" "rt_hash t = sha ext tok" for t
    using that find_row_Some [OF rt] assms(2) unfolding accounts_wf_def tokens_wf_def
    by (metis distinct_map inj_onD)
  moreover have "db_refresh db = update_where (\<lambda>t. rt_id t = rt_id rt \<and> rt_revoked_at t = None)
      (\<lambda>t. t\<lparr>rt_revoked_at := Some (env_now env)\<rparr>) (db_refresh (sv_pg sv))"
    using revoke by (auto simp: RevokeRefreshTokenIfActive_def Let_def)
  ultimately have "token_spent (sha ext tok) db"
    by (simp only: token_spent_def ball_update_where) (auto split: if_splits)
  moreover have "account_writes ext db (sv_pg sv')"
    using RefreshToken_issue_writes [of ext "sv\<lparr>sv_pg := db\<rparr>" env "rt_user rt"] issue by simp
  then have "token_spent (sha ext tok) db \<Longrightarrow> token_spent (sha ext tok) (sv_pg sv')"
    by (induction rule: rtranclp_induct) (use account_write_spent assms(3) in auto)
  ultimately show ?thesis by blast
qed

text \<open>
  C16: A refresh token is exchanged at most once: after an exchange that succeeded, any number of
  further requests of any kind may be served, and presenting the token again is refused, however
  late and even if all its records have been cleaned up. (No later request draws a token with the
  same hash.)
\<close>

theorem refresh_works_once:
  assumes "RefreshToken_handler ext env (Some tok) sv = (sv', HttpOK code tokens)"
    and "accounts_wf (sv_pg sv)" and "never_draws (sha ext tok) ext"
    and "\<forall>(ext', env', call) \<in> set calls. never_draws (sha ext tok) ext'"
    and "sha ext2 tok = sha ext tok"
  shows "refused (snd (RefreshToken_handler ext2 env2 (Some tok) (serve_all cf calls sv')))"
proof -
  have "token_spent (sha ext tok) (sv_pg (serve_all cf calls sv'))"
    by (rule serve_all_keeps [where Q = "never_draws (sha ext tok)"])
      (use refresh_spends [OF assms(1-3)] assms(4) account_write_spent in auto)
  then show ?thesis using spent_refused assms(5) by metis
qed

definition demo_ext :: "string \<Rightarrow> outside" where
  "demo_ext tok = \<lparr>sha = (\<lambda>s. s), bcrypt_hash = (\<lambda>pw. if length pw \<le> 72 then Some pw else None),
     bcrypt_match = (\<lambda>h pw. h = pw), mint = (\<lambda>u. Some ''jwt''), token_user = (\<lambda>t a. None),
     random_token = (\<lambda>i. tok @ replicate i CHR ''x''), captcha_ok = (\<lambda>c. True), mail_ok = (\<lambda>m. True),
     disposable = (\<lambda>m. False), domain_ok = (\<lambda>m. True), loopback = (\<lambda>ip. False),
     wide_classes = (\<lambda>pw. (False, False, False))\<rparr>"

definition demo_cf :: auth_config where
  "demo_cf = \<lparr>cf_limiter = Some \<lparr>maxPerHour = 5\<rparr>, cf_verify_hold = minute, cf_session_ttl = hour\<rparr>"

definition demo_refresh :: "string \<Rightarrow> RefreshToken" where
  "demo_refresh h = \<lparr>rt_id = h, rt_user = ''bo'', rt_hash = h, rt_expires_at = hour, rt_revoked_at = None\<rparr>"

definition demo_accounts :: server where
  "demo_accounts = demo_server\<lparr>sv_pg := empty_db\<lparr>db_users := [demo_user ''bo''],
     db_refresh := [demo_refresh ''old'']\<rparr>\<rparr>"

lemma demo_accounts_wf: "accounts_wf (sv_pg demo_accounts)"
  by (simp add: demo_accounts_def accounts_defs demo_user_def demo_refresh_def empty_db_def)

lemmas demo_auth = demo_ext_def demo_refresh_def demo_accounts_def demo_user_def demo_env_def no_faults_def empty_db_def


lemma never_draws_demo: "length h < length tok \<Longrightarrow> never_draws h (demo_ext tok)"
  by (auto simp: never_draws_def demo_ext_def)

lemma demo_exchange:
  "\<exists>sv'. RefreshToken_handler (demo_ext ''fresh'') (demo_env 0) (Some ''old'') demo_accounts
     = (sv', HttpOK 200 (demo_user ''bo'', ''jwt'', ''fresh''))"
  by (simp add: RefreshToken_handler_def RefreshToken_issue_def tokens_for_def GetRefreshTokenByHash_def
      GetUserByID_def read_user_def plus_now_def RevokeRefreshTokenIfActive_def Let_def affected_def
      find_row_simps hour_def demo_auth)

theorem refresh_works_once_witness:
  "\<exists>sv'. RefreshToken_handler (demo_ext ''fresh'') (demo_env 0) (Some ''old'') demo_accounts
     = (sv', HttpOK 200 (demo_user ''bo'', ''jwt'', ''fresh''))
     \<and> refused (snd (RefreshToken_handler (demo_ext ''newer'') (demo_env hour) (Some ''old'')
         (serve_all demo_cf
           [(demo_ext ''newer'', demo_env 5, CallLogin ''ip'' None (Some (''bo@x.io'', ''h''))),
            (demo_ext ''newer'', demo_env (2 * hour), CallCleanup)] sv')))"
proof -
  obtain sv' where ok: "RefreshToken_handler (demo_ext ''fresh'') (demo_env 0) (Some ''old'') demo_accounts
     = (sv', HttpOK 200 (demo_user ''bo'', ''jwt'', ''fresh''))"
    using demo_exchange by blast
  have sha: "sha (demo_ext t) x = x" for t x by (simp add: demo_ext_def)
  from refresh_works_once [OF ok demo_accounts_wf] show ?thesis
    using ok by (auto simp: sha never_draws_demo simp del: serve_all.simps)
qed

section \<open>Replays\<close>

lemma issue_refresh_rows: "\<exists>more. db_refresh (sv_pg (issue_refresh ext env i uid sv)) = db_refresh (sv_pg sv) @ more"
proof -
  have "\<exists>more. db_refresh (or_zero db (CreateRefreshToken f t db)) = db_refresh db @ more" for f t db
    by (simp add: CreateRefreshToken_def)
  then show ?thesis by (simp add: issue_refresh_def)
qed

lemma RefreshToken_issue_ok:
  assumes "RefreshToken_issue ext env uid sv = (sv', HttpOK code (u, access, new))"
  shows "deref_or_zero zero_user (GetUserByID (env_faults env) (env_now env) uid (sv_pg sv)) = Some u
    \<and> sv' = issue_refresh ext env 0 (user_id u) sv \<and> new = random_token ext 0"
  using assms by (simp add: RefreshToken_issue_def tokens_for_def split: option.splits if_splits)

lemma refresh_rows_after_exchange:
  assumes "RefreshToken_handler ext env (Some tok) sv = (sv', HttpOK code (u, access, new))"
    and "\<not> env_faults env CGetUser"
  obtains rt more where "find_row (\<lambda>t. rt_hash t = sha ext tok) (db_refresh (sv_pg sv)) = Some rt"
    and "rt_user rt = user_id u"
    and "db_refresh (sv_pg sv') = update_where (\<lambda>t. rt_id t = rt_id rt \<and> rt_revoked_at t = None)
      (\<lambda>t. t\<lparr>rt_revoked_at := Some (env_now env)\<rparr>) (db_refresh (sv_pg sv)) @ more"
    and "rt_revoked_at rt = None"
  using assms(1)
proof (rule RefreshToken_ok)
  fix rt db
  assume rt: "find_row (\<lambda>t. rt_hash t = sha ext tok) (db_refresh (sv_pg sv)) = Some rt" "rt_revoked_at rt = None"
    and revoke: "RevokeRefreshTokenIfActive (env_faults env) (env_now env) (rt_id rt) (sv_pg sv) = Inr (db, True)"
    and issue: "RefreshToken_issue ext env (rt_user rt) (sv\<lparr>sv_pg := db\<rparr>) = (sv', HttpOK code (u, access, new))"
  have db: "db_refresh db = update_where (\<lambda>t. rt_id t = rt_id rt \<and> rt_revoked_at t = None)
      (\<lambda>t. t\<lparr>rt_revoked_at := Some (env_now env)\<rparr>) (db_refresh (sv_pg sv))"
    using revoke by (auto simp: RevokeRefreshTokenIfActive_def Let_def)
  note ok = RefreshToken_issue_ok [OF issue]
  have user: "rt_user rt = user_id u"
    using ok assms(2) by (auto simp: GetUserByID_def read_user_def dest!: find_row_Some)
  obtain more where "db_refresh (sv_pg sv') = db_refresh db @ more"
    using ok issue_refresh_rows [of ext env 0 "user_id u" "sv\<lparr>sv_pg := db\<rparr>"] by auto
  then show thesis by (intro that [OF rt(1) user _ rt(2)]) (simp only: db)
qed

text \<open>
  When a refresh token that has been exchanged is presented again, the request is refused. Within
  fifteen seconds of the exchange nothing else happens, so two tabs that refresh at once do no harm;
  later every refresh token of the user is deleted, the one the exchange issued included, and nobody
  else's.
\<close>

theorem replay_ends_all_sessions:
  assumes "RefreshToken_handler ext env (Some tok) sv = (sv', HttpOK code (u, access, new))"
    and "\<not> env_faults env CGetUser" and "\<not> env_faults env2 CGetRefresh" and "\<not> env_faults env2 CRevokeAllRefresh"
    and "sha ext2 tok = sha ext tok"
  shows "refused (snd (RefreshToken_handler ext2 env2 (Some tok) sv'))
    \<and> (if env_now env2 \<le> env_now env + 15 * second then fst (RefreshToken_handler ext2 env2 (Some tok) sv') = sv'
       else db_refresh (sv_pg (fst (RefreshToken_handler ext2 env2 (Some tok) sv')))
         = filter (\<lambda>t. rt_user t \<noteq> user_id u) (db_refresh (sv_pg sv')))"
  using assms(1,2)
proof (rule refresh_rows_after_exchange)
  fix rt more
  assume rt: "find_row (\<lambda>t. rt_hash t = sha ext tok) (db_refresh (sv_pg sv)) = Some rt" "rt_user rt = user_id u"
      "rt_revoked_at rt = None"
    and rows: "db_refresh (sv_pg sv') = update_where (\<lambda>t. rt_id t = rt_id rt \<and> rt_revoked_at t = None)
      (\<lambda>t. t\<lparr>rt_revoked_at := Some (env_now env)\<rparr>) (db_refresh (sv_pg sv)) @ more"
  have "GetRefreshTokenByHash (env_faults env2) (sha ext2 tok) (sv_pg sv')
      = Inr (Some (rt\<lparr>rt_revoked_at := Some (env_now env)\<rparr>))"
    using assms(3,5) rt by (simp add: GetRefreshTokenByHash_def rows find_row_append find_row_update_where)
  then show ?thesis using assms(4) rt
    by (auto simp: RefreshToken_handler_def rotationGrace_def RevokeAllUserRefreshTokens_def delete_where_def)
qed

theorem replay_ends_all_sessions_witness:
  "\<exists>sv'. RefreshToken_handler (demo_ext ''fresh'') (demo_env 0) (Some ''old'') demo_accounts
      = (sv', HttpOK 200 (demo_user ''bo'', ''jwt'', ''fresh''))
    \<and> fst (RefreshToken_handler (demo_ext ''x'') (demo_env (15 * second)) (Some ''old'') sv') = sv'
    \<and> db_refresh (sv_pg (fst (RefreshToken_handler (demo_ext ''x'') (demo_env (16 * second)) (Some ''old'') sv')))
        = filter (\<lambda>t. rt_user t \<noteq> ''bo'') (db_refresh (sv_pg sv'))"
proof -
  obtain sv' where ok: "RefreshToken_handler (demo_ext ''fresh'') (demo_env 0) (Some ''old'') demo_accounts
     = (sv', HttpOK 200 (demo_user ''bo'', ''jwt'', ''fresh''))"
    using demo_exchange by blast
  have f: "\<not> env_faults (demo_env t) c" for t c by (simp add: demo_env_def no_faults_def)
  have d: "sha (demo_ext t) x = x" "env_now (demo_env n) = n" "user_id (demo_user w) = w" for t x n w
    by (simp_all add: demo_auth)
  show ?thesis
    using replay_ends_all_sessions [OF ok f f f, of "demo_ext ''x''" "15 * second"]
      replay_ends_all_sessions [OF ok f f f, of "demo_ext ''x''" "16 * second"] ok
    by (simp add: d second_def)
qed

section \<open>What the answers reveal\<close>

lemma sv_redis_pg [simp]: "limited cf call (sv\<lparr>sv_pg := db\<rparr>)
    = (case limited cf call sv of (sv1, ok) \<Rightarrow> (sv1\<lparr>sv_pg := db\<rparr>, ok))"
  by (simp add: limited_def split: option.splits prod.splits)

definition wrong_password :: "outside \<Rightarrow> string \<Rightarrow> string \<Rightarrow> pgdb \<Rightarrow> bool" where
  "wrong_password ext email pw db \<longleftrightarrow>
     (\<forall>u \<in> set (db_users db). user_email u = email \<longrightarrow> \<not> bcrypt_match ext (user_password_hash u) pw)"

lemma Login_failure:
  assumes "wrong_password ext (to_lower (trim_space address)) pw (sv_pg sv)"
  shows "Login ext cf env ip session (Some (address, pw)) sv =
    (case limited cf (\<lambda>rl. AllowLogin rl (loopback ext) (env_rfaults env) (env_now env) ip) sv of (sv1, allowed) \<Rightarrow>
       let email = to_lower (trim_space address) in
       if \<not> allowed \<or> (case cf_limiter cf of None \<Rightarrow> False
                     | Some rl \<Rightarrow> LoginAccountBlocked rl (env_rfaults env) (env_now env) email (sv_redis sv1))
       then (sv1, HttpError 429 (''too many login attempts '' @ em_dash @ '' please try again later''))
       else (limiter_do cf (RecordLoginFailure (env_rfaults env) (env_now env) email) sv1,
             HttpError 401 ''invalid email or password''))"
proof -
  obtain sv1 allowed where l: "limited cf (\<lambda>rl. AllowLogin rl (loopback ext) (env_rfaults env) (env_now env) ip) sv
      = (sv1, allowed)" by fastforce
  have "\<not> bcrypt_match ext (user_password_hash u) pw"
    if "or_zero None (GetUserByEmail (env_faults env) (env_now env) (to_lower (trim_space address)) (sv_pg sv1)) = Some u" for u
    using that assms limited_pg [OF l]
    by (auto simp: GetUserByEmail_def failing_def wrong_password_def read_user_def dest!: find_row_Some split: if_splits)
  then show ?thesis by (auto simp: Login_def l Let_def split: option.split)
qed

text \<open>What a request for a reset link answers, and does to the counters, depends on the limits only.\<close>

lemma ForgotPassword_outcome:
  "snd (ForgotPassword ext cf env ip (Some address) (sv\<lparr>sv_pg := db\<rparr>))
     = snd (ForgotPassword ext cf env ip (Some address) sv)"
  "sv_redis (fst (ForgotPassword ext cf env ip (Some address) (sv\<lparr>sv_pg := db\<rparr>)))
     = sv_redis (fst (ForgotPassword ext cf env ip (Some address) sv))"
proof -
  obtain sv1 a1 where l1: "limited cf (\<lambda>rl. AllowPasswordResetIP rl (loopback ext) (env_rfaults env) (env_now env) ip) sv
      = (sv1, a1)" by fastforce
  obtain sv2 a2 where l2: "limited cf (\<lambda>rl. AllowEmailSend (env_rfaults env) (env_now env) ''reset''
      (to_lower (trim_space address))) sv1 = (sv2, a2)" by fastforce
  show "snd (ForgotPassword ext cf env ip (Some address) (sv\<lparr>sv_pg := db\<rparr>))
     = snd (ForgotPassword ext cf env ip (Some address) sv)"
    "sv_redis (fst (ForgotPassword ext cf env ip (Some address) (sv\<lparr>sv_pg := db\<rparr>)))
     = sv_redis (fst (ForgotPassword ext cf env ip (Some address) sv))"
    by (simp_all add: ForgotPassword_def Let_def l1 l2 split: option.split)
qed

text \<open>
  C19: Nobody who does not know the password learns from an answer whether an address is registered:
  for any two states of the database in which the password is wrong for the address (because there is
  no account, or because it has another password, banned or not, or because the read fails), a login
  is answered alike and counts alike towards the limits; and a request for a reset link is answered
  alike and counts alike in any two states whatsoever.
\<close>

theorem registration_not_revealed:
  assumes "wrong_password ext (to_lower (trim_space address)) pw (sv_pg sv)"
    and "wrong_password ext (to_lower (trim_space address)) pw db2"
  shows "snd (Login ext cf env ip session (Some (address, pw)) sv)
      = snd (Login ext cf env ip session (Some (address, pw)) (sv\<lparr>sv_pg := db2\<rparr>))
    \<and> sv_redis (fst (Login ext cf env ip session (Some (address, pw)) sv))
      = sv_redis (fst (Login ext cf env ip session (Some (address, pw)) (sv\<lparr>sv_pg := db2\<rparr>)))
    \<and> snd (ForgotPassword ext cf env ip (Some address) sv)
      = snd (ForgotPassword ext cf env ip (Some address) (sv\<lparr>sv_pg := db3\<rparr>))
    \<and> sv_redis (fst (ForgotPassword ext cf env ip (Some address) sv))
      = sv_redis (fst (ForgotPassword ext cf env ip (Some address) (sv\<lparr>sv_pg := db3\<rparr>)))"
proof -
  obtain sv1 allowed where l: "limited cf (\<lambda>rl. AllowLogin rl (loopback ext) (env_rfaults env) (env_now env) ip) sv
      = (sv1, allowed)" by fastforce
  have "sv_redis (limiter_do cf call (x\<lparr>sv_pg := db\<rparr>)) = sv_redis (limiter_do cf call x)" for call x db
    by (simp add: limiter_do_def split: option.split)
  then show ?thesis using assms ForgotPassword_outcome
    by (cases "cf_limiter cf") (simp_all add: Login_failure l Let_def)
qed

theorem registration_not_revealed_witness:
  "snd (Login (demo_ext ''t'') demo_cf (demo_env 0) ''ip'' None (Some (''bo@x.io'', ''guess'')) demo_accounts)
     = snd (Login (demo_ext ''t'') demo_cf (demo_env 0) ''ip'' None (Some (''bo@x.io'', ''guess''))
         (demo_accounts\<lparr>sv_pg := empty_db\<rparr>))"
proof -
  have "wrong_password (demo_ext ''t'') (to_lower (trim_space ''bo@x.io'')) ''guess'' (sv_pg demo_accounts)"
    "wrong_password (demo_ext ''t'') (to_lower (trim_space ''bo@x.io'')) ''guess'' empty_db"
    by (simp_all add: wrong_password_def demo_auth)
  from registration_not_revealed [OF this] show ?thesis by blast
qed

section \<open>Password resets\<close>

definition reset_spent :: "string \<Rightarrow> pgdb \<Rightarrow> bool" where
  "reset_spent tok db \<longleftrightarrow> (\<forall>p \<in> set (db_resets db). pr_token p = tok \<longrightarrow> pr_used_at p \<noteq> None)"

definition never_makes :: "string \<Rightarrow> outside \<Rightarrow> bool" where
  "never_makes tok ext \<longleftrightarrow> (\<forall>i. random_token ext i \<noteq> tok)"

lemma reset_spent_update:
  "reset_spent tok db \<Longrightarrow> (\<And>p. pr_token (g p) = pr_token p) \<Longrightarrow> (\<And>p. pr_used_at p \<noteq> None \<Longrightarrow> pr_used_at (g p) \<noteq> None)
   \<Longrightarrow> \<forall>p \<in> set (update_where q g (db_resets db)). pr_token p = tok \<longrightarrow> pr_used_at p \<noteq> None"
  by (auto simp: reset_spent_def ball_update_where)

lemma account_write_reset_spent:
  "account_write ext db db' \<Longrightarrow> never_makes tok ext \<Longrightarrow> reset_spent tok db \<Longrightarrow> reset_spent tok db'"
proof (induction rule: account_write.induct)
  case (new_reset p i db f now)
  let ?rows = "update_where (\<lambda>q. pr_user q = pr_user p \<and> pr_used_at q = None) (\<lambda>q. q\<lparr>pr_used_at := Some now\<rparr>) (db_resets db)"
  have "\<forall>q \<in> set ?rows. pr_token q = tok \<longrightarrow> pr_used_at q \<noteq> None"
    by (rule reset_spent_update [OF new_reset(3)]) simp_all
  moreover have "pr_token p \<noteq> tok" using new_reset(1,2) by (simp add: never_makes_def)
  ultimately show ?case using new_reset(3)
    by (simp add: CreatePasswordReset_def Let_def reset_spent_def ball_Un)
next
  case (use_reset f now pid db db')
  have "\<forall>q \<in> set (update_where (\<lambda>q. pr_id q = pid) (\<lambda>q. q\<lparr>pr_used_at := Some now\<rparr>) (db_resets db)).
      pr_token q = tok \<longrightarrow> pr_used_at q \<noteq> None"
    by (rule reset_spent_update [OF use_reset(3)]) simp_all
  then show ?case using use_reset(1) by (auto simp: MarkPasswordResetUsed_def reset_spent_def)
next
  case (clean db f now)
  then show ?case by (auto simp: CleanupExpiredTokens_def reset_spent_def)
qed (auto simp: statement_defs reset_spent_def CreateUser_def DeleteUser_def UpdateUserProfile_def Let_def
    split: if_splits)

lemma ResetPassword_ok:
  assumes "ResetPassword ext env (Some (tok, pw)) sv = (sv', HttpOK code msg)"
  obtains p h where "find_row (\<lambda>p. pr_token p = tok) (db_resets (sv_pg sv)) = Some p" and "pr_used_at p = None"
    and "env_now env \<le> pr_expires_at p" and "validatePassword ext pw = None" and "bcrypt_hash ext pw = Some h"
    and "sv' = sv_pg_do (RevokeAllUserRefreshTokens (env_faults env) (pr_user p))
                 (sv_pg_do (UpdateUserPassword (env_faults env) (pr_user p) h)
                   (sv_pg_do (MarkPasswordResetUsed (env_faults env) (env_now env) (pr_id p)) sv))"
  using assms
  by (auto simp: ResetPassword_def GetPasswordResetByToken_def failing_def split: option.splits if_splits)

lemma reset_refused:
  assumes "reset_spent tok (sv_pg sv)"
  shows "refused (snd (ResetPassword ext env (Some (tok, pw)) sv))"
proof (rule ccontr)
  assume "\<not> refused (snd (ResetPassword ext env (Some (tok, pw)) sv))"
  then obtain sv' code msg where "ResetPassword ext env (Some (tok, pw)) sv = (sv', HttpOK code msg)"
    by (cases "ResetPassword ext env (Some (tok, pw)) sv"; cases "snd (ResetPassword ext env (Some (tok, pw)) sv)") auto
  then show False
    by (rule ResetPassword_ok) (use assms in \<open>auto simp: reset_spent_def dest: find_row_Some\<close>)
qed

text \<open>
  A reset link works once and throws everybody out: when a reset succeeds, the user's password is
  the new one (the other users' passwords are untouched), every refresh token of the user is gone, and
  whatever requests follow, the link is refused. This needs the three writes to take effect; the code
  drops their errors.
\<close>

theorem reset_works_once:
  assumes "ResetPassword ext env (Some (tok, pw)) sv = (sv', HttpOK code msg)"
    and "accounts_wf (sv_pg sv)"
    and "\<not> env_faults env CMarkReset" and "\<not> env_faults env CUpdatePassword" and "\<not> env_faults env CRevokeAllRefresh"
    and "\<forall>(ext', env', call) \<in> set calls. never_makes tok ext'"
  shows "(\<exists>p h. find_row (\<lambda>p. pr_token p = tok) (db_resets (sv_pg sv)) = Some p \<and> bcrypt_hash ext pw = Some h
      \<and> (\<forall>t \<in> set (db_refresh (sv_pg sv')). rt_user t \<noteq> pr_user p)
      \<and> db_users (sv_pg sv') = update_where (\<lambda>u. user_id u = pr_user p) (\<lambda>u. u\<lparr>user_password_hash := h\<rparr>) (db_users (sv_pg sv)))
    \<and> refused (snd (ResetPassword ext2 env2 (Some (tok, pw2)) (serve_all cf calls sv')))"
  using assms(1)
proof (rule ResetPassword_ok)
  fix p h
  assume p: "find_row (\<lambda>p. pr_token p = tok) (db_resets (sv_pg sv)) = Some p" and h: "bcrypt_hash ext pw = Some h"
    and sv': "sv' = sv_pg_do (RevokeAllUserRefreshTokens (env_faults env) (pr_user p))
                 (sv_pg_do (UpdateUserPassword (env_faults env) (pr_user p) h)
                   (sv_pg_do (MarkPasswordResetUsed (env_faults env) (env_now env) (pr_id p)) sv))"
  have rows: "db_resets (sv_pg sv') = update_where (\<lambda>q. pr_id q = pr_id p) (\<lambda>q. q\<lparr>pr_used_at := Some (env_now env)\<rparr>)
      (db_resets (sv_pg sv))"
    and users: "db_users (sv_pg sv') = update_where (\<lambda>u. user_id u = pr_user p) (\<lambda>u. u\<lparr>user_password_hash := h\<rparr>) (db_users (sv_pg sv))"
    and tokens: "\<forall>t \<in> set (db_refresh (sv_pg sv')). rt_user t \<noteq> pr_user p"
    using assms(3,4,5) by (auto simp: sv' MarkPasswordResetUsed_def UpdateUserPassword_def RevokeAllUserRefreshTokens_def
        update_user_def)
  have "q = p" if "q \<in> set (db_resets (sv_pg sv))" "pr_token q = tok" for q
    using that find_row_Some [OF p] assms(2) unfolding accounts_wf_def tokens_wf_def by (metis distinct_map inj_onD)
  then have "reset_spent tok (sv_pg sv')"
    by (simp only: reset_spent_def rows ball_update_where) (auto split: if_splits)
  then have "reset_spent tok (sv_pg (serve_all cf calls sv'))"
    by (rule serve_all_keeps [where P = "reset_spent tok" and Q = "never_makes tok", OF _ assms(6) account_write_reset_spent])
  then show ?thesis using p h users tokens reset_refused by blast
qed

definition demo_reset :: server where
  "demo_reset = demo_accounts\<lparr>sv_pg := (sv_pg demo_accounts)\<lparr>db_resets := [\<lparr>pr_id = ''p'', pr_user = ''bo'',
     pr_token = ''link'', pr_expires_at = hour, pr_used_at = None\<rparr>]\<rparr>\<rparr>"

theorem reset_works_once_witness:
  "\<exists>sv'. ResetPassword (demo_ext ''fresh'') (demo_env 0) (Some (''link'', ''Secret123'')) demo_reset
      = (sv', HttpOK 200 ''password reset successfully'')
    \<and> refused (snd (ResetPassword (demo_ext ''fresh'') (demo_env 1) (Some (''link'', ''Secret456''))
        (serve_all demo_cf [(demo_ext ''fresher'', demo_env 0, CallForgot ''ip'' (Some ''bo@x.io''))] sv')))"
proof -
  have wf: "accounts_wf (sv_pg demo_reset)"
    by (simp add: demo_reset_def demo_accounts_def accounts_defs demo_user_def demo_refresh_def empty_db_def)
  have v: "validatePassword (demo_ext ''fresh'') ''Secret123'' = None" by code_simp
  obtain sv' where ok: "ResetPassword (demo_ext ''fresh'') (demo_env 0) (Some (''link'', ''Secret123'')) demo_reset
      = (sv', HttpOK 200 ''password reset successfully'')"
    using v by (simp add: ResetPassword_def GetPasswordResetByToken_def demo_reset_def find_row_simps hour_def demo_auth)
  have f: "\<not> env_faults (demo_env 0) c" for c by (simp add: demo_env_def no_faults_def)
  have "never_makes ''link'' (demo_ext ''fresher'')" by (simp add: never_makes_def demo_ext_def)
  with reset_works_once [OF ok wf f f f] show ?thesis using ok by (auto simp del: serve_all.simps)
qed

section \<open>The verification hold\<close>

text \<open>
  A click on a live verification link verifies the account exactly when the hold time has passed
  since sign-up (or there is none); an earlier click spends the link and marks the account as held.
  Whether the account is already held plays no part: a later link releases it without an admin.
\<close>

theorem verification_hold:
  assumes "find_row (\<lambda>v. ev_token v = tok) (db_verifications (sv_pg sv)) = Some v" and "tok \<noteq> ''''"
    and "ev_used_at v = None" and "env_now env \<le> ev_expires_at v" and "env_faults env = no_faults"
    and "find_row (\<lambda>u. user_id u = ev_user v) (db_users (sv_pg sv)) = Some u"
    and "VerifyEmail cf env tok sv = (sv', answer)"
  shows "answer = HttpOK 200 ''email verified''
    \<and> (\<exists>u'. find_row (\<lambda>u. user_id u = ev_user v) (db_users (sv_pg sv')) = Some u'
       \<and> (if cf_verify_hold cf > 0 \<and> env_now env < user_created_at u + cf_verify_hold cf
          then user_email_verified u' = user_email_verified u \<and> user_held_at u' = Some (env_now env)
          else user_email_verified u' \<and> user_held_at u' = None))
    \<and> (\<forall>v' \<in> set (db_verifications (sv_pg sv')). ev_id v' = ev_id v \<longrightarrow> ev_used_at v' = Some (env_now env))"
proof -
  have id: "user_id u = ev_user v" using find_row_Some [OF assms(6)] by simp
  have spent: "\<forall>v' \<in> set (update_where (\<lambda>w. ev_id w = ev_id v) (\<lambda>w. w\<lparr>ev_used_at := Some (env_now env)\<rparr>)
      (db_verifications (sv_pg sv))). ev_id v' = ev_id v \<longrightarrow> ev_used_at v' = Some (env_now env)"
    by (simp add: ball_update_where)
  have live: "\<not> ev_expires_at v < env_now env" using assms(4) by simp
  have created: "user_created_at (read_user t u) = user_created_at u" "user_id (read_user t u) = user_id u" for t
    by (simp_all add: read_user_def)
  show ?thesis
  proof (cases "shouldHoldVerification (user_created_at u) (env_now env) (cf_verify_hold cf)")
    case True
    then have hold: "cf_verify_hold cf > 0 \<and> env_now env < user_created_at u + cf_verify_hold cf"
      by (auto simp: shouldHoldVerification_def split: if_splits)
    show ?thesis using assms(7) True hold spent id
      by (auto simp: VerifyEmail_def GetEmailVerificationByToken_def assms(1-3,5,6) live no_faults_def Let_def
          MarkEmailVerificationUsed_def GetUserByID_def created HoldEmailVerification_def update_user_def
          find_row_update_where)
  next
    case False
    then have hold: "\<not> (cf_verify_hold cf > 0 \<and> env_now env < user_created_at u + cf_verify_hold cf)"
      by (auto simp: shouldHoldVerification_def split: if_splits)
    show ?thesis using assms(7) False hold spent id
      by (auto simp: VerifyEmail_def GetEmailVerificationByToken_def assms(1-3,5,6) live no_faults_def Let_def
          MarkEmailVerificationUsed_def GetUserByID_def created SetEmailVerified_def update_user_def
          find_row_update_where)
  qed
qed

text \<open>A held account (the first click came five seconds after sign-up) and a second link, used two minutes later.\<close>

definition demo_held :: server where
  "demo_held = demo_accounts\<lparr>sv_pg := (sv_pg demo_accounts)\<lparr>
     db_users := [(demo_user ''bo'')\<lparr>user_email_verified := False, user_held_at := Some (5 * second)\<rparr>],
     db_verifications := [\<lparr>ev_id = ''v'', ev_user = ''bo'', ev_token = ''second'', ev_expires_at = hour, ev_used_at = None\<rparr>]\<rparr>\<rparr>"

theorem verification_hold_witness:
  "\<exists>u'. find_row (\<lambda>u. user_id u = ''bo'') (db_users (sv_pg (fst (VerifyEmail demo_cf (demo_env (2 * minute)) ''second'' demo_held)))) = Some u'
     \<and> user_email_verified u' \<and> user_held_at u' = None"
proof -
  let ?v = "\<lparr>ev_id = ''v'', ev_user = ''bo'', ev_token = ''second'', ev_expires_at = hour, ev_used_at = None\<rparr>"
  let ?u = "(demo_user ''bo'')\<lparr>user_email_verified := False, user_held_at := Some (5 * second)\<rparr>"
  have "find_row (\<lambda>v. ev_token v = ''second'') (db_verifications (sv_pg demo_held)) = Some ?v"
    "find_row (\<lambda>u. user_id u = ev_user ?v) (db_users (sv_pg demo_held)) = Some ?u"
    "env_faults (demo_env (2 * minute)) = no_faults" "env_now (demo_env (2 * minute)) \<le> ev_expires_at ?v"
    by (simp_all add: demo_held_def find_row_simps demo_user_def demo_env_def minute_def hour_def)
  from verification_hold [OF this(1) _ _ this(4,3,2) prod.collapse [symmetric], of demo_cf] show ?thesis
    by (auto simp: demo_cf_def demo_env_def demo_user_def minute_def)
qed

section \<open>Stale identities\<close>

lemma succeeded:
  assumes "r \<noteq> Inl StoreError"
  shows "\<exists>x. r = Inr x"
proof (cases r)
  case (Inl e)
  then show ?thesis using assms by (cases e) simp
qed simp

lemma cached_identity:
  assumes "t \<le> now" and "now \<le> t + 20 * second" and "\<not> user_is_banned u"
  shows "\<exists>c'. AuthMiddleware f now (Some uid) (putCachedUser t uid u c) db = (c', Some u)"
proof -
  have "snd (getCachedUser now uid (putCachedUser t uid u c)) = Some u"
    using users.get_put [OF assms(1)] assms(2) by (simp add: userCacheTTL_def)
  then show ?thesis using assms(3)
    by (cases "getCachedUser now uid (putCachedUser t uid u c)") (auto simp: AuthMiddleware_def)
qed



section \<open>Long passwords\<close>

text \<open>
  \<open>bcrypt.GenerateFromPassword\<close> refuses passwords of more than 72 bytes, the checks of \<open>Signup\<close> allow
  128: in between, a password that passed the checks is answered with an internal error.
\<close>

lemma long_password_fails:
  assumes "\<And>p. length p > 72 \<Longrightarrow> bcrypt_hash ext p = None" and "length pw > 72"
    and "validatePassword ext pw = None" and "bcrypt_match ext (user_password_hash u) old"
  shows "ChangePassword ext env (Some u) (Some (old, pw)) sv = (sv, HttpError 500 ''internal error'')"
  using assms by (simp add: ChangePassword_def)

end
