(* ===== verification/Payload.thy ===== *)
theory Payload
  imports Cache "HOL-Library.AList"
begin

text \<open>
  The bounded caches: the cache of marshaled room lists of \<open>internal/handlers/roomscache.go\<close>, and
  the way the cache of verified DJ keys of \<open>internal/middleware/djauth.go\<close>, which is the same code,
  makes room. A map with its size is an association list without repeated keys; nothing depends on
  the order of its entries.
\<close>

type_synonym 'v bounded = "(string \<times> 'v \<times> gotime) list"

text \<open>Storing: at the bound, first the expired entries go, and if that is not enough, all of them.\<close>

definition make_room :: "nat \<Rightarrow> gotime \<Rightarrow> 'v bounded \<Rightarrow> 'v bounded" where
  "make_room cap now c =
     (if length c < cap then c
      else (let kept = filter (\<lambda>(k, v, e). \<not> now > e) c in if length kept \<ge> cap then [] else kept))"

definition bounded_put :: "nat \<Rightarrow> duration \<Rightarrow> gotime \<Rightarrow> string \<Rightarrow> 'v \<Rightarrow> 'v bounded \<Rightarrow> 'v bounded" where
  "bounded_put cap ttl now k v c = AList.update k (v, now + ttl) (make_room cap now c)"

definition bounded_ok :: "nat \<Rightarrow> 'v bounded \<Rightarrow> bool" where
  "bounded_ok cap c \<longleftrightarrow> distinct (map fst c) \<and> length c \<le> cap"

lemma make_room_subset: "set (make_room cap now c) \<subseteq> set c"
  by (auto simp: make_room_def Let_def)

lemma make_room_distinct: "distinct (map fst c) \<Longrightarrow> distinct (map fst (make_room cap now c))"
  by (simp add: make_room_def Let_def distinct_map_filter)

lemma make_room_length: "0 < cap \<Longrightarrow> length (make_room cap now c) < cap"
  by (auto simp: make_room_def Let_def)

lemma make_room_finds:
  assumes "distinct (map fst c)" and "map_of (make_room cap now c) k = Some x"
  shows "map_of c k = Some x"
proof -
  have "(k, x) \<in> set c" using map_of_SomeD [OF assms(2)] make_room_subset by blast
  with assms(1) show ?thesis by (rule map_of_is_SomeI)
qed

lemma bounded_put_ok: "0 < cap \<Longrightarrow> bounded_ok cap c \<Longrightarrow> bounded_ok cap (bounded_put cap ttl now k v c)"
proof -
  assume "0 < cap" and ok: "bounded_ok cap c"
  have "length (AList.update k x d) \<le> Suc (length d)" for x :: "'a \<times> gotime" and d
    by (induction d) auto
  from this [of "(v, now + ttl)" "make_room cap now c"] show ?thesis
    using ok make_room_length [OF \<open>0 < cap\<close>, of now c]
    by (auto simp: bounded_ok_def bounded_put_def distinct_update make_room_distinct)
qed

lemma bounded_put_find:
  "map_of (bounded_put cap ttl now k v c) k' = (if k' = k then Some (v, now + ttl) else map_of (make_room cap now c) k')"
  by (simp add: bounded_put_def update_conv')

section \<open>The cache of room lists\<close>

definition roomsListCacheTTL :: duration where "roomsListCacheTTL = 5 * second"
definition maxPayloadCacheEntries :: nat where "maxPayloadCacheEntries = 256"
definition maxPayloadCacheKeyLen :: nat where "maxPayloadCacheKeyLen = 64"

definition payload_get :: "gotime \<Rightarrow> string \<Rightarrow> 'v bounded \<Rightarrow> 'v option" where
  "payload_get now k c =
     (case map_of c k of None \<Rightarrow> None | Some (v, e) \<Rightarrow> if now > e then None else Some v)"

definition payload_set :: "gotime \<Rightarrow> string \<Rightarrow> 'v \<Rightarrow> 'v bounded \<Rightarrow> 'v bounded" where
  "payload_set = bounded_put maxPayloadCacheEntries roomsListCacheTTL"

text \<open>\<open>getOrBuild\<close>: \<open>built\<close> is what the build would return now; its errors are not cached.\<close>

definition getOrBuild :: "gotime \<Rightarrow> string \<Rightarrow> 'v fallible \<Rightarrow> 'v bounded \<Rightarrow> 'v bounded \<times> 'v fallible" where
  "getOrBuild now k built c =
     (if length k > maxPayloadCacheKeyLen then (c, built)
      else case payload_get now k c of
          Some v \<Rightarrow> (c, Inr v)
        | None \<Rightarrow> (case built of Inl e \<Rightarrow> (c, Inl e) | Inr v \<Rightarrow> (payload_set now k v c, Inr v)))"

text \<open>A history of requests: the instant, the key and what a build at that instant returns.\<close>

fun payload_run :: "(gotime \<times> string \<times> 'v fallible) list \<Rightarrow> 'v bounded \<Rightarrow> 'v bounded" where
  "payload_run [] c = c"
| "payload_run ((t, k, built) # reqs) c = payload_run reqs (fst (getOrBuild t k built c))"

text \<open>
  As a lossy cache: its states are the caches without repeated keys, and nothing is invalidated.
\<close>

typedef 'v payload_cache = "{c :: 'v bounded. bounded_ok maxPayloadCacheEntries c}"
  by (rule exI [of _ "[]"]) (simp add: bounded_ok_def)

setup_lifting type_definition_payload_cache

lift_definition pc_get :: "gotime \<Rightarrow> string \<Rightarrow> 'v payload_cache \<Rightarrow> 'v option" is payload_get .

lift_definition pc_set :: "gotime \<Rightarrow> string \<Rightarrow> 'v \<Rightarrow> 'v payload_cache \<Rightarrow> 'v payload_cache" is payload_set
  by (simp add: payload_set_def bounded_put_ok maxPayloadCacheEntries_def)

lift_definition pc_empty :: "'v payload_cache" is "[]"
  by (simp add: bounded_ok_def)

lift_definition pc_size :: "'v payload_cache \<Rightarrow> nat" is length .

lemma payload_get_put: "t \<le> now \<Longrightarrow> payload_get now k (payload_set t k v c) = Some u \<Longrightarrow> u = v \<and> now \<le> t + roomsListCacheTTL"
  by (auto simp: payload_get_def payload_set_def bounded_put_find split: if_splits)

lemma payload_get_other:
  assumes "distinct (map fst c)" and "k' \<noteq> k" and "payload_get now k' (payload_set t k v c) = Some u"
  shows "payload_get now k' c = Some u"
proof (cases "map_of (make_room maxPayloadCacheEntries t c) k'")
  case None
  then show ?thesis using assms(2,3) by (simp add: payload_get_def payload_set_def bounded_put_find)
next
  case (Some x)
  from make_room_finds [OF assms(1) Some] show ?thesis
    using assms(2,3) Some by (simp add: payload_get_def payload_set_def bounded_put_find)
qed

interpretation payloads: lossy_cache "\<lambda>now k c. (c, pc_get now k c)" pc_set "\<lambda>k c. c" pc_empty roomsListCacheTTL
proof unfold_locales
  fix now t :: gotime and k k' :: string and v u :: 'v and c
  show "snd (pc_empty, pc_get now k pc_empty) = None"
    by transfer (simp add: payload_get_def)
  show "u = v \<and> now \<le> t + roomsListCacheTTL"
    if "t \<le> now" and "snd (pc_set t k v c, pc_get now k (pc_set t k v c)) = Some u"
    using that by transfer (auto dest: payload_get_put)
  show "snd (c, pc_get now k' c) = Some u"
    if "k' \<noteq> k" and "snd (pc_set t k v c, pc_get now k' (pc_set t k v c)) = Some u"
    using that by transfer (auto simp: bounded_ok_def dest: payload_get_other)
qed simp_all

text \<open>A request with a short key reads through that cache, one with a long key leaves it alone.\<close>

definition result_of :: "'v fallible \<Rightarrow> 'v option" where
  "result_of r = (case r of Inl _ \<Rightarrow> None | Inr v \<Rightarrow> Some v)"

lemma result_of_simps [simp]: "result_of (Inl e) = None" "result_of (Inr v) = Some v"
  by (simp_all add: result_of_def)

lemma result_of_Some: "result_of r = Some v \<longleftrightarrow> r = Inr v" "Some v = result_of r \<longleftrightarrow> r = Inr v"
  by (cases r; auto)+

abbreviation pc_read where "pc_read \<equiv> read_through (\<lambda>now k c. (c, pc_get now k c)) pc_set"

lemma getOrBuild_long: "maxPayloadCacheKeyLen < length k \<Longrightarrow> getOrBuild now k built c = (c, built)"
  by (simp add: getOrBuild_def)

lemma getOrBuild_short:
  assumes "length k \<le> maxPayloadCacheKeyLen"
  shows "fst (getOrBuild now k built (Rep_payload_cache c)) = Rep_payload_cache (fst (pc_read now k (result_of built) c))"
    and "result_of (snd (getOrBuild now k built (Rep_payload_cache c))) = snd (pc_read now k (result_of built) c)"
  using assms by (cases built; cases "pc_get now k c";
      simp add: getOrBuild_def read_through_def pc_get.rep_eq pc_set.rep_eq)+

definition as_payload_reads :: "(gotime \<times> string \<times> 'v fallible) list \<Rightarrow> 'v cache_event list" where
  "as_payload_reads reqs = map (\<lambda>(t, k, built). ReadAt t k (result_of built))
     (filter (\<lambda>(t, k, built). length k \<le> maxPayloadCacheKeyLen) reqs)"

lemma payload_run_history:
  "payload_run reqs (Rep_payload_cache c)
     = Rep_payload_cache (cache_history (\<lambda>now k c. (c, pc_get now k c)) pc_set (\<lambda>k c. c) c (as_payload_reads reqs))"
proof (induction reqs arbitrary: c)
  case Nil
  then show ?case by (simp add: as_payload_reads_def)
next
  case (Cons q reqs)
  obtain t k built where q: "q = (t, k, built)" by (cases q)
  show ?case
  proof (cases "length k \<le> maxPayloadCacheKeyLen")
    case True
    with Cons.IH show ?thesis by (simp add: q as_payload_reads_def getOrBuild_short)
  next
    case False
    with Cons.IH show ?thesis by (simp add: q as_payload_reads_def getOrBuild_long)
  qed
qed

definition short_keys :: "'v bounded \<Rightarrow> bool" where
  "short_keys c \<longleftrightarrow> (\<forall>k \<in> fst ` set c. length k \<le> maxPayloadCacheKeyLen)"

lemma short_keys_request:
  assumes "short_keys c"
  shows "short_keys (fst (getOrBuild now k built c))"
proof -
  have "short_keys (payload_set now k v c)" if "length k \<le> maxPayloadCacheKeyLen" for v
    using assms that make_room_subset [of maxPayloadCacheEntries now c]
    by (auto simp: short_keys_def payload_set_def bounded_put_def dom_update)
  then show ?thesis
    using assms by (auto simp: getOrBuild_def split: option.split sum.split)
qed

lemma short_keys_run: "short_keys c \<Longrightarrow> short_keys (payload_run reqs c)"
  by (induction reqs c rule: payload_run.induct) (simp_all add: short_keys_request)

section \<open>Property\<close>

text \<open>
  The public room list is never served from a state older than five seconds: what a request
  is answered with was built from the database by it or by a request of the last five seconds for the
  same filters. Whatever filters clients invent, the cache holds at most 256 lists, under keys
  of at most 64 bytes.
\<close>

theorem room_list_fresh_and_bounded:
  assumes "\<forall>(t, k', built') \<in> set reqs. t \<le> now"
    and "getOrBuild now k built (payload_run reqs []) = (c', Inr v)"
  shows "(built = Inr v \<or> (\<exists>t. now - 5 * second \<le> t \<and> t \<le> now \<and> (t, k, Inr v) \<in> set reqs))
    \<and> length c' \<le> 256 \<and> distinct (map fst c') \<and> (\<forall>key \<in> fst ` set c'. length key \<le> 64)"
proof -
  let ?reads = "as_payload_reads reqs"
  let ?pc = "cache_history (\<lambda>now k c. (c, pc_get now k c)) pc_set (\<lambda>k c. c) pc_empty ?reads"
  have run: "payload_run reqs [] = Rep_payload_cache ?pc"
    using payload_run_history [of reqs pc_empty] by (simp add: pc_empty.rep_eq)
  have short: "short_keys c'"
    using short_keys_request [of "payload_run reqs []" now k built] short_keys_run [of "[]" reqs] assms(2)
    by (simp add: short_keys_def)
  have before: "\<forall>e \<in> set ?reads. event_before now e"
    using assms(1) by (auto simp: as_payload_reads_def)
  have "(built = Inr v \<or> (\<exists>t. now - 5 * second \<le> t \<and> t \<le> now \<and> (t, k, Inr v) \<in> set reqs))
    \<and> bounded_ok maxPayloadCacheEntries c'"
  proof (cases "length k \<le> maxPayloadCacheKeyLen")
    case True
    have "c' = Rep_payload_cache (fst (pc_read now k (result_of built) ?pc))"
      and found: "snd (pc_read now k (result_of built) ?pc) = Some v"
      using getOrBuild_short [OF True, of now built ?pc] assms(2) by (simp_all add: run)
    moreover from payloads.read_recent [OF before found]
    have "built = Inr v \<or> (\<exists>t. now - 5 * second \<le> t \<and> t \<le> now \<and> (t, k, Inr v) \<in> set reqs)"
      by (auto simp: as_payload_reads_def result_of_Some roomsListCacheTTL_def)
    ultimately show ?thesis using Rep_payload_cache by auto
  next
    case False
    then show ?thesis
      using assms(2) Rep_payload_cache [of ?pc] by (simp add: getOrBuild_long run)
  qed
  with short show ?thesis
    by (simp add: bounded_ok_def short_keys_def maxPayloadCacheEntries_def maxPayloadCacheKeyLen_def)
qed

text \<open>A list built at instant 0 is served three seconds later although the build would now differ.\<close>

theorem room_list_fresh_and_bounded_witness:
  "\<exists>c'. getOrBuild (3 * second) ''live=true'' (Inr ''new'')
      (payload_run [(0, ''live=true'', Inr ''old'')] []) = (c', Inr ''old'')
    \<and> length c' \<le> 256 \<and> (0, ''live=true'', Inr ''old'') \<in> set [(0, ''live=true'', Inr ''old'' :: string fallible)]"
proof -
  obtain c' where "getOrBuild (3 * second) ''live=true'' (Inr ''new'')
      (payload_run [(0, ''live=true'', Inr ''old'')] []) = (c', Inr ''old'')"
    by (simp add: getOrBuild_def payload_get_def payload_set_def bounded_put_def make_room_def
        maxPayloadCacheKeyLen_def maxPayloadCacheEntries_def roomsListCacheTTL_def second_def)
  with room_list_fresh_and_bounded [OF _ this] show ?thesis by (auto simp: second_def)
qed

end
