(* ===== verification/DJKey.thy ===== *)
theory DJKey
  imports Auth Payload
begin

text \<open>
  DJ keys (\<open>internal/middleware/djauth.go\<close>): a room stores the bcrypt hash of its key, and a cache of
  successful comparisons, keyed by a digest of hash and key, spares the slow comparison. The cache
  makes no difference to the verdict. The key of a request is its X-DJ-Key header, empty without one.
\<close>

definition djKeyCacheTTL :: duration where "djKeyCacheTTL = 15 * minute"
definition maxDJKeyCacheEntries :: nat where "maxDJKeyCacheEntries = 4096"

type_synonym dj_cache = "unit bounded"

text \<open>\<open>random_token\<close> is the hexadecimal string drawn.\<close>

definition GenerateDJKey :: "outside \<Rightarrow> nat \<Rightarrow> (string \<times> string) option" where
  "GenerateDJKey ext i = (let plainKey = random_token ext i in
     map_option (\<lambda>hash. (plainKey, hash)) (bcrypt_hash ext plainKey))"

definition djKeyCacheKey :: "outside \<Rightarrow> string \<Rightarrow> string \<Rightarrow> string" where
  "djKeyCacheKey ext plainKey hash = sha ext (hash @ [CHR 0x00] @ plainKey)"

definition VerifyDJKey :: "outside \<Rightarrow> gotime \<Rightarrow> string \<Rightarrow> string \<Rightarrow> dj_cache \<Rightarrow> dj_cache \<times> bool" where
  "VerifyDJKey ext now plainKey hash c =
     (if plainKey = '''' \<or> hash = '''' then (c, False)
      else (let k = djKeyCacheKey ext plainKey hash in
        if (case map_of c k of None \<Rightarrow> False | Some (_, e) \<Rightarrow> now < e) then (c, True)
        else if \<not> bcrypt_match ext hash plainKey then (c, False)
        else (bounded_put maxDJKeyCacheEntries djKeyCacheTTL now k () c, True)))"

fun verify_run :: "outside \<Rightarrow> (gotime \<times> string \<times> string) list \<Rightarrow> dj_cache \<Rightarrow> dj_cache" where
  "verify_run ext [] c = c"
| "verify_run ext ((t, key, hash) # reqs) c = verify_run ext reqs (fst (VerifyDJKey ext t key hash c))"

text \<open>The verdict without a cache.\<close>

definition key_matches :: "outside \<Rightarrow> string \<Rightarrow> string \<Rightarrow> bool" where
  "key_matches ext plainKey hash \<longleftrightarrow> plainKey \<noteq> '''' \<and> hash \<noteq> '''' \<and> bcrypt_match ext hash plainKey"

text \<open>Everything in the cache is the digest of a pair that matched.\<close>

definition vouched :: "outside \<Rightarrow> (gotime \<times> string \<times> string) set \<Rightarrow> dj_cache \<Rightarrow> bool" where
  "vouched ext reqs c \<longleftrightarrow> bounded_ok maxDJKeyCacheEntries c
     \<and> (\<forall>k \<in> fst ` set c. \<exists>(t, key, hash) \<in> reqs. k = djKeyCacheKey ext key hash \<and> key_matches ext key hash)"

lemma vouched_more: "vouched ext reqs c \<Longrightarrow> vouched ext (insert r reqs) c"
  unfolding vouched_def by blast

lemma vouched_put:
  assumes "vouched ext reqs c" and "key_matches ext key hash"
  shows "vouched ext (insert (t, key, hash) reqs)
    (bounded_put maxDJKeyCacheEntries djKeyCacheTTL t (djKeyCacheKey ext key hash) () c)"
proof -
  let ?k = "djKeyCacheKey ext key hash"
  let ?d = "bounded_put maxDJKeyCacheEntries djKeyCacheTTL t ?k () c"
  have keys: "fst ` set ?d \<subseteq> insert ?k (fst ` set c)"
    using make_room_subset [of maxDJKeyCacheEntries t c] by (auto simp: bounded_put_def dom_update)
  have old: "\<forall>k \<in> fst ` set c. \<exists>(t, key, hash) \<in> reqs. k = djKeyCacheKey ext key hash \<and> key_matches ext key hash"
    using assms(1) by (simp add: vouched_def)
  have "bounded_ok maxDJKeyCacheEntries ?d"
    using assms(1) by (intro bounded_put_ok) (simp_all add: vouched_def maxDJKeyCacheEntries_def)
  moreover have "\<exists>(t', key', hash') \<in> insert (t, key, hash) reqs. k = djKeyCacheKey ext key' hash' \<and> key_matches ext key' hash'"
    if "k \<in> fst ` set ?d" for k
  proof (cases "k = ?k")
    case True
    with assms(2) show ?thesis by simp
  next
    case False
    then have "k \<in> fst ` set c" using that keys by blast
    with old show ?thesis by blast
  qed
  ultimately show ?thesis unfolding vouched_def by blast
qed

lemma vouched_verify:
  "vouched ext reqs c \<Longrightarrow> vouched ext (insert (t, key, hash) reqs) (fst (VerifyDJKey ext t key hash c))"
  using vouched_more vouched_put by (simp add: VerifyDJKey_def key_matches_def Let_def)

lemma vouched_run: "vouched ext old c \<Longrightarrow> vouched ext (old \<union> set reqs) (verify_run ext reqs c)"
proof (induction reqs arbitrary: old c)
  case (Cons r reqs)
  obtain t key hash where r: "r = (t, key, hash)" by (cases r)
  from Cons.IH [OF vouched_verify [OF Cons.prems], of t key hash] show ?case by (simp add: r)
qed simp

text \<open>No two pairs that were checked have the same digest, and a bcrypt hash has no NUL byte.\<close>

definition digests_ok :: "outside \<Rightarrow> (gotime \<times> string \<times> string) set \<Rightarrow> bool" where
  "digests_ok ext reqs \<longleftrightarrow> inj_on (sha ext) ((\<lambda>(t, key, hash). hash @ [CHR 0x00] @ key) ` reqs)
     \<and> (\<forall>(t, key, hash) \<in> reqs. CHR 0x00 \<notin> set hash)"

lemma digests_ok_subset: "digests_ok ext reqs \<Longrightarrow> reqs' \<subseteq> reqs \<Longrightarrow> digests_ok ext reqs'"
  unfolding digests_ok_def by (auto intro: inj_on_subset [OF _ image_mono])

lemma digest_inj:
  assumes "digests_ok ext reqs" and "(t, key, hash) \<in> reqs" and "(t', key', hash') \<in> reqs"
    and "djKeyCacheKey ext key hash = djKeyCacheKey ext key' hash'"
  shows "key = key' \<and> hash = hash'"
proof -
  from assms(1) have inj: "inj_on (sha ext) ((\<lambda>(t, key, hash). hash @ [CHR 0x00] @ key) ` reqs)"
      and "CHR 0x00 \<notin> set hash" "CHR 0x00 \<notin> set hash'"
    using assms(2,3) by (auto simp: digests_ok_def)
  have "hash @ [CHR 0x00] @ key = hash' @ [CHR 0x00] @ key'"
    using assms(4) inj_onD [OF inj] assms(2,3) unfolding djKeyCacheKey_def by force
  then have "hash = hash' \<and> key = key'"
    using \<open>CHR 0x00 \<notin> set hash\<close> \<open>CHR 0x00 \<notin> set hash'\<close>
  proof (induction hash arbitrary: hash')
    case Nil
    then show ?case by (cases hash') auto
  next
    case (Cons x hash)
    then show ?case by (cases hash') auto
  qed
  then show ?thesis by simp
qed

text \<open>The verdict on a key, for a cache that vouches for what was checked so far.\<close>

lemma VerifyDJKey_exact:
  assumes "vouched ext reqs c" and "digests_ok ext (insert (now, key, hash) reqs)"
  shows "snd (VerifyDJKey ext now key hash c) \<longleftrightarrow> key_matches ext key hash"
proof -
  have "key_matches ext key hash" if "map_of c (djKeyCacheKey ext key hash) = Some x" for x
  proof -
    from map_of_SomeD [OF that] assms(1) obtain t key' hash' where r: "(t, key', hash') \<in> reqs"
        "djKeyCacheKey ext key hash = djKeyCacheKey ext key' hash'" "key_matches ext key' hash'"
      unfolding vouched_def by (auto simp: image_iff)
    moreover have "key = key' \<and> hash = hash'"
      by (rule digest_inj [OF assms(2) _ _ r(2), of now t]) (use r(1) in auto)
    ultimately show ?thesis by simp
  qed
  then show ?thesis
    by (auto simp: VerifyDJKey_def key_matches_def Let_def split: option.splits if_splits)
qed

text \<open>
  The cache of verified DJ keys never changes a verdict: after any history of checks a key is
  accepted for a room's hash exactly when both are non-empty and bcrypt matches them, whatever has
  expired or was dropped, provided SHA-256 has no collision among the pairs checked; and the cache
  never holds more than 4096 entries.
\<close>

theorem dj_key_cache_transparent:
  assumes "digests_ok ext (set (reqs @ [(now, key, hash)]))"
  shows "(snd (VerifyDJKey ext now key hash (verify_run ext reqs [])) \<longleftrightarrow> key_matches ext key hash)
    \<and> length (fst (VerifyDJKey ext now key hash (verify_run ext reqs []))) \<le> 4096"
proof
  let ?c = "verify_run ext reqs []"
  have "vouched ext {} []" by (simp add: vouched_def bounded_ok_def)
  from vouched_run [OF this] have c: "vouched ext (set reqs) ?c" by simp
  show "snd (VerifyDJKey ext now key hash ?c) \<longleftrightarrow> key_matches ext key hash"
    using VerifyDJKey_exact [OF c] assms by simp
  show "length (fst (VerifyDJKey ext now key hash ?c)) \<le> 4096"
    using vouched_verify [OF c, of now key hash]
    by (simp add: vouched_def bounded_ok_def maxDJKeyCacheEntries_def)
qed

text \<open>The right key is still accepted from the cache, a wrong one is not.\<close>

definition plain_outside :: outside where
  "plain_outside = \<lparr>sha = (\<lambda>s. s), bcrypt_hash = (\<lambda>s. Some (''$'' @ s)), bcrypt_match = (\<lambda>h s. h = ''$'' @ s),
     mint = (\<lambda>u. Some (user_id u)), token_user = (\<lambda>t s. Some s), random_token = (\<lambda>i. replicate (i + 1) CHR ''k''),
     captcha_ok = (\<lambda>_. True), mail_ok = (\<lambda>_. True), disposable = (\<lambda>_. False), domain_ok = (\<lambda>_. True),
     loopback = (\<lambda>_. False), wide_classes = (\<lambda>_. (False, False, False))\<rparr>"

lemma plain_digests: "\<forall>(t, key, hash) \<in> reqs. CHR 0x00 \<notin> set hash \<Longrightarrow> digests_ok plain_outside reqs"
  by (simp add: digests_ok_def plain_outside_def)

theorem dj_key_cache_transparent_witness:
  "snd (VerifyDJKey plain_outside 60 ''secret'' ''$secret'' (verify_run plain_outside [(0, ''secret'', ''$secret'')] []))
   \<and> \<not> snd (VerifyDJKey plain_outside 60 ''guess'' ''$secret'' (verify_run plain_outside [(0, ''secret'', ''$secret'')] []))"
proof -
  have "digests_ok plain_outside {(0, ''secret'', ''$secret''), (60, key, ''$secret'')}" for key
    by (rule plain_digests) simp
  then show ?thesis
    using dj_key_cache_transparent [of plain_outside "[(0, ''secret'', ''$secret'')]" 60 "''secret''" "''$secret''"]
      dj_key_cache_transparent [of plain_outside "[(0, ''secret'', ''$secret'')]" 60 "''guess''" "''$secret''"]
    by (simp add: key_matches_def plain_outside_def)
qed

end
