(* ===== verification/Playlists.thy ===== *)
theory Playlists
  imports Users Hub Http
begin

text \<open>
  Saved playlists: the statements of \<open>internal/store/playlists.go\<close> and the handlers of
  \<open>internal/handlers/playlists.go\<close>. A row of \<open>db_playlists\<close> carries no tracks and no count; both are
  filled in by the reads.
\<close>

section \<open>Statements\<close>

definition has_playlist :: "string \<Rightarrow> pgdb \<Rightarrow> bool" where
  "has_playlist pid db \<longleftrightarrow> (\<exists>p \<in> set (db_playlists db). pl_id p = pid)"

definition CreatePlaylist :: "faults \<Rightarrow> Playlist \<Rightarrow> pgdb \<Rightarrow> pgdb fallible" where
  "CreatePlaylist f pl db =
     (if f (CPlaylists PCreate) \<or> has_playlist (pl_id pl) db \<or> \<not> has_user (pl_user pl) db then Inl StoreError
      else Inr (db\<lparr>db_playlists := db_playlists db @ [pl\<lparr>pl_count := 0, pl_tracks := []\<rparr>]\<rparr>))"

definition rows_of :: "string \<Rightarrow> pgdb \<Rightarrow> PlaylistRow list" where
  "rows_of pid db = filter (\<lambda>r. plr_playlist r = pid) (db_playlist_tracks db)"

definition GetPlaylistsByUser :: "faults \<Rightarrow> string \<Rightarrow> pgdb \<Rightarrow> Playlist list fallible" where
  "GetPlaylistsByUser f uid db = failing (f (CPlaylists PListByUser))
     (map (\<lambda>p. p\<lparr>pl_count := int (length (rows_of (pl_id p) db))\<rparr>)
       (order_by (\<lambda>p. if pl_liked p then 0 else 1) (order_by (\<lambda>p. - pl_updated_at p)
         (filter (\<lambda>p. pl_user p = uid) (db_playlists db)))))"

definition GetPlaylistByID :: "faults \<Rightarrow> string \<Rightarrow> pgdb \<Rightarrow> Playlist option fallible" where
  "GetPlaylistByID f pid db = failing (f (CPlaylists PGet)) (find_row (\<lambda>p. pl_id p = pid) (db_playlists db))"

definition playlist_track :: "pgdb \<Rightarrow> PlaylistRow \<Rightarrow> PlaylistTrack option" where
  "playlist_track db r = map_option
     (\<lambda>t. \<lparr>pt_id = plr_id r, pt_track = plr_track r, pt_position = plr_position r, pt_added_at = plr_added_at r,
        pt_title = track_title t, pt_artist = track_artist t, pt_duration = track_duration t,
        pt_source = track_source t, pt_url = track_url t, pt_gradient = track_gradient t\<rparr>)
     (find_row (\<lambda>t. track_id t = plr_track r) (db_tracks db))"

definition tracks_of :: "string \<Rightarrow> pgdb \<Rightarrow> PlaylistTrack list" where
  "tracks_of pid db = List.map_filter (playlist_track db) (order_by plr_position (rows_of pid db))"

definition GetPlaylistWithTracks :: "faults \<Rightarrow> string \<Rightarrow> pgdb \<Rightarrow> Playlist option fallible" where
  "GetPlaylistWithTracks f pid db =
     (case GetPlaylistByID f pid db of
        Inl e \<Rightarrow> Inl e
      | Inr None \<Rightarrow> Inr None
      | Inr (Some p) \<Rightarrow> failing (f (CPlaylists PGetRows))
          (Some (p\<lparr>pl_tracks := tracks_of pid db, pl_count := int (length (tracks_of pid db))\<rparr>)))"

definition UpdatePlaylistName :: "faults \<Rightarrow> gotime \<Rightarrow> string \<Rightarrow> string \<Rightarrow> pgdb \<Rightarrow> pgdb fallible" where
  "UpdatePlaylistName f now pid name db = failing (f (CPlaylists PRename))
     (db\<lparr>db_playlists := update_where (\<lambda>p. pl_id p = pid)
        (\<lambda>p. p\<lparr>pl_name := name, pl_updated_at := now\<rparr>) (db_playlists db)\<rparr>)"

definition DeletePlaylist :: "faults \<Rightarrow> string \<Rightarrow> pgdb \<Rightarrow> pgdb fallible" where
  "DeletePlaylist f pid db = failing (f (CPlaylists PDelete))
     (db\<lparr>db_playlists := delete_where (\<lambda>p. pl_id p = pid) (db_playlists db),
         db_playlist_tracks := delete_where (\<lambda>r. plr_playlist r = pid) (db_playlist_tracks db)\<rparr>)"

definition touch_playlist :: "faults \<Rightarrow> gotime \<Rightarrow> string \<Rightarrow> pgdb \<Rightarrow> pgdb" where
  "touch_playlist f now pid db =
     (if f (CPlaylists PTouch) then db
      else db\<lparr>db_playlists := update_where (\<lambda>p. pl_id p = pid) (\<lambda>p. p\<lparr>pl_updated_at := now\<rparr>) (db_playlists db)\<rparr>)"

text \<open>
  \<open>INSERT ... ON CONFLICT (playlist_id, track_id) DO NOTHING\<close> of rows at consecutive positions: a
  row whose track the playlist has is skipped, its position is used up.
\<close>

fun add_rows :: "gotime \<Rightarrow> string \<Rightarrow> int \<Rightarrow> (string \<times> string) list \<Rightarrow> PlaylistRow list \<Rightarrow> PlaylistRow list option" where
  "add_rows now pid pos [] rows = Some rows"
| "add_rows now pid pos ((rid, tid) # rest) rows =
     (if \<exists>r \<in> set rows. plr_playlist r = pid \<and> plr_track r = tid then add_rows now pid (pos + 1) rest rows
      else if \<exists>r \<in> set rows. plr_id r = rid then None
      else add_rows now pid (pos + 1) rest (rows @
        [\<lparr>plr_id = rid, plr_playlist = pid, plr_track = tid, plr_position = pos, plr_added_at = now\<rparr>]))"

definition insert_rows :: "gotime \<Rightarrow> string \<Rightarrow> int \<Rightarrow> (string \<times> string) list \<Rightarrow> pgdb \<Rightarrow> pgdb fallible" where
  "insert_rows now pid pos new db =
     (case add_rows now pid pos new (db_playlist_tracks db) of
        None \<Rightarrow> Inl StoreError
      | Some rows \<Rightarrow>
          (let added = drop (length (db_playlist_tracks db)) rows in
           if added \<noteq> [] \<and> \<not> has_playlist pid db \<or> (\<exists>r \<in> set added. \<not> has_track (plr_track r) db)
           then Inl StoreError
           else Inr (db\<lparr>db_playlist_tracks := rows\<rparr>)))"

definition max_position :: "string \<Rightarrow> pgdb \<Rightarrow> int" where
  "max_position pid db = max_or (- 1) (map plr_position (rows_of pid db))"

text \<open>A failed read of the greatest position leaves the variable at zero.\<close>

definition AddTrackToPlaylist :: "faults \<Rightarrow> gotime \<Rightarrow> string \<Rightarrow> string \<Rightarrow> string \<Rightarrow> pgdb \<Rightarrow> pgdb fallible" where
  "AddTrackToPlaylist f now rid tid pid db =
     (let maxPos = (if f (CPlaylists PMaxPosition) then 0 else max_position pid db) in
      if f (CPlaylists PAddRows) then Inl StoreError
      else case insert_rows now pid (maxPos + 1) [(rid, tid)] db of
          Inl e \<Rightarrow> Inl e
        | Inr db' \<Rightarrow> Inr (touch_playlist f now pid db'))"

definition AddTracksToPlaylist ::
  "faults \<Rightarrow> gotime \<Rightarrow> string \<Rightarrow> string list \<Rightarrow> string list \<Rightarrow> pgdb \<Rightarrow> pgdb fallible" where
  "AddTracksToPlaylist f now pid ids trackIDs db =
     (if trackIDs = [] then Inr db
      else if length ids \<noteq> length trackIDs \<or> f (CPlaylists PAddRows) then Inl StoreError
      else case insert_rows now pid (max_position pid db + 1) (zip ids trackIDs) db of
          Inl e \<Rightarrow> Inl e
        | Inr db' \<Rightarrow> Inr (touch_playlist f now pid db'))"

definition RemoveTrackFromPlaylist :: "faults \<Rightarrow> gotime \<Rightarrow> string \<Rightarrow> string \<Rightarrow> pgdb \<Rightarrow> pgdb fallible" where
  "RemoveTrackFromPlaylist f now pid tid db =
     (if f (CPlaylists PRemoveRow) then Inl StoreError
      else Inr (touch_playlist f now pid (db\<lparr>db_playlist_tracks :=
        delete_where (\<lambda>r. plr_playlist r = pid \<and> plr_track r = tid) (db_playlist_tracks db)\<rparr>)))"

text \<open>The tracks of all lists in one query, handed out by playlist; a list without tracks keeps the
  count of the first query.\<close>

definition GetPlaylistsWithTracksByUser :: "faults \<Rightarrow> string \<Rightarrow> pgdb \<Rightarrow> Playlist list fallible" where
  "GetPlaylistsWithTracksByUser f uid db =
     (case GetPlaylistsByUser f uid db of
        Inl e \<Rightarrow> Inl e
      | Inr pls \<Rightarrow>
          if pls = [] then Inr pls
          else failing (f (CPlaylists PGetRows)) (map (\<lambda>p. let ts = tracks_of (pl_id p) db in
            if ts = [] then p else p\<lparr>pl_tracks := ts, pl_count := int (length ts)\<rparr>) pls))"

definition EnsureLikedPlaylist :: "faults \<Rightarrow> gotime \<Rightarrow> string \<Rightarrow> pgdb \<Rightarrow> pgdb \<times> Playlist fallible" where
  "EnsureLikedPlaylist f now uid db =
     (if f (CPlaylists PGetLiked) then (db, Inl StoreError)
      else case find_row (\<lambda>p. pl_user p = uid \<and> pl_liked p) (db_playlists db) of
          Some p \<Rightarrow> (db, Inr p)
        | None \<Rightarrow>
            (let p = \<lparr>pl_id = ''liked-'' @ uid, pl_user = uid, pl_name = ''Liked Tracks'', pl_liked = True,
                       pl_count = 0, pl_tracks = [], pl_created_at = now, pl_updated_at = now\<rparr> in
             case CreatePlaylist f p db of Inl e \<Rightarrow> (db, Inl e) | Inr db' \<Rightarrow> (db', Inr p)))"

section \<open>Handlers\<close>

type_synonym 'a playlist_reply = "pgdb \<times> 'a response"

definition List_playlists :: "env \<Rightarrow> User option \<Rightarrow> bool \<Rightarrow> pgdb \<Rightarrow> Playlist list playlist_reply" where
  "List_playlists env user tracks db =
     (case user of
        None \<Rightarrow> (db, HttpError 401 ''authentication required'')
      | Some u \<Rightarrow>
          (let f = env_faults env; db1 = fst (EnsureLikedPlaylist f (env_now env) (user_id u) db) in
           case (if tracks then GetPlaylistsWithTracksByUser f (user_id u) db1
                 else GetPlaylistsByUser f (user_id u) db1) of
             Inl _ \<Rightarrow> (db1, HttpError 500 ''failed to list playlists'')
           | Inr pls \<Rightarrow> (db1, HttpOK 200 pls)))"

definition Create_playlist :: "env \<Rightarrow> User option \<Rightarrow> string option \<Rightarrow> pgdb \<Rightarrow> Playlist playlist_reply" where
  "Create_playlist env user name db =
     (case user of
        None \<Rightarrow> (db, HttpError 401 ''authentication required'')
      | Some u \<Rightarrow>
          if name = None \<or> name = Some '''' then (db, HttpError 400 ''name is required'')
          else (let p = \<lparr>pl_id = env_uuid env 0, pl_user = user_id u, pl_name = the name, pl_liked = False,
                         pl_count = 0, pl_tracks = [], pl_created_at = env_now env, pl_updated_at = env_now env\<rparr> in
            case CreatePlaylist (env_faults env) p db of
              Inl _ \<Rightarrow> (db, HttpError 500 ''failed to create playlist'')
            | Inr db' \<Rightarrow> (db', HttpOK 201 p)))"

definition Get_playlist :: "env \<Rightarrow> User option \<Rightarrow> string \<Rightarrow> pgdb \<Rightarrow> Playlist response" where
  "Get_playlist env user pid db =
     (case user of
        None \<Rightarrow> HttpError 401 ''authentication required''
      | Some u \<Rightarrow> (case or_zero None (GetPlaylistWithTracks (env_faults env) pid db) of
            None \<Rightarrow> HttpError 404 ''playlist not found''
          | Some p \<Rightarrow> if pl_user p \<noteq> user_id u then HttpError 403 ''not your playlist'' else HttpOK 200 p))"

text \<open>The look-up that guards every write; its error is dropped, so a failed read is a zero playlist.\<close>

definition owned_playlist :: "env \<Rightarrow> User \<Rightarrow> string \<Rightarrow> pgdb \<Rightarrow> Playlist option" where
  "owned_playlist env u pid db =
     (case deref_or_zero zero_playlist (GetPlaylistByID (env_faults env) pid db) of
        None \<Rightarrow> None | Some p \<Rightarrow> if pl_user p \<noteq> user_id u then None else Some p)"

definition Update_playlist ::
  "env \<Rightarrow> User option \<Rightarrow> string \<Rightarrow> string option \<Rightarrow> pgdb \<Rightarrow> Playlist playlist_reply" where
  "Update_playlist env user pid name db =
     (case user of
        None \<Rightarrow> (db, HttpError 401 ''authentication required'')
      | Some u \<Rightarrow> (case owned_playlist env u pid db of
            None \<Rightarrow> (db, HttpError 404 ''playlist not found'')
          | Some p \<Rightarrow>
              if pl_liked p then (db, HttpError 400 ''cannot rename liked tracks playlist'')
              else if name = None \<or> name = Some '''' then (db, HttpError 400 ''name is required'')
              else (or_zero db (UpdatePlaylistName (env_faults env) (env_now env) pid (the name) db),
                    HttpOK 200 (p\<lparr>pl_name := the name\<rparr>))))"

definition Delete_playlist :: "env \<Rightarrow> User option \<Rightarrow> string \<Rightarrow> pgdb \<Rightarrow> string playlist_reply" where
  "Delete_playlist env user pid db =
     (case user of
        None \<Rightarrow> (db, HttpError 401 ''authentication required'')
      | Some u \<Rightarrow> (case owned_playlist env u pid db of
            None \<Rightarrow> (db, HttpError 404 ''playlist not found'')
          | Some p \<Rightarrow>
              if pl_liked p then (db, HttpError 400 ''cannot delete liked tracks playlist'')
              else (or_zero db (DeletePlaylist (env_faults env) pid db), HttpOK 200 ''deleted'')))"

definition AddTrack :: "env \<Rightarrow> User option \<Rightarrow> string \<Rightarrow> string option \<Rightarrow> pgdb \<Rightarrow> string playlist_reply" where
  "AddTrack env user pid tid db =
     (case user of
        None \<Rightarrow> (db, HttpError 401 ''authentication required'')
      | Some u \<Rightarrow> (case owned_playlist env u pid db of
            None \<Rightarrow> (db, HttpError 404 ''playlist not found'')
          | Some p \<Rightarrow>
              if tid = None \<or> tid = Some '''' then (db, HttpError 400 ''trackId is required'')
              else (case AddTrackToPlaylist (env_faults env) (env_now env) (env_uuid env 0) (the tid) pid db of
                  Inl _ \<Rightarrow> (db, HttpError 500 ''failed to add track'')
                | Inr db' \<Rightarrow> (db', HttpOK 201 ''added''))))"

definition RemoveTrack :: "env \<Rightarrow> User option \<Rightarrow> string \<Rightarrow> string \<Rightarrow> pgdb \<Rightarrow> string playlist_reply" where
  "RemoveTrack env user pid tid db =
     (case user of
        None \<Rightarrow> (db, HttpError 401 ''authentication required'')
      | Some u \<Rightarrow> (case owned_playlist env u pid db of
            None \<Rightarrow> (db, HttpError 404 ''playlist not found'')
          | Some p \<Rightarrow>
              (or_zero db (RemoveTrackFromPlaylist (env_faults env) (env_now env) pid tid db), HttpOK 200 ''removed'')))"

end
