(* ===== verification/Rooms.thy ===== *)
theory Rooms
  imports DJKey Checks Playlists
begin

text \<open>
  Rooms over HTTP: the handlers of \<open>internal/handlers/rooms.go\<close> and \<open>queue.go\<close>. A request carries
  the session and the user that the middlewares resolved, the DJ key of its header and its decoded
  body (\<open>None\<close> when decoding failed). \<open>time.Parse\<close> for RFC 3339 is an argument. What the handlers
  keep in memory is the cache of DJ keys and, for the list, the cache of payloads.
\<close>

section \<open>Slugs\<close>

definition slug_char :: "char \<Rightarrow> bool" where
  "slug_char c = (let n = of_char c :: nat in 97 \<le> n \<and> n \<le> 122 \<or> 48 \<le> n \<and> n \<le> 57)"

text \<open>\<open>ReplaceAllString\<close> of runs of other characters by one dash; the flag tells that the run of the
  previous character goes on.\<close>

fun dash_runs :: "bool \<Rightarrow> string \<Rightarrow> string" where
  "dash_runs inside [] = []"
| "dash_runs inside (c # s) =
     (if slug_char c then c # dash_runs False s
      else if inside then dash_runs True s else CHR ''-'' # dash_runs True s)"

definition trim_dashes :: "string \<Rightarrow> string" where
  "trim_dashes s = rev (dropWhile (\<lambda>c. c = CHR ''-'') (rev (dropWhile (\<lambda>c. c = CHR ''-'') s)))"

definition toSlug :: "string \<Rightarrow> string" where
  "toSlug name = (let s = trim_dashes (dash_runs False (lower_text (trim_space name))) in
     if s = '''' then ''room'' else s)"

section \<open>Creating a room\<close>

record create_request =
  cr_name :: string
  cr_description :: string
  cr_genre :: string
  cr_vibes :: "string list"
  cr_policy :: string
  cr_scheduled :: string
  cr_cover :: string
  cr_gradient :: string
  cr_playlist :: string

text \<open>The checks on the request itself, in order.\<close>

definition create_check :: "create_request \<Rightarrow> string option" where
  "create_check q =
     (if cr_name q = '''' then Some ''name is required''
      else if rune_count (cr_name q) > 40 then Some ''name must be 40 characters or less''
      else if rune_count (cr_description q) > 500 then Some ''description must be 500 characters or less''
      else if ContainsProfanity (cr_name q) \<or> ContainsProfanity (cr_description q)
      then Some ''room name or description contains prohibited language''
      else if \<not> validateCoverArt (cr_cover q) then Some (''cover image too large '' @ em_dash @ '' please choose a smaller image'')
      else if validateCSSValue (cr_gradient q) 300 \<noteq> None then Some ''invalid cover gradient''
      else None)"

definition dj_display_name :: "Session \<Rightarrow> User \<Rightarrow> string" where
  "dj_display_name s u =
     (if user_stage_name u \<noteq> '''' then user_stage_name u
      else if user_display_name u \<noteq> '''' then user_display_name u else session_name s)"

definition new_room ::
  "(string \<Rightarrow> gotime option) \<Rightarrow> env \<Rightarrow> Session \<Rightarrow> User \<Rightarrow> create_request \<Rightarrow> string \<Rightarrow> Room" where
  "new_room rfc3339 env s u q keyHash = zero_room\<lparr>
     room_id := env_uuid env 1, room_slug := toSlug (cr_name q) @ ''-'' @ take 8 (env_uuid env 0),
     room_name := cr_name q, room_description := cr_description q, room_genre := cr_genre q,
     room_vibes := take 3 (cr_vibes q), room_cover_gradient := cr_gradient q, room_cover_art := cr_cover q,
     room_policy := (if cr_policy q = '''' then PolicyOpen else cr_policy q),
     room_dj_key_hash := keyHash, room_dj_session := session_id s, room_dj_name := dj_display_name s u,
     room_dj_color := session_color s, room_creator := user_id u, room_created_at := env_now env,
     room_scheduled := (if cr_scheduled q = '''' then None else rfc3339 (cr_scheduled q))\<rparr>"

text \<open>The queue of a new room is filled from a playlist of its creator; every failure is only logged.\<close>

definition preload_track :: "env \<Rightarrow> PlaylistTrack \<Rightarrow> Track" where
  "preload_track env pt = zero_track\<lparr>track_id := pt_track pt, track_title := pt_title pt, track_artist := pt_artist pt,
     track_duration := pt_duration pt, track_source := pt_source pt, track_url := pt_url pt,
     track_gradient := pt_gradient pt, track_created_at := env_now env\<rparr>"

definition preload_entry :: "env \<Rightarrow> Room \<Rightarrow> nat \<Rightarrow> PlaylistTrack \<Rightarrow> QueueEntry" where
  "preload_entry env room i pt =
     \<lparr>entry_id = env_uuid env (2 + i), entry_room = room_id room, entry_track = preload_track env pt,
      entry_submitter = room_dj_name room, entry_session = room_dj_session room, entry_status = QueueApproved,
      entry_position = 0, entry_created_at = env_now env\<rparr>"

definition preload :: "env \<Rightarrow> User \<Rightarrow> string \<Rightarrow> Room \<Rightarrow> pgdb \<Rightarrow> pgdb" where
  "preload env u pid room db =
     (if pid = '''' then db
      else case or_zero None (GetPlaylistWithTracks (env_faults env) pid db) of
          None \<Rightarrow> db
        | Some pl \<Rightarrow>
            if pl_user pl \<noteq> user_id u \<or> pl_tracks pl = [] then db
            else (case UpsertTracks (env_faults env) (map (preload_track env) (pl_tracks pl)) db of
                Inl _ \<Rightarrow> db
              | Inr db1 \<Rightarrow> or_zero db1 (AddTracksToQueue (env_faults env) (room_id room)
                  (map2 (preload_entry env room) [0 ..< length (pl_tracks pl)] (pl_tracks pl)) db1)))"

text \<open>The limits: a failed count lets the request through.\<close>

definition create_limits :: "auth_config \<Rightarrow> env \<Rightarrow> User \<Rightarrow> server \<Rightarrow> server \<times> string option" where
  "create_limits cf env u sv =
     (if (case CountActiveRoomsByCreator (env_faults env) (user_id u) (sv_pg sv) of Inl _ \<Rightarrow> False | Inr n \<Rightarrow> n \<ge> 5)
      then (sv, Some (''you already have 5 open jukeboxes '' @ em_dash @ '' end one before creating another''))
      else (case limited cf (\<lambda>rl. AllowRoomCreate (env_rfaults env) (env_now env) (user_id u)) sv of
          (sv1, True) \<Rightarrow> (sv1, None)
        | (sv1, False) \<Rightarrow> (sv1, Some (''you're creating jukeboxes too fast '' @ em_dash @ '' please slow down''))))"

definition Create ::
  "outside \<Rightarrow> (string \<Rightarrow> gotime option) \<Rightarrow> auth_config \<Rightarrow> env \<Rightarrow> Session option \<Rightarrow> User option \<Rightarrow> create_request option
     \<Rightarrow> server \<Rightarrow> server \<times> (Room \<times> string) response" where
  "Create ext rfc3339 cf env session user req sv =
     (case session of
        None \<Rightarrow> (sv, HttpError 401 ''no session'')
      | Some s \<Rightarrow> (case user of
            None \<Rightarrow> (sv, HttpError 401 ''you must be logged in to create a jukebox'')
          | Some u \<Rightarrow>
              if \<not> user_email_verified u
              then (sv, HttpError 403 (''verify your email address to create a jukebox '' @ em_dash
                     @ '' check your inbox for the verification link''))
              else (case req of
                  None \<Rightarrow> (sv, HttpError 400 ''invalid JSON'')
                | Some q \<Rightarrow> (case create_check q of
                      Some msg \<Rightarrow> (sv, HttpError 400 msg)
                    | None \<Rightarrow> (case create_limits cf env u sv of
                          (sv1, Some msg) \<Rightarrow> (sv1, HttpError 429 msg)
                        | (sv1, None) \<Rightarrow> (case GenerateDJKey ext 0 of
                              None \<Rightarrow> (sv1, HttpError 500 ''failed to generate DJ key'')
                            | Some (djKey, keyHash) \<Rightarrow>
                                (let room = new_room rfc3339 env s u q keyHash in
                                 case CreateRoom (env_faults env) room (sv_pg sv1) of
                                   Inl _ \<Rightarrow> (sv1, HttpError 500 ''failed to create room'')
                                 | Inr db \<Rightarrow> (sv1\<lparr>sv_pg := preload env u (cr_playlist q) room db\<rparr>,
                                     HttpOK 201 (room, djKey)))))))))"

section \<open>The list of rooms\<close>

record RoomWithNowPlaying =
  rw_room :: Room
  rw_now :: "Track option"
  rw_chat :: "ChatMessage list"

text \<open>\<open>GetPlaybackStates\<close> yields no nil entries, so a state is there or not.\<close>

fun collect_ids :: "string list \<Rightarrow> (string \<rightharpoonup> PlaybackState) \<Rightarrow> Room list \<Rightarrow> string list" where
  "collect_ids seen playbacks [] = []"
| "collect_ids seen playbacks (r # rs) =
     (case (if room_is_live r then playbacks (room_id r) else None) of
        None \<Rightarrow> collect_ids seen playbacks rs
      | Some ps \<Rightarrow>
          if ps_track ps \<noteq> '''' \<and> ps_track ps \<notin> set seen
          then ps_track ps # collect_ids (ps_track ps # seen) playbacks rs
          else collect_ids seen playbacks rs)"

definition nowPlayingTrackIDs :: "Room list \<Rightarrow> (string \<rightharpoonup> PlaybackState) \<Rightarrow> string list" where
  "nowPlayingTrackIDs rooms playbacks = collect_ids [] playbacks rooms"

definition assemble_one ::
  "(string \<rightharpoonup> int) \<Rightarrow> (string \<rightharpoonup> PlaybackState) \<Rightarrow> (string \<rightharpoonup> Track) \<Rightarrow> Room \<Rightarrow> RoomWithNowPlaying" where
  "assemble_one counts playbacks tracks r =
     \<lparr>rw_room = r\<lparr>room_listeners := (case counts (room_id r) of None \<Rightarrow> 0 | Some n \<Rightarrow> n)\<rparr>,
      rw_now = (if \<not> room_is_live r then None
        else case playbacks (room_id r) of
            None \<Rightarrow> None
          | Some ps \<Rightarrow> if ps_track ps \<noteq> '''' then tracks (ps_track ps) else None),
      rw_chat = []\<rparr>"

definition assembleRoomsList ::
  "Room list \<Rightarrow> (string \<rightharpoonup> int) \<Rightarrow> (string \<rightharpoonup> PlaybackState) \<Rightarrow> (string \<rightharpoonup> Track) \<Rightarrow> RoomWithNowPlaying list" where
  "assembleRoomsList rooms counts playbacks tracks = map (assemble_one counts playbacks tracks) rooms"

definition strip_cover :: "RoomWithNowPlaying \<Rightarrow> RoomWithNowPlaying" where
  "strip_cover x = x\<lparr>rw_room := (rw_room x)\<lparr>room_cover_art :=
     stripOversizedCover (room_cover_art (rw_room x)) maxDataURLCoverBytes\<rparr>\<rparr>"

definition stripListCovers :: "RoomWithNowPlaying list \<Rightarrow> RoomWithNowPlaying list" where
  "stripListCovers xs = map strip_cover xs"

text \<open>The first loop looks for a live featured room, the second for the live room with the most
  listeners; \<open>None\<close> stands for -1.\<close>

fun flagged_from :: "nat \<Rightarrow> RoomWithNowPlaying list \<Rightarrow> nat option" where
  "flagged_from i [] = None"
| "flagged_from i (x # xs) =
     (if room_is_live (rw_room x) \<and> room_is_featured (rw_room x) then Some i else flagged_from (Suc i) xs)"

fun most_listened :: "nat option \<Rightarrow> int \<Rightarrow> nat \<Rightarrow> RoomWithNowPlaying list \<Rightarrow> nat option" where
  "most_listened idx best i [] = idx"
| "most_listened idx best i (x # xs) =
     (if \<not> room_is_live (rw_room x) then most_listened idx best (Suc i) xs
      else if idx = None \<or> room_listeners (rw_room x) > best
      then most_listened (Some i) (room_listeners (rw_room x)) (Suc i) xs
      else most_listened idx best (Suc i) xs)"

definition featuredRoomIndex :: "RoomWithNowPlaying list \<Rightarrow> nat option" where
  "featuredRoomIndex xs = (case flagged_from 0 xs of Some i \<Rightarrow> Some i | None \<Rightarrow> most_listened None 0 0 xs)"

definition attach_chat :: "env \<Rightarrow> pgdb \<Rightarrow> RoomWithNowPlaying list \<Rightarrow> RoomWithNowPlaying list" where
  "attach_chat env db xs = (case featuredRoomIndex xs of
       None \<Rightarrow> xs
     | Some i \<Rightarrow> xs[i := (xs ! i)\<lparr>rw_chat :=
         or_zero [] (GetRecentChat (env_faults env) (room_id (rw_room (xs ! i))) 3 db)\<rparr>])"

definition buildRoomsList :: "env \<Rightarrow> bool \<Rightarrow> string \<Rightarrow> server \<Rightarrow> RoomWithNowPlaying list fallible" where
  "buildRoomsList env liveOnly genre sv =
     (let f = env_faults env; g = env_rfaults env in
      case ListRooms f (env_now env) liveOnly genre (sv_pg sv) of
        Inl e \<Rightarrow> Inl e
      | Inr rooms \<Rightarrow>
          (let counts = GetListenerCounts g (map room_id rooms) (sv_redis sv);
               playbacks = or_zero Map.empty
                 (GetPlaybackStates g (map room_id (filter room_is_live rooms)) (sv_redis sv));
               tracks = or_zero Map.empty (GetTracksByIDs f (nowPlayingTrackIDs rooms playbacks) (sv_pg sv)) in
           Inr (attach_chat env (sv_pg sv) (stripListCovers (assembleRoomsList rooms counts playbacks tracks)))))"

definition list_key :: "bool \<Rightarrow> string \<Rightarrow> string" where
  "list_key liveOnly genre = ''live='' @ (if liveOnly then ''true'' else ''false'') @ ''&genre='' @ genre"

definition List_rooms ::
  "env \<Rightarrow> bool \<Rightarrow> string \<Rightarrow> server \<Rightarrow> RoomWithNowPlaying list bounded
     \<Rightarrow> RoomWithNowPlaying list bounded \<times> RoomWithNowPlaying list response" where
  "List_rooms env liveOnly genre sv cache =
     (case getOrBuild (env_now env) (list_key liveOnly genre) (buildRoomsList env liveOnly genre sv) cache of
        (c, Inl _) \<Rightarrow> (c, HttpError 500 ''internal error'')
      | (c, Inr rooms) \<Rightarrow> (c, HttpOK 200 rooms))"

section \<open>One room\<close>

record RoomDetail =
  det_room :: Room
  det_now :: "Track option"
  det_queue :: "QueueEntry list"
  det_chat :: "ChatMessage list"
  det_state :: PlaybackState

definition Get_room :: "env \<Rightarrow> string \<Rightarrow> server \<Rightarrow> RoomDetail response" where
  "Get_room env slug sv =
     (let f = env_faults env; g = env_rfaults env; db = sv_pg sv in
      case GetRoomBySlug f slug db of
        Inl _ \<Rightarrow> HttpError 500 ''internal error''
      | Inr None \<Rightarrow> HttpError 404 ''room not found''
      | Inr (Some room) \<Rightarrow>
          (let rid = room_id room in HttpOK 200
            \<lparr>det_room = room\<lparr>room_listeners := or_zero 0 (GetListenerCount g rid (sv_redis sv)),
                room_cover_art := stripOversizedCover (room_cover_art room) maxDataURLDetailBytes\<rparr>,
             det_now = deref_or_zero zero_track (GetNowPlaying f rid db),
             det_queue = or_zero [] (GetQueue f rid db),
             det_chat = or_zero [] (GetRecentChat f rid 50 db),
             det_state = (case or_zero None (GetPlaybackState g rid (sv_redis sv)) of
                 None \<Rightarrow> \<lparr>ps_room = rid, ps_track = '''', ps_started_at = 0, ps_playing = False, ps_pause_position = 0\<rparr>
               | Some ps \<Rightarrow> ps)\<rparr>))"

definition GetHistory :: "env \<Rightarrow> string \<Rightarrow> server \<Rightarrow> QueueEntry list response" where
  "GetHistory env slug sv =
     (case or_zero None (GetRoomBySlug (env_faults env) slug (sv_pg sv)) of
        None \<Rightarrow> HttpError 404 ''room not found''
      | Some room \<Rightarrow> (case GetPlayedTracks (env_faults env) (room_id room) (sv_pg sv) of
            Inl _ \<Rightarrow> HttpError 500 ''internal error''
          | Inr played \<Rightarrow> HttpOK 200 played))"

definition GetAutoplayTracks :: "env \<Rightarrow> string \<Rightarrow> server \<Rightarrow> (AutoplayTrack list \<times> int \<times> string option) response" where
  "GetAutoplayTracks env slug sv =
     (case or_zero None (GetRoomBySlug (env_faults env) slug (sv_pg sv)) of
        None \<Rightarrow> HttpError 404 ''room not found''
      | Some room \<Rightarrow>
          if \<not> room_is_autoplay room then HttpOK 200 ([], 0, None)
          else (case or_zero None (GetAutoplayPlaylist (env_faults env) (room_id room) ''live'' (sv_pg sv)) of
              None \<Rightarrow> HttpOK 200 ([], 0, None)
            | Some pl \<Rightarrow> HttpOK 200 (ap_tracks pl, ap_index pl, Some (ap_name pl))))"

section \<open>Going live and ending\<close>

text \<open>The look-up and the key check with which every handler for DJs begins: the room, or the answer
  that refuses the request.\<close>

definition for_dj ::
  "outside \<Rightarrow> env \<Rightarrow> string \<Rightarrow> string \<Rightarrow> string \<Rightarrow> server \<Rightarrow> dj_cache \<Rightarrow> dj_cache \<times> ((nat \<times> string) + Room)" where
  "for_dj ext env denied slug djKey sv c =
     (case or_zero None (GetRoomBySlug (env_faults env) slug (sv_pg sv)) of
        None \<Rightarrow> (c, Inl (404, ''room not found''))
      | Some room \<Rightarrow> (case VerifyDJKey ext (env_now env) djKey (room_dj_key_hash room) c of
            (c', ok) \<Rightarrow> (c', if ok then Inr room else Inl (403, denied))))"

definition live_track :: "env \<Rightarrow> SubmitTrackPayload \<Rightarrow> Track" where
  "live_track env q = zero_track\<lparr>track_id := env_uuid env 0, track_title := sp_title q, track_artist := sp_artist q,
     track_duration := sp_duration q, track_source := sp_source q, track_url := sp_url q, track_created_at := env_now env\<rparr>"

definition go_live :: "env \<Rightarrow> Room \<Rightarrow> Track \<Rightarrow> server \<Rightarrow> server" where
  "go_live env room t sv =
     (let f = env_faults env; rid = room_id room; now = env_now env;
          ps = \<lparr>ps_room = rid, ps_track = track_id t, ps_started_at = unix_milli now, ps_playing = True, ps_pause_position = 0\<rparr>;
          sv1 = sv_pg_do (SetNowPlaying f now rid (track_id t)) (sv_pg_do (UpsertTrack f t) sv);
          sv2 = sv_pg_do (SetRoomLive f now rid True) (sv_redis_do (SetPlaybackState (env_rfaults env) ps) sv1);
          sv3 = ScheduleAdvance env rid (Some t) (ps_started_at ps) sv2 in
      broadcastTo env rid (MQueueUpdate (or_zero [] (GetQueue f rid (sv_pg sv3))))
        (broadcastTo env rid (MPlaybackState ps) (broadcastTo env rid (MTrackChanged (Some t)) sv3)))"

definition GoLive ::
  "outside \<Rightarrow> env \<Rightarrow> string \<Rightarrow> string \<Rightarrow> SubmitTrackPayload option \<Rightarrow> server \<Rightarrow> dj_cache
     \<Rightarrow> dj_cache \<times> server \<times> Track response" where
  "GoLive ext env slug djKey req sv c =
     (case for_dj ext env ''invalid DJ key'' slug djKey sv c of
        (c', Inl (code, msg)) \<Rightarrow> (c', sv, HttpError code msg)
      | (c', Inr room) \<Rightarrow> (case req of
            None \<Rightarrow> (c', sv, HttpError 400 ''invalid JSON'')
          | Some q \<Rightarrow> (c', go_live env room (live_track env q) sv, HttpOK 200 (live_track env q))))"

definition endRoom :: "env \<Rightarrow> Room \<Rightarrow> server \<Rightarrow> server" where
  "endRoom env room sv =
     (let f = env_faults env; g = env_rfaults env; rid = room_id room;
          sv1 = sv_pg_do (ClearNowPlaying f rid) (sv_pg_do (EndRoom f (env_now env) rid) sv);
          sv2 = sv_redis_do (ClearListeners g rid) (sv_redis_do (ClearPlaybackState g rid) sv1) in
      broadcastTo env rid (MRoomEnded ''DJ ended the session'') (CancelAdvance rid sv2))"

definition EndSession ::
  "outside \<Rightarrow> env \<Rightarrow> string \<Rightarrow> string \<Rightarrow> server \<Rightarrow> dj_cache \<Rightarrow> dj_cache \<times> server \<times> string response" where
  "EndSession ext env slug djKey sv c =
     (case for_dj ext env ''invalid DJ key'' slug djKey sv c of
        (c', Inl (code, msg)) \<Rightarrow> (c', sv, HttpError code msg)
      | (c', Inr room) \<Rightarrow> (c', endRoom env room sv, HttpOK 200 ''ended''))"

section \<open>Saving a session\<close>

fun distinct_ids :: "string list \<Rightarrow> string list \<Rightarrow> string list" where
  "distinct_ids seen [] = []"
| "distinct_ids seen (x # xs) =
     (if x = '''' \<or> x \<in> set seen then distinct_ids seen xs else x # distinct_ids (x # seen) xs)"

definition sessionPlaylistTrackIDs :: "string \<Rightarrow> QueueEntry list \<Rightarrow> string list" where
  "sessionPlaylistTrackIDs nowPlaying queued =
     (let first = (if nowPlaying \<noteq> '''' then [nowPlaying] else []) in
      first @ distinct_ids first (map (\<lambda>e. track_id (entry_track e)) queued))"

text \<open>Adding the tracks failed: the empty playlist is deleted again, as far as that works.\<close>

definition SaveSession :: "env \<Rightarrow> User option \<Rightarrow> string \<Rightarrow> server \<Rightarrow> server \<times> (Playlist \<times> nat) response" where
  "SaveSession env user slug sv =
     (case user of
        None \<Rightarrow> (sv, HttpError 401 ''login required'')
      | Some u \<Rightarrow> (case or_zero None (GetRoomBySlug (env_faults env) slug (sv_pg sv)) of
            None \<Rightarrow> (sv, HttpError 404 ''room not found'')
          | Some room \<Rightarrow>
              (let f = env_faults env; now = env_now env; db = sv_pg sv;
                   queued = or_zero [] (GetAllSessionTracks f (room_id room) db);
                   playing = (case or_zero None (GetPlaybackState (env_rfaults env) (room_id room) (sv_redis sv)) of
                       None \<Rightarrow> '''' | Some ps \<Rightarrow> ps_track ps);
                   pl = \<lparr>pl_id = env_uuid env 0, pl_user = user_id u,
                          pl_name = room_name room @ '' '' @ em_dash @ '' '' @ room_dj_name room, pl_liked = False,
                          pl_count = 0, pl_tracks = [], pl_created_at = now, pl_updated_at = now\<rparr>;
                   trackIDs = sessionPlaylistTrackIDs playing queued;
                   rowIDs = map (\<lambda>i. env_uuid env (1 + i)) [0 ..< length trackIDs] in
               if queued = [] then (sv, HttpError 400 ''no tracks to save'')
               else (case CreatePlaylist f pl db of
                   Inl _ \<Rightarrow> (sv, HttpError 500 ''failed to create playlist'')
                 | Inr db1 \<Rightarrow> (case AddTracksToPlaylist f now (pl_id pl) rowIDs trackIDs db1 of
                       Inl _ \<Rightarrow> (sv\<lparr>sv_pg := or_zero db1 (DeletePlaylist f (pl_id pl) db1)\<rparr>,
                                  HttpError 500 ''failed to save playlist'')
                     | Inr db2 \<Rightarrow> (sv\<lparr>sv_pg := db2\<rparr>, HttpOK 201 (pl, length trackIDs)))))))"

section \<open>The queue over HTTP\<close>

definition GetQueue_handler :: "env \<Rightarrow> string \<Rightarrow> server \<Rightarrow> QueueEntry list response" where
  "GetQueue_handler env slug sv =
     (case or_zero None (GetRoomBySlug (env_faults env) slug (sv_pg sv)) of
        None \<Rightarrow> HttpError 404 ''room not found''
      | Some room \<Rightarrow> (case GetQueue (env_faults env) (room_id room) (sv_pg sv) of
            Inl _ \<Rightarrow> HttpError 500 ''internal error''
          | Inr queue \<Rightarrow> HttpOK 200 queue))"

text \<open>The checks on a submission by a session: a message with its status, or nothing.\<close>

definition http_submit_check ::
  "auth_config \<Rightarrow> env \<Rightarrow> string \<Rightarrow> Room \<Rightarrow> bool \<Rightarrow> SubmitTrackPayload \<Rightarrow> server \<Rightarrow> server \<times> (nat \<times> string) option" where
  "http_submit_check cf env sid room isDJ p sv =
     (case ValidateTrackSubmission (env_parse env) (sp_title p) (sp_artist p) (sp_source p) (sp_url p) (sp_duration p) isDJ of
        Some err \<Rightarrow> (sv, Some (400, err))
      | None \<Rightarrow>
          if ContainsProfanity (sp_title p) \<or> ContainsProfanity (sp_artist p)
          then (sv, Some (400, ''track title contains prohibited language''))
          else if isDJ then (sv, None)
          else (case limited cf (\<lambda>rl. AllowQueueSubmit (env_rfaults env) (env_now env) sid (room_id room)) sv of
              (sv1, False) \<Rightarrow> (sv1, Some (429, ''you're submitting too fast '' @ em_dash @ '' please slow down''))
            | (sv1, True) \<Rightarrow>
                (case CountActiveQueueEntriesBySession (env_faults env) (room_id room) sid (sv_pg sv1) of
                   Inl _ \<Rightarrow> (sv1, None)
                 | Inr n \<Rightarrow> if n \<ge> 10
                     then (sv1, Some (429, ''you already have 10 tracks waiting '' @ em_dash @ '' let some play first''))
                     else (sv1, None))))"

definition http_entry :: "env \<Rightarrow> Session \<Rightarrow> Room \<Rightarrow> QueueEntryStatus \<Rightarrow> Track \<Rightarrow> QueueEntry" where
  "http_entry env s room st t = \<lparr>entry_id = env_uuid env 1, entry_room = room_id room, entry_track = t,
     entry_submitter = session_name s, entry_session = session_id s, entry_status = st, entry_position = 0,
     entry_created_at = env_now env\<rparr>"

definition http_submit_store ::
  "env \<Rightarrow> Session \<Rightarrow> Room \<Rightarrow> bool \<Rightarrow> SubmitTrackPayload \<Rightarrow> server \<Rightarrow> server \<times> QueueEntry response" where
  "http_submit_store env s room isDJ p sv =
     (let f = env_faults env; t = live_track env p in
      case UpsertTrack f t (sv_pg sv) of
        Inl _ \<Rightarrow> (sv, HttpError 500 ''failed to save track'')
      | Inr db1 \<Rightarrow>
          (let st = submit_status room isDJ in
           case AddToQueue f (http_entry env s room st t) db1 of
             Inl _ \<Rightarrow> (sv\<lparr>sv_pg := db1\<rparr>, HttpError 500 ''failed to add to queue'')
           | Inr (db2, e) \<Rightarrow>
               (let sv2 = sv\<lparr>sv_pg := db2\<rparr> in
                (if st = QueueApproved
                 then broadcastTo env (room_id room) (MQueueUpdate (or_zero [] (GetQueue f (room_id room) db2))) sv2
                 else sv2, HttpOK 201 e))))"

definition SubmitTrack ::
  "outside \<Rightarrow> auth_config \<Rightarrow> env \<Rightarrow> Session option \<Rightarrow> string \<Rightarrow> string \<Rightarrow> SubmitTrackPayload option \<Rightarrow> server \<Rightarrow> dj_cache
     \<Rightarrow> dj_cache \<times> server \<times> QueueEntry response" where
  "SubmitTrack ext cf env session slug djKey req sv c =
     (case session of
        None \<Rightarrow> (c, sv, HttpError 401 ''no session'')
      | Some s \<Rightarrow> (case or_zero None (GetRoomBySlug (env_faults env) slug (sv_pg sv)) of
            None \<Rightarrow> (c, sv, HttpError 404 ''room not found'')
          | Some room \<Rightarrow> (case VerifyDJKey ext (env_now env) djKey (room_dj_key_hash room) c of
                (c', isDJ) \<Rightarrow>
                  if room_policy room = PolicyClosed \<and> \<not> isDJ then (c', sv, HttpError 403 ''requests are closed'')
                  else (case req of
                      None \<Rightarrow> (c', sv, HttpError 400 ''invalid JSON'')
                    | Some p \<Rightarrow> (case http_submit_check cf env (session_id s) room isDJ p sv of
                          (sv1, Some (code, msg)) \<Rightarrow> (c', sv1, HttpError code msg)
                        | (sv1, None) \<Rightarrow> (c', http_submit_store env s room isDJ p sv1))))))"

definition GetPendingRequests_handler ::
  "outside \<Rightarrow> env \<Rightarrow> string \<Rightarrow> string \<Rightarrow> server \<Rightarrow> dj_cache \<Rightarrow> dj_cache \<times> QueueEntry list response" where
  "GetPendingRequests_handler ext env slug djKey sv c =
     (case for_dj ext env ''DJ key required'' slug djKey sv c of
        (c', Inl (code, msg)) \<Rightarrow> (c', HttpError code msg)
      | (c', Inr room) \<Rightarrow> (case GetPendingRequests (env_faults env) (room_id room) (sv_pg sv) of
            Inl _ \<Rightarrow> (c', HttpError 500 ''internal error'')
          | Inr pending \<Rightarrow> (c', HttpOK 200 pending)))"

end
