(* ===== verification/PlaylistProps.thy ===== *)
theory PlaylistProps
  imports Playlists
begin

text \<open>
  What playlists promise: the order of the tracks that a client sees is that of an ordered set to
  which tracks are appended and from which they are removed, whether they are added singly or in
  a batch; and nobody's requests touch another user's playlists.
\<close>

section \<open>Ordered sets\<close>

fun append_new :: "'a list \<Rightarrow> 'a list \<Rightarrow> 'a list" where
  "append_new xs [] = xs"
| "append_new xs (y # ys) = append_new (if y \<in> set xs then xs else xs @ [y]) ys"

lemma set_append_new [simp]: "set (append_new xs ys) = set xs \<union> set ys"
  by (induction xs ys rule: append_new.induct) auto

lemma distinct_append_new: "distinct xs \<Longrightarrow> distinct (append_new xs ys)"
  by (induction xs ys rule: append_new.induct) auto

lemma append_new_snoc: "append_new xs (ys @ [y]) = append_new (append_new xs ys) [y]"
  by (induction xs ys rule: append_new.induct) auto

lemma append_new_distinct: "distinct (xs @ ys) \<Longrightarrow> append_new xs ys = xs @ ys"
  by (induction xs ys rule: append_new.induct) auto

text \<open>
  A keyed store simulates a specification of its values: a step at a key that succeeds acts on that
  key's value as the specification says and on no other; a step that fails has no effect.
\<close>

fun steps_at :: "('k \<Rightarrow> 'o \<Rightarrow> 's \<Rightarrow> 's fallible) \<Rightarrow> ('k \<times> 'o) list \<Rightarrow> 's \<Rightarrow> 's" where
  "steps_at do_op [] s = s"
| "steps_at do_op ((k, x) # ops) s = steps_at do_op ops (or_zero s (do_op k x s))"

fun succeeded_at :: "('k \<Rightarrow> 'o \<Rightarrow> 's \<Rightarrow> 's fallible) \<Rightarrow> 'k \<Rightarrow> ('k \<times> 'o) list \<Rightarrow> 's \<Rightarrow> 'o list" where
  "succeeded_at do_op k0 [] s = []"
| "succeeded_at do_op k0 ((k, x) # ops) s =
     (if k = k0 \<and> (\<exists>s'. do_op k x s = Inr s') then [x] else [])
     @ succeeded_at do_op k0 ops (or_zero s (do_op k x s))"

locale keyed_simulation =
  fixes inv :: "'s \<Rightarrow> bool"
    and view :: "'k \<Rightarrow> 's \<Rightarrow> 'v"
    and admissible :: "'o \<Rightarrow> bool"
    and effect :: "'o \<Rightarrow> 'v \<Rightarrow> 'v"
    and do_op :: "'k \<Rightarrow> 'o \<Rightarrow> 's \<Rightarrow> 's fallible"
  assumes op_view: "inv s \<Longrightarrow> admissible x \<Longrightarrow> do_op k x s = Inr s' \<Longrightarrow> view k s' = effect x (view k s)"
    and op_other: "inv s \<Longrightarrow> do_op k x s = Inr s' \<Longrightarrow> k' \<noteq> k \<Longrightarrow> view k' s' = view k' s"
    and op_inv: "inv s \<Longrightarrow> do_op k x s = Inr s' \<Longrightarrow> inv s'"
begin

lemma run_view:
  assumes "inv s" and "\<forall>(k, x) \<in> set ops. admissible x"
  shows "view k (steps_at do_op ops s) = fold effect (succeeded_at do_op k ops s) (view k s)
    \<and> inv (steps_at do_op ops s)"
  using assms
proof (induction ops arbitrary: s)
  case Nil
  then show ?case by simp
next
  case (Cons kx ops)
  obtain k' x where kx: "kx = (k', x)" by (cases kx)
  show ?case
  proof (cases "do_op k' x s")
    case (Inl e)
    with Cons show ?thesis by (simp add: kx)
  next
    case (Inr s')
    have "inv s'" using op_inv [OF Cons.prems(1) Inr] .
    from Cons.IH [OF this] have rest: "view k (steps_at do_op ops s') = fold effect (succeeded_at do_op k ops s') (view k s')
        \<and> inv (steps_at do_op ops s')"
      using Cons.prems(2) by simp
    show ?thesis
    proof (cases "k' = k")
      case True
      have "view k s' = effect x (view k s)"
        using op_view [OF Cons.prems(1) _ Inr [unfolded True]] Cons.prems(2) kx by simp
      with rest True Inr show ?thesis by (simp add: kx)
    next
      case False
      with rest op_other [OF Cons.prems(1) Inr] Inr show ?thesis by (simp add: kx)
    qed
  qed
qed

end

section \<open>Playlists as ordered sets of tracks\<close>

definition rows_joined :: "pgdb \<Rightarrow> bool" where
  "rows_joined db \<longleftrightarrow> (\<forall>r \<in> set (db_playlist_tracks db). has_track (plr_track r) db)"

definition shown_tracks :: "string \<Rightarrow> pgdb \<Rightarrow> string list" where
  "shown_tracks pid db = map pt_track (tracks_of pid db)"

definition listed_tracks :: "string \<Rightarrow> PlaylistRow list \<Rightarrow> string list" where
  "listed_tracks pid rows = map plr_track (order_by plr_position (filter (\<lambda>r. plr_playlist r = pid) rows))"

lemma playlist_track_joined:
  "has_track (plr_track r) db \<Longrightarrow> \<exists>t. playlist_track db r = Some t \<and> pt_track t = plr_track r"
  using find_row_None [of "\<lambda>t. track_id t = plr_track r" "db_tracks db"]
  by (cases "find_row (\<lambda>t. track_id t = plr_track r) (db_tracks db)")
    (auto simp: playlist_track_def has_track_def)

lemma shown_listed:
  assumes "rows_joined db"
  shows "shown_tracks pid db = listed_tracks pid (db_playlist_tracks db)"
proof -
  have "map pt_track (List.map_filter (playlist_track db) rows) = map plr_track rows"
    if "\<forall>r \<in> set rows. has_track (plr_track r) db" for rows
    using that
  proof (induction rows)
    case Nil
    then show ?case by (simp add: List.map_filter_def)
  next
    case (Cons r rows)
    from Cons.prems have "has_track (plr_track r) db" by simp
    then obtain t where "playlist_track db r = Some t" "pt_track t = plr_track r"
      using playlist_track_joined by blast
    with Cons show ?case by (simp add: List.map_filter_def)
  qed
  then show ?thesis
    using assms by (simp add: shown_tracks_def listed_tracks_def tracks_of_def rows_of_def rows_joined_def)
qed

lemma add_rows_other:
  "add_rows now pid pos new rows = Some rows' \<Longrightarrow> pid' \<noteq> pid \<Longrightarrow>
   filter (\<lambda>r. plr_playlist r = pid') rows' = filter (\<lambda>r. plr_playlist r = pid') rows"
  by (induction now pid pos new rows rule: add_rows.induct) (auto split: if_splits)

lemma add_rows_extend:
  "add_rows now pid pos new rows = Some rows' \<Longrightarrow> \<exists>added. rows' = rows @ added"
  by (induction now pid pos new rows rule: add_rows.induct) (auto split: if_splits)

lemma listed_snoc:
  assumes "\<And>r. r \<in> set rows \<Longrightarrow> plr_playlist r = pid \<Longrightarrow> plr_position r \<le> plr_position x"
  shows "listed_tracks pid (rows @ [x]) =
    (if plr_playlist x = pid then listed_tracks pid rows @ [plr_track x] else listed_tracks pid rows)"
proof (cases "plr_playlist x = pid")
  case True
  then have "order_by plr_position (filter (\<lambda>r. plr_playlist r = pid) rows @ [x])
      = order_by plr_position (filter (\<lambda>r. plr_playlist r = pid) rows) @ [x]"
    using assms by (intro order_by_append_greatest) simp
  with True show ?thesis by (simp add: listed_tracks_def)
qed (simp add: listed_tracks_def)

lemma set_listed: "set (listed_tracks pid rows) = plr_track ` {r \<in> set rows. plr_playlist r = pid}"
  by (auto simp: listed_tracks_def)

lemma add_rows_view:
  assumes "add_rows now pid pos new rows = Some rows'"
    and "\<forall>r \<in> set rows. plr_playlist r = pid \<longrightarrow> plr_position r < pos"
  shows "listed_tracks pid rows' = append_new (listed_tracks pid rows) (map snd new)"
  using assms
proof (induction now pid pos new rows rule: add_rows.induct)
  case (1 now pid pos rows)
  then show ?case by simp
next
  case (2 now pid pos rid tid rest rows)
  show ?case
  proof (cases "\<exists>r \<in> set rows. plr_playlist r = pid \<and> plr_track r = tid")
    case True
    then have "tid \<in> set (listed_tracks pid rows)" by (auto simp: set_listed)
    moreover have "\<forall>r \<in> set rows. plr_playlist r = pid \<longrightarrow> plr_position r < pos + 1" using "2.prems"(2) by auto
    ultimately show ?thesis using "2.IH"(1) [OF True] "2.prems"(1) True by simp
  next
    case False
    let ?row = "\<lparr>plr_id = rid, plr_playlist = pid, plr_track = tid, plr_position = pos, plr_added_at = now\<rparr>"
    have fresh: "\<not> (\<exists>r \<in> set rows. plr_id r = rid)"
      using False "2.prems"(1) by (auto split: if_splits)
    have new: "tid \<notin> set (listed_tracks pid rows)" using False by (auto simp: set_listed)
    have added: "add_rows now pid (pos + 1) rest (rows @ [?row]) = Some rows'"
      using "2.prems"(1) False fresh by simp
    have below: "\<forall>r \<in> set (rows @ [?row]). plr_playlist r = pid \<longrightarrow> plr_position r < pos + 1"
      using "2.prems"(2) by auto
    have "listed_tracks pid rows' = append_new (listed_tracks pid (rows @ [?row])) (map snd rest)"
      by (rule "2.IH"(2) [OF False fresh added below])
    moreover have "listed_tracks pid (rows @ [?row]) = listed_tracks pid rows @ [tid]"
      using "2.prems"(2) by (subst listed_snoc) auto
    ultimately show ?thesis using new by simp
  qed
qed

lemma below_max_position:
  "\<forall>r \<in> set (db_playlist_tracks db). plr_playlist r = pid \<longrightarrow> plr_position r < max_position pid db + 1"
proof (intro ballI impI)
  fix r assume "r \<in> set (db_playlist_tracks db)" "plr_playlist r = pid"
  then have "plr_position r \<in> set (map plr_position (rows_of pid db))" by (auto simp: rows_of_def)
  from max_or_ge [OF this, of "- 1"] show "plr_position r < max_position pid db + 1"
    by (simp add: max_position_def)
qed

lemma insert_rows_ok:
  assumes "insert_rows now pid pos new db = Inr db'"
  obtains rows where "add_rows now pid pos new (db_playlist_tracks db) = Some rows"
    and "db' = db\<lparr>db_playlist_tracks := rows\<rparr>" and "rows_joined db \<Longrightarrow> rows_joined db'"
proof -
  from assms obtain rows where add: "add_rows now pid pos new (db_playlist_tracks db) = Some rows"
      and db': "db' = db\<lparr>db_playlist_tracks := rows\<rparr>"
      and tracks: "\<forall>r \<in> set (drop (length (db_playlist_tracks db)) rows). has_track (plr_track r) db"
    by (auto simp: insert_rows_def Let_def split: option.splits if_splits)
  from add_rows_extend [OF add] tracks have "rows_joined db \<Longrightarrow> rows_joined db'"
    by (auto simp: rows_joined_def db' has_track_def)
  with add db' show thesis by (rule that)
qed

lemma touch_tables [simp]:
  "db_playlist_tracks (touch_playlist f now pid db) = db_playlist_tracks db"
  "db_tracks (touch_playlist f now pid db) = db_tracks db"
  by (simp_all add: touch_playlist_def)

lemma touch_joined [simp]: "rows_joined (touch_playlist f now pid db) = rows_joined db"
  by (simp add: rows_joined_def has_track_def)

datatype playlist_op =
    AddOne faults gotime string string
  | AddMany faults gotime "string list" "string list"
  | RemoveOne faults gotime string

fun playlist_step :: "string \<Rightarrow> playlist_op \<Rightarrow> pgdb \<Rightarrow> pgdb fallible" where
  "playlist_step pid (AddOne f now rid tid) db = AddTrackToPlaylist f now rid tid pid db"
| "playlist_step pid (AddMany f now ids tids) db = AddTracksToPlaylist f now pid ids tids db"
| "playlist_step pid (RemoveOne f now tid) db = RemoveTrackFromPlaylist f now pid tid db"

fun playlist_effect :: "playlist_op \<Rightarrow> string list \<Rightarrow> string list" where
  "playlist_effect (AddOne f now rid tid) xs = append_new xs [tid]"
| "playlist_effect (AddMany f now ids tids) xs = append_new xs tids"
| "playlist_effect (RemoveOne f now tid) xs = removeAll tid xs"

fun position_readable :: "playlist_op \<Rightarrow> bool" where
  "position_readable (AddOne f now rid tid) = (\<not> f (CPlaylists PMaxPosition))"
| "position_readable _ = True"

lemma playlist_step_rows:
  assumes "playlist_step pid x db = Inr db'"
  shows "(\<forall>pid'. pid' \<noteq> pid \<longrightarrow> listed_tracks pid' (db_playlist_tracks db') = listed_tracks pid' (db_playlist_tracks db))
    \<and> (position_readable x \<longrightarrow> listed_tracks pid (db_playlist_tracks db')
         = playlist_effect x (listed_tracks pid (db_playlist_tracks db)))
    \<and> (rows_joined db \<longrightarrow> rows_joined db')"
proof (cases x)
  case (AddOne f now rid tid)
  with assms obtain d where d: "insert_rows now pid ((if f (CPlaylists PMaxPosition) then 0 else max_position pid db) + 1)
      [(rid, tid)] db = Inr d" "db' = touch_playlist f now pid d"
    by (auto simp: AddTrackToPlaylist_def Let_def split: sum.splits if_splits)
  from insert_rows_ok [OF d(1)] obtain rows where rows: "add_rows now pid
      ((if f (CPlaylists PMaxPosition) then 0 else max_position pid db) + 1) [(rid, tid)] (db_playlist_tracks db) = Some rows"
      "d = db\<lparr>db_playlist_tracks := rows\<rparr>" "rows_joined db \<Longrightarrow> rows_joined d" by blast
  have "position_readable x \<Longrightarrow> listed_tracks pid rows = append_new (listed_tracks pid (db_playlist_tracks db)) [tid]"
    using add_rows_view [OF rows(1)] below_max_position AddOne by simp
  with rows d AddOne add_rows_other [OF rows(1)] show ?thesis by (auto simp: listed_tracks_def)
next
  case (AddMany f now ids tids)
  show ?thesis
  proof (cases "tids = []")
    case True
    with assms AddMany show ?thesis by (simp add: AddTracksToPlaylist_def)
  next
    case False
    with assms AddMany obtain d where len: "length ids = length tids"
      and d: "insert_rows now pid (max_position pid db + 1) (zip ids tids) db = Inr d"
        "db' = touch_playlist f now pid d"
      by (auto simp: AddTracksToPlaylist_def split: sum.splits if_splits)
    from insert_rows_ok [OF d(1)] obtain rows where rows: "add_rows now pid (max_position pid db + 1)
        (zip ids tids) (db_playlist_tracks db) = Some rows"
        "d = db\<lparr>db_playlist_tracks := rows\<rparr>" "rows_joined db \<Longrightarrow> rows_joined d" by blast
    have "listed_tracks pid rows = append_new (listed_tracks pid (db_playlist_tracks db)) tids"
      using add_rows_view [OF rows(1) below_max_position] len by simp
    with rows d AddMany add_rows_other [OF rows(1)] show ?thesis by (auto simp: listed_tracks_def)
  qed
next
  case (RemoveOne f now tid)
  have filters: "filter (\<lambda>r. plr_playlist r = p) (delete_where (\<lambda>r. plr_playlist r = pid \<and> plr_track r = tid) rows)
    = (if p = pid then filter (\<lambda>r. plr_track r \<noteq> tid) (filter (\<lambda>r. plr_playlist r = pid) rows)
       else filter (\<lambda>r. plr_playlist r = p) rows)" for p rows
    by (induction rows) (auto simp: delete_where_def)
  have "map plr_track (order_by plr_position (filter (\<lambda>r. plr_track r \<noteq> tid) rows))
    = removeAll tid (map plr_track (order_by plr_position rows))" for rows
    by (simp add: order_by_def filter_sort [symmetric] filter_map removeAll_filter_not_eq o_def)
      (metis (mono_tags, lifting))
  from this [of "filter (\<lambda>r. plr_playlist r = pid) (db_playlist_tracks db)"] assms RemoveOne show ?thesis
    by (auto simp: RemoveTrackFromPlaylist_def listed_tracks_def filters rows_joined_def has_track_def
        split: if_splits)
qed

interpretation track_lists: keyed_simulation rows_joined shown_tracks position_readable playlist_effect playlist_step
proof unfold_locales
  fix s s' :: pgdb and x k k'
  assume joined: "rows_joined s" and step: "playlist_step k x s = Inr s'"
  note rows = playlist_step_rows [OF step]
  show joined': "rows_joined s'" using rows joined by blast
  show "shown_tracks k s' = playlist_effect x (shown_tracks k s)" if "position_readable x"
    using rows joined joined' that by (simp add: shown_listed)
  show "shown_tracks k' s' = shown_tracks k' s" if "k' \<noteq> k"
    using rows joined joined' that by (simp add: shown_listed)
qed

lemma effect_distinct: "distinct xs \<Longrightarrow> distinct (playlist_effect x xs)"
  by (cases x) (auto simp: distinct_append_new distinct_removeAll)


definition demo_tracks :: pgdb where
  "demo_tracks = empty_db\<lparr>
     db_users := [zero_user\<lparr>user_id := ''ann''\<rparr>, zero_user\<lparr>user_id := ''bob''\<rparr>],
     db_tracks := [zero_track\<lparr>track_id := ''a''\<rparr>, zero_track\<lparr>track_id := ''b''\<rparr>],
     db_playlists := [zero_playlist\<lparr>pl_id := ''p'', pl_user := ''ann''\<rparr>, zero_playlist\<lparr>pl_id := ''q'', pl_user := ''bob''\<rparr>]\<rparr>"

lemmas demo_playlist_defs = demo_tracks_def empty_db_def zero_user_def zero_track_def zero_playlist_def

lemmas playlist_statements = AddTrackToPlaylist_def AddTracksToPlaylist_def RemoveTrackFromPlaylist_def
  insert_rows_def touch_playlist_def max_position_def rows_of_def has_playlist_def has_track_def


section \<open>Whose playlists a request touches\<close>

datatype playlist_request =
    ListAll bool
  | CreateOne "string option"
  | RenameOne string "string option"
  | DeleteOne string
  | AddTo string "string option"
  | RemoveFrom string string

fun serve_playlists :: "env \<Rightarrow> User option \<Rightarrow> playlist_request \<Rightarrow> pgdb \<Rightarrow> pgdb" where
  "serve_playlists env u (ListAll tracks) db = fst (List_playlists env u tracks db)"
| "serve_playlists env u (CreateOne name) db = fst (Create_playlist env u name db)"
| "serve_playlists env u (RenameOne pid name) db = fst (Update_playlist env u pid name db)"
| "serve_playlists env u (DeleteOne pid) db = fst (Delete_playlist env u pid db)"
| "serve_playlists env u (AddTo pid tid) db = fst (AddTrack env u pid tid db)"
| "serve_playlists env u (RemoveFrom pid tid) db = fst (RemoveTrack env u pid tid db)"

fun playlist_requests :: "(env \<times> User option \<times> playlist_request) list \<Rightarrow> pgdb \<Rightarrow> pgdb" where
  "playlist_requests [] db = db"
| "playlist_requests ((env, u, q) # qs) db = playlist_requests qs (serve_playlists env u q db)"

text \<open>What a user has: the rows of the playlists, and the rows of the tracks in them.\<close>

definition own_playlists :: "string \<Rightarrow> pgdb \<Rightarrow> Playlist list" where
  "own_playlists uid db = filter (\<lambda>p. pl_user p = uid) (db_playlists db)"

definition owns :: "string \<Rightarrow> string \<Rightarrow> pgdb \<Rightarrow> bool" where
  "owns uid pid db \<longleftrightarrow> (\<forall>p \<in> set (db_playlists db). pl_id p = pid \<longrightarrow> pl_user p = uid)"

definition playlists_wf :: "pgdb \<Rightarrow> bool" where
  "playlists_wf db \<longleftrightarrow> distinct (map pl_id (db_playlists db))
     \<and> (\<forall>r \<in> set (db_playlist_tracks db). has_playlist (plr_playlist r) db)"

text \<open>A write for a user: it keeps what everyone else has.\<close>

definition keeps_others :: "string \<Rightarrow> pgdb \<Rightarrow> pgdb \<Rightarrow> bool" where
  "keeps_others uid db db' \<longleftrightarrow> playlists_wf db' \<and> (\<forall>v. v \<noteq> uid \<longrightarrow> own_playlists v db' = own_playlists v db
     \<and> (\<forall>p \<in> set (own_playlists v db). rows_of (pl_id p) db' = rows_of (pl_id p) db))"

lemma has_playlist_image: "has_playlist pid db \<longleftrightarrow> pid \<in> pl_id ` set (db_playlists db)"
  by (auto simp: has_playlist_def)

lemma keeps_refl: "playlists_wf db \<Longrightarrow> keeps_others uid db db"
  by (simp add: keeps_others_def)

lemma keeps_trans: "keeps_others uid db db1 \<Longrightarrow> keeps_others uid db1 db2 \<Longrightarrow> keeps_others uid db db2"
  by (simp add: keeps_others_def)

lemma filter_update_where_apart:
  "(\<And>r. r \<in> set rows \<Longrightarrow> p r \<Longrightarrow> \<not> q r \<and> \<not> q (f r)) \<Longrightarrow> filter q (update_where p f rows) = filter q rows"
  by (induction rows) (auto simp: update_where_def)

lemma keeps_update:
  assumes "playlists_wf db" and "owns uid pid db"
    and "\<And>p. pl_id (g p) = pl_id p" and "\<And>p. pl_user (g p) = pl_user p"
  shows "keeps_others uid db (db\<lparr>db_playlists := update_where (\<lambda>p. pl_id p = pid) g (db_playlists db)\<rparr>)"
proof -
  have ids: "map pl_id (update_where (\<lambda>p. pl_id p = pid) g (db_playlists db)) = map pl_id (db_playlists db)"
    by (rule map_update_where) (rule assms(3))
  have "filter (\<lambda>p. pl_user p = v) (update_where (\<lambda>p. pl_id p = pid) g (db_playlists db))
      = filter (\<lambda>p. pl_user p = v) (db_playlists db)" if "v \<noteq> uid" for v
    using that assms(2) by (intro filter_update_where_apart) (auto simp: owns_def assms(4))
  moreover have "k \<in> pl_id ` set (update_where (\<lambda>p. pl_id p = pid) g (db_playlists db))
      \<longleftrightarrow> k \<in> pl_id ` set (db_playlists db)" for k
    using ids by (metis set_map)
  ultimately show ?thesis
    using assms(1) ids
    by (simp add: keeps_others_def playlists_wf_def own_playlists_def rows_of_def has_playlist_image)
qed

lemma keeps_touch: "playlists_wf db \<Longrightarrow> owns uid pid db \<Longrightarrow> keeps_others uid db (touch_playlist f now pid db)"
  unfolding touch_playlist_def using keeps_update [of db uid pid "\<lambda>p. p\<lparr>pl_updated_at := now\<rparr>"] keeps_refl by simp

lemma keeps_rows:
  assumes "playlists_wf db" and "owns uid pid db"
    and "\<And>k. k \<noteq> pid \<Longrightarrow> filter (\<lambda>r. plr_playlist r = k) rows = filter (\<lambda>r. plr_playlist r = k) (db_playlist_tracks db)"
    and "\<forall>r \<in> set rows. has_playlist (plr_playlist r) db"
  shows "keeps_others uid db (db\<lparr>db_playlist_tracks := rows\<rparr>)"
proof -
  have "pl_id p \<noteq> pid" if "p \<in> set (own_playlists v db)" "v \<noteq> uid" for p v
    using that assms(2) by (auto simp: own_playlists_def owns_def)
  then show ?thesis
    using assms by (auto simp: keeps_others_def playlists_wf_def own_playlists_def rows_of_def has_playlist_def)
qed

lemma keeps_create:
  assumes "playlists_wf db" and "CreatePlaylist f p db = Inr db'"
  shows "keeps_others (pl_user p) db db'"
proof -
  let ?p = "p\<lparr>pl_count := 0, pl_tracks := []\<rparr>"
  from assms(2) have db': "db' = db\<lparr>db_playlists := db_playlists db @ [?p]\<rparr>"
    and new: "pl_id p \<notin> pl_id ` set (db_playlists db)"
    by (auto simp: CreatePlaylist_def has_playlist_image split: if_splits)
  show ?thesis
    using assms(1) new
    by (simp add: keeps_others_def playlists_wf_def own_playlists_def rows_of_def has_playlist_image db')
qed

lemma keeps_insert:
  assumes "playlists_wf db" and "owns uid pid db" and "insert_rows now pid pos new db = Inr db'"
  shows "keeps_others uid db db' \<and> owns uid pid db'"
proof -
  from assms(3) obtain rows where add: "add_rows now pid pos new (db_playlist_tracks db) = Some rows"
      and db': "db' = db\<lparr>db_playlist_tracks := rows\<rparr>"
      and exists: "drop (length (db_playlist_tracks db)) rows = [] \<or> has_playlist pid db"
    by (auto simp: insert_rows_def Let_def split: option.splits if_splits)
  from add_rows_extend [OF add] obtain added where rows: "rows = db_playlist_tracks db @ added" by blast
  have "\<forall>r \<in> set rows. plr_playlist r \<noteq> pid \<longrightarrow> r \<in> set (db_playlist_tracks db)"
  proof (intro ballI impI)
    fix r assume "r \<in> set rows" "plr_playlist r \<noteq> pid"
    then have "r \<in> set (filter (\<lambda>x. plr_playlist x = plr_playlist r) rows)" by simp
    then show "r \<in> set (db_playlist_tracks db)"
      unfolding add_rows_other [OF add \<open>plr_playlist r \<noteq> pid\<close>] by simp
  qed
  then have "\<forall>r \<in> set rows. has_playlist (plr_playlist r) db"
    using assms(1) exists by (auto simp: rows playlists_wf_def)
  then show ?thesis
    using keeps_rows [OF assms(1,2) add_rows_other [OF add]] assms(2) by (simp add: db' owns_def)
qed

lemma keeps_add:
  assumes "playlists_wf db" and "owns uid pid db" and "AddTrackToPlaylist f now rid tid pid db = Inr db'"
  shows "keeps_others uid db db'"
proof -
  from assms(3) obtain pos d where "insert_rows now pid pos [(rid, tid)] db = Inr d" "db' = touch_playlist f now pid d"
    by (auto simp: AddTrackToPlaylist_def Let_def split: sum.splits if_splits)
  with keeps_insert [OF assms(1,2)] show ?thesis
    by (metis keeps_others_def keeps_touch keeps_trans)
qed

lemma keeps_remove:
  assumes "playlists_wf db" and "owns uid pid db"
  shows "keeps_others uid db (or_zero db (RemoveTrackFromPlaylist f now pid tid db))"
proof (cases "f (CPlaylists PRemoveRow)")
  case True
  then show ?thesis using keeps_refl [OF assms(1)] by (simp add: RemoveTrackFromPlaylist_def)
next
  case False
  let ?db = "db\<lparr>db_playlist_tracks := delete_where (\<lambda>r. plr_playlist r = pid \<and> plr_track r = tid) (db_playlist_tracks db)\<rparr>"
  have "keeps_others uid db ?db"
    using assms by (intro keeps_rows) (auto simp: delete_where_def playlists_wf_def intro!: filter_cong)
  moreover have "keeps_others uid ?db (touch_playlist f now pid ?db)"
    using calculation assms(2) by (intro keeps_touch) (auto simp: keeps_others_def owns_def)
  ultimately show ?thesis using False keeps_trans by (auto simp: RemoveTrackFromPlaylist_def)
qed

lemma keeps_delete:
  assumes "playlists_wf db" and "owns uid pid db"
  shows "keeps_others uid db (or_zero db (DeletePlaylist f pid db))"
proof (cases "f (CPlaylists PDelete)")
  case True
  then show ?thesis using keeps_refl [OF assms(1)] by (simp add: DeletePlaylist_def)
next
  case False
  have "filter (\<lambda>p. pl_user p = v) (delete_where (\<lambda>p. pl_id p = pid) (db_playlists db))
      = filter (\<lambda>p. pl_user p = v) (db_playlists db)" if "v \<noteq> uid" for v
    using that assms(2) by (auto simp: delete_where_def owns_def intro!: filter_cong)
  moreover have "filter (\<lambda>r. plr_playlist r = k) (delete_where (\<lambda>r. plr_playlist r = pid) (db_playlist_tracks db))
      = filter (\<lambda>r. plr_playlist r = k) (db_playlist_tracks db)" if "k \<noteq> pid" for k
    using that by (auto simp: delete_where_def intro!: filter_cong)
  moreover have "pl_id p \<noteq> pid" if "p \<in> set (own_playlists v db)" "v \<noteq> uid" for p v
    using that assms(2) by (auto simp: own_playlists_def owns_def)
  moreover have "distinct (map pl_id (delete_where (\<lambda>p. pl_id p = pid) (db_playlists db)))"
    using assms(1) by (simp add: playlists_wf_def delete_where_def distinct_map_filter)
  moreover have "\<exists>p. p \<in> set (db_playlists db) \<and> pl_id p \<noteq> pid \<and> pl_id p = plr_playlist r"
    if "r \<in> set (db_playlist_tracks db)" "plr_playlist r \<noteq> pid" for r
    using that assms(1) unfolding playlists_wf_def has_playlist_def by metis
  ultimately show ?thesis
    using False assms(1)
    by (auto simp: DeletePlaylist_def keeps_others_def own_playlists_def rows_of_def playlists_wf_def has_playlist_def)
qed

lemma owned_playlist_owns:
  assumes "playlists_wf db" and "user_id u \<noteq> ''''" and "owned_playlist env u pid db = Some p"
  shows "owns (user_id u) pid db"
proof -
  have "GetPlaylistByID (env_faults env) pid db = Inr (Some p)" and user: "pl_user p = user_id u"
    using assms(2,3)
    by (auto simp: owned_playlist_def deref_or_zero_def zero_playlist_def split: sum.splits option.splits if_splits)
  then have "p \<in> set (db_playlists db)" and "pl_id p = pid"
    by (auto simp: GetPlaylistByID_def dest!: find_row_Some)
  moreover have "inj_on pl_id (set (db_playlists db))"
    using assms(1) by (simp add: playlists_wf_def distinct_map)
  ultimately show ?thesis using user unfolding owns_def by (metis inj_onD)
qed

lemma serve_playlists_keeps:
  assumes wf: "playlists_wf db" and u: "\<forall>u. user = Some u \<longrightarrow> user_id u = uid \<and> uid \<noteq> ''''"
  shows "keeps_others uid db (serve_playlists env user q db)"
proof (cases user)
  case None
  with wf show ?thesis
    by (cases q) (auto simp: keeps_refl List_playlists_def Create_playlist_def Update_playlist_def Delete_playlist_def
        AddTrack_def RemoveTrack_def)
next
  case (Some v)
  with u have v: "user_id v = uid" "uid \<noteq> ''''" by auto
  have owned: "owns uid pid db" if "owned_playlist env v pid db = Some p" for pid p
    using owned_playlist_owns [OF wf _ that] v by simp
  show ?thesis
  proof (cases q)
    case (ListAll tracks)
    have "keeps_others uid db (fst (EnsureLikedPlaylist (env_faults env) (env_now env) uid db))"
      using keeps_create [OF wf] keeps_refl [OF wf]
      by (fastforce simp: EnsureLikedPlaylist_def Let_def split: option.split sum.split)
    then show ?thesis using ListAll Some v by (auto simp: List_playlists_def Let_def split: sum.split)
  next
    case (CreateOne name)
    then show ?thesis using Some v keeps_create [OF wf] keeps_refl [OF wf]
      by (fastforce simp: Create_playlist_def Let_def split: sum.split)
  next
    case (RenameOne pid name)
    have "keeps_others uid db (or_zero db (UpdatePlaylistName f now pid n db))"
      if "owned_playlist env v pid db = Some p" for f now n p
      using keeps_update [OF wf owned [OF that]] keeps_refl [OF wf]
      by (auto simp: UpdatePlaylistName_def failing_def)
    then show ?thesis using RenameOne Some keeps_refl [OF wf]
      by (auto simp: Update_playlist_def split: option.split)
  next
    case (DeleteOne pid)
    then show ?thesis using Some keeps_refl [OF wf] keeps_delete [OF wf owned]
      by (auto simp: Delete_playlist_def split: option.split)
  next
    case (AddTo pid tid)
    then show ?thesis using Some keeps_refl [OF wf] keeps_add [OF wf owned]
      by (auto simp: AddTrack_def split: option.split sum.split)
  next
    case (RemoveFrom pid tid)
    then show ?thesis using Some keeps_refl [OF wf] keeps_remove [OF wf owned]
      by (auto simp: RemoveTrack_def split: option.split)
  qed
qed

text \<open>
  C25: A user's playlists are theirs alone: whatever playlist requests other signed-in or anonymous
  visitors send, with store calls failing anywhere, the user's playlists, their names and dates
  and the tracks in them stay exactly as they were.
\<close>

theorem playlists_private:
  assumes "playlists_wf db"
    and "\<forall>(env, user, q) \<in> set reqs. \<forall>u. user = Some u \<longrightarrow> user_id u \<notin> {'''', owner}"
  shows "own_playlists owner (playlist_requests reqs db) = own_playlists owner db
    \<and> (\<forall>p \<in> set (own_playlists owner db). rows_of (pl_id p) (playlist_requests reqs db) = rows_of (pl_id p) db)"
  using assms
proof (induction reqs arbitrary: db)
  case Nil
  then show ?case by simp
next
  case (Cons r reqs)
  obtain env user q where r: "r = (env, user, q)" by (cases r)
  obtain uid where uid: "\<forall>u. user = Some u \<longrightarrow> user_id u = uid \<and> uid \<noteq> ''''" "uid \<noteq> owner"
  proof (cases user)
    case None
    then show ?thesis using that [of "CHR ''x'' # owner"] by simp
  next
    case (Some u)
    then show ?thesis using that [of "user_id u"] Cons.prems(2) by (simp add: r)
  qed
  from serve_playlists_keeps [OF Cons.prems(1) uid(1)]
  have step: "keeps_others uid db (serve_playlists env user q db)" .
  then have "playlists_wf (serve_playlists env user q db)" by (simp add: keeps_others_def)
  from Cons.IH [OF this] Cons.prems(2) step uid(2) show ?case by (auto simp: r keeps_others_def)
qed

text \<open>Bob's attempts to rename, empty and delete Ann's playlist come to nothing.\<close>

definition demo_shared :: pgdb where
  "demo_shared = demo_tracks\<lparr>db_playlist_tracks :=
     [\<lparr>plr_id = ''r'', plr_playlist = ''p'', plr_track = ''a'', plr_position = 0, plr_added_at = 0\<rparr>]\<rparr>"

definition demo_request :: env where
  "demo_request = \<lparr>env_now = 9, env_faults = (\<lambda>_. False), env_rfaults = (\<lambda>_. False), env_pick = True,
     env_uuid = (\<lambda>n. ''new''), env_locked = (\<lambda>_. False), env_parse = (\<lambda>_. None)\<rparr>"

theorem playlists_private_witness:
  "rows_of ''p'' (playlist_requests
     [(demo_request, Some (zero_user\<lparr>user_id := ''bob''\<rparr>), RenameOne ''p'' (Some ''mine'')),
      (demo_request, Some (zero_user\<lparr>user_id := ''bob''\<rparr>), RemoveFrom ''p'' ''a''),
      (demo_request, Some (zero_user\<lparr>user_id := ''bob''\<rparr>), DeleteOne ''p'')] demo_shared)
   = [\<lparr>plr_id = ''r'', plr_playlist = ''p'', plr_track = ''a'', plr_position = 0, plr_added_at = 0\<rparr>]"
proof -
  let ?bob = "Some (zero_user\<lparr>user_id := ''bob''\<rparr>)"
  have "playlists_wf demo_shared"
    by (simp add: playlists_wf_def has_playlist_def demo_shared_def demo_playlist_defs)
  from playlists_private [OF this, of "[(demo_request, ?bob, RenameOne ''p'' (Some ''mine'')),
      (demo_request, ?bob, RemoveFrom ''p'' ''a''), (demo_request, ?bob, DeleteOne ''p'')]" "''ann''"]
  show ?thesis
    by (simp add: own_playlists_def rows_of_def demo_shared_def demo_playlist_defs)
qed

end
