(* ===== verification/RoomProps.thy ===== *)
theory RoomProps
  imports Rooms PlaylistProps HubActionProps
begin

text \<open>
  What the room handlers promise: what a created room is and who may create one, that DJ requests
  need the room's key, that the list of rooms batches its look-ups without changing them, that a
  submission over HTTP does what the same submission over the socket does, and that a saved session
  is the session's tracks.
\<close>

section \<open>Slugs\<close>

lemma dash_runs_chars: "c \<in> set (dash_runs b s) \<Longrightarrow> slug_char c \<or> c = CHR ''-''"
  by (induction b s rule: dash_runs.induct) (auto split: if_splits)

lemma trim_dashes_subset: "set (trim_dashes s) \<subseteq> set s"
  by (auto simp: trim_dashes_def dest!: set_dropWhileD)

lemma trim_dashes_ends:
  assumes "trim_dashes s \<noteq> []"
  shows "hd (trim_dashes s) \<noteq> CHR ''-'' \<and> last (trim_dashes s) \<noteq> CHR ''-''"
proof -
  define t where "t = dropWhile (\<lambda>c. c = CHR ''-'') s"
  define u where "u = dropWhile (\<lambda>c. c = CHR ''-'') (rev t)"
  have trim: "trim_dashes s = rev u" by (simp add: trim_dashes_def t_def u_def)
  have "u \<noteq> []" using assms by (simp add: trim)
  then have "t \<noteq> []" by (auto simp: u_def)
  have "hd u \<noteq> CHR ''-''" using \<open>u \<noteq> []\<close> unfolding u_def by (rule hd_dropWhile)
  moreover have "hd t \<noteq> CHR ''-''" using \<open>t \<noteq> []\<close> unfolding t_def by (rule hd_dropWhile)
  moreover have "rev t = takeWhile (\<lambda>c. c = CHR ''-'') (rev t) @ u" by (simp add: u_def)
  then have "last (rev t) = last u" using \<open>u \<noteq> []\<close> by (metis last_appendR)
  ultimately show ?thesis
    using \<open>u \<noteq> []\<close> \<open>t \<noteq> []\<close> by (simp add: trim hd_rev last_rev)
qed

lemma toSlug_wellformed:
  "toSlug name \<noteq> '''' \<and> (\<forall>c \<in> set (toSlug name). slug_char c \<or> c = CHR ''-'')
    \<and> hd (toSlug name) \<noteq> CHR ''-'' \<and> last (toSlug name) \<noteq> CHR ''-''"
proof (cases "trim_dashes (dash_runs False (lower_text (trim_space name))) = ''''")
  case True
  then show ?thesis by (simp add: toSlug_def slug_char_def)
next
  case False
  have "\<forall>c \<in> set (trim_dashes (dash_runs b t)). slug_char c \<or> c = CHR ''-''" for b t
    using trim_dashes_subset dash_runs_chars by blast
  with False show ?thesis
    using trim_dashes_ends [OF False] by (simp add: toSlug_def Let_def)
qed

section \<open>Creating\<close>

lemma preload_rooms [simp]: "db_rooms (preload env u pid room db) = db_rooms db"
proof -
  have "db_rooms (or_zero d (AddTracksToQueue f rid es d)) = db_rooms d" for f rid es d
    by (auto simp: AddTracksToQueue_def Let_def or_zero_def)
  moreover have "UpsertTracks f ts d = Inr d' \<Longrightarrow> db_rooms d' = db_rooms d" for f ts d d'
    by (auto simp: UpsertTracks_def Let_def split: if_splits)
  ultimately show ?thesis by (auto simp: preload_def split: option.split sum.split)
qed

lemma create_limits_pg: "create_limits cf env u sv = (sv', m) \<Longrightarrow> sv_pg sv' = sv_pg sv"
  by (auto simp: create_limits_def limited_def split: if_splits option.splits prod.splits bool.splits)

lemma create_limits_count:
  "create_limits cf env u sv = (sv', None) \<Longrightarrow>
   env_faults env CCountRooms \<or> affected (\<lambda>r. room_creator r = user_id u \<and> room_ended_at r = None) (db_rooms (sv_pg sv)) < 5"
  by (cases "env_faults env CCountRooms")
    (auto simp: create_limits_def CountActiveRoomsByCreator_def not_less split: if_splits)

text \<open>
  A created room is one that its creator may have and asked for. Only a signed-in user with a verified
  address gets one; its name is not empty, has at most 40 characters and neither it nor the
  description is prohibited; the room is stored once, not live, under an id and a web address
  nobody else has, the latter made of a-z, 0-9 and dashes; the key returned opens it;
  and unless the count could not be read, its creator then has at most five open rooms.
\<close>

theorem room_created_as_requested:
  assumes "\<And>pw h. bcrypt_hash ext pw = Some h \<Longrightarrow> bcrypt_match ext h pw \<and> h \<noteq> ''''"
    and "random_token ext 0 \<noteq> ''''" and "\<forall>c \<in> set (env_uuid env 0). slug_char c \<or> c = CHR ''-''"
    and "Create ext rfc3339 cf env session user req sv = (sv', HttpOK code (room, key))"
  shows "\<exists>u q row. user = Some u \<and> user_email_verified u \<and> req = Some q
    \<and> cr_name q \<noteq> '''' \<and> rune_count (cr_name q) \<le> 40
    \<and> \<not> ContainsProfanity (cr_name q) \<and> \<not> ContainsProfanity (cr_description q)
    \<and> room_name room = cr_name q \<and> room_creator room = user_id u \<and> key_matches ext key (room_dj_key_hash room)
    \<and> (\<forall>c \<in> set (room_slug room). slug_char c \<or> c = CHR ''-'')
    \<and> db_rooms (sv_pg sv') = db_rooms (sv_pg sv) @ [row] \<and> room_id row = room_id room \<and> room_slug row = room_slug room
    \<and> room_dj_key_hash row = room_dj_key_hash room \<and> \<not> room_is_live row
    \<and> room_id row \<notin> room_id ` set (db_rooms (sv_pg sv)) \<and> room_slug row \<notin> room_slug ` set (db_rooms (sv_pg sv))
    \<and> (env_faults env CCountRooms
       \<or> affected (\<lambda>r. room_creator r = user_id u \<and> room_ended_at r = None) (db_rooms (sv_pg sv')) \<le> 5)"
proof -
  from assms(4) obtain s u q sv1 keyHash db where
      parts: "session = Some s" "user = Some u" "user_email_verified u" "req = Some q" "create_check q = None"
      and limits: "create_limits cf env u sv = (sv1, None)"
      and key: "GenerateDJKey ext 0 = Some (key, keyHash)"
      and room: "room = new_room rfc3339 env s u q keyHash"
      and created: "CreateRoom (env_faults env) room (sv_pg sv1) = Inr db"
      and sv': "sv' = sv1\<lparr>sv_pg := preload env u (cr_playlist q) room db\<rparr>"
    unfolding Create_def Let_def
    by (auto split: option.splits if_splits prod.splits sum.splits)
  note pg = create_limits_pg [OF limits]
  let ?row = "room\<lparr>room_last_active := None, room_ended_at := None, room_is_autoplay := False,
    room_listeners := 0, room_dj_color := ''''\<rparr>"
  have rooms: "db_rooms db = db_rooms (sv_pg sv) @ [?row]"
    and fresh: "room_id room \<notin> room_id ` set (db_rooms (sv_pg sv))" "room_slug room \<notin> room_slug ` set (db_rooms (sv_pg sv))"
    using created by (auto simp: CreateRoom_def has_room_def pg split: if_splits)
  have "key_matches ext key keyHash"
    using key assms(1,2) by (auto simp: GenerateDJKey_def Let_def key_matches_def)
  moreover have "\<forall>c \<in> set (room_slug room). slug_char c \<or> c = CHR ''-''"
    using toSlug_wellformed [of "cr_name q"] assms(3) by (auto simp: room new_room_def dest: in_set_takeD)
  moreover have "env_faults env CCountRooms
      \<or> affected (\<lambda>r. room_creator r = user_id u \<and> room_ended_at r = None) (db_rooms (sv_pg sv')) \<le> 5"
    using create_limits_count [OF limits] by (auto simp: sv' rooms affected_append)
  moreover have "cr_name q \<noteq> '''' \<and> rune_count (cr_name q) \<le> 40
      \<and> \<not> ContainsProfanity (cr_name q) \<and> \<not> ContainsProfanity (cr_description q)"
    using parts(5) by (auto simp: create_check_def split: if_splits)
  moreover have "room_name room = cr_name q" "room_creator room = user_id u" "room_dj_key_hash room = keyHash"
      "\<not> room_is_live room"
    by (simp_all add: room new_room_def zero_room_def)
  ultimately show ?thesis
    using parts fresh rooms by (intro exI [of _ u] exI [of _ q] exI [of _ ?row]) (simp add: sv')
qed

definition demo_creation :: create_request where
  "demo_creation = \<lparr>cr_name = ''Late Night'', cr_description = '''', cr_genre = ''house'', cr_vibes = [''calm''],
     cr_policy = '''', cr_scheduled = '''', cr_cover = '''', cr_gradient = ''oklch(0.7 0.1 30)'', cr_playlist = ''''\<rparr>"

definition demo_host :: User where
  "demo_host = zero_user\<lparr>user_id := ''ann'', user_email_verified := True, user_stage_name := ''DJ Ann''\<rparr>"

definition demo_site :: server where
  "demo_site = \<lparr>sv_pg = empty_db, sv_redis = empty_redis, sv_hubs = Map.empty, sv_timers = Map.empty,
     sv_last = Map.empty, sv_go = [], sv_idle_since = Map.empty\<rparr>"

definition demo_limits :: auth_config where
  "demo_limits = \<lparr>cf_limiter = None, cf_verify_hold = 0, cf_session_ttl = hour\<rparr>"

lemma demo_slug: "toSlug ''Late Night'' = ''late-night''"
  by code_simp

lemma demo_creation_ok: "create_check demo_creation = None"
  by code_simp

theorem room_created_as_requested_witness:
  "\<exists>sv' room key. Create plain_outside (\<lambda>_. None) demo_limits demo_request
      (Some (demo_session\<lparr>session_id := ''s''\<rparr>)) (Some demo_host) (Some demo_creation) demo_site = (sv', HttpOK 201 (room, key))
    \<and> room_slug room = ''late-night-new'' \<and> key_matches plain_outside key (room_dj_key_hash room)
    \<and> affected (\<lambda>r. room_creator r = ''ann'' \<and> room_ended_at r = None) (db_rooms (sv_pg sv')) \<le> 5"
proof -
  let ?s = "demo_session\<lparr>session_id := ''s''\<rparr>"
  let ?room = "new_room (\<lambda>_. None) demo_request ?s demo_host demo_creation ''$k''"
  have limits: "create_limits demo_limits demo_request demo_host demo_site = (demo_site, None)"
    by (simp add: create_limits_def limited_def CountActiveRoomsByCreator_def demo_limits_def demo_request_def
        demo_site_def empty_db_def affected_def)
  have slug: "room_slug ?room = ''late-night-new''"
    by (simp add: new_room_def demo_creation_def demo_slug demo_request_def)
  obtain sv' where made: "Create plain_outside (\<lambda>_. None) demo_limits demo_request (Some ?s) (Some demo_host)
      (Some demo_creation) demo_site = (sv', HttpOK 201 (?room, ''k''))"
  proof -
    have "user_email_verified demo_host" by (simp add: demo_host_def)
    moreover have "GenerateDJKey plain_outside 0 = Some (''k'', ''$k'')"
      by (simp add: GenerateDJKey_def plain_outside_def Let_def)
    moreover have "CreateRoom (env_faults demo_request) ?room (sv_pg demo_site) \<noteq> Inl e" for e
      by (simp add: CreateRoom_def demo_site_def empty_db_def has_room_def new_room_def demo_request_def demo_creation_def)
    then obtain db where "CreateRoom (env_faults demo_request) ?room (sv_pg demo_site) = Inr db"
      by (metis sum.exhaust)
    ultimately show thesis
      by (intro that) (simp add: Create_def demo_creation_ok limits Let_def)
  qed
  have "env_faults demo_request CCountRooms = False" and "\<forall>c \<in> set (env_uuid demo_request 0). slug_char c"
    by (simp_all add: demo_request_def slug_char_def)
  with room_created_as_requested [OF _ _ _ made]
  have "key_matches plain_outside ''k'' (room_dj_key_hash ?room)
      \<and> affected (\<lambda>r. room_creator r = ''ann'' \<and> room_ended_at r = None) (db_rooms (sv_pg sv')) \<le> 5"
    by (force simp: plain_outside_def demo_host_def)
  with made slug show ?thesis by blast
qed

section \<open>Requests of the DJ\<close>

datatype dj_request =
    GoLiveRequest "SubmitTrackPayload option"
  | EndRequest
  | PendingRequest

text \<open>What a DJ request makes of the server, and whether it was refused.\<close>

fun serve_dj :: "outside \<Rightarrow> env \<Rightarrow> string \<Rightarrow> string \<Rightarrow> dj_request \<Rightarrow> server \<Rightarrow> dj_cache \<Rightarrow> dj_cache \<times> server \<times> bool" where
  "serve_dj ext env slug key (GoLiveRequest q) sv c =
     (case GoLive ext env slug key q sv c of (c', sv', r) \<Rightarrow> (c', sv', refused r))"
| "serve_dj ext env slug key EndRequest sv c =
     (case EndSession ext env slug key sv c of (c', sv', r) \<Rightarrow> (c', sv', refused r))"
| "serve_dj ext env slug key PendingRequest sv c =
     (case GetPendingRequests_handler ext env slug key sv c of (c', r) \<Rightarrow> (c', sv, refused r))"

lemma for_dj_result:
  "for_dj ext env denied slug key sv c = (c', Inr room) \<longleftrightarrow>
     GetRoomBySlug (env_faults env) slug (sv_pg sv) = Inr (Some room)
     \<and> VerifyDJKey ext (env_now env) key (room_dj_key_hash room) c = (c', True)"
  by (auto simp: for_dj_def or_zero_def split: option.splits sum.splits prod.splits if_splits)

text \<open>
  C26: Only the holder of a room's key controls it over HTTP: a request to go live, to end the session
  or to see the pending requests is refused, and leaves the server as it was, unless its key matches
  the hash stored for the room of that address. This holds for every state of the key cache that
  checks can lead to (it vouches for the pairs checked so far, among which SHA-256 has no collision),
  and the cache the request leaves is again one of these.
\<close>

theorem dj_requests_need_key:
  assumes "vouched ext pairs c"
    and "digests_ok ext (pairs \<union> (\<lambda>r. (env_now env, key, room_dj_key_hash r)) ` set (db_rooms (sv_pg sv)))"
    and "serve_dj ext env slug key q sv c = (c', sv', denied)"
  shows "(denied \<longrightarrow> sv' = sv)
    \<and> (\<not> denied \<longrightarrow> (\<exists>room \<in> set (db_rooms (sv_pg sv)). room_slug room = slug \<and> key_matches ext key (room_dj_key_hash room)))
    \<and> vouched ext (pairs \<union> (\<lambda>r. (env_now env, key, room_dj_key_hash r)) ` set (db_rooms (sv_pg sv))) c'"
proof -
  let ?pairs = "pairs \<union> (\<lambda>r. (env_now env, key, room_dj_key_hash r)) ` set (db_rooms (sv_pg sv))"
  have all: "vouched ext ?pairs c" using assms(1) unfolding vouched_def by blast
  have found: "room \<in> set (db_rooms (sv_pg sv)) \<and> room_slug room = slug"
    if "GetRoomBySlug (env_faults env) slug (sv_pg sv) = Inr (Some room)" for room
    using that by (auto simp: GetRoomBySlug_def dest!: find_row_Some)
  have cache: "vouched ext ?pairs c''" if "for_dj ext env d slug key sv c = (c'', r)" for d c'' r
  proof (cases "or_zero None (GetRoomBySlug (env_faults env) slug (sv_pg sv))")
    case None
    then show ?thesis using that all by (simp add: for_dj_def)
  next
    case (Some room)
    then have "room \<in> set (db_rooms (sv_pg sv))" using found by (auto simp: or_zero_def split: sum.splits)
    then have "insert (env_now env, key, room_dj_key_hash room) ?pairs = ?pairs" by auto
    then show ?thesis
      using vouched_verify [OF all, of "env_now env" key "room_dj_key_hash room"] that Some
      by (auto simp: for_dj_def split: prod.splits)
  qed
  have match: "\<exists>room \<in> set (db_rooms (sv_pg sv)). room_slug room = slug \<and> key_matches ext key (room_dj_key_hash room)"
    if "for_dj ext env d slug key sv c = (c'', Inr room)" for d c'' room
  proof -
    from that found have room: "room \<in> set (db_rooms (sv_pg sv))" "room_slug room = slug"
        and ok: "snd (VerifyDJKey ext (env_now env) key (room_dj_key_hash room) c)"
      by (auto simp: for_dj_result)
    have "insert (env_now env, key, room_dj_key_hash room) pairs \<subseteq> ?pairs" using room(1) by auto
    then have "key_matches ext key (room_dj_key_hash room)"
      using VerifyDJKey_exact [OF assms(1) digests_ok_subset [OF assms(2)]] ok by blast
    with room show ?thesis by blast
  qed
  show ?thesis
    using assms(3) cache match
    by (cases q)
      (auto simp: GoLive_def EndSession_def GetPendingRequests_handler_def split: prod.splits sum.splits option.splits)
qed

text \<open>A guessed key is refused; the right one ends the session.\<close>

definition demo_open_site :: server where
  "demo_open_site = demo_site\<lparr>sv_pg := empty_db\<lparr>db_rooms :=
     [zero_room\<lparr>room_id := ''r'', room_slug := ''late-night'', room_dj_key_hash := ''$secret'', room_is_live := True\<rparr>]\<rparr>\<rparr>"

theorem dj_requests_need_key_witness:
  "\<exists>c1 c2 sv2. serve_dj plain_outside demo_request ''late-night'' ''guess'' EndRequest demo_open_site [] = (c1, demo_open_site, True)
     \<and> serve_dj plain_outside demo_request ''late-night'' ''secret'' EndRequest demo_open_site [] = (c2, sv2, False)
     \<and> key_matches plain_outside ''secret'' ''$secret'' \<and> \<not> key_matches plain_outside ''guess'' ''$secret''"
proof -
  let ?serve = "\<lambda>key. serve_dj plain_outside demo_request ''late-night'' key EndRequest demo_open_site []"
  have start: "vouched plain_outside {} []" by (simp add: vouched_def bounded_ok_def)
  have "digests_ok plain_outside ({} \<union> (\<lambda>r. (env_now demo_request, key, room_dj_key_hash r)) ` set (db_rooms (sv_pg demo_open_site)))" for key
    by (rule plain_digests) (simp add: demo_open_site_def)
  note need = dj_requests_need_key [OF start this]
  have keys: "key_matches plain_outside ''secret'' ''$secret''" "\<not> key_matches plain_outside ''guess'' ''$secret''"
    by (simp_all add: key_matches_def plain_outside_def)
  obtain c1 sv1 d1 where guess: "?serve ''guess'' = (c1, sv1, d1)" by (metis prod_cases3)
  obtain c2 sv2 d2 where secret: "?serve ''secret'' = (c2, sv2, d2)" by (metis prod_cases3)
  have "d1" using need [OF guess] keys(2) by (auto simp: demo_open_site_def)
  moreover from this have "sv1 = demo_open_site" using need [OF guess] by simp
  moreover have "\<not> d2" using secret
    by (simp add: EndSession_def for_dj_def GetRoomBySlug_def find_row_simps demo_open_site_def demo_request_def
        VerifyDJKey_def plain_outside_def Let_def)
  ultimately show ?thesis using guess secret keys by (intro exI [of _ c1] exI [of _ c2] exI [of _ sv2]) simp
qed

section \<open>The list of rooms\<close>

text \<open>The look-ups one room at a time, as they would be without batching.\<close>

definition list_item :: "env \<Rightarrow> server \<Rightarrow> Room \<Rightarrow> RoomWithNowPlaying" where
  "list_item env sv r = strip_cover
     \<lparr>rw_room = r\<lparr>room_listeners := or_zero 0 (GetListenerCount (env_rfaults env) (room_id r) (sv_redis sv))\<rparr>,
      rw_now = (if \<not> room_is_live r then None
        else case or_zero None (GetPlaybackState (env_rfaults env) (room_id r) (sv_redis sv)) of
            None \<Rightarrow> None
          | Some ps \<Rightarrow> if ps_track ps \<noteq> '''' then or_zero None (GetTrack (env_faults env) (ps_track ps) (sv_pg sv)) else None),
      rw_chat = []\<rparr>"

lemma set_collect_ids:
  "set (collect_ids seen ps rs) = {ps_track s |s r. r \<in> set rs \<and> room_is_live r \<and> ps (room_id r) = Some s
     \<and> ps_track s \<noteq> ''''} - set seen"
  by (induction seen ps rs rule: collect_ids.induct) (auto split: option.splits if_splits)

lemma distinct_collect_ids: "distinct (collect_ids seen ps rs)"
  by (induction seen ps rs rule: collect_ids.induct) (auto simp: set_collect_ids split: option.splits)

text \<open>
  The list of rooms fetches listener counts, playback states and tracks in three batches instead
  of three look-ups per room, and shows exactly what the single look-ups would: for each
  listed room its listener count, and for a live one the track of its playback state; every
  track is fetched once, and no cover over the limit is sent.
\<close>

theorem room_list_batching_exact:
  assumes "\<not> env_rfaults env RListeners" and "\<not> env_rfaults env RPlayback" and "\<not> env_rfaults env RPlaybackStates"
    and "\<not> env_faults env (CTracks TGetMany)" and "\<not> env_faults env CGetTrack"
    and "ListRooms (env_faults env) (env_now env) liveOnly genre (sv_pg sv) = Inr rooms"
  shows "buildRoomsList env liveOnly genre sv
      = Inr (attach_chat env (sv_pg sv) (map (list_item env sv) rooms))
    \<and> distinct (nowPlayingTrackIDs rooms (rd_playback (sv_redis sv)))
    \<and> (\<forall>x \<in> set (map (list_item env sv) rooms). isDataURL (room_cover_art (rw_room x))
         \<longrightarrow> length (room_cover_art (rw_room x)) \<le> maxDataURLCoverBytes)"
proof (intro conjI)
  let ?live = "map room_id (filter room_is_live rooms)"
  let ?states = "or_zero Map.empty (GetPlaybackStates (env_rfaults env) ?live (sv_redis sv))"
  let ?ids = "nowPlayingTrackIDs rooms ?states"
  have states: "?states (room_id r) = rd_playback (sv_redis sv) (room_id r)" if "r \<in> set rooms" "room_is_live r" for r
    using that assms(3) by (auto simp: GetPlaybackStates_def filter_empty_conv)
  have "assemble_one (GetListenerCounts (env_rfaults env) (map room_id rooms) (sv_redis sv)) ?states
      (or_zero Map.empty (GetTracksByIDs (env_faults env) ?ids (sv_pg sv))) r
    = \<lparr>rw_room = r\<lparr>room_listeners := or_zero 0 (GetListenerCount (env_rfaults env) (room_id r) (sv_redis sv))\<rparr>,
       rw_now = (if \<not> room_is_live r then None
        else case or_zero None (GetPlaybackState (env_rfaults env) (room_id r) (sv_redis sv)) of
            None \<Rightarrow> None
          | Some ps \<Rightarrow> if ps_track ps \<noteq> '''' then or_zero None (GetTrack (env_faults env) (ps_track ps) (sv_pg sv)) else None),
       rw_chat = []\<rparr>" if r: "r \<in> set rooms" for r
  proof -
    have "ps_track s \<in> set ?ids" if "room_is_live r" "rd_playback (sv_redis sv) (room_id r) = Some s" "ps_track s \<noteq> ''''" for s
      using that r states [OF r] by (auto simp: nowPlayingTrackIDs_def set_collect_ids)
    then show ?thesis
      using r states [OF r] assms(1,2,4,5)
      by (auto simp: assemble_one_def GetListenerCounts_def GetListenerCount_def GetPlaybackState_def GetTracksByIDs_def
          GetTrack_def split: option.split)
  qed
  then have "stripListCovers (assembleRoomsList rooms (GetListenerCounts (env_rfaults env) (map room_id rooms) (sv_redis sv))
      ?states (or_zero Map.empty (GetTracksByIDs (env_faults env) ?ids (sv_pg sv)))) = map (list_item env sv) rooms"
    by (simp add: stripListCovers_def assembleRoomsList_def list_item_def)
  then show "buildRoomsList env liveOnly genre sv = Inr (attach_chat env (sv_pg sv) (map (list_item env sv) rooms))"
    using assms(6) by (simp add: buildRoomsList_def Let_def)
  show "distinct (nowPlayingTrackIDs rooms (rd_playback (sv_redis sv)))"
    by (simp add: nowPlayingTrackIDs_def distinct_collect_ids)
  show "\<forall>x \<in> set (map (list_item env sv) rooms). isDataURL (room_cover_art (rw_room x))
      \<longrightarrow> length (room_cover_art (rw_room x)) \<le> maxDataURLCoverBytes"
    using stripOversizedCover_bounded by (auto simp: list_item_def strip_cover_def)
qed

theorem room_list_batching_exact_witness:
  "\<exists>x. buildRoomsList demo_request True '''' demo_open_site = Inr [x] \<and> room_slug (rw_room x) = ''late-night'' \<and> rw_now x = None"
proof -
  have "ListRooms (env_faults demo_request) (env_now demo_request) True '''' (sv_pg demo_open_site)
    = Inr (db_rooms (sv_pg demo_open_site))"
    by (simp add: ListRooms_def demo_request_def demo_open_site_def listed_def list_order_def order_by_def zero_room_def)
  from room_list_batching_exact [OF _ _ _ _ _ this] show ?thesis
    by (simp add: demo_request_def demo_open_site_def list_item_def strip_cover_def GetListenerCount_def GetPlaybackState_def
        demo_site_def empty_redis_def attach_chat_def featuredRoomIndex_def zero_room_def stripOversizedCover_def
        isDataURL_def has_prefix_def)
qed

section \<open>Two ways to submit a track\<close>

lemma live_track_submitted: "live_track env p = submitted_track env p"
  by (simp add: live_track_def submitted_track_def)

lemma limited_pg_fst [simp]: "sv_pg (fst (limited cf call sv)) = sv_pg sv"
  by (simp add: limited_def split_beta split: option.split)

lemma sendSubmit_pg: "w_pg (on_client c f (w\<lparr>w_pg := db\<rparr>)) = db"
  by simp

text \<open>The tables after a submission that has passed its checks.\<close>

definition stored_submission :: "env \<Rightarrow> QueueEntry \<Rightarrow> Track \<Rightarrow> pgdb \<Rightarrow> pgdb" where
  "stored_submission env e t db =
     (case UpsertTrack (env_faults env) t db of
        Inl _ \<Rightarrow> db
      | Inr db1 \<Rightarrow> (case AddToQueue (env_faults env) e db1 of Inl _ \<Rightarrow> db1 | Inr (db2, _) \<Rightarrow> db2))"

lemma submit_store_stored:
  "w_pg (submit_store env c p room w) = stored_submission env
     (submitted_entry env c (submitted_track env p) (submit_status room (cl_is_dj (w_clients w c))) w) (submitted_track env p) (w_pg w)"
  by (simp add: submit_store_def stored_submission_def submitted_entry_def Let_def split: sum.split prod.split)

lemma http_submit_stored:
  "sv_pg (fst (http_submit_store env s room isDJ p sv)) = stored_submission env
     (http_entry env s room (submit_status room isDJ) (submitted_track env p)) (submitted_track env p) (sv_pg sv)"
  by (simp add: http_submit_store_def stored_submission_def live_track_submitted Let_def split: sum.split prod.split)

text \<open>What the checks over the socket say once the cooldown has passed, and over HTTP while the limiter allows.\<close>

lemma checks_agree:
  assumes "sv_pg sv = w_pg w" and "hub_room (w_hub w) = room_id room"
    and "cl_session (w_clients w c) = s" and "env_now env - cl_last_submit (w_clients w c) \<ge> 5 * second"
    and "isDJ = cl_is_dj (w_clients w c)"
    and "snd (limited cf (\<lambda>rl. AllowQueueSubmit (env_rfaults env) (env_now env) (session_id s) (room_id room)) sv)"
  shows "snd (http_submit_check cf env (session_id s) room isDJ p sv) = None \<longleftrightarrow> submit_check env c p w = None"
    and "sv_pg (fst (http_submit_check cf env (session_id s) room isDJ p sv)) = sv_pg sv"
proof -
  obtain sv1 where limited: "limited cf (\<lambda>rl. AllowQueueSubmit (env_rfaults env) (env_now env) (session_id s) (room_id room)) sv
      = (sv1, True)"
    using assms(6) by (metis prod.collapse)
  have pg: "sv_pg sv1 = w_pg w"
    using limited_pg_fst [of cf "\<lambda>rl. AllowQueueSubmit (env_rfaults env) (env_now env) (session_id s) (room_id room)" sv]
      limited assms(1) by simp
  show "snd (http_submit_check cf env (session_id s) room isDJ p sv) = None \<longleftrightarrow> submit_check env c p w = None"
    using assms(2-5) pg
    by (auto simp: http_submit_check_def submit_check_def limited Let_def split: option.split sum.split)
  show "sv_pg (fst (http_submit_check cf env (session_id s) room isDJ p sv)) = sv_pg sv"
    using pg assms(1) by (simp add: http_submit_check_def limited split: option.split sum.split)
qed

text \<open>
  C27: Submitting over HTTP and submitting over the socket do the same. For a session whose name is the
  one shown, holding the DJ key or not alike, with neither the cooldown of the connection nor the
  limiter in the way, both end with the same tables: the same track and queue entry with the
  same status under the request policy, or nothing stored, for every payload and every failure
  of a statement but the look-up of the room.
\<close>

theorem http_and_socket_submissions_agree:
  assumes "distinct (map room_id (db_rooms (sv_pg sv)))" and "\<not> env_faults env CGetRoom"
    and "find_row (\<lambda>r. room_slug r = slug) (db_rooms (sv_pg sv)) = Some room"
    and "w_pg w = sv_pg sv" and "hub_room (w_hub w) = room_id room"
    and "cl_session (w_clients w c) = s" and "DisplayName (w_clients w c) = session_name s"
    and "cl_is_dj (w_clients w c) = snd (VerifyDJKey ext (env_now env) key (room_dj_key_hash room) keys)"
    and "env_now env - cl_last_submit (w_clients w c) \<ge> 5 * second"
    and "snd (limited cf (\<lambda>rl. AllowQueueSubmit (env_rfaults env) (env_now env) (session_id s) (room_id room)) sv)"
    and "SubmitTrack ext cf env (Some s) slug key req sv keys = (keys', sv', reply)"
  shows "sv_pg sv' = w_pg (handleInbound env c (ActionSubmitTrack req) w)"
proof -
  let ?dj = "cl_is_dj (w_clients w c)"
  have by_id: "find_row (\<lambda>r. room_id r = room_id room) (db_rooms (sv_pg sv)) = Some room"
  proof -
    have in_rooms: "room \<in> set (db_rooms (sv_pg sv))" using assms(3) by (auto dest: find_row_Some)
    then have "find_row (\<lambda>r. room_id r = room_id room) (db_rooms (sv_pg sv)) \<noteq> None"
      unfolding find_row_None by blast
    then obtain r where r: "find_row (\<lambda>r. room_id r = room_id room) (db_rooms (sv_pg sv)) = Some r" by blast
    from find_row_Some [OF r] in_rooms assms(1) have "r = room"
      unfolding distinct_map by (blast dest: inj_onD)
    with r show ?thesis by simp
  qed
  obtain k1 where verify: "VerifyDJKey ext (env_now env) key (room_dj_key_hash room) keys = (k1, ?dj)"
    by (rule that [of "fst (VerifyDJKey ext (env_now env) key (room_dj_key_hash room) keys)"])
      (simp add: assms(8))
  have http: "(if room_policy room = PolicyClosed \<and> \<not> ?dj then (k1, sv, HttpError 403 ''requests are closed'')
      else (case req of
          None \<Rightarrow> (k1, sv, HttpError 400 ''invalid JSON'')
        | Some p \<Rightarrow> (case http_submit_check cf env (session_id s) room ?dj p sv of
              (sv1, Some (code, msg)) \<Rightarrow> (k1, sv1, HttpError code msg)
            | (sv1, None) \<Rightarrow> (k1, http_submit_store env s room ?dj p sv1)))) = (keys', sv', reply)"
    using assms(2,3,11) by (simp add: SubmitTrack_def GetRoomBySlug_def verify)
  show ?thesis
  proof (cases req)
    case None
    with http show ?thesis using assms(4) by (auto simp: handle_submit_def split: if_splits)
  next
    case (Some p)
    note agree = checks_agree [where p = p, OF assms(4) [symmetric] assms(5,6,9) refl assms(10)]
    have entry: "submitted_entry env c t st v = http_entry env s room st t"
      if "w_hub v = w_hub w" "cl_session (w_clients v c) = s" "DisplayName (w_clients v c) = session_name s" for t st v
      using that assms(5) by (simp add: submitted_entry_def http_entry_def Let_def)
    show ?thesis
    proof (cases "submit_check env c p w")
      case (Some reason)
      then have "sv_pg sv' = sv_pg sv"
        using http agree \<open>req = Some p\<close> by (auto split: if_splits prod.splits option.splits)
      then show ?thesis using Some \<open>req = Some p\<close> assms(4) by (simp add: handle_submit_def)
    next
      case None
      define w1 where "w1 = (if ?dj then w else on_client c (\<lambda>y. y\<lparr>cl_last_submit := env_now env\<rparr>) w)"
      have w1: "w_pg w1 = sv_pg sv" "w_hub w1 = w_hub w" "cl_session (w_clients w1 c) = s"
          "DisplayName (w_clients w1 c) = session_name s" "cl_is_dj (w_clients w1 c) = ?dj"
        using assms(4,6,7) by (auto simp: w1_def on_client_apply DisplayName_def split: option.split)
      have found: "deref_or_zero zero_room (GetRoomByID (env_faults env) (hub_room (w_hub w)) (w_pg w1)) = Some room"
        using by_id assms(2,5) by (simp add: GetRoomByID_def w1)
      have socket: "handleInbound env c (ActionSubmitTrack req) w
          = (if room_policy room = PolicyClosed \<and> \<not> ?dj then rejectTo c ''requests are closed for this room'' w1
             else submit_store env c p room w1)"
        by (simp only: \<open>req = Some p\<close> handleInbound.simps handle_submit_def option.case None Let_def
            w1_def [symmetric] found)
      show ?thesis
      proof (cases "room_policy room = PolicyClosed \<and> \<not> ?dj")
        case True
        then show ?thesis using http socket w1 by auto
      next
        case False
        then have "sv_pg sv' = sv_pg (fst (http_submit_store env s room ?dj p (fst (http_submit_check cf env (session_id s) room ?dj p sv))))"
          using http agree None \<open>req = Some p\<close> by (auto split: prod.splits option.splits)
        then show ?thesis
          using agree(2) unfolding socket if_not_P [OF False]
          by (simp add: http_submit_stored submit_store_stored entry w1)
      qed
    qed
  qed
qed

theorem http_and_socket_submissions_agree_witness:
  "sv_pg (fst (snd (SubmitTrack plain_outside demo_limits (demo_env 7) (Some (demo_session\<lparr>session_id := ''l''\<rparr>))
       (room_slug (demo_room ''r'')) ''guess'' (Some demo_submission) (demo_site\<lparr>sv_pg := w_pg (demo_stage PolicyApproval)\<rparr>) [])))
   = w_pg (handleInbound (demo_env 7) 2 (ActionSubmitTrack (Some demo_submission)) (demo_stage PolicyApproval))"
proof -
  let ?w = "demo_stage PolicyApproval" and ?s = "demo_session\<lparr>session_id := ''l''\<rparr>"
  let ?sv = "demo_site\<lparr>sv_pg := w_pg ?w\<rparr>"
  let ?room = "(demo_room ''r'')\<lparr>room_policy := PolicyApproval\<rparr>"
  have pg: "sv_pg ?sv = w_pg ?w" by simp
  have rooms: "db_rooms (w_pg ?w) = [?room]" by simp
  have found: "find_row (\<lambda>r. room_slug r = room_slug (demo_room ''r'')) (db_rooms (sv_pg ?sv)) = Some ?room"
    unfolding pg rooms by (simp add: find_row_simps)
  have "cl_user (w_clients ?w 2) = None"
    by (simp add: demo_stage_def demo_world_def demo_client_def NewClient_def)
  then have name: "DisplayName (w_clients ?w 2) = session_name ?s" by (simp add: DisplayName_def)
  have key: "cl_is_dj (w_clients ?w 2) = snd (VerifyDJKey plain_outside (env_now (demo_env 7)) ''guess'' (room_dj_key_hash ?room) [])"
    by (simp add: VerifyDJKey_def Let_def demo_room_def plain_outside_def)
  obtain k sv' reply where run: "SubmitTrack plain_outside demo_limits (demo_env 7) (Some ?s)
      (room_slug (demo_room ''r'')) ''guess'' (Some demo_submission) ?sv [] = (k, sv', reply)"
    by (metis prod_cases3)
  have hub: "hub_room (w_hub ?w) = room_id ?room" by (simp add: demo_room_def)
  have ids: "distinct (map room_id (db_rooms (sv_pg ?sv)))" unfolding pg rooms by simp
  have "sv_pg sv' = w_pg (handleInbound (demo_env 7) 2 (ActionSubmitTrack (Some demo_submission)) ?w)"
    by (rule http_and_socket_submissions_agree [OF ids _ found pg [symmetric] hub _ name key _ _ run])
      (simp_all add: no_faults_def second_def zero_time_def limited_def demo_limits_def)
  then show ?thesis unfolding run fst_conv snd_conv .
qed

section \<open>Saving a session\<close>

lemma distinct_ids_append_new:
  "set seen = set xs \<Longrightarrow> append_new xs (filter (\<lambda>x. x \<noteq> '''') ys) = xs @ distinct_ids seen ys"
proof (induction seen ys arbitrary: xs rule: distinct_ids.induct)
  case (1 seen)
  then show ?case by simp
next
  case (2 seen y ys)
  show ?case
  proof (cases "y = '''' \<or> y \<in> set seen")
    case True
    with 2 show ?thesis by auto
  next
    case False
    with "2.IH"(2) [OF False, of "xs @ [y]"] "2.prems" show ?thesis by simp
  qed
qed

lemma sessionPlaylist_append_new:
  "sessionPlaylistTrackIDs playing es = append_new [] (filter (\<lambda>x. x \<noteq> '''') (playing # map (\<lambda>e. track_id (entry_track e)) es))"
  using distinct_ids_append_new [of "if playing \<noteq> '''' then [playing] else []" "if playing \<noteq> '''' then [playing] else []"]
  by (auto simp: sessionPlaylistTrackIDs_def Let_def)

text \<open>
  A saved session is the session. When saving succeeds there is a new playlist of the user, named
  after the room and its DJ, that shows the track now playing followed by every played and waiting
  track in queue order, each once, and as many as the answer says; everyone else's playlists
  stay as they were.
\<close>

theorem saved_session_is_the_session:
  assumes "playlists_wf (sv_pg sv)" and "rows_joined (sv_pg sv)"
    and "SaveSession env user slug sv = (sv', HttpOK code (pl, n))"
  shows "\<exists>u room queued. user = Some u \<and> GetRoomBySlug (env_faults env) slug (sv_pg sv) = Inr (Some room)
    \<and> GetAllSessionTracks (env_faults env) (room_id room) (sv_pg sv) = Inr queued \<and> queued \<noteq> []
    \<and> pl_user pl = user_id u \<and> pl_name pl = room_name room @ '' '' @ em_dash @ '' '' @ room_dj_name room
    \<and> \<not> has_playlist (pl_id pl) (sv_pg sv) \<and> has_playlist (pl_id pl) (sv_pg sv')
    \<and> shown_tracks (pl_id pl) (sv_pg sv') = append_new [] (filter (\<lambda>x. x \<noteq> '''')
        ((case or_zero None (GetPlaybackState (env_rfaults env) (room_id room) (sv_redis sv)) of
            None \<Rightarrow> '''' | Some ps \<Rightarrow> ps_track ps) # map (\<lambda>e. track_id (entry_track e)) queued))
    \<and> n = length (shown_tracks (pl_id pl) (sv_pg sv'))
    \<and> (\<forall>pid. pid \<noteq> pl_id pl \<longrightarrow> shown_tracks pid (sv_pg sv') = shown_tracks pid (sv_pg sv))"
proof -
  let ?f = "env_faults env"
  from assms(3) obtain u room where u: "user = Some u" "or_zero None (GetRoomBySlug ?f slug (sv_pg sv)) = Some room"
    by (auto simp: SaveSession_def split: option.splits)
  define playing where "playing = (case or_zero None (GetPlaybackState (env_rfaults env) (room_id room) (sv_redis sv)) of
      None \<Rightarrow> '''' | Some ps \<Rightarrow> ps_track ps)"
  define queued where "queued = or_zero [] (GetAllSessionTracks ?f (room_id room) (sv_pg sv))"
  define ids where "ids = sessionPlaylistTrackIDs playing queued"
  define new where "new = \<lparr>pl_id = env_uuid env 0, pl_user = user_id u,
    pl_name = room_name room @ '' '' @ em_dash @ '' '' @ room_dj_name room, pl_liked = False,
    pl_count = 0, pl_tracks = [], pl_created_at = env_now env, pl_updated_at = env_now env\<rparr>"
  define rows where "rows = map (\<lambda>i. env_uuid env (1 + i)) [0 ..< length ids]"
  have run: "(if queued = [] then (sv, HttpError 400 ''no tracks to save'')
      else (case CreatePlaylist ?f new (sv_pg sv) of
          Inl _ \<Rightarrow> (sv, HttpError 500 ''failed to create playlist'')
        | Inr db1 \<Rightarrow> (case AddTracksToPlaylist ?f (env_now env) (pl_id new) rows ids db1 of
              Inl _ \<Rightarrow> (sv\<lparr>sv_pg := or_zero db1 (DeletePlaylist ?f (pl_id new) db1)\<rparr>,
                         HttpError 500 ''failed to save playlist'')
            | Inr db2 \<Rightarrow> (sv\<lparr>sv_pg := db2\<rparr>, HttpOK 201 (new, length ids))))) = (sv', HttpOK code (pl, n))"
    using assms(3)
    unfolding SaveSession_def u(1) option.case u(2) Let_def playing_def [symmetric] queued_def [symmetric]
      ids_def [symmetric] new_def [symmetric] rows_def [symmetric] .
  from run have queue: "queued \<noteq> []" by (cases "queued = []") simp_all
  with run obtain db1 where create: "CreatePlaylist ?f new (sv_pg sv) = Inr db1"
    by (cases "CreatePlaylist ?f new (sv_pg sv)") simp_all
  with run queue obtain db2 where add': "AddTracksToPlaylist ?f (env_now env) (pl_id new) rows ids db1 = Inr db2"
    by (cases "AddTracksToPlaylist ?f (env_now env) (pl_id new) rows ids db1") simp_all
  have sv': "sv' = sv\<lparr>sv_pg := db2\<rparr>" and "pl = new" and n: "n = length ids"
    using run queue create add' by simp_all
  then have pl: "pl_user pl = user_id u" "pl_name pl = room_name room @ '' '' @ em_dash @ '' '' @ room_dj_name room"
    by (simp_all add: new_def)
  note create = create [folded \<open>pl = new\<close>]
  note add = add' [folded \<open>pl = new\<close>, unfolded rows_def]
  have db1: "db_playlist_tracks db1 = db_playlist_tracks (sv_pg sv)" "db_tracks db1 = db_tracks (sv_pg sv)"
      "\<not> has_playlist (pl_id pl) (sv_pg sv)" "has_playlist (pl_id pl) db1"
    using create by (auto simp: CreatePlaylist_def has_playlist_def split: if_splits)
  have joined: "rows_joined db1" using assms(2) by (simp add: rows_joined_def has_track_def db1)
  have "listed_tracks (pl_id pl) (db_playlist_tracks (sv_pg sv)) = []"
    using assms(1) db1(3) by (auto simp: listed_tracks_def playlists_wf_def filter_empty_conv)
  then have empty: "shown_tracks (pl_id pl) db1 = []" using joined by (simp add: shown_listed db1)
  have step: "playlist_step (pl_id pl) (AddMany ?f (env_now env) (map (\<lambda>i. env_uuid env (1 + i)) [0 ..< length ids]) ids) db1 = Inr db2"
    using add by simp
  have shown: "shown_tracks (pl_id pl) db2 = append_new [] ids"
    using track_lists.op_view [OF joined _ step] empty by simp
  have others: "shown_tracks pid db2 = shown_tracks pid (sv_pg sv)" if "pid \<noteq> pl_id pl" for pid
    using track_lists.op_other [OF joined step that] joined assms(2) by (simp add: shown_listed db1)
  have "distinct ids" by (simp add: ids_def sessionPlaylist_append_new distinct_append_new)
  then have exact: "append_new [] ids = ids" by (simp add: append_new_distinct)
  have kept: "has_playlist (pl_id pl) db2"
  proof -
    have "has_playlist p (touch_playlist f now k d) = has_playlist p d" for p f now k d
      using keys_update_where [of pl_id "\<lambda>p. p\<lparr>pl_updated_at := now\<rparr>" "\<lambda>p. pl_id p = k" "db_playlists d"]
      by (simp add: touch_playlist_def has_playlist_image)
    moreover have "insert_rows now k pos new d = Inr d' \<Longrightarrow> has_playlist p d' = has_playlist p d" for now k pos new d d' p
      by (auto simp: insert_rows_def Let_def has_playlist_def split: option.splits if_splits)
    ultimately show ?thesis using add db1(4)
      by (auto simp: AddTracksToPlaylist_def split: if_splits sum.splits)
  qed
  have "GetRoomBySlug ?f slug (sv_pg sv) = Inr (Some room)" using u(2) by (simp add: or_zero_def split: sum.splits)
  moreover have "GetAllSessionTracks ?f (room_id room) (sv_pg sv) = Inr queued"
    using queue by (auto simp: queued_def or_zero_def split: sum.splits)
  moreover have "ids = append_new [] (filter (\<lambda>x. x \<noteq> '''') (playing # map (\<lambda>e. track_id (entry_track e)) queued))"
    unfolding ids_def by (rule sessionPlaylist_append_new)
  moreover have "sv_pg sv' = db2" by (simp add: sv')
  moreover have "shown_tracks (pl_id pl) db2 = ids" using shown exact by simp
  moreover have "\<forall>pid. pid \<noteq> pl_id pl \<longrightarrow> shown_tracks pid db2 = shown_tracks pid (sv_pg sv)"
    using others by blast
  ultimately show ?thesis
    using u(1) queue pl db1(3) kept n
    by (intro exI [of _ u] exI [of _ room] exI [of _ queued]) (simp only: simp_thms playing_def)
qed

definition saving_env :: env where
  "saving_env = (demo_env 7)\<lparr>env_uuid := (\<lambda>n. if n = 0 then ''p'' else if n = 1 then ''a'' else ''b'')\<rparr>"

definition saving_site :: server where
  "saving_site = demo_site\<lparr>sv_pg := demo_db\<lparr>db_users := [demo_host]\<rparr>\<rparr>"

lemma saving_queue:
  "GetAllSessionTracks (env_faults saving_env) ''r'' (sv_pg saving_site)
   = Inr [the (join_track demo_db (demo_row ''b'' ''t2'' QueueApproved 1)), the (join_track demo_db (demo_row ''a'' ''t1'' QueueApproved 2))]"
  by (simp add: GetAllSessionTracks_def failing_def saving_env_def demo_env_def no_faults_def saving_site_def order_by_def
      demo_db_def demo_row_def map_filter_simps join_track_def find_row_simps demo_track_def)

theorem saved_session_is_the_session_witness:
  "\<exists>sv' pl. SaveSession saving_env (Some demo_host) ''r'' saving_site = (sv', HttpOK 201 (pl, 2))
     \<and> shown_tracks (pl_id pl) (sv_pg sv') = [''t2'', ''t1''] \<and> pl_user pl = ''ann''"
proof -
  have ids: "map (\<lambda>e. track_id (entry_track e)) [the (join_track demo_db (demo_row ''b'' ''t2'' QueueApproved 1)),
      the (join_track demo_db (demo_row ''a'' ''t1'' QueueApproved 2))] = [''t2'', ''t1'']"
    by (simp add: join_track_def demo_db_def demo_row_def find_row_simps demo_track_def)
  have room: "GetRoomBySlug (env_faults saving_env) ''r'' (sv_pg saving_site) = Inr (Some (demo_room ''r''))"
    by (simp add: GetRoomBySlug_def failing_def saving_env_def demo_env_def no_faults_def saving_site_def demo_db_def
        demo_room_def find_row_simps)

  have rid: "room_id (demo_room ''r'') = ''r''" by (simp add: demo_room_def)
  have play: "GetPlaybackState (env_rfaults saving_env) ''r'' (sv_redis saving_site) = Inr None"
    by (simp add: GetPlaybackState_def failing_def saving_env_def demo_env_def saving_site_def demo_site_def empty_redis_def)
  have tracks: "sessionPlaylistTrackIDs '''' [the (join_track demo_db (demo_row ''b'' ''t2'' QueueApproved 1)),
      the (join_track demo_db (demo_row ''a'' ''t1'' QueueApproved 2))] = [''t2'', ''t1'']"
    unfolding sessionPlaylistTrackIDs_def ids by simp
  have create: "CreatePlaylist (env_faults saving_env) pl (sv_pg saving_site)
      = Inr ((sv_pg saving_site)\<lparr>db_playlists := [pl]\<rparr>)" if "pl_user pl = user_id demo_host" "pl_tracks pl = []" "pl_count pl = 0" for pl
    using that by (cases pl) (simp add: CreatePlaylist_def saving_env_def demo_env_def no_faults_def saving_site_def
        demo_db_def empty_db_def has_playlist_def has_user_def)
  let ?pl = "\<lparr>pl_id = env_uuid saving_env 0, pl_user = user_id demo_host,
    pl_name = room_name (demo_room ''r'') @ '' '' @ em_dash @ '' '' @ room_dj_name (demo_room ''r''), pl_liked = False,
    pl_count = 0, pl_tracks = [], pl_created_at = env_now saving_env, pl_updated_at = env_now saving_env\<rparr>"
  have "\<exists>db. AddTracksToPlaylist (env_faults saving_env) (env_now saving_env) (pl_id pl)
      [env_uuid saving_env 1, env_uuid saving_env 2] [''t2'', ''t1''] ((sv_pg saving_site)\<lparr>db_playlists := [pl]\<rparr>) = Inr db" for pl
    by (simp add: AddTracksToPlaylist_def playlist_statements saving_env_def demo_env_def no_faults_def saving_site_def
        demo_db_def empty_db_def demo_track_def Let_def update_where_def max_or_def)
  from this [of ?pl] obtain db where added: "AddTracksToPlaylist (env_faults saving_env) (env_now saving_env) (pl_id ?pl)
      [env_uuid saving_env 1, env_uuid saving_env 2] [''t2'', ''t1''] ((sv_pg saving_site)\<lparr>db_playlists := [?pl]\<rparr>) = Inr db" by blast
  have two: "[0 ..< Suc (Suc 0)] = [0, 1]" by (simp add: upt_rec)
  have uuids: "env_uuid saving_env 0 = ''p''" "env_uuid saving_env (Suc 0) = ''a''" "env_uuid saving_env 1 = ''a''"
      "env_uuid saving_env (Suc (Suc 0)) = ''b''" "env_uuid saving_env 2 = ''b''"
    by (simp_all add: saving_env_def)
  obtain sv' pl where run: "SaveSession saving_env (Some demo_host) ''r'' saving_site = (sv', HttpOK 201 (pl, 2))"
    using added uuids by (simp add: SaveSession_def room play rid saving_queue Let_def tracks create two)
  have wf: "playlists_wf (sv_pg saving_site)" "rows_joined (sv_pg saving_site)"
    by (simp_all add: playlists_wf_def rows_joined_def saving_site_def demo_db_def empty_db_def)
  from saved_session_is_the_session [OF wf run] room rid saving_queue ids play
  have "shown_tracks (pl_id pl) (sv_pg sv') = [''t2'', ''t1'']" "pl_user pl = ''ann''"
    by (auto simp: demo_host_def)
  with run show ?thesis by blast
qed

end
