(* ===== verification/Sockets.thy ===== *)
theory Sockets
  imports Rooms
begin

text \<open>
  How a browser gets from a cookie to a place in a room: the session handlers
  (\<open>internal/handlers/session.go\<close>), the single-use tickets (\<open>internal/handlers/wsticket.go\<close>) and the
  handshake (\<open>internal/handlers/websocket.go\<close>) with its caps. The handshake is cut where it waits:
  taking a slot, joining the hub, and the goroutine that gives the slot back.
\<close>

section \<open>Sessions\<close>

text \<open>The random name and colour that \<open>CreateSession\<close> draws are arguments.\<close>

definition EnsureSession ::
  "env \<Rightarrow> duration \<Rightarrow> string \<Rightarrow> string \<Rightarrow> Session option \<Rightarrow> Session cache \<Rightarrow> redis
     \<Rightarrow> (Session cache \<times> redis \<times> Session) fallible" where
  "EnsureSession env ttl name color session c r =
     (case session of
        Some s \<Rightarrow> Inr (c, r, s)
      | None \<Rightarrow> (case CreateSession (env_rfaults env) (env_now env) ttl (env_uuid env 0) name color r of
            Inl e \<Rightarrow> Inl e
          | Inr (r', s) \<Rightarrow> Inr (putCachedSession (env_now env) (session_id s) s c, r', s)))"

definition GetCurrent ::
  "outside \<Rightarrow> auth_config \<Rightarrow> env \<Rightarrow> string \<Rightarrow> string \<Rightarrow> string \<Rightarrow> Session option \<Rightarrow> Session cache \<Rightarrow> server
     \<Rightarrow> Session cache \<times> server \<times> Session response" where
  "GetCurrent ext cf env ip name color session c sv =
     (case (if session = None
            then limited cf (\<lambda>rl. AllowSessionCreate (loopback ext) (env_rfaults env) (env_now env) ip) sv
            else (sv, True)) of
        (sv1, False) \<Rightarrow> (c, sv1, HttpError 429 (''too many new sessions '' @ em_dash @ '' please try again later''))
      | (sv1, True) \<Rightarrow> (case EnsureSession env (cf_session_ttl cf) name color session c (sv_redis sv1) of
            Inl _ \<Rightarrow> (c, sv1, HttpError 500 ''failed to create session'')
          | Inr (c', r, s) \<Rightarrow> (c', sv1\<lparr>sv_redis := r\<rparr>, HttpOK 200 s)))"

text \<open>
  The session of a request is the object that the cache holds for its id, so the assignment to its
  \<open>DisplayName\<close> after the write to Redis renames the cached copy too.
\<close>

definition rename_cached :: "string \<Rightarrow> string \<Rightarrow> Session cache \<Rightarrow> Session cache" where
  "rename_cached sid name c = c\<lparr>entries := (entries c)(sid :=
     map_option (\<lambda>(s, e). (s\<lparr>session_name := name\<rparr>, e)) (entries c sid))\<rparr>"

definition Update_session ::
  "auth_config \<Rightarrow> env \<Rightarrow> Session option \<Rightarrow> string option \<Rightarrow> Session cache \<Rightarrow> server
     \<Rightarrow> Session cache \<times> server \<times> Session response" where
  "Update_session cf env session body c sv =
     (case session of
        None \<Rightarrow> (c, sv, HttpError 401 ''no session'')
      | Some s \<Rightarrow> (case body of
            None \<Rightarrow> (c, sv, HttpError 400 ''invalid JSON'')
          | Some name \<Rightarrow>
              if name = '''' \<or> length name > 30
              then (c, sv, HttpError 400 ''display name must be 1-30 characters'')
              else if env_rfaults env RSession then (c, sv, HttpError 500 ''failed to update'')
              else (case UpdateSessionName (env_now env) (cf_session_ttl cf) (session_id s) name [(sv_redis sv, False)] of
                  Inl _ \<Rightarrow> (c, sv, HttpError 500 ''failed to update'')
                | Inr r \<Rightarrow> (rename_cached (session_id s) name c, sv\<lparr>sv_redis := r\<rparr>,
                    HttpOK 200 (s\<lparr>session_name := name\<rparr>)))))"

section \<open>Tickets\<close>

text \<open>The DJ status of a ticket is decided here, once, against the hash of the room's key.\<close>

definition new_ticket :: "Session \<Rightarrow> User option \<Rightarrow> Room \<Rightarrow> bool \<Rightarrow> WSTicket" where
  "new_ticket s user room dj = \<lparr>wt_session = session_id s,
     wt_user = (case user of None \<Rightarrow> '''' | Some u \<Rightarrow> user_id u), wt_room = room_id room, wt_is_dj = dj\<rparr>"

definition Create_ticket ::
  "outside \<Rightarrow> auth_config \<Rightarrow> env \<Rightarrow> Session option \<Rightarrow> User option \<Rightarrow> string \<Rightarrow> string \<Rightarrow> string option
     \<Rightarrow> server \<Rightarrow> dj_cache \<Rightarrow> dj_cache \<times> server \<times> string response" where
  "Create_ticket ext cf env session user ip djKey slug sv c =
     (case session of
        None \<Rightarrow> (c, sv, HttpError 401 ''no session'')
      | Some s \<Rightarrow>
          (case limited cf (\<lambda>rl. AllowWSTicket (loopback ext) (env_rfaults env) (env_now env) ip) sv of
            (sv1, allowed) \<Rightarrow>
              if \<not> allowed then (c, sv1, HttpError 429 ''too many requests'')
              else if slug = None \<or> slug = Some '''' then (c, sv1, HttpError 400 ''roomSlug required'')
              else (case or_zero None (GetRoomBySlug (env_faults env) (the slug) (sv_pg sv1)) of
                  None \<Rightarrow> (c, sv1, HttpError 404 ''room not found'')
                | Some room \<Rightarrow>
                    (case (if djKey = '''' then (c, False)
                           else VerifyDJKey ext (env_now env) djKey (room_dj_key_hash room) c) of
                      (c', dj) \<Rightarrow>
                        (case CreateWSTicket (env_rfaults env) (env_now env) (env_uuid env 0)
                                (new_ticket s user room dj) (sv_redis sv1) of
                          Inl _ \<Rightarrow> (c', sv1, HttpError 500 ''failed to create ticket'')
                        | Inr (r, tid) \<Rightarrow> (c', sv1\<lparr>sv_redis := r\<rparr>, HttpOK 200 tid))))))"

section \<open>The slots of an address\<close>

definition maxWSConnsPerIP :: int where "maxWSConnsPerIP = 20"
definition maxWSConnsPerSession :: nat where "maxWSConnsPerSession = 4"

type_synonym slots = "string \<rightharpoonup> int"

text \<open>Reading a Go map yields zero for a key that is not there.\<close>

definition slot_count :: "string \<Rightarrow> slots \<Rightarrow> int" where
  "slot_count ip m = (case m ip of None \<Rightarrow> 0 | Some n \<Rightarrow> n)"

definition acquireIPSlot :: "string \<Rightarrow> slots \<Rightarrow> slots option" where
  "acquireIPSlot ip m =
     (if slot_count ip m \<ge> maxWSConnsPerIP then None else Some (m(ip \<mapsto> slot_count ip m + 1)))"

definition release_slot :: "string \<Rightarrow> slots \<Rightarrow> slots" where
  "release_slot ip m = (if slot_count ip m \<le> 1 then m(ip := None) else m(ip \<mapsto> slot_count ip m - 1))"

section \<open>The handshake\<close>

text \<open>An address that the browser names must be allowed; the development address also allows its
  neighbour.\<close>

definition CheckOrigin :: "string list \<Rightarrow> string \<Rightarrow> bool" where
  "CheckOrigin allowedOrigins origin \<longleftrightarrow>
     origin = ''''
     \<or> ''http://localhost:3000'' \<in> set allowedOrigins
         \<and> (origin = ''http://localhost:3000'' \<or> origin = ''http://localhost:8080'')
     \<or> origin \<in> set allowedOrigins"

record ws_request =
  wr_slug :: string
  wr_ticket :: string
  wr_cookie :: "Session option"
  wr_origin :: string
  wr_forwarded :: string
  wr_remote :: string

text \<open>What the ticket says. The user and the DJ status stand even when its session is gone and the
  session of the cookie is used.\<close>

definition redeemed :: "env \<Rightarrow> ws_request \<Rightarrow> server \<Rightarrow> server \<times> WSTicket option" where
  "redeemed env q sv =
     (if wr_ticket q = '''' then (sv, None)
      else case RedeemWSTicket (env_rfaults env) (env_now env) (wr_ticket q) (sv_redis sv) of
          Inl _ \<Rightarrow> (sv, None)
        | Inr (r, t) \<Rightarrow> (sv\<lparr>sv_redis := r\<rparr>, t))"

record handshake =
  hs_room :: Room
  hs_session :: Session
  hs_user :: string
  hs_dj :: bool
  hs_ip :: string

definition ticket_session :: "env \<Rightarrow> WSTicket option \<Rightarrow> server \<Rightarrow> Session option" where
  "ticket_session env t sv = (case t of
       None \<Rightarrow> None
     | Some t \<Rightarrow> or_zero None (GetSession (env_rfaults env) (env_now env) (wt_session t) (sv_redis sv)))"

definition identify :: "env \<Rightarrow> ws_request \<Rightarrow> server \<Rightarrow> server \<times> WSTicket option \<times> ((nat \<times> string) + handshake)" where
  "identify env q sv =
     (case or_zero None (GetRoomBySlug (env_faults env) (wr_slug q) (sv_pg sv)) of
        None \<Rightarrow> (sv, None, Inl (404, ''room not found''))
      | Some room \<Rightarrow> (case redeemed env q sv of
          (sv1, got) \<Rightarrow>
            (let valid = (case got of None \<Rightarrow> None | Some t \<Rightarrow> if wt_room t = room_id room then Some t else None);
                 session = (case ticket_session env valid sv1 of None \<Rightarrow> wr_cookie q | Some s \<Rightarrow> Some s) in
             (sv1, got, case session of
                None \<Rightarrow> Inl (401, ''no session '' @ em_dash @ '' fetch a ws ticket first'')
              | Some s \<Rightarrow> Inr \<lparr>hs_room = room, hs_session = s,
                  hs_user = (case valid of None \<Rightarrow> '''' | Some t \<Rightarrow> wt_user t),
                  hs_dj = (case valid of None \<Rightarrow> False | Some t \<Rightarrow> wt_is_dj t),
                  hs_ip = ClientIP (wr_forwarded q) (wr_remote q)\<rparr>))))"

text \<open>The connection: a banned or unreadable account leaves it anonymous.\<close>

definition ws_client :: "env \<Rightarrow> handshake \<Rightarrow> pgdb \<Rightarrow> Client" where
  "ws_client env hs db =
     (let c = (NewClient (hs_session hs))\<lparr>cl_is_dj := hs_dj hs\<rparr> in
      if hs_user hs = '''' then c
      else case GetUserByID (env_faults env) (env_now env) (hs_user hs) db of
          Inr (Some u) \<Rightarrow> if user_is_banned u then c else c\<lparr>cl_user_id := user_id u, cl_user := Some u\<rparr>
        | _ \<Rightarrow> c)"

text \<open>
  \<open>RegisterClient\<close>: the channel is not buffered, so the loop receives the connection in the moment
  it is handed over; after a shutdown the \<open>select\<close> may find the loop or the closed channel.
\<close>

definition RegisterClient :: "env \<Rightarrow> cid \<Rightarrow> world \<Rightarrow> world \<times> bool" where
  "RegisterClient env c w =
     (case RegisterClient_claim (w_hub w) of
        (h, False) \<Rightarrow> (w\<lparr>w_hub := h\<rparr>, False)
      | (h, True) \<Rightarrow>
          if hub_quit h \<and> \<not> env_pick env then (on_hub RegisterClient_abort (w\<lparr>w_hub := h\<rparr>), False)
          else (Run_register c (w\<lparr>w_hub := h\<rparr>), True))"

datatype ws_answer = NotUpgraded | PolicyClose | HubGone | Opened

definition hub_world :: "hub \<Rightarrow> (cid \<Rightarrow> Client) \<Rightarrow> server \<Rightarrow> world" where
  "hub_world h clients sv = \<lparr>w_hub = h, w_clients = clients, w_pg = sv_pg sv, w_redis = sv_redis sv,
     w_reports = [], w_shutdowns = 0\<rparr>"

text \<open>From the upgrade on. \<open>upgraded\<close> tells whether the library accepts the rest of the handshake.\<close>

definition join_room ::
  "env \<Rightarrow> bool \<Rightarrow> cid \<Rightarrow> handshake \<Rightarrow> server \<Rightarrow> (cid \<Rightarrow> Client) \<Rightarrow> server \<times> (cid \<Rightarrow> Client) \<times> ws_answer" where
  "join_room env upgraded c hs sv clients =
     (if \<not> upgraded then (sv, clients, NotUpgraded)
      else
        (let rid = room_id (hs_room hs);
             sv1 = GetOrCreate rid (room_slug (hs_room hs)) sv;
             w = hub_world (the (sv_hubs sv1 rid)) clients sv1 in
         if SessionClientCount (session_id (hs_session hs)) w \<ge> maxWSConnsPerSession
         then (sv1, clients, PolicyClose)
         else (case RegisterClient env c (w\<lparr>w_clients := (w_clients w)(c := ws_client env hs (sv_pg sv1))\<rparr>) of
             (w', ok) \<Rightarrow> (sv1\<lparr>sv_hubs := (sv_hubs sv1)(rid \<mapsto> w_hub w')\<rparr>, w_clients w',
                if ok then Opened else HubGone))))"

text \<open>The whole handler, run without pause: its answer, and the address whose slot stays taken.\<close>

definition HandleRoomWS ::
  "string list \<Rightarrow> env \<Rightarrow> bool \<Rightarrow> cid \<Rightarrow> ws_request \<Rightarrow> server \<Rightarrow> (cid \<Rightarrow> Client) \<Rightarrow> slots
     \<Rightarrow> server \<times> (cid \<Rightarrow> Client) \<times> slots \<times> ((nat \<times> string) + ws_answer)" where
  "HandleRoomWS allowedOrigins env upgraded c q sv clients slots =
     (case identify env q sv of
        (sv1, _, Inl refusal) \<Rightarrow> (sv1, clients, slots, Inl refusal)
      | (sv1, _, Inr hs) \<Rightarrow> (case acquireIPSlot (hs_ip hs) slots of
            None \<Rightarrow> (sv1, clients, slots, Inl (429, ''too many connections''))
          | Some slots1 \<Rightarrow>
              (case join_room env (upgraded \<and> CheckOrigin allowedOrigins (wr_origin q)) c hs sv1 clients of
                (sv2, clients2, answer) \<Rightarrow>
                  (sv2, clients2, if answer = Opened then slots1 else release_slot (hs_ip hs) slots1, Inr answer))))"

end
