(* ===== verification/SocketProps.thy ===== *)
theory SocketProps
  imports Sockets RoomProps
begin

text \<open>
  Handshakes interleaved with everything else, as traces: the slots of an address are counted
  exactly, and a connection has DJ status only through a key.
\<close>

section \<open>Traces\<close>

text \<open>
  A connection has not begun, waits between its slot and the hub, is open, or is over; the handshake
  stays with it. The handshakes' view of the server: the DJ key cache, the slots and the clients.
\<close>

datatype stage = Unused | Holding handshake | Connected handshake | Over

record sockets =
  so_server :: server
  so_clients :: "cid \<Rightarrow> Client"
  so_slots :: slots
  so_stage :: "cid \<Rightarrow> stage"
  so_keys :: dj_cache

text \<open>
  What a trace remembers: requests for tickets with the room they found and their answer, redeemed
  tickets, other checks of DJ keys, and steps of no interest here.
\<close>

datatype ws_event =
    Asked gotime string "Room option" "string response"
  | Arrived gotime cid string "WSTicket option"
  | Checked gotime string string
  | Silent

definition tickets_of :: "sockets \<Rightarrow> string \<rightharpoonup> WSTicket \<times> gotime" where
  "tickets_of st = rd_tickets (sv_redis (so_server st))"

definition sockets_start :: "sockets \<Rightarrow> bool" where
  "sockets_start st \<longleftrightarrow> tickets_of st = Map.empty \<and> so_slots st = Map.empty
     \<and> so_stage st = (\<lambda>_. Unused) \<and> so_keys st = []"

inductive ws_run :: "outside \<Rightarrow> auth_config \<Rightarrow> string list \<Rightarrow> ws_event list \<Rightarrow> sockets \<Rightarrow> bool"
  for ext :: outside and cf :: auth_config and allowed :: "string list" where
  start: "sockets_start st \<Longrightarrow> ws_run ext cf allowed [] st"
| asked: "ws_run ext cf allowed tr st
    \<Longrightarrow> Create_ticket ext cf env session user ip djKey slug (so_server st) (so_keys st) = (keys, sv, answer)
    \<Longrightarrow> ws_run ext cf allowed
         (Asked (env_now env) djKey
            (case slug of None \<Rightarrow> None | Some s \<Rightarrow> or_zero None (GetRoomBySlug (env_faults env) s (sv_pg (so_server st)))) answer # tr)
         (st\<lparr>so_server := sv, so_keys := keys\<rparr>)"
| refused: "ws_run ext cf allowed tr st \<Longrightarrow> so_stage st c = Unused
    \<Longrightarrow> identify env q (so_server st) = (sv, got, Inl refusal)
    \<Longrightarrow> ws_run ext cf allowed (Arrived (env_now env) c (wr_ticket q) got # tr)
         (st\<lparr>so_server := sv, so_stage := (so_stage st)(c := Over)\<rparr>)"
| full: "ws_run ext cf allowed tr st \<Longrightarrow> so_stage st c = Unused
    \<Longrightarrow> identify env q (so_server st) = (sv, got, Inr hs) \<Longrightarrow> acquireIPSlot (hs_ip hs) (so_slots st) = None
    \<Longrightarrow> ws_run ext cf allowed (Arrived (env_now env) c (wr_ticket q) got # tr)
         (st\<lparr>so_server := sv, so_stage := (so_stage st)(c := Over)\<rparr>)"
| admitted: "ws_run ext cf allowed tr st \<Longrightarrow> so_stage st c = Unused
    \<Longrightarrow> identify env q (so_server st) = (sv, got, Inr hs) \<Longrightarrow> acquireIPSlot (hs_ip hs) (so_slots st) = Some slots
    \<Longrightarrow> ws_run ext cf allowed (Arrived (env_now env) c (wr_ticket q) got # tr)
         (st\<lparr>so_server := sv, so_slots := slots, so_stage := (so_stage st)(c := Holding hs)\<rparr>)"
| joined: "ws_run ext cf allowed tr st \<Longrightarrow> so_stage st c = Holding hs
    \<Longrightarrow> join_room env (upgraded \<and> CheckOrigin allowed origin) c hs (so_server st) (so_clients st) = (sv, clients, Opened)
    \<Longrightarrow> ws_run ext cf allowed (Silent # tr)
         (st\<lparr>so_server := sv, so_clients := clients, so_stage := (so_stage st)(c := Connected hs)\<rparr>)"
| turned_away: "ws_run ext cf allowed tr st \<Longrightarrow> so_stage st c = Holding hs
    \<Longrightarrow> join_room env (upgraded \<and> CheckOrigin allowed origin) c hs (so_server st) (so_clients st) = (sv, clients, answer)
    \<Longrightarrow> answer \<noteq> Opened
    \<Longrightarrow> ws_run ext cf allowed (Silent # tr)
         (st\<lparr>so_server := sv, so_clients := clients, so_slots := release_slot (hs_ip hs) (so_slots st),
             so_stage := (so_stage st)(c := Over)\<rparr>)"
| closed: "ws_run ext cf allowed tr st \<Longrightarrow> so_stage st c = Connected hs \<Longrightarrow> cl_done (so_clients st c)
    \<Longrightarrow> ws_run ext cf allowed (Silent # tr)
         (st\<lparr>so_slots := release_slot (hs_ip hs) (so_slots st), so_stage := (so_stage st)(c := Over)\<rparr>)"
| checked: "ws_run ext cf allowed tr st
    \<Longrightarrow> ws_run ext cf allowed (Checked t key hash # tr) (st\<lparr>so_keys := fst (VerifyDJKey ext t key hash (so_keys st))\<rparr>)"
| elsewhere: "ws_run ext cf allowed tr st \<Longrightarrow> rd_tickets (sv_redis sv) = tickets_of st
    \<Longrightarrow> (\<And>c. cl_is_dj (clients c) = cl_is_dj (so_clients st c))
    \<Longrightarrow> ws_run ext cf allowed (Silent # tr) (st\<lparr>so_server := sv, so_clients := clients\<rparr>)"

section \<open>Slots\<close>

definition holders :: "(cid \<Rightarrow> stage) \<Rightarrow> string \<Rightarrow> cid set" where
  "holders stages ip = {c. \<exists>hs. (stages c = Holding hs \<or> stages c = Connected hs) \<and> hs_ip hs = ip}"

definition slots_exact :: "(cid \<Rightarrow> stage) \<Rightarrow> slots \<Rightarrow> bool" where
  "slots_exact stages slots \<longleftrightarrow> (\<forall>ip. finite (holders stages ip)
     \<and> slots ip = (if holders stages ip = {} then None else Some (int (card (holders stages ip))))
     \<and> int (card (holders stages ip)) \<le> maxWSConnsPerIP)"

lemma slots_exactD:
  assumes "slots_exact stages slots"
  shows "finite (holders stages ip)" and "slot_count ip slots = int (card (holders stages ip))"
    and "slots ip = None \<longleftrightarrow> holders stages ip = {}" and "int (card (holders stages ip)) \<le> maxWSConnsPerIP"
  using assms unfolding slots_exact_def slot_count_def by (auto split: if_splits)

lemma holders_neutral:
  "(\<And>hs. stages c \<noteq> Holding hs \<and> stages c \<noteq> Connected hs) \<Longrightarrow> (\<And>hs. x \<noteq> Holding hs \<and> x \<noteq> Connected hs)
   \<Longrightarrow> holders (stages(c := x)) ip = holders stages ip"
  unfolding holders_def by (auto simp: fun_upd_def)

lemma holders_take:
  "(\<And>hs'. stages c \<noteq> Holding hs' \<and> stages c \<noteq> Connected hs')
   \<Longrightarrow> holders (stages(c := Holding hs)) ip = (if ip = hs_ip hs then insert c (holders stages ip) else holders stages ip)"
  unfolding holders_def by (auto simp: fun_upd_def)

lemma holders_give:
  "stages c = Holding hs \<or> stages c = Connected hs
   \<Longrightarrow> holders (stages(c := Over)) ip = (if ip = hs_ip hs then holders stages ip - {c} else holders stages ip)"
  unfolding holders_def by (auto simp: fun_upd_def)

lemma holders_open:
  "stages c = Holding hs \<Longrightarrow> holders (stages(c := Connected hs)) ip = holders stages ip"
  unfolding holders_def by (auto simp: fun_upd_def)

lemma slots_keep: "holders stages' = holders stages \<Longrightarrow> slots_exact stages' slots = slots_exact stages slots"
  by (simp add: slots_exact_def)

lemma slots_take:
  assumes "slots_exact stages slots" and "stages c = Unused" and "acquireIPSlot (hs_ip hs) slots = Some slots'"
  shows "slots_exact (stages(c := Holding hs)) slots'"
proof -
  let ?ip = "hs_ip hs"
  have c: "c \<notin> holders stages ip" for ip using assms(2) by (simp add: holders_def)
  have slots': "slot_count ?ip slots < maxWSConnsPerIP" "slots' = slots(?ip \<mapsto> slot_count ?ip slots + 1)"
    using assms(3) by (auto simp: acquireIPSlot_def split: if_splits)
  have "holders (stages(c := Holding hs)) ip = (if ip = ?ip then insert c (holders stages ip) else holders stages ip)" for ip
    using assms(2) by (intro holders_take) simp
  then show ?thesis
    using assms(1) slots' c slots_exactD [OF assms(1)] by (auto simp: slots_exact_def)
qed

lemma slots_give:
  assumes "slots_exact stages slots" and "stages c = Holding hs \<or> stages c = Connected hs"
  shows "slots_exact (stages(c := Over)) (release_slot (hs_ip hs) slots)"
proof -
  let ?ip = "hs_ip hs"
  note exact = slots_exactD [OF assms(1)]
  have c: "c \<in> holders stages ?ip" using assms(2) by (auto simp: holders_def)
  have card: "int (card (holders stages ?ip - {c})) = int (card (holders stages ?ip)) - 1"
    using c exact(1) by (rule card_release [rotated])
  have pos: "0 < card (holders stages ?ip)" using c exact(1) [of ?ip] by (auto simp: card_gt_0_iff)
  have none: "holders stages ?ip - {c} = {} \<longleftrightarrow> int (card (holders stages ?ip - {c})) = 0"
    using exact(1) by (simp only: of_nat_eq_0_iff card_0_eq finite_Diff)
  have "holders (stages(c := Over)) ip = (if ip = ?ip then holders stages ip - {c} else holders stages ip)" for ip
    using assms(2) by (rule holders_give)
  moreover have "release_slot ?ip slots ?ip
      = (if holders stages ?ip - {c} = {} then None else Some (int (card (holders stages ?ip - {c}))))"
    unfolding none card using exact(2) [of ?ip] pos by (auto simp: release_slot_def)
  moreover have "release_slot ?ip slots ip = slots ip" if "ip \<noteq> ?ip" for ip
    using that by (simp add: release_slot_def)
  moreover have "int (card (holders stages ?ip - {c})) \<le> maxWSConnsPerIP"
    unfolding card using exact(4) [of ?ip] by simp
  ultimately show ?thesis using assms(1) by (simp add: slots_exact_def)
qed

text \<open>
  C23: The slots of an address are counted exactly. In every state that handshakes, departures and
  anything else can lead to, the entry of an address is the number of its connections between taking
  a slot and giving it back, it is absent when there are none, and there are never more than twenty.
\<close>

theorem ip_slots_exact:
  assumes "ws_run ext cf allowed tr st"
  shows "finite {c. \<exists>hs. (so_stage st c = Holding hs \<or> so_stage st c = Connected hs) \<and> hs_ip hs = ip}
    \<and> slot_count ip (so_slots st) = int (card {c. \<exists>hs. (so_stage st c = Holding hs \<or> so_stage st c = Connected hs) \<and> hs_ip hs = ip})
    \<and> (so_slots st ip = None \<longleftrightarrow> (\<forall>c hs. so_stage st c = Holding hs \<or> so_stage st c = Connected hs \<longrightarrow> hs_ip hs \<noteq> ip))
    \<and> slot_count ip (so_slots st) \<le> 20"
proof -
  from assms have "slots_exact (so_stage st) (so_slots st)"
  proof induction
    case (start st)
    then show ?case by (simp add: slots_exact_def holders_def sockets_start_def maxWSConnsPerIP_def)
  next
    case (admitted tr st c env q sv got hs slots)
    from slots_take [OF admitted.IH admitted.hyps(2,4)] show ?case by (simp add: fun_upd_def)
  next
    case (turned_away tr st c hs env upgraded origin sv clients answer)
    with slots_give [OF turned_away.IH, of c hs] show ?case by (simp add: fun_upd_def)
  next
    case (closed tr st c hs)
    with slots_give [OF closed.IH, of c hs] show ?case by (simp add: fun_upd_def)
  next
    case (refused tr st c env q sv got refusal)
    then have "holders ((so_stage st)(c := Over)) = holders (so_stage st)" by (intro ext holders_neutral) simp_all
    with slots_keep [OF this] refused.IH show ?case by (simp add: fun_upd_def)
  next
    case (full tr st c env q sv got hs)
    then have "holders ((so_stage st)(c := Over)) = holders (so_stage st)" by (intro ext holders_neutral) simp_all
    with slots_keep [OF this] full.IH show ?case by (simp add: fun_upd_def)
  next
    case (joined tr st c hs env upgraded origin sv clients)
    then have "holders ((so_stage st)(c := Connected hs)) = holders (so_stage st)" by (intro ext holders_open) simp_all
    with slots_keep [OF this] joined.IH show ?case by (simp add: fun_upd_def)
  qed simp_all
  note exact = slots_exactD [OF this, of ip]
  from exact(2,4) have "slot_count ip (so_slots st) \<le> 20" by (simp add: maxWSConnsPerIP_def)
  with exact(1-3) show ?thesis unfolding holders_def by auto
qed


section \<open>Where DJ status comes from\<close>

fun checked_keys :: "ws_event list \<Rightarrow> (gotime \<times> string \<times> string) list" where
  "checked_keys [] = []"
| "checked_keys (Asked t key (Some room) answer # tr) = (t, key, room_dj_key_hash room) # checked_keys tr"
| "checked_keys (Checked t key hash # tr) = (t, key, hash) # checked_keys tr"
| "checked_keys (_ # tr) = checked_keys tr"

lemma checked_keys_mono: "set (checked_keys tr) \<subseteq> set (checked_keys (ev # tr))"
proof (cases ev)
  case (Asked t key room answer)
  then show ?thesis by (cases room) auto
qed auto

text \<open>A ticket under \<open>tid\<close> that is good until \<open>e\<close> was asked for, and not redeemed since.\<close>

definition asked_for :: "outside \<Rightarrow> ws_event list \<Rightarrow> string \<Rightarrow> WSTicket \<Rightarrow> gotime \<Rightarrow> bool" where
  "asked_for ext tr tid tk e \<longleftrightarrow> (\<exists>later t key room earlier.
     tr = later @ Asked t key (Some room) (HttpOK 200 tid) # earlier
     \<and> wt_room tk = room_id room \<and> e = t + wsTicketTTL
     \<and> (wt_is_dj tk \<longrightarrow> key_matches ext key (room_dj_key_hash room))
     \<and> (\<forall>t' c tk'. Arrived t' c tid (Some tk') \<notin> set later))"

definition dj_by_ticket :: "outside \<Rightarrow> ws_event list \<Rightarrow> cid \<Rightarrow> handshake \<Rightarrow> bool" where
  "dj_by_ticket ext tr c hs \<longleftrightarrow> (\<exists>later now tid tk earlier e.
     tr = later @ Arrived now c tid (Some tk) # earlier \<and> asked_for ext earlier tid tk e \<and> now < e
     \<and> wt_is_dj tk \<and> wt_room tk = room_id (hs_room hs))"

lemma asked_for_later:
  assumes "asked_for ext tr tid tk e" and "\<And>t c tk'. ev \<noteq> Arrived t c tid (Some tk')"
  shows "asked_for ext (ev # tr) tid tk e"
proof -
  from assms(1) obtain later t key room earlier where tr: "tr = later @ Asked t key (Some room) (HttpOK 200 tid) # earlier"
      and rest: "wt_room tk = room_id room" "e = t + wsTicketTTL"
        "wt_is_dj tk \<longrightarrow> key_matches ext key (room_dj_key_hash room)" "\<forall>t' c tk'. Arrived t' c tid (Some tk') \<notin> set later"
    unfolding asked_for_def by blast
  have "ev # tr = (ev # later) @ Asked t key (Some room) (HttpOK 200 tid) # earlier" by (simp add: tr)
  moreover have "\<forall>t' c tk'. Arrived t' c tid (Some tk') \<notin> set (ev # later)" using rest(4) assms(2) by (metis set_ConsD)
  ultimately show ?thesis unfolding asked_for_def using rest(1-3) by blast
qed

lemma dj_by_ticket_later: "dj_by_ticket ext tr c hs \<Longrightarrow> dj_by_ticket ext (ev # tr) c hs"
  unfolding dj_by_ticket_def by (metis append_Cons)

lemma limited_tickets:
  assumes "limited cf (\<lambda>rl. AllowWSTicket lb f now ip) sv = (sv1, ok)"
  shows "rd_tickets (sv_redis sv1) = rd_tickets (sv_redis sv)" and "sv_pg sv1 = sv_pg sv"
  using assms
  by (auto simp: limited_def AllowWSTicket_def checkRateWindow_def incr_expire_nx_def Let_def
      split: option.splits prod.splits if_splits)

lemma Create_ticket_effect:
  assumes "Create_ticket ext cf env session user ip djKey slug sv c = (c', sv', answer)"
  obtains (none) "rd_tickets (sv_redis sv') = rd_tickets (sv_redis sv)" "c' = c"
  | (room) room where "slug \<noteq> None" "or_zero None (GetRoomBySlug (env_faults env) (the slug) (sv_pg sv)) = Some room"
      "rd_tickets (sv_redis sv') = rd_tickets (sv_redis sv) \<and> (\<forall>tid. answer \<noteq> HttpOK 200 tid)
       \<or> (\<exists>s. answer = HttpOK 200 (env_uuid env 0) \<and> rd_tickets (sv_redis sv') = (rd_tickets (sv_redis sv))(env_uuid env 0 \<mapsto>
            (new_ticket s user room (djKey \<noteq> '''' \<and> snd (VerifyDJKey ext (env_now env) djKey (room_dj_key_hash room) c)),
             env_now env + wsTicketTTL)))"
      "c' = (if djKey = '''' then c else fst (VerifyDJKey ext (env_now env) djKey (room_dj_key_hash room) c))"
proof -
  obtain sv1 ok where lim: "limited cf (\<lambda>rl. AllowWSTicket (loopback ext) (env_rfaults env) (env_now env) ip) sv = (sv1, ok)"
    by (metis prod.exhaust)
  note same = limited_tickets [OF lim]
  show thesis
  proof (cases "session = None \<or> \<not> ok \<or> slug = None \<or> slug = Some ''''
      \<or> or_zero None (GetRoomBySlug (env_faults env) (the slug) (sv_pg sv)) = None")
    case True
    with assms lim same(2) have "(sv' = sv \<or> sv' = sv1) \<and> c' = c"
      by (cases session; cases ok; cases "slug = None \<or> slug = Some ''''") (auto simp: Create_ticket_def)
    then show ?thesis using same(1) by (intro none) auto
  next
    case False
    then obtain s room where s: "session = Some s" "ok" "slug \<noteq> None" "slug \<noteq> Some ''''"
        and r: "or_zero None (GetRoomBySlug (env_faults env) (the slug) (sv_pg sv)) = Some room" by auto
    obtain d dj where v: "(if djKey = '''' then (c, False) else VerifyDJKey ext (env_now env) djKey (room_dj_key_hash room) c) = (d, dj)"
      by (metis prod.exhaust)
    have dj: "dj \<longleftrightarrow> djKey \<noteq> '''' \<and> snd (VerifyDJKey ext (env_now env) djKey (room_dj_key_hash room) c)"
        "d = (if djKey = '''' then c else fst (VerifyDJKey ext (env_now env) djKey (room_dj_key_hash room) c))"
      using v by (auto split: if_splits)
    from assms have run: "(case CreateWSTicket (env_rfaults env) (env_now env) (env_uuid env 0) (new_ticket s user room dj) (sv_redis sv1) of
        Inl _ \<Rightarrow> (d, sv1, HttpError 500 ''failed to create ticket'') | Inr (r, tid) \<Rightarrow> (d, sv1\<lparr>sv_redis := r\<rparr>, HttpOK 200 tid))
        = (c', sv', answer)"
      using s r by (simp add: Create_ticket_def lim same(2) v)
    show ?thesis
      by (rule room [OF s(3) r])
        (use run dj same(1) in \<open>auto simp: CreateWSTicket_def failing_def split: if_splits\<close>)
  qed
qed

lemma identify_effect:
  assumes "identify env q sv = (sv', got, res)"
  shows "rd_tickets (sv_redis sv') = rd_tickets (sv_redis sv) \<and> got = None
      \<or> rd_tickets (sv_redis sv') = (rd_tickets (sv_redis sv))(wr_ticket q := None)
         \<and> got = live_value (env_now env) (rd_tickets (sv_redis sv) (wr_ticket q))"
    and "res = Inr hs \<Longrightarrow> hs_dj hs \<Longrightarrow> \<exists>tk. got = Some tk \<and> wt_is_dj tk \<and> wt_room tk = room_id (hs_room hs)"
  using assms
  by (auto simp: identify_def redeemed_def RedeemWSTicket_def failing_def Let_def
      split: option.splits prod.splits sum.splits if_splits)

lemma join_room_tickets:
  "join_room env up c hs sv clients = (sv', clients', answer) \<Longrightarrow> rd_tickets (sv_redis sv') = rd_tickets (sv_redis sv)"
  by (auto simp: join_room_def GetOrCreate_def Let_def split: if_splits prod.splits option.splits)

definition dj_inv :: "outside \<Rightarrow> ws_event list \<Rightarrow> sockets \<Rightarrow> bool" where
  "dj_inv ext tr st \<longleftrightarrow>
     vouched ext (set (checked_keys tr)) (so_keys st)
     \<and> (\<forall>tid tk e. tickets_of st tid = Some (tk, e) \<longrightarrow> asked_for ext tr tid tk e)
     \<and> (\<forall>c hs. (so_stage st c = Holding hs \<or> so_stage st c = Connected hs) \<and> hs_dj hs \<longrightarrow> dj_by_ticket ext tr c hs)
     \<and> (\<forall>c hs. so_stage st c = Connected hs \<longrightarrow> cl_is_dj (so_clients st c) = hs_dj hs)"

lemma dj_invD:
  assumes "dj_inv ext tr st"
  shows "vouched ext (set (checked_keys tr)) (so_keys st)"
    and "tickets_of st tid = Some (tk, e) \<Longrightarrow> asked_for ext tr tid tk e"
    and "so_stage st c = Holding hs \<or> so_stage st c = Connected hs \<Longrightarrow> hs_dj hs \<Longrightarrow> dj_by_ticket ext tr c hs"
    and "so_stage st c = Connected hs \<Longrightarrow> cl_is_dj (so_clients st c) = hs_dj hs"
  using assms unfolding dj_inv_def by blast+

text \<open>A step that mints no ticket, redeems none and moves no connection forward keeps all of it.\<close>

lemma dj_inv_silent:
  assumes "dj_inv ext tr st" and "tickets_of st' = tickets_of st" and "\<And>t c tid tk. ev \<noteq> Arrived t c tid (Some tk)"
    and "vouched ext (set (checked_keys (ev # tr))) (so_keys st')"
    and "\<And>c hs. so_stage st' c = Holding hs \<Longrightarrow> so_stage st c = Holding hs"
    and "\<And>c hs. so_stage st' c = Connected hs \<Longrightarrow> (so_stage st c = Connected hs \<and> cl_is_dj (so_clients st' c) = cl_is_dj (so_clients st c))
           \<or> (so_stage st c = Holding hs \<and> cl_is_dj (so_clients st' c) = hs_dj hs)"
  shows "dj_inv ext (ev # tr) st'"
  unfolding dj_inv_def
proof (intro conjI allI impI)
  show "vouched ext (set (checked_keys (ev # tr))) (so_keys st')" by (rule assms(4))
  show "asked_for ext (ev # tr) tid tk e" if "tickets_of st' tid = Some (tk, e)" for tid tk e
    using that assms(2,3) by (intro asked_for_later dj_invD(2) [OF assms(1)]) simp_all
  show "dj_by_ticket ext (ev # tr) c hs" if "(so_stage st' c = Holding hs \<or> so_stage st' c = Connected hs) \<and> hs_dj hs" for c hs
    using that assms(5,6) by (intro dj_by_ticket_later dj_invD(3) [OF assms(1)]) blast+
  show "cl_is_dj (so_clients st' c) = hs_dj hs" if "so_stage st' c = Connected hs" for c hs
    using assms(6) [OF that] dj_invD(4) [OF assms(1)] by blast
qed

text \<open>What arriving does to tickets and connections.\<close>

lemma dj_inv_arrived:
  assumes "dj_inv ext tr st" and "so_stage st c = Unused" and "identify env q (so_server st) = (sv, got, res)"
    and "x = Over \<or> (\<exists>hs. x = Holding hs \<and> res = Inr hs)"
  shows "dj_inv ext (Arrived (env_now env) c (wr_ticket q) got # tr)
    (st\<lparr>so_server := sv, so_slots := slots, so_stage := (so_stage st)(c := x)\<rparr>)"
proof -
  let ?ev = "Arrived (env_now env) c (wr_ticket q) got"
  let ?st = "st\<lparr>so_server := sv, so_slots := slots, so_stage := (so_stage st)(c := x)\<rparr>"
  note effect = identify_effect [OF assms(3)]
  have tickets: "tickets_of ?st tid = Some v \<Longrightarrow> tickets_of st tid = Some v \<and> (tid = wr_ticket q \<longrightarrow> got = None)" for tid v
    using effect(1) by (auto simp: tickets_of_def split: if_splits)
  have mine: "dj_by_ticket ext (?ev # tr) c hs" if "x = Holding hs" "hs_dj hs" for hs
  proof -
    from that assms(4) obtain tk where tk: "got = Some tk" "wt_is_dj tk" "wt_room tk = room_id (hs_room hs)"
      using effect(2) by blast
    then have live: "live_value (env_now env) (tickets_of st (wr_ticket q)) = Some tk"
      using effect(1) by (simp add: tickets_of_def)
    then obtain e where e: "tickets_of st (wr_ticket q) = Some (tk, e)" "env_now env < e"
      by (auto simp: live_value_def split: option.splits if_splits)
    have "asked_for ext tr (wr_ticket q) tk e" by (rule dj_invD(2) [OF assms(1) e(1)])
    with e(2) tk show ?thesis unfolding dj_by_ticket_def by (metis append_Nil)
  qed
  show ?thesis
    unfolding dj_inv_def
  proof (intro conjI allI impI)
    show "vouched ext (set (checked_keys (?ev # tr))) (so_keys ?st)" using dj_invD(1) [OF assms(1)] by simp
    show "asked_for ext (?ev # tr) tid tk e" if "tickets_of ?st tid = Some (tk, e)" for tid tk e
      using tickets [OF that] by (intro asked_for_later dj_invD(2) [OF assms(1)]) auto
    show "dj_by_ticket ext (?ev # tr) d hs" if "(so_stage ?st d = Holding hs \<or> so_stage ?st d = Connected hs) \<and> hs_dj hs" for d hs
    proof (cases "d = c")
      case True
      with that assms(4) mine show ?thesis by auto
    next
      case False
      with that show ?thesis by (intro dj_by_ticket_later dj_invD(3) [OF assms(1)]) simp_all
    qed
    show "cl_is_dj (so_clients ?st d) = hs_dj hs" if "so_stage ?st d = Connected hs" for d hs
      using that assms(4) dj_invD(4) [OF assms(1)] by (auto split: if_splits)
  qed
qed

lemma join_room_clients:
  assumes "join_room env up c hs sv clients = (sv', clients', answer)"
  shows "d \<noteq> c \<Longrightarrow> cl_is_dj (clients' d) = cl_is_dj (clients d)"
    and "answer = Opened \<Longrightarrow> cl_is_dj (clients' c) = hs_dj hs"
proof -
  have client: "cl_is_dj (ws_client env hs db) = hs_dj hs" for db
    by (simp add: ws_client_def NewClient_def Let_def split: sum.split option.split)
  have run: "w_clients (fst (RegisterClient env c w)) d = (if d = c \<and> snd (RegisterClient env c w) \<and> hub_stopping (w_hub w)
      then close ((w_clients w c)\<lparr>cl_registered := True\<rparr>) else w_clients w d)" for w d
    by (auto simp: RegisterClient_def RegisterClient_claim_def Run_register_def on_client_def on_hub_def
        split: prod.split)
  have dj: "cl_is_dj (w_clients (fst (RegisterClient env c w)) d) = cl_is_dj (w_clients w d)" for w d
    by (simp add: run close_def)
  show "d \<noteq> c \<Longrightarrow> cl_is_dj (clients' d) = cl_is_dj (clients d)"
    and "answer = Opened \<Longrightarrow> cl_is_dj (clients' c) = hs_dj hs"
    using assms
    by (auto simp: join_room_def Let_def split_beta dj client hub_world_def split: if_splits)
qed

lemma dj_inv_asked:
  assumes "dj_inv ext tr st"
    and "Create_ticket ext cf env session user ip djKey slug (so_server st) (so_keys st) = (keys, sv, answer)"
    and "found = (case slug of None \<Rightarrow> None | Some s \<Rightarrow> or_zero None (GetRoomBySlug (env_faults env) s (sv_pg (so_server st))))"
    and "digests_ok ext (set (checked_keys (Asked (env_now env) djKey found answer # tr)))"
  shows "dj_inv ext (Asked (env_now env) djKey found answer # tr) (st\<lparr>so_server := sv, so_keys := keys\<rparr>)"
  using assms(2)
proof (cases rule: Create_ticket_effect)
  case none
  let ?ev = "Asked (env_now env) djKey found answer"
  have "vouched ext (set (checked_keys (?ev # tr))) keys"
    using dj_invD(1) [OF assms(1)] none(2) by (cases found) (simp_all add: vouched_more)
  then show ?thesis using none by (intro dj_inv_silent [OF assms(1)]) (simp_all add: tickets_of_def)
next
  case (room room)
  let ?ev = "Asked (env_now env) djKey found answer" and ?hash = "room_dj_key_hash room"
  let ?st = "st\<lparr>so_server := sv, so_keys := keys\<rparr>"
  from room(1,2) have found: "found = Some room" by (auto simp: assms(3))
  have keys: "vouched ext (set (checked_keys (?ev # tr))) keys"
    using vouched_verify [OF dj_invD(1) [OF assms(1)]] vouched_more [OF dj_invD(1) [OF assms(1)]] room(4)
    by (simp add: found)
  from room(3) show ?thesis
  proof (elim disjE exE conjE)
    assume "rd_tickets (sv_redis sv) = rd_tickets (sv_redis (so_server st))"
    then show ?thesis using keys by (intro dj_inv_silent [OF assms(1)]) (simp_all add: tickets_of_def)
  next
    fix s
    let ?dj = "djKey \<noteq> '''' \<and> snd (VerifyDJKey ext (env_now env) djKey ?hash (so_keys st))"
    assume ans: "answer = HttpOK 200 (env_uuid env 0)"
      and new: "rd_tickets (sv_redis sv) = (rd_tickets (sv_redis (so_server st)))(env_uuid env 0 \<mapsto>
        (new_ticket s user room ?dj, env_now env + wsTicketTTL))"
    have verdict: "?dj \<Longrightarrow> key_matches ext djKey ?hash"
      using VerifyDJKey_exact [OF dj_invD(1) [OF assms(1)], of "env_now env" djKey ?hash] assms(4) by (simp add: found)
    have fresh: "asked_for ext (?ev # tr) (env_uuid env 0) (new_ticket s user room ?dj) (env_now env + wsTicketTTL)"
      unfolding asked_for_def using ans found verdict
      by (intro exI [of _ "[]"] exI [of _ "env_now env"] exI [of _ djKey] exI [of _ room] exI [of _ tr])
        (simp add: new_ticket_def)
    have "asked_for ext (?ev # tr) tid tk e" if "tickets_of ?st tid = Some (tk, e)" for tid tk e
    proof (cases "tid = env_uuid env 0")
      case True
      with that fresh new show ?thesis by (simp add: tickets_of_def)
    next
      case False
      with that new show ?thesis
        by (intro asked_for_later dj_invD(2) [OF assms(1)]) (simp_all add: tickets_of_def)
    qed
    then show ?thesis
      using keys dj_invD(3,4) [OF assms(1)] unfolding dj_inv_def by (auto intro: dj_by_ticket_later)
  qed
qed

lemma dj_inv_run:
  "ws_run ext cf allowed tr st \<Longrightarrow> digests_ok ext (set (checked_keys tr)) \<Longrightarrow> dj_inv ext tr st"
proof (induction rule: ws_run.induct)
  case (start st)
  then show ?case by (simp add: sockets_start_def dj_inv_def vouched_def bounded_ok_def)
next
  case (asked tr st env session user ip djKey slug keys sv answer)
  let ?found = "case slug of None \<Rightarrow> None | Some s \<Rightarrow> or_zero None (GetRoomBySlug (env_faults env) s (sv_pg (so_server st)))"
  from asked.prems have "digests_ok ext (set (checked_keys tr))"
    by (rule digests_ok_subset [OF _ checked_keys_mono])
  from dj_inv_asked [OF asked.IH [OF this] asked.hyps(2) refl asked.prems] show ?case .
next
  case (refused tr st c env q sv got refusal)
  from refused.prems have "digests_ok ext (set (checked_keys tr))" by simp
  from dj_inv_arrived [OF refused.IH [OF this] refused.hyps(2,3), of Over "so_slots st"] show ?case by simp
next
  case (full tr st c env q sv got hs)
  from full.prems have "digests_ok ext (set (checked_keys tr))" by simp
  from dj_inv_arrived [OF full.IH [OF this] full.hyps(2,3), of Over "so_slots st"] show ?case by simp
next
  case (admitted tr st c env q sv got hs slots)
  from admitted.prems have "digests_ok ext (set (checked_keys tr))" by simp
  from dj_inv_arrived [OF admitted.IH [OF this] admitted.hyps(2,3), of "Holding hs" slots] show ?case by simp
next
  case (joined tr st c hs env upgraded origin sv clients)
  from joined.prems have "digests_ok ext (set (checked_keys tr))" by simp
  note inv = joined.IH [OF this]
  note clients = join_room_clients [OF joined.hyps(3)]
  show ?case
    by (rule dj_inv_silent [OF inv])
      (use joined.hyps(2) clients join_room_tickets [OF joined.hyps(3)] dj_invD(1) [OF inv]
        in \<open>auto simp: tickets_of_def split: if_splits\<close>)
next
  case (turned_away tr st c hs env upgraded origin sv clients answer)
  from turned_away.prems have "digests_ok ext (set (checked_keys tr))" by simp
  note inv = turned_away.IH [OF this]
  note clients = join_room_clients [OF turned_away.hyps(3)]
  show ?case
    by (rule dj_inv_silent [OF inv])
      (use clients join_room_tickets [OF turned_away.hyps(3)] dj_invD(1) [OF inv]
        in \<open>auto simp: tickets_of_def split: if_splits\<close>)
next
  case (closed tr st c hs)
  from closed.prems have "digests_ok ext (set (checked_keys tr))" by simp
  note inv = closed.IH [OF this]
  show ?case
    by (rule dj_inv_silent [OF inv]) (use dj_invD(1) [OF inv] in \<open>auto simp: tickets_of_def split: if_splits\<close>)
next
  case (checked tr st t key hash)
  from checked.prems have "digests_ok ext (set (checked_keys tr))"
    by (rule digests_ok_subset [OF _ checked_keys_mono])
  note inv = checked.IH [OF this]
  show ?case
    by (rule dj_inv_silent [OF inv]) (use vouched_verify [OF dj_invD(1) [OF inv]] in \<open>auto simp: tickets_of_def\<close>)
next
  case (elsewhere tr st sv clients)
  from elsewhere.prems have "digests_ok ext (set (checked_keys tr))" by simp
  note inv = elsewhere.IH [OF this]
  show ?case
    by (rule dj_inv_silent [OF inv]) (use elsewhere.hyps dj_invD(1) [OF inv] in \<open>auto simp: tickets_of_def\<close>)
qed

text \<open>
  C22: A connection is a DJ only through the key. Whatever requests, handshakes and other events came
  before: an open connection with DJ status arrived with a ticket that was asked for less than thirty
  seconds earlier, for the room it is in, with a key that bcrypt matches to the hash of that room,
  and no other connection redeemed the ticket in between. It is assumed that SHA-256 has no
  collision among the pairs of keys and hashes that were checked.
\<close>

theorem dj_status_proven:
  assumes "ws_run ext cf allowed tr st" and "so_stage st c = Connected hs" and "cl_is_dj (so_clients st c)"
    and "digests_ok ext (set (checked_keys tr))"
  shows "\<exists>later t' tid tk between t key room earlier.
    tr = later @ Arrived t' c tid (Some tk) # between @ Asked t key (Some room) (HttpOK 200 tid) # earlier
    \<and> room_id room = room_id (hs_room hs) \<and> key \<noteq> '''' \<and> bcrypt_match ext (room_dj_key_hash room) key
    \<and> t' < t + 30 * second \<and> (\<forall>u d tk'. Arrived u d tid (Some tk') \<notin> set between)"
proof -
  from dj_inv_run [OF assms(1,4)] have inv: "dj_inv ext tr st" .
  from dj_invD(4) [OF inv assms(2)] assms(3) have "hs_dj hs" by simp
  from dj_invD(3) [OF inv disjI2 [OF assms(2)] this] obtain later t' tid tk rest e where
      tr: "tr = later @ Arrived t' c tid (Some tk) # rest" and asked: "asked_for ext rest tid tk e"
      and tk: "t' < e" "wt_is_dj tk" "wt_room tk = room_id (hs_room hs)"
    unfolding dj_by_ticket_def by blast
  from asked obtain between t key room earlier where
      rest: "rest = between @ Asked t key (Some room) (HttpOK 200 tid) # earlier"
      and room: "wt_room tk = room_id room" "e = t + wsTicketTTL"
        "wt_is_dj tk \<longrightarrow> key_matches ext key (room_dj_key_hash room)" "\<forall>u d tk'. Arrived u d tid (Some tk') \<notin> set between"
    unfolding asked_for_def by blast
  have "room_id room = room_id (hs_room hs) \<and> key \<noteq> '''' \<and> bcrypt_match ext (room_dj_key_hash room) key
      \<and> t' < t + 30 * second"
    using room tk by (simp add: key_matches_def wsTicketTTL_def)
  with tr rest room(4) show ?thesis by blast
qed

section \<open>A run\<close>

definition idle_sockets :: sockets where
  "idle_sockets = \<lparr>so_server = demo_open_site, so_clients = (\<lambda>_. NewClient demo_session), so_slots = Map.empty,
     so_stage = (\<lambda>_. Unused), so_keys = []\<rparr>"

definition demo_arrival :: ws_request where
  "demo_arrival = \<lparr>wr_slug = ''late-night'', wr_ticket = ''u0'', wr_cookie = Some demo_session, wr_origin = '''',
     wr_forwarded = '''', wr_remote = ''h:1''\<rparr>"

lemma demo_address: "ClientIP '''' ''h:1'' = ''h''"
  by code_simp

text \<open>A host asks for a ticket with the key, connects with it and is in the room as DJ.\<close>

lemma demo_ws_run:
  "\<exists>st hs. ws_run plain_outside demo_limits []
      [Silent, Arrived 7 2 ''u0'' (Some \<lparr>wt_session = ''s'', wt_user = '''', wt_room = ''r'', wt_is_dj = True\<rparr>),
       Asked 7 ''secret'' (Some (hs_room hs)) (HttpOK 200 ''u0'')] st
     \<and> so_stage st = (\<lambda>_. Unused)(2 := Connected hs) \<and> hs_ip hs = ''h'' \<and> cl_is_dj (so_clients st 2)
     \<and> room_dj_key_hash (hs_room hs) = ''$secret''"
proof -
  let ?room = "zero_room\<lparr>room_id := ''r'', room_slug := ''late-night'', room_dj_key_hash := ''$secret'', room_is_live := True\<rparr>"
  let ?tk = "\<lparr>wt_session = ''s'', wt_user = '''', wt_room = ''r'', wt_is_dj = True\<rparr>"
  let ?hs = "\<lparr>hs_room = ?room, hs_session = demo_session, hs_user = '''', hs_dj = True, hs_ip = ''h''\<rparr>"
  let ?env = "demo_env 7"
  let ?sv1 = "demo_open_site\<lparr>sv_redis := empty_redis\<lparr>rd_tickets := [''u0'' \<mapsto> (?tk, 7 + wsTicketTTL)]\<rparr>\<rparr>"
  have room: "GetRoomBySlug (env_faults ?env) ''late-night'' (sv_pg demo_open_site) = Inr (Some ?room)"
    by (simp add: GetRoomBySlug_def failing_def demo_env_def no_faults_def demo_open_site_def find_row_simps)
  have key: "snd (VerifyDJKey plain_outside 7 ''secret'' ''$secret'' [])"
    by (simp add: VerifyDJKey_def plain_outside_def Let_def)
  obtain keys where keys: "VerifyDJKey plain_outside 7 ''secret'' ''$secret'' [] = (keys, True)"
    using key by (metis prod.collapse)
  have ticket: "Create_ticket plain_outside demo_limits ?env (Some demo_session) None ''h'' ''secret'' (Some ''late-night'') demo_open_site []
      = (keys, ?sv1, HttpOK 200 ''u0'')"
    using keys room
    by (simp add: Create_ticket_def limited_def demo_limits_def CreateWSTicket_def failing_def demo_env_def new_ticket_def
        demo_session_def demo_open_site_def demo_site_def empty_redis_def)
  have start: "ws_run plain_outside demo_limits [] [] idle_sockets"
    by (rule ws_run.start) (simp add: sockets_start_def idle_sockets_def tickets_of_def demo_open_site_def demo_site_def empty_redis_def)
  have asked: "ws_run plain_outside demo_limits [] [Asked 7 ''secret'' (Some ?room) (HttpOK 200 ''u0'')]
      (idle_sockets\<lparr>so_server := ?sv1, so_keys := keys\<rparr>)" (is "ws_run _ _ _ _ ?st1")
    using ws_run.asked [OF start, of ?env "Some demo_session" None "''h''" "''secret''" "Some ''late-night''" keys ?sv1 "HttpOK 200 ''u0''"]
      ticket room by (simp add: idle_sockets_def demo_env_def)
  let ?sv2 = "?sv1\<lparr>sv_redis := empty_redis\<rparr>"
  have "identify ?env demo_arrival ?sv1 = (?sv2, Some ?tk, Inr ?hs)"
    using room demo_address
    by (simp add: identify_def demo_arrival_def redeemed_def RedeemWSTicket_def failing_def live_value_def wsTicketTTL_def
        second_def ticket_session_def GetSession_def Let_def) (simp add: demo_env_def empty_redis_def)
  then have arrived: "ws_run plain_outside demo_limits []
      [Arrived 7 2 ''u0'' (Some ?tk), Asked 7 ''secret'' (Some ?room) (HttpOK 200 ''u0'')]
      (?st1\<lparr>so_server := ?sv2, so_slots := [''h'' \<mapsto> 1], so_stage := (\<lambda>_. Unused)(2 := Holding ?hs)\<rparr>)"
      (is "ws_run _ _ _ _ ?st2")
    using ws_run.admitted [OF asked, of 2 ?env demo_arrival ?sv2 "Some ?tk" ?hs "[''h'' \<mapsto> 1]"]
    by (simp add: idle_sockets_def acquireIPSlot_def slot_count_def maxWSConnsPerIP_def demo_arrival_def
        demo_env_def)
  obtain sv clients where joined: "join_room ?env True 2 ?hs ?sv2 (\<lambda>_. NewClient demo_session) = (sv, clients, Opened)"
    by (simp add: join_room_def GetOrCreate_def demo_open_site_def demo_site_def hub_world_def SessionClientCount_def
        NewHub_def maxWSConnsPerSession_def RegisterClient_def RegisterClient_claim_def Run_register_def Let_def)
  have "ws_run plain_outside demo_limits [] (Silent # [Arrived 7 2 ''u0'' (Some ?tk), Asked 7 ''secret'' (Some ?room) (HttpOK 200 ''u0'')])
      (?st2\<lparr>so_server := sv, so_clients := clients, so_stage := (\<lambda>_. Unused)(2 := Connected ?hs)\<rparr>)"
      (is "ws_run _ _ _ _ ?st3")
    using ws_run.joined [OF arrived, of 2 ?hs ?env True "''''" sv clients] joined
    by (simp add: idle_sockets_def CheckOrigin_def)
  moreover have "cl_is_dj (clients 2)" using join_room_clients(2) [OF joined] by simp
  ultimately show ?thesis by (intro exI [of _ ?st3] exI [of _ ?hs]) simp
qed

theorem ip_slots_exact_witness:
  "\<exists>tr st. ws_run plain_outside demo_limits [] tr st \<and> so_slots st ''h'' \<noteq> None \<and> so_slots st ''other'' = None
     \<and> slot_count ''h'' (so_slots st) = 1"
proof -
  obtain tr st hs where run: "ws_run plain_outside demo_limits [] tr st"
      and st: "so_stage st = (\<lambda>_. Unused)(2 := Connected hs)" "hs_ip hs = ''h''"
    using demo_ws_run by blast
  have holders: "{c. \<exists>hs. (so_stage st c = Holding hs \<or> so_stage st c = Connected hs) \<and> hs_ip hs = ''h''} = {2}"
    using st by (auto split: if_splits)
  have "slot_count ''h'' (so_slots st) = 1" using ip_slots_exact [OF run, of "''h''"] unfolding holders by simp
  moreover have "so_slots st ''h'' \<noteq> None" using ip_slots_exact [OF run, of "''h''"] st by auto
  moreover have "so_slots st ''other'' = None" using ip_slots_exact [OF run, of "''other''"] st by (auto split: if_splits)
  ultimately show ?thesis using run by blast
qed

theorem dj_status_proven_witness:
  "\<exists>tr st hs key room t. ws_run plain_outside demo_limits [] tr st \<and> so_stage st 2 = Connected hs
     \<and> Asked t key (Some room) (HttpOK 200 ''u0'') \<in> set tr \<and> bcrypt_match plain_outside (room_dj_key_hash room) key"
proof -
  obtain st hs where run: "ws_run plain_outside demo_limits []
        [Silent, Arrived 7 2 ''u0'' (Some \<lparr>wt_session = ''s'', wt_user = '''', wt_room = ''r'', wt_is_dj = True\<rparr>),
         Asked 7 ''secret'' (Some (hs_room hs)) (HttpOK 200 ''u0'')] st" (is "ws_run _ _ _ ?tr _")
      and st: "so_stage st = (\<lambda>_. Unused)(2 := Connected hs)" "cl_is_dj (so_clients st 2)"
        "room_dj_key_hash (hs_room hs) = ''$secret''"
    using demo_ws_run by blast
  have ok: "digests_ok plain_outside (set (checked_keys ?tr))"
    using st(3) by (intro plain_digests) simp
  have stage: "so_stage st 2 = Connected hs" using st(1) by simp
  from dj_status_proven [OF run stage st(2) ok] obtain later t' tid tk between t key room earlier where
      tr: "?tr = later @ Arrived t' 2 tid (Some tk) # between @ Asked t key (Some room) (HttpOK 200 tid) # earlier"
      and match: "bcrypt_match plain_outside (room_dj_key_hash room) key" by blast
  have "Asked t key (Some room) (HttpOK 200 tid) \<in> set ?tr" unfolding tr by simp
  moreover from this have "tid = ''u0''" by simp
  ultimately show ?thesis using run stage match by blast
qed

end
