(* ===== verification/Messages.thy ===== *)
theory Messages
  imports Auth
begin

text \<open>
  Direct messages: the statements of \<open>internal/store/messages.go\<close> and the handlers of
  \<open>internal/handlers/messages.go\<close>. Messages of one instant come in table order, one of the orders
  that SQL allows.
\<close>

section \<open>Statements\<close>

definition SendDirectMessage :: "faults \<Rightarrow> DirectMessage \<Rightarrow> pgdb \<Rightarrow> pgdb fallible" where
  "SendDirectMessage f m db =
     (if f (CMessages MSend) \<or> (\<exists>x \<in> set (db_messages db). dm_id x = dm_id m)
        \<or> \<not> has_user (dm_from m) db \<or> \<not> has_user (dm_to m) db then Inl StoreError
      else Inr (db\<lparr>db_messages := db_messages db @
        [m\<lparr>dm_read_at := None, dm_from_name := '''', dm_from_color := ''''\<rparr>]\<rparr>))"

definition between :: "string \<Rightarrow> string \<Rightarrow> DirectMessage \<Rightarrow> bool" where
  "between a b m \<longleftrightarrow> dm_from m = a \<and> dm_to m = b \<or> dm_from m = b \<and> dm_to m = a"

definition user_row :: "string \<Rightarrow> pgdb \<Rightarrow> User option" where
  "user_row uid db = find_row (\<lambda>u. user_id u = uid) (db_users db)"

text \<open>\<open>JOIN users u ON u.id = dm.from_user_id\<close>\<close>

definition with_sender :: "pgdb \<Rightarrow> DirectMessage \<Rightarrow> DirectMessage option" where
  "with_sender db m = map_option
     (\<lambda>u. m\<lparr>dm_from_name := user_display_name u, dm_from_color := user_avatar_color u\<rparr>) (user_row (dm_from m) db)"

definition latest_first :: "DirectMessage list \<Rightarrow> DirectMessage list" where
  "latest_first = order_by (\<lambda>m. - dm_created_at m)"

definition GetConversation :: "faults \<Rightarrow> string \<Rightarrow> string \<Rightarrow> int \<Rightarrow> pgdb \<Rightarrow> DirectMessage list fallible" where
  "GetConversation f a b limit db =
     (let n = (if limit \<le> 0 \<or> limit > 100 then 50 else nat limit) in
      failing (f (CMessages MThread)) (rev (take n (List.map_filter (with_sender db)
        (latest_first (filter (between a b) (db_messages db)))))))"

text \<open>
  \<open>ROW_NUMBER() OVER (PARTITION BY LEAST(from, to), GREATEST(from, to) ORDER BY created_at DESC) = 1\<close>:
  the first row of each unordered pair.
\<close>

fun first_of_each :: "string set list \<Rightarrow> DirectMessage list \<Rightarrow> DirectMessage list" where
  "first_of_each seen [] = []"
| "first_of_each seen (m # ms) =
     (let pair = {dm_from m, dm_to m} in
      if pair \<in> set seen then first_of_each seen ms else m # first_of_each (pair # seen) ms)"

definition partner :: "string \<Rightarrow> DirectMessage \<Rightarrow> string" where
  "partner uid m = (if dm_from m = uid then dm_to m else dm_from m)"

definition unread_from :: "string \<Rightarrow> string \<Rightarrow> DirectMessage \<Rightarrow> bool" where
  "unread_from other uid m \<longleftrightarrow> dm_from m = other \<and> dm_to m = uid \<and> dm_read_at m = None"

definition summary :: "string \<Rightarrow> pgdb \<Rightarrow> DirectMessage \<Rightarrow> ConversationSummary option" where
  "summary uid db m = map_option
     (\<lambda>u. \<lparr>cs_user = partner uid m, cs_name = user_display_name u, cs_color = user_avatar_color u,
        cs_last = dm_text m, cs_last_at = dm_created_at m,
        cs_unread = affected (unread_from (partner uid m) uid) (db_messages db)\<rparr>)
     (user_row (partner uid m) db)"

definition GetConversationList :: "faults \<Rightarrow> string \<Rightarrow> pgdb \<Rightarrow> ConversationSummary list fallible" where
  "GetConversationList f uid db = failing (f (CMessages MThreads))
     (List.map_filter (summary uid db)
       (latest_first (first_of_each []
         (latest_first (filter (\<lambda>m. dm_from m = uid \<or> dm_to m = uid) (db_messages db))))))"

definition MarkConversationRead :: "faults \<Rightarrow> gotime \<Rightarrow> string \<Rightarrow> string \<Rightarrow> pgdb \<Rightarrow> pgdb fallible" where
  "MarkConversationRead f now uid other db = failing (f (CMessages MMarkRead))
     (db\<lparr>db_messages := update_where (unread_from other uid) (\<lambda>m. m\<lparr>dm_read_at := Some now\<rparr>) (db_messages db)\<rparr>)"

section \<open>Handlers\<close>

definition ListConversations :: "env \<Rightarrow> User option \<Rightarrow> pgdb \<Rightarrow> ConversationSummary list response" where
  "ListConversations env user db =
     (case user of
        None \<Rightarrow> HttpError 401 ''authentication required''
      | Some u \<Rightarrow> (case GetConversationList (env_faults env) (user_id u) db of
            Inl _ \<Rightarrow> HttpError 500 ''failed to list conversations''
          | Inr cs \<Rightarrow> HttpOK 200 cs))"

definition GetConversation_handler ::
  "env \<Rightarrow> User option \<Rightarrow> string \<Rightarrow> pgdb \<Rightarrow> pgdb \<times> DirectMessage list response" where
  "GetConversation_handler env user other db =
     (case user of
        None \<Rightarrow> (db, HttpError 401 ''authentication required'')
      | Some u \<Rightarrow>
          if other = '''' then (db, HttpError 400 ''userId is required'')
          else (case GetConversation (env_faults env) (user_id u) other 50 db of
              Inl _ \<Rightarrow> (db, HttpError 500 ''failed to load messages'')
            | Inr ms \<Rightarrow> (or_zero db (MarkConversationRead (env_faults env) (env_now env) (user_id u) other db),
                HttpOK 200 ms)))"

definition SendMessage ::
  "auth_config \<Rightarrow> env \<Rightarrow> User option \<Rightarrow> string \<Rightarrow> string option \<Rightarrow> server \<Rightarrow> server \<times> DirectMessage response" where
  "SendMessage cf env user toUser body sv =
     (case user of
        None \<Rightarrow> (sv, HttpError 401 ''authentication required'')
      | Some u \<Rightarrow>
          if \<not> user_email_verified u then (sv, HttpError 403 ''verify your email address to send messages'')
          else (case limited cf (\<lambda>rl. AllowDM (env_rfaults env) (env_now env) (user_id u)) sv of (sv1, allowed) \<Rightarrow>
            if \<not> allowed then (sv1, HttpError 429 (''you're sending messages too fast '' @ em_dash @ '' please slow down''))
            else if toUser = '''' then (sv1, HttpError 400 ''userId is required'')
            else if toUser = user_id u then (sv1, HttpError 400 ''cannot message yourself'')
            else if deref_or_zero zero_user (GetUserByID (env_faults env) (env_now env) toUser (sv_pg sv1)) = None
            then (sv1, HttpError 404 ''user not found'')
            else if body = None \<or> body = Some '''' then (sv1, HttpError 400 ''message is required'')
            else if length (the body) > 2000 then (sv1, HttpError 400 ''message too long (max 2000 chars)'')
            else
              (let m = \<lparr>dm_id = env_uuid env 0, dm_from = user_id u, dm_to = toUser, dm_text = the body,
                        dm_read_at = None, dm_created_at = env_now env, dm_from_name = '''', dm_from_color = ''''\<rparr> in
               case SendDirectMessage (env_faults env) m (sv_pg sv1) of
                 Inl _ \<Rightarrow> (sv1, HttpError 500 ''failed to send message'')
               | Inr db \<Rightarrow> (sv1\<lparr>sv_pg := db\<rparr>,
                   HttpOK 201 (m\<lparr>dm_from_name := user_display_name u, dm_from_color := user_avatar_color u\<rparr>)))))"

definition MarkRead :: "env \<Rightarrow> User option \<Rightarrow> string \<Rightarrow> pgdb \<Rightarrow> pgdb \<times> string response" where
  "MarkRead env user other db =
     (case user of
        None \<Rightarrow> (db, HttpError 401 ''authentication required'')
      | Some u \<Rightarrow> (or_zero db (MarkConversationRead (env_faults env) (env_now env) (user_id u) other db), HttpOK 200 ''ok''))"

end
