(* ===== verification/MessageProps.thy ===== *)
theory MessageProps
  imports Messages HubActionProps AuthProps
begin

text \<open>
  The inbox against the threads: what the list of conversations says of each partner is what opening
  the conversation shows, and a message that was sent arrives in both.
\<close>

section \<open>Order and partition\<close>

lemma order_by_map: "(\<And>x. k (g x) = k x) \<Longrightarrow> order_by k (map g xs) = map g (order_by k xs)"
proof -
  assume same: "\<And>x. k (g x) = k x"
  have "insort_key k (g x) (map g ys) = map g (insort_key k x ys)" for x ys
    by (induction ys) (simp_all add: same)
  then show ?thesis unfolding order_by_def by (induction xs) simp_all
qed

lemma order_by_filter: "order_by k (filter p xs) = filter p (order_by k xs)"
  by (simp add: order_by_def filter_sort)

lemma set_latest_first [simp]: "set (latest_first ms) = set ms"
  by (simp add: latest_first_def)

lemma latest_first_filter: "latest_first (filter p ms) = filter p (latest_first ms)"
  by (simp add: latest_first_def order_by_filter)

lemma latest_first_append_latest:
  "\<forall>x \<in> set ms. dm_created_at x < dm_created_at m \<Longrightarrow> latest_first (ms @ [m]) = m # latest_first ms"
proof -
  assume new: "\<forall>x \<in> set ms. dm_created_at x < dm_created_at m"
  have insort: "insort_key (\<lambda>m. - dm_created_at m) x (m # ys) = m # insort_key (\<lambda>m. - dm_created_at m) x ys"
    if "dm_created_at x < dm_created_at m" for x ys using that by simp
  show ?thesis using new unfolding latest_first_def order_by_def by (induction ms) (simp_all add: insort)
qed

definition pair_of :: "DirectMessage \<Rightarrow> string set" where
  "pair_of m = {dm_from m, dm_to m}"

lemma first_of_each_rec:
  "first_of_each seen [] = []"
  "first_of_each seen (m # ms) =
     (if pair_of m \<in> set seen then first_of_each seen ms else m # first_of_each (pair_of m # seen) ms)"
  by (simp_all add: pair_of_def Let_def)

lemma first_of_each_rules:
  assumes "\<And>seen. P seen []" and "\<And>seen m ms. pair_of m \<in> set seen \<Longrightarrow> P seen ms \<Longrightarrow> P seen (m # ms)"
    and "\<And>seen m ms. pair_of m \<notin> set seen \<Longrightarrow> P (pair_of m # seen) ms \<Longrightarrow> P seen (m # ms)"
  shows "P seen ms"
  using assms by (induction ms arbitrary: seen) blast+

lemma first_of_each_subset: "set (first_of_each seen ms) \<subseteq> set ms"
  by (induction seen ms rule: first_of_each_rules) (auto simp: first_of_each_rec simp del: first_of_each.simps(2))

lemma first_of_each_pairs:
  "pair_of ` set (first_of_each seen ms) = pair_of ` set ms - set seen"
  by (induction seen ms rule: first_of_each_rules) (auto simp: first_of_each_rec simp del: first_of_each.simps(2))

lemma first_of_each_distinct: "distinct (map pair_of (first_of_each seen ms))"
  by (induction seen ms rule: first_of_each_rules)
    (simp_all add: first_of_each_rec first_of_each_pairs del: first_of_each.simps(2))

lemma first_of_each_first:
  "m \<in> set (first_of_each seen ms) \<Longrightarrow> \<exists>rest. filter (\<lambda>x. pair_of x = pair_of m) ms = m # rest"
proof (induction seen ms rule: first_of_each_rules)
  case (1 seen)
  then show ?case by simp
next
  case (2 seen y ms)
  then have "m \<in> set (first_of_each seen ms)" by (simp add: first_of_each_rec del: first_of_each.simps(2))
  moreover from this have "pair_of m \<notin> set seen" using first_of_each_pairs [of seen ms] by blast
  ultimately show ?case using 2 by auto
next
  case (3 seen y ms)
  show ?case
  proof (cases "m = y")
    case False
    then have "m \<in> set (first_of_each (pair_of y # seen) ms)"
      using 3 by (simp add: first_of_each_rec del: first_of_each.simps(2))
    moreover from this have "pair_of m \<noteq> pair_of y" using first_of_each_pairs [of "pair_of y # seen" ms] by auto
    ultimately show ?thesis using 3 by simp
  qed simp
qed

lemma first_of_each_map:
  "(\<And>m. dm_from (g m) = dm_from m \<and> dm_to (g m) = dm_to m)
   \<Longrightarrow> first_of_each seen (map g ms) = map g (first_of_each seen ms)"
  by (induction seen ms rule: first_of_each_rules)
    (simp_all add: first_of_each_rec pair_of_def del: first_of_each.simps(2))

section \<open>The inbox\<close>

definition messages_wf :: "pgdb \<Rightarrow> bool" where
  "messages_wf db \<longleftrightarrow> (\<forall>m \<in> set (db_messages db). has_user (dm_from m) db \<and> has_user (dm_to m) db)"

abbreviation concerns :: "string \<Rightarrow> DirectMessage \<Rightarrow> bool" where
  "concerns uid m \<equiv> dm_from m = uid \<or> dm_to m = uid"

definition heads :: "string \<Rightarrow> pgdb \<Rightarrow> DirectMessage list" where
  "heads uid db = latest_first (first_of_each [] (latest_first (filter (concerns uid) (db_messages db))))"

lemma pair_partner: "concerns uid m \<Longrightarrow> pair_of m = {uid, partner uid m}"
  by (auto simp: partner_def pair_of_def)

lemma pair_eq_partner: "{uid, p} = {uid, q} \<longleftrightarrow> p = q"
  by (auto simp: doubleton_eq_iff)

lemma between_pair: "between a b m \<longleftrightarrow> pair_of m = {a, b}"
  by (auto simp: between_def pair_of_def doubleton_eq_iff)

lemma set_heads: "m \<in> set (heads uid db) \<Longrightarrow> m \<in> set (db_messages db) \<and> concerns uid m"
  unfolding heads_def using first_of_each_subset [of "[]" "latest_first (filter (concerns uid) (db_messages db))"] by auto

lemma head_newest:
  assumes "m \<in> set (heads uid db)"
  shows "\<exists>rest. latest_first (filter (between uid (partner uid m)) (db_messages db)) = m # rest"
proof -
  have con: "concerns uid m" using set_heads [OF assms] by blast
  from assms obtain rest where "filter (\<lambda>x. pair_of x = pair_of m) (latest_first (filter (concerns uid) (db_messages db))) = m # rest"
    using first_of_each_first by (fastforce simp: heads_def)
  moreover have "filter (\<lambda>x. pair_of x = pair_of m) (filter (concerns uid) ms) = filter (between uid (partner uid m)) ms" for ms
    unfolding filter_filter pair_partner [OF con] between_pair by (rule filter_cong) (auto simp: pair_of_def doubleton_eq_iff)
  ultimately show ?thesis by (simp add: latest_first_filter)
qed

lemma heads_distinct: "distinct (map (partner uid) (heads uid db))"
proof -
  let ?firsts = "first_of_each [] (latest_first (filter (concerns uid) (db_messages db)))"
  have con: "\<forall>m \<in> set ?firsts. concerns uid m"
    using first_of_each_subset [of "[]" "latest_first (filter (concerns uid) (db_messages db))"] by auto
  have "inj_on pair_of (set ?firsts)" "distinct ?firsts"
    using first_of_each_distinct [of "[]" "latest_first (filter (concerns uid) (db_messages db))"]
    by (simp_all add: distinct_map)
  moreover have "inj_on (partner uid) (set ?firsts)"
  proof (rule inj_onI)
    fix x y assume x: "x \<in> set ?firsts" and y: "y \<in> set ?firsts" and "partner uid x = partner uid y"
    moreover have "pair_of x = {uid, partner uid x}" "pair_of y = {uid, partner uid y}"
      using pair_partner [OF bspec [OF con x]] pair_partner [OF bspec [OF con y]] .
    ultimately have "pair_of x = pair_of y" by simp
    from inj_onD [OF \<open>inj_on pair_of (set ?firsts)\<close> this x y] show "x = y" .
  qed
  ultimately have "distinct (map (partner uid) ?firsts)" by (simp add: distinct_map)
  then have "distinct ?firsts" "inj_on (partner uid) (set ?firsts)" by (simp_all add: distinct_map)
  then show ?thesis by (simp add: heads_def distinct_map latest_first_def order_by_def)
qed

lemma heads_partners: "partner uid ` set (heads uid db) = partner uid ` {m \<in> set (db_messages db). concerns uid m}"
proof
  show "partner uid ` set (heads uid db) \<subseteq> partner uid ` {m \<in> set (db_messages db). concerns uid m}"
    using set_heads by blast
  show "partner uid ` {m \<in> set (db_messages db). concerns uid m} \<subseteq> partner uid ` set (heads uid db)"
  proof
    fix p assume "p \<in> partner uid ` {m \<in> set (db_messages db). concerns uid m}"
    then obtain m where m: "m \<in> set (db_messages db)" "concerns uid m" "p = partner uid m" by blast
    let ?ms = "latest_first (filter (concerns uid) (db_messages db))"
    have "pair_of m \<in> pair_of ` set ?ms" using m by auto
    then have "pair_of m \<in> pair_of ` set (first_of_each [] ?ms)" by (simp add: first_of_each_pairs)
    then obtain h where h: "h \<in> set (first_of_each [] ?ms)" "pair_of h = pair_of m" by auto
    then have "h \<in> set (heads uid db)" by (simp add: heads_def)
    moreover have "partner uid h = p"
    proof -
      have "concerns uid h" using \<open>h \<in> set (heads uid db)\<close> set_heads by blast
      from h(2) [unfolded pair_partner [OF this] pair_partner [OF m(2)]] show ?thesis
        by (simp only: pair_eq_partner m(3))
    qed
    ultimately show "p \<in> partner uid ` set (heads uid db)" by blast
  qed
qed

lemma GetConversationList_heads:
  "GetConversationList f uid db = failing (f (CMessages MThreads)) (List.map_filter (summary uid db) (heads uid db))"
  by (simp add: GetConversationList_def heads_def)

lemma user_row_found: "has_user uid db \<Longrightarrow> \<exists>u. user_row uid db = Some u"
  using find_row_None [of "\<lambda>u. user_id u = uid" "db_users db"]
  by (cases "user_row uid db") (auto simp: user_row_def has_user_def)

lemma map_filter_total: "(\<And>x. x \<in> set xs \<Longrightarrow> f x \<noteq> None) \<Longrightarrow> List.map_filter f xs = map (\<lambda>x. the (f x)) xs"
  by (induction xs) (auto simp: List.map_filter_def)

definition entry_of :: "string \<Rightarrow> pgdb \<Rightarrow> DirectMessage \<Rightarrow> ConversationSummary" where
  "entry_of uid db m = the (summary uid db m)"

lemma summary_total:
  assumes "messages_wf db" and "m \<in> set (heads uid db)"
  shows "summary uid db m = Some (entry_of uid db m)"
    and "cs_user (entry_of uid db m) = partner uid m" and "cs_last (entry_of uid db m) = dm_text m"
    and "cs_last_at (entry_of uid db m) = dm_created_at m"
    and "cs_unread (entry_of uid db m) = affected (unread_from (partner uid m) uid) (db_messages db)"
proof -
  have "has_user (partner uid m) db"
    using assms set_heads [OF assms(2)] by (auto simp: messages_wf_def partner_def)
  then obtain u where "user_row (partner uid m) db = Some u" using user_row_found by blast
  then show "summary uid db m = Some (entry_of uid db m)" and "cs_user (entry_of uid db m) = partner uid m"
    and "cs_last (entry_of uid db m) = dm_text m" and "cs_last_at (entry_of uid db m) = dm_created_at m"
    and "cs_unread (entry_of uid db m) = affected (unread_from (partner uid m) uid) (db_messages db)"
    by (simp_all add: entry_of_def summary_def)
qed

lemma inbox_entries:
  assumes "messages_wf db"
  shows "List.map_filter (summary uid db) (heads uid db) = map (entry_of uid db) (heads uid db)"
proof -
  have "summary uid db m \<noteq> None" if "m \<in> set (heads uid db)" for m
    unfolding summary_total(1) [OF assms that] by (rule option.distinct)
  from map_filter_total [OF this] show ?thesis by (simp only: entry_of_def [abs_def])
qed

text \<open>The end of a thread is its newest message.\<close>

lemma thread_end:
  assumes "messages_wf db" and "m \<in> set (heads uid db)"
    and "GetConversation f uid (partner uid m) 50 db = Inr thread"
  shows "\<exists>earlier last. thread = earlier @ [last] \<and> with_sender db m = Some last"
proof -
  obtain rest where newest: "latest_first (filter (between uid (partner uid m)) (db_messages db)) = m # rest"
    using head_newest [OF assms(2)] by blast
  have "has_user (dm_from m) db" using assms(1) set_heads [OF assms(2)] by (auto simp: messages_wf_def)
  then obtain last where "with_sender db m = Some last" using user_row_found by (fastforce simp: with_sender_def)
  with assms(3) newest show ?thesis
    by (auto simp: GetConversation_def failing_def List.map_filter_def split: if_splits)
qed

text \<open>Reading: the messages of the other side are marked, and nothing else changes.\<close>

definition mark :: "gotime \<Rightarrow> string \<Rightarrow> string \<Rightarrow> DirectMessage \<Rightarrow> DirectMessage" where
  "mark now uid other m = (if unread_from other uid m then m\<lparr>dm_read_at := Some now\<rparr> else m)"

lemma mark_simps [simp]:
  "dm_from (mark now uid other m) = dm_from m" "dm_to (mark now uid other m) = dm_to m"
  "dm_text (mark now uid other m) = dm_text m" "dm_created_at (mark now uid other m) = dm_created_at m"
  by (simp_all add: mark_def)

lemma MarkConversationRead_mark:
  assumes "MarkConversationRead f now uid other db = Inr db'"
  shows "db_messages db' = map (mark now uid other) (db_messages db)" and "db_users db' = db_users db"
  using assms by (auto simp: MarkConversationRead_def failing_def update_where_def mark_def split: if_splits)

lemma latest_first_mark: "latest_first (map (mark now uid other) ms) = map (mark now uid other) (latest_first ms)"
  unfolding latest_first_def by (rule order_by_map) simp

lemma heads_mark:
  assumes "MarkConversationRead f now uid other db = Inr db'"
  shows "heads uid db' = map (mark now uid other) (heads uid db)"
  unfolding heads_def MarkConversationRead_mark(1) [OF assms] filter_map
  by (simp add: latest_first_mark first_of_each_map comp_def)

lemma affected_mark:
  "affected (unread_from p uid) (map (mark now uid other) ms) = (if p = other then 0 else affected (unread_from p uid) ms)"
proof -
  have one: "unread_from p uid (mark now uid other m) = (p \<noteq> other \<and> unread_from p uid m)" for m
    by (auto simp: mark_def unread_from_def)
  show ?thesis by (simp add: affected_def filter_map comp_def one)
qed

lemma entry_mark:
  assumes "MarkConversationRead f now uid other db = Inr db'" and "messages_wf db" and "m \<in> set (heads uid db)"
  shows "entry_of uid db' (mark now uid other m)
    = (if partner uid m = other then (entry_of uid db m)\<lparr>cs_unread := 0\<rparr> else entry_of uid db m)"
proof -
  have "has_user (partner uid m) db"
    using assms(2) set_heads [OF assms(3)] by (auto simp: messages_wf_def partner_def)
  then obtain u where u: "user_row (partner uid m) db = Some u" using user_row_found by blast
  have u': "user_row (partner uid m) db' = Some u"
    using u by (simp add: user_row_def MarkConversationRead_mark(2) [OF assms(1)])
  have p: "partner uid (mark now uid other m) = partner uid m" by (simp add: partner_def)
  show ?thesis
    by (cases "partner uid m = other")
      (use u u' in \<open>simp_all add: entry_of_def summary_def p MarkConversationRead_mark(1) [OF assms(1)] affected_mark\<close>)
qed

text \<open>
  C28: The inbox agrees with the threads. For a database whose messages have their users, the list of
  conversations of a user has exactly one entry per partner, the most recent first; each entry
  shows the last message of the thread that opening it shows, and counts the messages from the
  partner not read yet; and marking a conversation as read sets its own count to zero and
  leaves the rest of the list as it was.
\<close>

theorem inbox_matches_threads:
  assumes "messages_wf db" and "GetConversationList f uid db = Inr inbox"
  shows "distinct (map cs_user inbox)
    \<and> set (map cs_user inbox) = {p. \<exists>m \<in> set (db_messages db). (dm_from m = uid \<and> dm_to m = p) \<or> (dm_to m = uid \<and> dm_from m = p)}
    \<and> sorted (map (\<lambda>c. - cs_last_at c) inbox)
    \<and> (\<forall>c \<in> set inbox. cs_unread c = affected (\<lambda>m. dm_from m = cs_user c \<and> dm_to m = uid \<and> dm_read_at m = None) (db_messages db)
        \<and> (\<forall>g thread. GetConversation g uid (cs_user c) 50 db = Inr thread \<longrightarrow>
             thread \<noteq> [] \<and> cs_last c = dm_text (last thread) \<and> cs_last_at c = dm_created_at (last thread)))
    \<and> (\<forall>g now other db'. MarkConversationRead g now uid other db = Inr db' \<longrightarrow>
         GetConversationList f uid db' = Inr (map (\<lambda>c. if cs_user c = other then c\<lparr>cs_unread := 0\<rparr> else c) inbox))"
proof -
  have inbox: "inbox = map (entry_of uid db) (heads uid db)" and ok: "\<not> f (CMessages MThreads)"
    using assms by (auto simp: GetConversationList_heads inbox_entries failing_def split: if_splits)
  note entry = summary_total [OF assms(1)]
  have users: "map cs_user inbox = map (partner uid) (heads uid db)" by (simp add: inbox entry)
  have partners: "partner uid ` {m \<in> set (db_messages db). concerns uid m}
      = {p. \<exists>m \<in> set (db_messages db). (dm_from m = uid \<and> dm_to m = p) \<or> (dm_to m = uid \<and> dm_from m = p)}"
    by (force simp: partner_def)
  have "map (\<lambda>c. - cs_last_at c) inbox = map (\<lambda>m. - dm_created_at m) (heads uid db)" by (simp add: inbox entry)
  then have "sorted (map (\<lambda>c. - cs_last_at c) inbox)"
    unfolding heads_def latest_first_def using sorted_order_by by metis
  moreover have "cs_unread c = affected (\<lambda>m. dm_from m = cs_user c \<and> dm_to m = uid \<and> dm_read_at m = None) (db_messages db)
      \<and> (\<forall>g thread. GetConversation g uid (cs_user c) 50 db = Inr thread \<longrightarrow>
           thread \<noteq> [] \<and> cs_last c = dm_text (last thread) \<and> cs_last_at c = dm_created_at (last thread))"
    if "c \<in> set inbox" for c
  proof -
    from that obtain m where m: "m \<in> set (heads uid db)" "c = entry_of uid db m" by (auto simp: inbox)
    have "unread_from p uid = (\<lambda>m. dm_from m = p \<and> dm_to m = uid \<and> dm_read_at m = None)" for p
      by (auto simp: unread_from_def)
    moreover have "thread \<noteq> [] \<and> dm_text m = dm_text (last thread) \<and> dm_created_at m = dm_created_at (last thread)"
      if "GetConversation g uid (partner uid m) 50 db = Inr thread" for g thread
      using thread_end [OF assms(1) m(1) that] by (auto simp: with_sender_def)
    ultimately show ?thesis using m by (simp add: entry)
  qed
  moreover have "GetConversationList f uid db' = Inr (map (\<lambda>c. if cs_user c = other then c\<lparr>cs_unread := 0\<rparr> else c) inbox)"
    if read: "MarkConversationRead g now uid other db = Inr db'" for g now other db'
  proof -
    have "messages_wf db'"
      using assms(1) by (auto simp: messages_wf_def has_user_def MarkConversationRead_mark [OF read])
    from inbox_entries [OF this, of uid]
    have "List.map_filter (summary uid db') (heads uid db') = map (\<lambda>m. entry_of uid db' (mark now uid other m)) (heads uid db)"
      by (simp add: heads_mark [OF read])
    also have "\<dots> = map (\<lambda>c. if cs_user c = other then c\<lparr>cs_unread := 0\<rparr> else c) inbox"
      by (simp add: inbox entry_mark [OF read assms(1)] entry(2) cong: map_cong)
    finally show ?thesis using ok by (simp add: GetConversationList_heads failing_def)
  qed
  ultimately show ?thesis
    using heads_distinct [of uid db] heads_partners [of uid db] unfolding users set_map partners by blast
qed

section \<open>Delivery\<close>

lemma SendMessage_run:
  assumes "SendMessage cf env (Some u) toUser body sv = (sv', HttpOK st m)"
  shows "user_email_verified u" and "toUser \<noteq> user_id u" and "dm_from m = user_id u" and "dm_to m = toUser"
    and "body = Some (dm_text m)" and "dm_text m \<noteq> ''''" and "length (dm_text m) \<le> 2000"
    and "dm_created_at m = env_now env" and "dm_read_at m = None"
    and "SendDirectMessage (env_faults env) m (sv_pg sv) = Inr (sv_pg sv')"
proof -
  obtain sv1 allowed where l:
      "limited cf (\<lambda>rl. AllowDM (env_rfaults env) (env_now env) (user_id u)) sv = (sv1, allowed)" by fastforce
  have pg: "sv_pg sv1 = sv_pg sv" by (rule limited_pg [OF l])
  let ?m = "\<lparr>dm_id = env_uuid env 0, dm_from = user_id u, dm_to = toUser, dm_text = the body,
      dm_read_at = None, dm_created_at = env_now env, dm_from_name = '''', dm_from_color = ''''\<rparr>"
  have parts: "user_email_verified u" "toUser \<noteq> user_id u" "body \<noteq> None" "body \<noteq> Some ''''" "length (the body) \<le> 2000"
    and "\<exists>db. SendDirectMessage (env_faults env) ?m (sv_pg sv) = Inr db \<and> sv' = sv1\<lparr>sv_pg := db\<rparr>
      \<and> m = ?m\<lparr>dm_from_name := user_display_name u, dm_from_color := user_avatar_color u\<rparr>"
    using assms l pg by (auto simp: SendMessage_def Let_def split: if_splits sum.splits)
  then obtain db where db: "SendDirectMessage (env_faults env) ?m (sv_pg sv) = Inr db" "sv' = sv1\<lparr>sv_pg := db\<rparr>"
      "m = ?m\<lparr>dm_from_name := user_display_name u, dm_from_color := user_avatar_color u\<rparr>" by blast
  show "user_email_verified u" and "toUser \<noteq> user_id u" by fact+
  show "dm_from m = user_id u" "dm_to m = toUser" "dm_created_at m = env_now env" "dm_read_at m = None" by (simp_all add: db)
  show "body = Some (dm_text m)" "dm_text m \<noteq> ''''" "length (dm_text m) \<le> 2000" using parts by (auto simp: db)
  show "SendDirectMessage (env_faults env) m (sv_pg sv) = Inr (sv_pg sv')"
    using db by (simp add: SendDirectMessage_def split: if_splits)
qed

lemma SendDirectMessage_row:
  assumes "SendDirectMessage f m db = Inr db'"
  shows "\<exists>row. db' = db\<lparr>db_messages := db_messages db @ [row]\<rparr> \<and> dm_id row = dm_id m \<and> dm_text row = dm_text m
    \<and> dm_from row = dm_from m \<and> dm_to row = dm_to m \<and> dm_created_at row = dm_created_at m \<and> dm_read_at row = None
    \<and> has_user (dm_from row) db \<and> has_user (dm_to row) db"
  using assms by (auto simp: SendDirectMessage_def split: if_splits)

lemma newest_shown:
  assumes "\<forall>x \<in> set (filter (between a b) ms). dm_created_at x < dm_created_at row"
    and "between a b row" and "db_messages db = ms @ [row]" and "has_user (dm_from row) db"
    and "GetConversation f a b 50 db = Inr thread"
  shows "\<exists>earlier shown. thread = earlier @ [shown] \<and> with_sender db row = Some shown"
proof -
  have "latest_first (filter (between a b) (db_messages db)) = row # latest_first (filter (between a b) ms)"
    using latest_first_append_latest [OF assms(1)] assms(2) by (simp add: assms(3))
  moreover obtain shown where "with_sender db row = Some shown"
    using user_row_found [OF assms(4)] by (fastforce simp: with_sender_def)
  ultimately show ?thesis using assms(5) by (auto simp: GetConversation_def failing_def List.map_filter_def split: if_splits)
qed

lemma other_threads:
  assumes "db' = db\<lparr>db_messages := db_messages db @ [row]\<rparr>" and "\<not> between a b row"
  shows "GetConversation f a b l db' = GetConversation f a b l db"
proof -
  have "with_sender db' = with_sender db" by (simp add: assms(1) with_sender_def [abs_def] user_row_def)
  then show ?thesis using assms(2) by (simp add: GetConversation_def assms(1))
qed

lemma other_inboxes:
  assumes "db' = db\<lparr>db_messages := db_messages db @ [row]\<rparr>" and "\<not> concerns uid row"
  shows "GetConversationList f uid db' = GetConversationList f uid db"
proof -
  have "unread_from p uid row \<Longrightarrow> False" for p using assms(2) by (simp add: unread_from_def)
  then have "summary uid db' = summary uid db"
    by (intro ext) (auto simp: assms(1) summary_def user_row_def affected_append)
  then show ?thesis using assms(2) by (simp add: GetConversationList_def assms(1))
qed

text \<open>
  A message that was sent arrives. When the handler accepts a message, its sender has a verified
  address and is not writing to themselves, and the text has between 1 and 2000 bytes; the
  recipient who opens the conversation finds the message, unread, as the last one (if it is
  the newest), and their count of unread messages from the sender is one higher; no other thread
  and no inbox of anybody else changes.
\<close>

theorem direct_message_delivered:
  assumes "SendMessage cf env (Some u) toUser body sv = (sv', HttpOK st m)"
  shows "user_email_verified u \<and> toUser \<noteq> user_id u \<and> dm_from m = user_id u \<and> dm_to m = toUser
    \<and> body = Some (dm_text m) \<and> dm_text m \<noteq> '''' \<and> length (dm_text m) \<le> 2000
    \<and> (\<forall>f thread. (\<forall>x \<in> set (filter (between toUser (user_id u)) (db_messages (sv_pg sv))). dm_created_at x < env_now env)
         \<longrightarrow> GetConversation f toUser (user_id u) 50 (sv_pg sv') = Inr thread
         \<longrightarrow> thread \<noteq> [] \<and> dm_id (last thread) = dm_id m \<and> dm_text (last thread) = dm_text m \<and> dm_read_at (last thread) = None)
    \<and> affected (unread_from (user_id u) toUser) (db_messages (sv_pg sv'))
       = Suc (affected (unread_from (user_id u) toUser) (db_messages (sv_pg sv)))
    \<and> (\<forall>f a b n. \<not> between a b m \<longrightarrow> GetConversation f a b n (sv_pg sv') = GetConversation f a b n (sv_pg sv))
    \<and> (\<forall>f x. x \<noteq> user_id u \<and> x \<noteq> toUser \<longrightarrow>
         GetConversationList f x (sv_pg sv') = GetConversationList f x (sv_pg sv))"
proof -
  note run = SendMessage_run [OF assms]
  obtain row where db: "sv_pg sv' = (sv_pg sv)\<lparr>db_messages := db_messages (sv_pg sv) @ [row]\<rparr>"
    and row: "dm_id row = dm_id m" "dm_text row = dm_text m" "dm_from row = user_id u" "dm_to row = toUser"
      "dm_created_at row = env_now env" "dm_read_at row = None"
    and sender: "has_user (dm_from row) (sv_pg sv)"
    using SendDirectMessage_row [OF run(10), unfolded run(3,4,8)] by blast
  have known: "has_user (dm_from row) (sv_pg sv')" using sender by (simp add: db has_user_def)
  have "thread \<noteq> [] \<and> dm_id (last thread) = dm_id m \<and> dm_text (last thread) = dm_text m \<and> dm_read_at (last thread) = None"
    if "\<forall>x \<in> set (filter (between toUser (user_id u)) (db_messages (sv_pg sv))). dm_created_at x < env_now env"
      and "GetConversation f toUser (user_id u) 50 (sv_pg sv') = Inr thread" for f thread
  proof -
    have "between toUser (user_id u) row" by (simp add: between_def row)
    from newest_shown [OF _ this _ known that(2)] that(1) show ?thesis
      by (fastforce simp: db row with_sender_def)
  qed
  moreover have "affected (unread_from (user_id u) toUser) (db_messages (sv_pg sv'))
       = Suc (affected (unread_from (user_id u) toUser) (db_messages (sv_pg sv)))"
    by (simp add: db affected_append unread_from_def row)
  moreover have "between a b m = between a b row" for a b by (simp add: between_def row run)
  ultimately show ?thesis
    using run(1-7) other_threads [OF db] other_inboxes [OF db] row(3,4) by metis
qed

definition demo_dms :: pgdb where
  "demo_dms = empty_db\<lparr>db_users := [demo_user ''ann'', demo_user ''bo'', demo_user ''cy''],
     db_messages := [
       \<lparr>dm_id = ''1'', dm_from = ''bo'', dm_to = ''ann'', dm_text = ''hi'', dm_read_at = None, dm_created_at = 1,
         dm_from_name = '''', dm_from_color = ''''\<rparr>,
       \<lparr>dm_id = ''2'', dm_from = ''cy'', dm_to = ''ann'', dm_text = ''yo'', dm_read_at = None, dm_created_at = 2,
         dm_from_name = '''', dm_from_color = ''''\<rparr>,
       \<lparr>dm_id = ''3'', dm_from = ''bo'', dm_to = ''ann'', dm_text = ''there?'', dm_read_at = None, dm_created_at = 3,
         dm_from_name = '''', dm_from_color = ''''\<rparr>]\<rparr>"

lemma demo_dms_wf: "messages_wf demo_dms"
  by (simp add: messages_wf_def demo_dms_def empty_db_def demo_user_def zero_user_def has_user_def)

theorem inbox_matches_threads_witness:
  "\<exists>inbox. GetConversationList no_faults ''ann'' demo_dms = Inr inbox \<and> distinct (map cs_user inbox)
    \<and> sorted (map (\<lambda>c. - cs_last_at c) inbox)
    \<and> set (map cs_user inbox) = {p. \<exists>m \<in> set (db_messages demo_dms).
        (dm_from m = ''ann'' \<and> dm_to m = p) \<or> (dm_to m = ''ann'' \<and> dm_from m = p)}"
proof -
  obtain inbox where "GetConversationList no_faults ''ann'' demo_dms = Inr inbox"
    by (simp add: GetConversationList_def failing_def no_faults_def)
  from inbox_matches_threads [OF demo_dms_wf this] this show ?thesis by blast
qed

theorem direct_message_delivered_witness:
  "\<exists>sv' m. SendMessage (demo_cf\<lparr>cf_limiter := None\<rparr>) (demo_env 9) (Some ((demo_user ''bo'')\<lparr>user_email_verified := True\<rparr>)) ''ann'' (Some ''later'')
      (demo_accounts\<lparr>sv_pg := demo_dms\<rparr>) = (sv', HttpOK 201 m)
    \<and> dm_text m = ''later'' \<and> affected (unread_from ''bo'' ''ann'') (db_messages (sv_pg sv'))
      = Suc (affected (unread_from ''bo'' ''ann'') (db_messages demo_dms))"
proof -
  let ?bo = "(demo_user ''bo'')\<lparr>user_email_verified := True\<rparr>"
  let ?cf = "demo_cf\<lparr>cf_limiter := None\<rparr>"
  let ?sv = "demo_accounts\<lparr>sv_pg := demo_dms\<rparr>"
  have known: "deref_or_zero zero_user (GetUserByID (env_faults (demo_env 9)) 9 ''ann'' demo_dms) \<noteq> None"
    by code_simp
  have stored: "\<exists>db. SendDirectMessage (env_faults (demo_env 9)) m demo_dms = Inr db"
    if "dm_from m = ''bo''" "dm_to m = ''ann''" "dm_id m = ''u0''" for m
    using that by (simp add: SendDirectMessage_def demo_env_def no_faults_def demo_dms_def has_user_def demo_user_def empty_db_def)
  have open_limit: "limited ?cf call ?sv = (?sv, True)" for call by (simp add: limited_def)
  have who: "user_id ?bo = ''bo''" by (simp add: demo_user_def)
  have uuid: "env_uuid (demo_env 9) 0 = ''u0''" "env_now (demo_env 9) = 9" by (simp_all add: demo_env_def)
  let ?m = "\<lparr>dm_id = ''u0'', dm_from = ''bo'', dm_to = ''ann'', dm_text = ''later'',
      dm_read_at = None, dm_created_at = 9, dm_from_name = '''', dm_from_color = ''''\<rparr>"
  obtain db where db: "SendDirectMessage (env_faults (demo_env 9)) ?m demo_dms = Inr db" using stored [of ?m] by auto
  let ?sent = "?m\<lparr>dm_from_name := user_display_name ?bo, dm_from_color := user_avatar_color ?bo\<rparr>"
  have "SendMessage ?cf (demo_env 9) (Some ?bo) ''ann'' (Some ''later'') ?sv = (?sv\<lparr>sv_pg := db\<rparr>, HttpOK 201 ?sent)"
    unfolding SendMessage_def option.case who uuid open_limit prod.case Let_def
    using known db by (simp add: who)
  then obtain sv' m where sent: "SendMessage ?cf (demo_env 9) (Some ?bo) ''ann'' (Some ''later'') ?sv = (sv', HttpOK 201 m)"
    by blast
  have said: "dm_text m = ''later''" using direct_message_delivered [OF sent] by simp
  from direct_message_delivered [OF sent] sent show ?thesis
    unfolding who by (intro exI [of _ sv'] exI [of _ m]) (simp add: said)
qed

lemma demo_inbox:
  "map_sum id (map (\<lambda>c. (cs_user c, cs_last c, cs_unread c))) (GetConversationList no_faults ''ann'' demo_dms)
   = Inr [(''bo'', ''there?'', 2), (''cy'', ''yo'', 1)]"
  by code_simp

end
