(* ===== verification/AdminStore.thy ===== *)
theory AdminStore
  imports Auth Autoplay
begin

text \<open>
  What administrators ask of the store (\<open>internal/store/users.go\<close>, \<open>internal/store/autoplay.go\<close>):
  single columns of accounts and rooms, the deletion of an account with what hangs on it, and the room
  for 24/7 radio. A method of several statements returns what the earlier ones left, also when a
  later one fails.
\<close>

section \<open>Accounts\<close>

text \<open>The columns that the statement reads; the others keep their zero values.\<close>

definition AdminGetUser :: "faults \<Rightarrow> string \<Rightarrow> pgdb \<Rightarrow> User fallible" where
  "AdminGetUser f uid db =
     (if f (CAdmin AGetUser) then Inl StoreError
      else case find_row (\<lambda>u. user_id u = uid) (db_users db) of
          None \<Rightarrow> Inl StoreError
        | Some u \<Rightarrow> Inr (u\<lparr>user_password_hash := '''', user_avatar_url := '''', user_genres := [], user_plus_since := None,
            user_plus_expires_at := None\<rparr>))"

datatype column_value = ColBool bool | ColInt int | ColText string

definition allowed_fields :: "string list" where
  "allowed_fields = [''is_admin'', ''is_banned'', ''email_verified'', ''is_plus'', ''neon_balance'',
     ''display_name'', ''stage_name'']"

text \<open>\<open>SET field = $2\<close>; a value of another type than the column's is refused.\<close>

definition set_column :: "string \<Rightarrow> column_value \<Rightarrow> (User \<Rightarrow> User) option" where
  "set_column field v =
     (case v of
        ColBool b \<Rightarrow>
          if field = ''is_admin'' then Some (\<lambda>u. u\<lparr>user_is_admin := b\<rparr>)
          else if field = ''is_banned'' then Some (\<lambda>u. u\<lparr>user_is_banned := b\<rparr>)
          else if field = ''email_verified'' then Some (\<lambda>u. u\<lparr>user_email_verified := b\<rparr>)
          else if field = ''is_plus'' then Some (\<lambda>u. u\<lparr>user_is_plus := b\<rparr>) else None
      | ColInt n \<Rightarrow> if field = ''neon_balance'' \<and> int4_ok n then Some (\<lambda>u. u\<lparr>user_neon := n\<rparr>) else None
      | ColText s \<Rightarrow>
          if field = ''display_name'' then Some (\<lambda>u. u\<lparr>user_display_name := s\<rparr>)
          else if field = ''stage_name'' then Some (\<lambda>u. u\<lparr>user_stage_name := s\<rparr>) else None)"

definition AdminSetField :: "faults \<Rightarrow> string \<Rightarrow> string \<Rightarrow> column_value \<Rightarrow> pgdb \<Rightarrow> pgdb fallible" where
  "AdminSetField f uid field v db =
     (if field \<notin> set allowed_fields \<or> f (CAdmin ASetField) then Inl StoreError
      else case set_column field v of
          None \<Rightarrow> Inl StoreError
        | Some g \<Rightarrow>
            if (case v of ColText s \<Rightarrow> field = ''stage_name'' \<and> has_user uid db
                 \<and> (\<exists>u \<in> set (db_users db). user_id u \<noteq> uid \<and> stage_name_clash s u) | _ \<Rightarrow> False)
            then Inl StoreError else Inr (update_user uid g db))"

text \<open>
  The statements before the last are best effort. The one on \<open>neon_transactions\<close> names a column that
  the table does not have, so it always fails, and its error is dropped like the others.
\<close>

definition AdminDeleteUser :: "faults \<Rightarrow> string \<Rightarrow> pgdb \<Rightarrow> pgdb \<times> unit fallible" where
  "AdminDeleteUser f uid db =
     (let try = (\<lambda>call g db. if f (CAdmin call) then db else g db);
          owned = (\<lambda>db. pl_id ` {p \<in> set (db_playlists db). pl_user p = uid});
          db1 = try ADropChat (\<lambda>db. db\<lparr>db_chat := delete_where (\<lambda>m. chat_session m = uid \<and> has_user uid db) (db_chat db)\<rparr>) db;
          db2 = try ADropMessages (\<lambda>db. db\<lparr>db_messages := delete_where (\<lambda>m. dm_from m = uid \<or> dm_to m = uid) (db_messages db)\<rparr>) db1;
          db3 = try ADropListens (\<lambda>db. db\<lparr>db_listens := delete_where (\<lambda>l. le_user l = uid) (db_listens db)\<rparr>) db2;
          db4 = try ADropPlaylistRows (\<lambda>db. db\<lparr>db_playlist_tracks := delete_where (\<lambda>t. plr_playlist t \<in> owned db) (db_playlist_tracks db)\<rparr>) db3;
          db5 = try ADropPlaylists (\<lambda>db. db\<lparr>
            db_playlist_tracks := delete_where (\<lambda>t. plr_playlist t \<in> owned db) (db_playlist_tracks db),
            db_playlists := delete_where (\<lambda>p. pl_user p = uid) (db_playlists db)\<rparr>) db4;
          db6 = try ADropSubs (\<lambda>db. db\<lparr>db_subs := delete_where (\<lambda>s. sub_user s = uid) (db_subs db)\<rparr>) db5
      in case DeleteUser f uid db6 of Inl e \<Rightarrow> (db6, Inl e) | Inr db7 \<Rightarrow> (db7, Inr ()))"

section \<open>Rooms\<close>

definition update_room :: "string \<Rightarrow> (Room \<Rightarrow> Room) \<Rightarrow> pgdb \<Rightarrow> pgdb" where
  "update_room rid g db = db\<lparr>db_rooms := update_where (\<lambda>r. room_id r = rid) g (db_rooms db)\<rparr>"

definition SetRoomFeatured :: "faults \<Rightarrow> string \<Rightarrow> bool \<Rightarrow> pgdb \<Rightarrow> pgdb \<times> unit fallible" where
  "SetRoomFeatured f rid featured db =
     (let db1 = (if featured \<and> \<not> f (CAdmin AClearFeatured)
            then db\<lparr>db_rooms := update_where room_is_featured (\<lambda>r. r\<lparr>room_is_featured := False\<rparr>) (db_rooms db)\<rparr>
            else db) in
      if f (CAdmin ASetFeatured) then (db1, Inl StoreError)
      else (update_room rid (\<lambda>r. r\<lparr>room_is_featured := featured\<rparr>) db1, Inr ()))"

definition SetRoomOfficial :: "faults \<Rightarrow> string \<Rightarrow> bool \<Rightarrow> pgdb \<Rightarrow> pgdb fallible" where
  "SetRoomOfficial f rid official db = failing (f (CAdmin ASetOfficial))
     (update_room rid (\<lambda>r. r\<lparr>room_is_official := official\<rparr>) db)"

definition SetRoomExpiry :: "faults \<Rightarrow> string \<Rightarrow> gotime option \<Rightarrow> pgdb \<Rightarrow> pgdb fallible" where
  "SetRoomExpiry f rid expiresAt db = failing (f (CAdmin ASetExpiry))
     (update_room rid (\<lambda>r. r\<lparr>room_expires_at := expiresAt\<rparr>) db)"

definition SetRoomCoverArt :: "faults \<Rightarrow> string \<Rightarrow> string \<Rightarrow> pgdb \<Rightarrow> pgdb fallible" where
  "SetRoomCoverArt f rid coverArt db = failing (f (CAdmin ASetCover))
     (update_room rid (\<lambda>r. r\<lparr>room_cover_art := coverArt\<rparr>) db)"

definition SetRoomCoverGradient :: "faults \<Rightarrow> string \<Rightarrow> string \<Rightarrow> pgdb \<Rightarrow> pgdb fallible" where
  "SetRoomCoverGradient f rid gradient db = failing (f (CAdmin ASetGradient))
     (update_room rid (\<lambda>r. r\<lparr>room_cover_gradient := gradient\<rparr>) db)"

text \<open>After a failed read the pointer is to a zero room that is marked as featured.\<close>

definition featured_zero :: Room where
  "featured_zero = zero_room\<lparr>room_is_featured := True\<rparr>"

definition GetFeaturedRoom :: "faults \<Rightarrow> pgdb \<Rightarrow> Room option fallible" where
  "GetFeaturedRoom f db = failing (f (CAdmin AGetFeatured))
     (find_row (\<lambda>r. room_is_featured r \<and> room_is_live r) (db_rooms db))"

definition CreateAutoplayRoom :: "faults \<Rightarrow> Room \<Rightarrow> pgdb \<Rightarrow> pgdb fallible" where
  "CreateAutoplayRoom f room db =
     (if f (CAdmin AAutoplayRoom) \<or> has_room (room_id room) db
         \<or> (\<exists>r \<in> set (db_rooms db). room_slug r = room_slug room)
         \<or> room_policy room \<notin> {PolicyOpen, PolicyApproval, PolicyClosed} then Inl StoreError
      else Inr (db\<lparr>db_rooms := db_rooms db @
        [zero_room\<lparr>room_id := room_id room, room_slug := room_slug room, room_name := room_name room,
           room_description := room_description room, room_genre := room_genre room,
           room_cover_gradient := room_cover_gradient room, room_policy := room_policy room,
           room_is_live := room_is_live room, room_is_official := room_is_official room,
           room_is_autoplay := room_is_autoplay room, room_created_at := room_created_at room,
           room_dj_name := ''24/7 Radio''\<rparr>]\<rparr>))"

end
