(* ===== verification/Admin.thy ===== *)
theory Admin
  imports AdminStore Rooms Cache Neon
begin

text \<open>
  The handlers of \<open>internal/handlers/admin.go\<close> and the view of an account of
  \<open>internal/handlers/admin_user_view.go\<close>. Every handler but that of the featured room begins with
  \<open>requireAdmin\<close>. Arguments stand for \<open>time.Parse\<close>, for \<open>time.Format("0102")\<close> and for the digest of
  the track ids. The search over accounts (an \<open>ILIKE\<close> pattern), the metrics and the YouTube search are
  not modelled.
\<close>

section \<open>Who may ask\<close>

definition requireAdmin :: "User option \<Rightarrow> (nat \<times> string) option" where
  "requireAdmin user =
     (case user of
        None \<Rightarrow> Some (401, ''authentication required'')
      | Some u \<Rightarrow> if \<not> user_is_admin u then Some (403, ''admin required'') else None)"

definition as_admin :: "User option \<Rightarrow> 's \<Rightarrow> 's \<times> 'a response \<Rightarrow> 's \<times> 'a response" where
  "as_admin user s body = (case requireAdmin user of
       Some (code, msg) \<Rightarrow> (s, HttpError code msg)
     | None \<Rightarrow> body)"

definition admin_room :: "env \<Rightarrow> string \<Rightarrow> server \<Rightarrow> Room option" where
  "admin_room env rid sv = or_zero None (GetRoomByID (env_faults env) rid (sv_pg sv))"

section \<open>Rooms\<close>

definition ListRooms_handler :: "env \<Rightarrow> User option \<Rightarrow> server \<Rightarrow> server \<times> Room list response" where
  "ListRooms_handler env user sv = as_admin user sv
     (case ListAllRooms (env_faults env) (sv_pg sv) of
        Inl _ \<Rightarrow> (sv, HttpError 500 ''internal error'')
      | Inr rooms \<Rightarrow>
          (let counts = GetListenerCounts (env_rfaults env) (map room_id rooms) (sv_redis sv) in
           (sv, HttpOK 200 (map (\<lambda>r. r\<lparr>
             room_listeners := (case counts (room_id r) of None \<Rightarrow> 0 | Some n \<Rightarrow> n),
             room_cover_art := stripOversizedCover (room_cover_art r) maxDataURLCoverBytes\<rparr>) rooms))))"

record official_request =
  or_name :: string
  or_description :: string
  or_genre :: string
  or_vibes :: "string list"
  or_cover :: string
  or_gradient :: string
  or_policy :: string
  or_scheduled :: string
  or_expires :: string
  or_featured :: bool

definition parsed :: "(string \<Rightarrow> gotime option) \<Rightarrow> string \<Rightarrow> gotime option" where
  "parsed rfc3339 s = (if s = '''' then None else rfc3339 s)"

definition official_room ::
  "(string \<Rightarrow> gotime option) \<Rightarrow> (gotime \<Rightarrow> string) \<Rightarrow> env \<Rightarrow> Session option \<Rightarrow> official_request \<Rightarrow> string \<Rightarrow> Room" where
  "official_room rfc3339 mmdd env session q keyHash = zero_room\<lparr>
     room_id := env_uuid env 0, room_slug := toSlug (or_name q) @ ''-'' @ mmdd (env_now env),
     room_name := or_name q, room_description := or_description q, room_genre := or_genre q,
     room_vibes := or_vibes q, room_cover_gradient := or_gradient q, room_cover_art := or_cover q,
     room_policy := (if or_policy q = '''' then PolicyOpen else or_policy q),
     room_is_official := True, room_is_featured := or_featured q, room_dj_key_hash := keyHash,
     room_dj_session := (case session of None \<Rightarrow> '''' | Some s \<Rightarrow> session_id s),
     room_created_at := env_now env, room_scheduled := parsed rfc3339 (or_scheduled q),
     room_expires_at := parsed rfc3339 (or_expires q)\<rparr>"

definition CreateOfficialRoom ::
  "outside \<Rightarrow> (string \<Rightarrow> gotime option) \<Rightarrow> (gotime \<Rightarrow> string) \<Rightarrow> env \<Rightarrow> Session option \<Rightarrow> User option
     \<Rightarrow> official_request option \<Rightarrow> server \<Rightarrow> server \<times> (Room \<times> string) response" where
  "CreateOfficialRoom ext rfc3339 mmdd env session user req sv = as_admin user sv
     (case req of
        None \<Rightarrow> (sv, HttpError 400 ''invalid JSON'')
      | Some q \<Rightarrow>
          if or_name q = '''' then (sv, HttpError 400 ''name required'')
          else if \<not> validateCoverArt (or_cover q)
          then (sv, HttpError 400 (''cover image too large '' @ em_dash @ '' please choose a smaller image''))
          else (case GenerateDJKey ext 0 of
              None \<Rightarrow> (sv, HttpError 500 ''key generation failed'')
            | Some (djKey, keyHash) \<Rightarrow>
                (let room = official_room rfc3339 mmdd env session q keyHash in
                 case CreateRoom (env_faults env) room (sv_pg sv) of
                   Inl _ \<Rightarrow> (sv, HttpError 500 ''internal error'')
                 | Inr db \<Rightarrow>
                     (sv\<lparr>sv_pg := (if or_featured q then fst (SetRoomFeatured (env_faults env) (room_id room) True db) else db)\<rparr>,
                      HttpOK 201 (room, djKey)))))"

text \<open>What stops a room, apart from its row.\<close>

definition silence :: "env \<Rightarrow> string \<Rightarrow> string \<Rightarrow> server \<Rightarrow> server" where
  "silence env rid reason sv =
     (let f = env_faults env; g = env_rfaults env in
      broadcastTo env rid (MRoomEnded reason) (CancelAdvance rid
        (sv_redis_do (ClearListeners g rid) (sv_redis_do (ClearPlaybackState g rid)
          (sv_pg_do (ClearNowPlaying f rid) sv)))))"

definition ShutdownRoom :: "env \<Rightarrow> User option \<Rightarrow> string \<Rightarrow> server \<Rightarrow> server \<times> string response" where
  "ShutdownRoom env user rid sv = as_admin user sv
     (case admin_room env rid sv of
        None \<Rightarrow> (sv, HttpError 404 ''room not found'')
      | Some room \<Rightarrow>
          (silence env (room_id room) ''Room was shut down by an administrator''
            (sv_pg_do (EndRoom (env_faults env) (env_now env) (room_id room)) sv), HttpOK 200 ''shutdown''))"

definition DeleteRoom_handler :: "env \<Rightarrow> User option \<Rightarrow> string \<Rightarrow> server \<Rightarrow> server \<times> string response" where
  "DeleteRoom_handler env user rid sv = as_admin user sv
     (case admin_room env rid sv of
        None \<Rightarrow> (sv, HttpError 404 ''room not found'')
      | Some room \<Rightarrow>
          (let sv1 = (if room_is_live room then silence env (room_id room) ''Room was deleted by an administrator'' sv else sv) in
           case DeleteRoom (env_faults env) (room_id room) (sv_pg sv1) of
             Inl _ \<Rightarrow> (sv1, HttpError 500 ''failed to delete room'')
           | Inr db \<Rightarrow> (sv1\<lparr>sv_pg := db\<rparr>, HttpOK 200 ''deleted'')))"

text \<open>A body that does not decode leaves the flag false.\<close>

definition SetFeatured :: "env \<Rightarrow> User option \<Rightarrow> string \<Rightarrow> bool option \<Rightarrow> server \<Rightarrow> server \<times> bool response" where
  "SetFeatured env user rid req sv = as_admin user sv
     (let featured = (req = Some True) in
      case SetRoomFeatured (env_faults env) rid featured (sv_pg sv) of
        (db, Inl _) \<Rightarrow> (sv\<lparr>sv_pg := db\<rparr>, HttpError 500 ''internal error'')
      | (db, Inr _) \<Rightarrow> (sv\<lparr>sv_pg := db\<rparr>, HttpOK 200 featured))"

definition SetOfficial :: "env \<Rightarrow> User option \<Rightarrow> string \<Rightarrow> bool option \<Rightarrow> server \<Rightarrow> server \<times> bool response" where
  "SetOfficial env user rid req sv = as_admin user sv
     (let official = (req = Some True) in
      case SetRoomOfficial (env_faults env) rid official (sv_pg sv) of
        Inl _ \<Rightarrow> (sv, HttpError 500 ''internal error'')
      | Inr db \<Rightarrow> (sv\<lparr>sv_pg := db\<rparr>, HttpOK 200 official))"

section \<open>Settings of a room\<close>

definition update_expiry ::
  "(string \<Rightarrow> gotime option) \<Rightarrow> faults \<Rightarrow> string \<Rightarrow> string option \<Rightarrow> pgdb \<Rightarrow> pgdb" where
  "update_expiry rfc3339 f rid expiresAt db =
     (case expiresAt of
        None \<Rightarrow> db
      | Some s \<Rightarrow>
          if s = '''' then or_zero db (SetRoomExpiry f rid None db)
          else (case rfc3339 s of None \<Rightarrow> db | Some t \<Rightarrow> or_zero db (SetRoomExpiry f rid (Some t) db)))"

definition update_cover :: "faults \<Rightarrow> string \<Rightarrow> string option \<Rightarrow> pgdb \<Rightarrow> (nat \<times> string) + pgdb" where
  "update_cover f rid cover db =
     (case cover of
        None \<Rightarrow> Inr db
      | Some c \<Rightarrow>
          if \<not> validateCoverArt c then Inl (400, ''cover image too large '' @ em_dash @ '' please choose a smaller image'')
          else (case SetRoomCoverArt f rid c db of
              Inl _ \<Rightarrow> Inl (500, ''failed to update cover art'')
            | Inr db' \<Rightarrow> Inr db'))"

definition update_gradient :: "faults \<Rightarrow> string \<Rightarrow> string option \<Rightarrow> pgdb \<Rightarrow> (nat \<times> string) + pgdb" where
  "update_gradient f rid gradient db =
     (case gradient of
        None \<Rightarrow> Inr db
      | Some g \<Rightarrow>
          if validateCSSValue g 300 \<noteq> None then Inl (400, ''invalid cover gradient'')
          else (case SetRoomCoverGradient f rid g db of
              Inl _ \<Rightarrow> Inl (500, ''failed to update cover gradient'')
            | Inr db' \<Rightarrow> Inr db'))"

text \<open>
  The body is the three optional settings, or the text of the decoder's error. A refused setting
  leaves the ones before it applied. The answer is the room, or nothing but a status (\<open>None\<close>).
\<close>

definition UpdateRoom ::
  "(string \<Rightarrow> gotime option) \<Rightarrow> env \<Rightarrow> User option \<Rightarrow> string \<Rightarrow> string + string option \<times> string option \<times> string option
     \<Rightarrow> server \<Rightarrow> server \<times> Room option response" where
  "UpdateRoom rfc3339 env user rid req sv = as_admin user sv
     (case req of
        Inl e \<Rightarrow> (sv, HttpError 400 (''invalid JSON: '' @ e))
      | Inr (expiresAt, cover, gradient) \<Rightarrow>
          (let f = env_faults env; db1 = update_expiry rfc3339 f rid expiresAt (sv_pg sv) in
           case update_cover f rid cover db1 of
             Inl (code, msg) \<Rightarrow> (sv\<lparr>sv_pg := db1\<rparr>, HttpError code msg)
           | Inr db2 \<Rightarrow> (case update_gradient f rid gradient db2 of
                 Inl (code, msg) \<Rightarrow> (sv\<lparr>sv_pg := db2\<rparr>, HttpError code msg)
               | Inr db3 \<Rightarrow> (sv\<lparr>sv_pg := db3\<rparr>, HttpOK 200
                   (map_option (\<lambda>r. r\<lparr>room_cover_art := stripOversizedCover (room_cover_art r) maxDataURLDetailBytes\<rparr>)
                     (or_zero None (GetRoomByID f rid db3)))))))"

text \<open>The featured room: the one chosen, or else the live room with most listeners.\<close>

definition counted :: "env \<Rightarrow> server \<Rightarrow> Room \<Rightarrow> Room" where
  "counted env sv r = r\<lparr>room_listeners := or_zero 0 (GetListenerCount (env_rfaults env) (room_id r) (sv_redis sv))\<rparr>"

definition busier :: "Room \<Rightarrow> Room \<Rightarrow> Room" where
  "busier r best = (if room_listeners r > room_listeners best then r else best)"

definition GetFeatured :: "env \<Rightarrow> server \<Rightarrow> Room option response" where
  "GetFeatured env sv =
     (let f = env_faults env;
          strip = (\<lambda>r. r\<lparr>room_cover_art := stripOversizedCover (room_cover_art r) maxDataURLDetailBytes\<rparr>) in
      HttpOK 200 (case deref_or_zero featured_zero (GetFeaturedRoom f (sv_pg sv)) of
          Some r \<Rightarrow> Some (strip (counted env sv r))
        | None \<Rightarrow> (case map (counted env sv) (or_zero [] (ListRooms f (env_now env) True '''' (sv_pg sv))) of
              [] \<Rightarrow> None
            | r # rs \<Rightarrow> Some (strip (fold busier rs r)))))"

section \<open>Accounts\<close>

record admin_view =
  av_user :: User
  av_signup_ip :: string
  av_signup_agent :: string
  av_verified_at :: "gotime option"
  av_held_at :: "gotime option"
  av_seconds :: "int option"

text \<open>\<open>Sub\<close> saturates at the ends of \<open>int64\<close>; the division rounds towards zero.\<close>

definition time_sub :: "gotime \<Rightarrow> gotime \<Rightarrow> duration" where
  "time_sub a b = max (- (2 ^ 63)) (min (2 ^ 63 - 1) (a - b))"

definition newAdminUserView :: "User \<Rightarrow> admin_view" where
  "newAdminUserView u = \<lparr>av_user = u, av_signup_ip = user_signup_ip u, av_signup_agent = user_signup_agent u,
     av_verified_at = user_verified_at u, av_held_at = user_held_at u,
     av_seconds = map_option (\<lambda>t. go_div (time_sub t (user_created_at u)) second) (user_verified_at u)\<rparr>"

definition newAdminUserViews :: "User list \<Rightarrow> admin_view list" where
  "newAdminUserViews users = map newAdminUserView users"

definition GetUser_handler :: "env \<Rightarrow> User option \<Rightarrow> string \<Rightarrow> server \<Rightarrow> server \<times> admin_view response" where
  "GetUser_handler env user uid sv = as_admin user sv
     (case AdminGetUser (env_faults env) uid (sv_pg sv) of
        Inl _ \<Rightarrow> (sv, HttpError 404 ''user not found'')
      | Inr u \<Rightarrow> (sv, HttpOK 200 (newAdminUserView u)))"

record user_update =
  uu_admin :: "bool option"
  uu_banned :: "bool option"
  uu_verified :: "bool option"
  uu_plus :: "bool option"
  uu_neon :: "int option"
  uu_display_name :: "string option"
  uu_stage_name :: "string option"

definition when_given :: "'a option \<Rightarrow> ('a \<Rightarrow> pgdb \<Rightarrow> pgdb fallible) \<Rightarrow> pgdb \<Rightarrow> pgdb" where
  "when_given v statement db = (case v of None \<Rightarrow> db | Some x \<Rightarrow> or_zero db (statement x db))"

text \<open>One statement per field that is present; every error is dropped.\<close>

definition apply_update :: "env \<Rightarrow> string \<Rightarrow> user_update \<Rightarrow> pgdb \<Rightarrow> pgdb" where
  "apply_update env uid q db =
     (let f = env_faults env; field = (\<lambda>name v. AdminSetField f uid name v);
          db1 = when_given (uu_admin q) (\<lambda>b. field ''is_admin'' (ColBool b)) db;
          db2 = when_given (uu_banned q) (\<lambda>b. field ''is_banned'' (ColBool b)) db1;
          db3 = when_given (uu_verified q) (\<lambda>b. AdminSetEmailVerified f uid b) db2;
          db4 = when_given (uu_plus q) (\<lambda>b. AdminSetPlus f (env_now env) uid b) db3;
          db5 = when_given (uu_neon q) (\<lambda>n. field ''neon_balance'' (ColInt n)) db4;
          db6 = when_given (uu_display_name q) (\<lambda>s. field ''display_name'' (ColText s)) db5
      in when_given (uu_stage_name q) (\<lambda>s. field ''stage_name'' (ColText s)) db6)"

text \<open>The account is dropped from the cache of the middleware.\<close>

definition UpdateUser ::
  "env \<Rightarrow> User option \<Rightarrow> string \<Rightarrow> user_update option \<Rightarrow> server \<times> User cache
     \<Rightarrow> (server \<times> User cache) \<times> admin_view response" where
  "UpdateUser env user uid req st = as_admin user st
     (case st of (sv, c) \<Rightarrow> case req of
        None \<Rightarrow> (st, HttpError 400 ''invalid JSON'')
      | Some q \<Rightarrow>
          (let db = apply_update env uid q (sv_pg sv); st' = (sv\<lparr>sv_pg := db\<rparr>, InvalidateCachedUser uid c) in
           case AdminGetUser (env_faults env) uid db of
             Inl _ \<Rightarrow> (st', HttpError 404 ''user not found'')
           | Inr u \<Rightarrow> (st', HttpOK 200 (newAdminUserView u))))"

definition DeleteUser_handler :: "env \<Rightarrow> User option \<Rightarrow> string \<Rightarrow> server \<Rightarrow> server \<times> string response" where
  "DeleteUser_handler env user uid sv = as_admin user sv
     (case AdminDeleteUser (env_faults env) uid (sv_pg sv) of
        (db, Inl _) \<Rightarrow> (sv\<lparr>sv_pg := db\<rparr>, HttpError 500 ''failed to delete user'')
      | (db, Inr _) \<Rightarrow> (sv\<lparr>sv_pg := db\<rparr>, HttpOK 200 ''deleted''))"

section \<open>24/7 rooms\<close>

text \<open>The body: name, description, genre and gradient.\<close>

definition CreateAutoplayRoom_handler ::
  "env \<Rightarrow> User option \<Rightarrow> (string \<times> string \<times> string \<times> string) option \<Rightarrow> server \<Rightarrow> server \<times> Room response" where
  "CreateAutoplayRoom_handler env user req sv = as_admin user sv
     (case req of
        None \<Rightarrow> (sv, HttpError 400 ''name required'')
      | Some (name, description, genre, gradient) \<Rightarrow>
          if name = '''' then (sv, HttpError 400 ''name required'')
          else (let room = zero_room\<lparr>room_id := env_uuid env 0, room_slug := toSlug name, room_name := name,
                  room_description := description, room_genre := genre, room_cover_gradient := gradient,
                  room_policy := PolicyClosed, room_is_official := True, room_is_autoplay := True,
                  room_created_at := env_now env\<rparr> in
                case CreateAutoplayRoom (env_faults env) room (sv_pg sv) of
                  Inl _ \<Rightarrow> (sv, HttpError 500 ''failed to create room'')
                | Inr db \<Rightarrow> (sv\<lparr>sv_pg := db\<rparr>, HttpOK 201 room)))"

definition GetAutoplayPlaylists_handler ::
  "env \<Rightarrow> User option \<Rightarrow> string \<Rightarrow> server \<Rightarrow> server \<times> AutoplayPlaylist list response" where
  "GetAutoplayPlaylists_handler env user rid sv = as_admin user sv
     (case GetAutoplayPlaylists (env_faults env) rid (sv_pg sv) of
        Inl _ \<Rightarrow> (sv, HttpError 500 ''failed to load playlists'')
      | Inr ps \<Rightarrow> (sv, HttpOK 200 ps))"

definition SaveStagedPlaylist ::
  "env \<Rightarrow> User option \<Rightarrow> string \<Rightarrow> (string \<times> AutoplayTrack list) option \<Rightarrow> server \<Rightarrow> server \<times> AutoplayPlaylist response" where
  "SaveStagedPlaylist env user rid req sv = as_admin user sv
     (case req of
        None \<Rightarrow> (sv, HttpError 400 ''invalid JSON'')
      | Some (name, tracks) \<Rightarrow>
          (let p = \<lparr>ap_id = env_uuid env 0, ap_room = rid, ap_status = ''staged'', ap_name = name, ap_tracks = tracks,
                    ap_index = 0, ap_created_at = env_now env, ap_activated_at = None\<rparr> in
           case SaveAutoplayPlaylist (env_faults env) (env_uuid env 0) p (sv_pg sv) of
             Inl _ \<Rightarrow> (sv, HttpError 500 ''failed to save'')
           | Inr db \<Rightarrow> (sv\<lparr>sv_pg := db\<rparr>, HttpOK 200 p)))"

text \<open>A change of the snippet of the track on air reaches its row and the room.\<close>

definition announce_snippet :: "env \<Rightarrow> string \<Rightarrow> Track \<Rightarrow> string \<Rightarrow> server \<Rightarrow> server" where
  "announce_snippet env rid playing snippet sv =
     (if snippet = track_snippet playing then sv
      else broadcastTo env rid (MTrackInfoUpdate (track_id playing) snippet)
        (sv_pg_do (UpdateTrackInfoSnippet (env_faults env) (track_id playing) snippet) sv))"

fun first_url :: "string \<Rightarrow> AutoplayTrack list \<Rightarrow> int" where
  "first_url url [] = -1"
| "first_url url (t # ts) =
     (if at_url t = url then 0 else let i = first_url url ts in if i < 0 then -1 else i + 1)"

definition autoplayTrackIndexBySourceURL :: "AutoplayTrack list \<Rightarrow> string \<Rightarrow> int" where
  "autoplayTrackIndexBySourceURL tracks sourceURL = (if sourceURL = '''' then -1 else first_url sourceURL tracks)"

fun put_snippets :: "AutoplayTrack list \<Rightarrow> string list \<Rightarrow> AutoplayTrack list" where
  "put_snippets (t # ts) (s # ss) = t\<lparr>at_snippet := s\<rparr> # put_snippets ts ss"
| "put_snippets ts [] = ts"
| "put_snippets [] ss = []"

definition now_on_air :: "env \<Rightarrow> string \<Rightarrow> server \<Rightarrow> Track option" where
  "now_on_air env rid sv = deref_or_zero zero_track (GetNowPlaying (env_faults env) rid (sv_pg sv))"

definition UpdateLiveSnippets ::
  "env \<Rightarrow> User option \<Rightarrow> string \<Rightarrow> string list option \<Rightarrow> server \<Rightarrow> server \<times> AutoplayPlaylist response" where
  "UpdateLiveSnippets env user rid req sv = as_admin user sv
     (case req of
        None \<Rightarrow> (sv, HttpError 400 ''invalid JSON'')
      | Some snippets \<Rightarrow>
          (case or_zero None (GetAutoplayPlaylist (env_faults env) rid ''live'' (sv_pg sv)) of
              None \<Rightarrow> (sv, HttpError 404 ''no live playlist'')
            | Some p0 \<Rightarrow>
                (let p = p0\<lparr>ap_tracks := put_snippets (ap_tracks p0) snippets\<rparr> in
                 case SaveAutoplayPlaylist (env_faults env) (env_uuid env 0) p (sv_pg sv) of
                   Inl _ \<Rightarrow> (sv, HttpError 500 ''failed to save'')
                 | Inr db \<Rightarrow>
                     (let sv1 = sv\<lparr>sv_pg := db\<rparr> in
                      (case now_on_air env rid sv1 of
                         None \<Rightarrow> sv1
                       | Some t \<Rightarrow>
                           (let i = autoplayTrackIndexBySourceURL (ap_tracks p) (track_url t) in
                            if i \<ge> 0 then announce_snippet env rid t (at_snippet (ap_tracks p ! nat i)) sv1 else sv1),
                       HttpOK 200 p)))))"

text \<open>Where the track on air is in the new list, or the old place kept inside the list.\<close>

definition live_index :: "Track option \<Rightarrow> AutoplayTrack list \<Rightarrow> int \<Rightarrow> int" where
  "live_index playing tracks current =
     (let matchIdx = (case playing of None \<Rightarrow> -1 | Some t \<Rightarrow> autoplayTrackIndexBySourceURL tracks (track_url t));
          newIndex = (if matchIdx \<ge> 0 then matchIdx else current);
          clamped = (if newIndex \<ge> int (length tracks) then int (length tracks) - 1 else newIndex) in
      if clamped < -1 then -1 else clamped)"

definition UpdateLiveTracks ::
  "env \<Rightarrow> User option \<Rightarrow> string \<Rightarrow> AutoplayTrack list option \<Rightarrow> server \<Rightarrow> server \<times> AutoplayPlaylist response" where
  "UpdateLiveTracks env user rid req sv = as_admin user sv
     (case req of
        None \<Rightarrow> (sv, HttpError 400 ''invalid JSON'')
      | Some tracks \<Rightarrow>
          if tracks = []
          then (sv, HttpError 400 (''tracks cannot be empty '' @ em_dash @ '' use the stop endpoint to take a room offline''))
          else (case or_zero None (GetAutoplayPlaylist (env_faults env) rid ''live'' (sv_pg sv)) of
              None \<Rightarrow> (sv, HttpError 404 ''no live playlist'')
            | Some p0 \<Rightarrow>
                (let playing = now_on_air env rid sv;
                     p = p0\<lparr>ap_tracks := tracks, ap_index := live_index playing tracks (ap_index p0)\<rparr> in
                 case SaveAutoplayPlaylist (env_faults env) (env_uuid env 0) p (sv_pg sv) of
                   Inl _ \<Rightarrow> (sv, HttpError 500 ''failed to save'')
                 | Inr db \<Rightarrow>
                     (let sv1 = sv\<lparr>sv_pg := db\<rparr> in
                      (case playing of
                         None \<Rightarrow> sv1
                       | Some t \<Rightarrow>
                           (let i = autoplayTrackIndexBySourceURL tracks (track_url t) in
                            if i \<ge> 0 then announce_snippet env rid t (at_snippet (tracks ! nat i)) sv1 else sv1),
                       HttpOK 200 p)))))"

section \<open>On and off air\<close>

definition reset_playback :: "env \<Rightarrow> string \<Rightarrow> server \<Rightarrow> server" where
  "reset_playback env rid sv = sv_pg_do (ClearNowPlaying (env_faults env) rid)
     (sv_redis_do (ClearPlaybackState (env_rfaults env) rid) (CancelAdvance rid sv))"

definition ActivatePlaylist ::
  "(string \<Rightarrow> string) \<Rightarrow> env \<Rightarrow> User option \<Rightarrow> string \<Rightarrow> server \<Rightarrow> server \<times> AutoplayPlaylist response" where
  "ActivatePlaylist digest env user rid sv = as_admin user sv
     (case ActivateStagedPlaylist (env_faults env) (env_now env) rid (sv_pg sv) of
        (db, Inr (Some p)) \<Rightarrow>
          (StartAutoplayRooms digest env (reset_playback env rid
             (sv_pg_do (SetRoomAutoplay (env_faults env) (env_now env) rid True) (sv\<lparr>sv_pg := db\<rparr>))), HttpOK 200 p)
      | (db, _) \<Rightarrow> (sv\<lparr>sv_pg := db\<rparr>, HttpError 400 (''failed to activate '' @ em_dash @ '' is there a staged playlist?'')))"

definition DeleteStagedPlaylist :: "env \<Rightarrow> User option \<Rightarrow> string \<Rightarrow> server \<Rightarrow> server \<times> string response" where
  "DeleteStagedPlaylist env user rid sv = as_admin user sv
     (sv_pg_do (DeleteAutoplayPlaylist (env_faults env) rid ''staged'') sv, HttpOK 200 ''deleted'')"

definition StartAutoplayRoom ::
  "(string \<Rightarrow> string) \<Rightarrow> env \<Rightarrow> User option \<Rightarrow> string \<Rightarrow> server \<Rightarrow> server \<times> string response" where
  "StartAutoplayRoom digest env user rid sv = as_admin user sv
     (case GetAutoplayPlaylist (env_faults env) rid ''live'' (sv_pg sv) of
        Inl _ \<Rightarrow> (sv, HttpError 500 ''internal error'')
      | Inr p \<Rightarrow>
          if (case p of None \<Rightarrow> True | Some p \<Rightarrow> ap_tracks p = [])
          then (sv, HttpError 400 (''no live playlist with tracks '' @ em_dash @ '' build a staged playlist and activate it first''))
          else (case SetRoomAutoplay (env_faults env) (env_now env) rid True (sv_pg sv) of
              Inl _ \<Rightarrow> (sv, HttpError 500 ''internal error'')
            | Inr db \<Rightarrow> (StartAutoplayRooms digest env (sv\<lparr>sv_pg := db\<rparr>), HttpOK 200 ''started'')))"

definition StopAutoplayRoom :: "env \<Rightarrow> User option \<Rightarrow> string \<Rightarrow> server \<Rightarrow> server \<times> string response" where
  "StopAutoplayRoom env user rid sv = as_admin user sv
     (reset_playback env rid (sv_pg_do (SetRoomAutoplay (env_faults env) (env_now env) rid False) sv), HttpOK 200 ''stopped'')"

end
