(* ===== verification/AdminProps.thy ===== *)
theory AdminProps
  imports Admin AuthProps
begin

text \<open>
  Administration as a whole: requests as a datatype with one serving function; nobody but an
  administrator changes anything through it; administrators come from administrators only; a ban
  holds from the next request on; and editing the playlist of a room on air keeps its place.
\<close>

section \<open>Requests\<close>

datatype admin_request =
    QListRooms
  | QCreateOfficial "Session option" "official_request option"
  | QShutdown string
  | QDeleteRoom string
  | QSetFeatured string "bool option"
  | QSetOfficial string "bool option"
  | QUpdateRoom string "string + string option \<times> string option \<times> string option"
  | QGetUser string
  | QUpdateUser string "user_update option"
  | QDeleteUser string
  | QCreateAutoplay "(string \<times> string \<times> string \<times> string) option"
  | QPlaylists string
  | QSaveStaged string "(string \<times> AutoplayTrack list) option"
  | QSnippets string "string list option"
  | QLiveTracks string "AutoplayTrack list option"
  | QActivate string
  | QDeleteStaged string
  | QStart string
  | QStop string

fun status_of :: "'a response \<Rightarrow> nat" where
  "status_of (HttpError code msg) = code"
| "status_of (HttpOK code x) = code"

definition on_server :: "User cache \<Rightarrow> server \<times> 'a response \<Rightarrow> (server \<times> User cache) \<times> nat" where
  "on_server c r = ((fst r, c), status_of (snd r))"

record tools =
  kit_ext :: outside
  kit_rfc3339 :: "string \<Rightarrow> gotime option"
  kit_mmdd :: "gotime \<Rightarrow> string"
  kit_digest :: "string \<Rightarrow> string"

fun serve_admin ::
  "tools \<Rightarrow> env \<Rightarrow> User option \<Rightarrow> admin_request \<Rightarrow> server \<times> User cache \<Rightarrow> (server \<times> User cache) \<times> nat" where
  "serve_admin kit env user QListRooms (sv, c) = on_server c (ListRooms_handler env user sv)"
| "serve_admin kit env user (QCreateOfficial s q) (sv, c) =
     on_server c (CreateOfficialRoom (kit_ext kit) (kit_rfc3339 kit) (kit_mmdd kit) env s user q sv)"
| "serve_admin kit env user (QShutdown rid) (sv, c) = on_server c (ShutdownRoom env user rid sv)"
| "serve_admin kit env user (QDeleteRoom rid) (sv, c) = on_server c (DeleteRoom_handler env user rid sv)"
| "serve_admin kit env user (QSetFeatured rid b) (sv, c) = on_server c (SetFeatured env user rid b sv)"
| "serve_admin kit env user (QSetOfficial rid b) (sv, c) = on_server c (SetOfficial env user rid b sv)"
| "serve_admin kit env user (QUpdateRoom rid q) (sv, c) = on_server c (UpdateRoom (kit_rfc3339 kit) env user rid q sv)"
| "serve_admin kit env user (QGetUser uid) (sv, c) = on_server c (GetUser_handler env user uid sv)"
| "serve_admin kit env user (QUpdateUser uid q) st = map_prod id status_of (UpdateUser env user uid q st)"
| "serve_admin kit env user (QDeleteUser uid) (sv, c) = on_server c (DeleteUser_handler env user uid sv)"
| "serve_admin kit env user (QCreateAutoplay q) (sv, c) = on_server c (CreateAutoplayRoom_handler env user q sv)"
| "serve_admin kit env user (QPlaylists rid) (sv, c) = on_server c (GetAutoplayPlaylists_handler env user rid sv)"
| "serve_admin kit env user (QSaveStaged rid q) (sv, c) = on_server c (SaveStagedPlaylist env user rid q sv)"
| "serve_admin kit env user (QSnippets rid q) (sv, c) = on_server c (UpdateLiveSnippets env user rid q sv)"
| "serve_admin kit env user (QLiveTracks rid q) (sv, c) = on_server c (UpdateLiveTracks env user rid q sv)"
| "serve_admin kit env user (QActivate rid) (sv, c) = on_server c (ActivatePlaylist (kit_digest kit) env user rid sv)"
| "serve_admin kit env user (QDeleteStaged rid) (sv, c) = on_server c (DeleteStagedPlaylist env user rid sv)"
| "serve_admin kit env user (QStart rid) (sv, c) = on_server c (StartAutoplayRoom (kit_digest kit) env user rid sv)"
| "serve_admin kit env user (QStop rid) (sv, c) = on_server c (StopAutoplayRoom env user rid sv)"

lemmas admin_handlers = ListRooms_handler_def CreateOfficialRoom_def ShutdownRoom_def DeleteRoom_handler_def
  SetFeatured_def SetOfficial_def UpdateRoom_def GetUser_handler_def UpdateUser_def DeleteUser_handler_def
  CreateAutoplayRoom_handler_def GetAutoplayPlaylists_handler_def SaveStagedPlaylist_def UpdateLiveSnippets_def
  UpdateLiveTracks_def ActivatePlaylist_def DeleteStagedPlaylist_def StartAutoplayRoom_def StopAutoplayRoom_def

lemma as_admin_denied: "requireAdmin user = Some (code, msg) \<Longrightarrow> as_admin user s body = (s, HttpError code msg)"
  by (simp add: as_admin_def)

lemma as_admin_allowed: "requireAdmin user = None \<Longrightarrow> as_admin user s body = body"
  by (simp add: as_admin_def)

lemma denied:
  assumes "requireAdmin user = Some (code, msg)"
  shows "serve_admin kit env user req st = (st, code)"
  by (cases st; cases req) (simp_all add: admin_handlers as_admin_denied [OF assms] on_server_def)

section \<open>Administrators\<close>

definition admins :: "pgdb \<Rightarrow> string set" where
  "admins db = user_id ` {u \<in> set (db_users db). user_is_admin u}"

definition keeps_users :: "(pgdb \<Rightarrow> pgdb fallible) \<Rightarrow> bool" where
  "keeps_users op \<longleftrightarrow> (\<forall>db db'. op db = Inr db' \<longrightarrow> db_users db' = db_users db)"

lemma keeps_usersD: "keeps_users op \<Longrightarrow> op db = Inr db' \<Longrightarrow> db_users db' = db_users db"
  by (simp add: keeps_users_def)

lemma keeps_users_or_zero: "keeps_users op \<Longrightarrow> db_users (or_zero db (op db)) = db_users db"
  by (cases "op db") (auto dest: keeps_usersD)

lemma users_kept:
  "keeps_users (SetNowPlaying f now rid tid)" "keeps_users (ClearNowPlaying f rid)"
  "keeps_users (SetRoomAutoplay f now rid b)" "keeps_users (EndRoom f now rid)"
  "keeps_users (CreateRoom f room)" "keeps_users (CreateAutoplayRoom f room)"
  "keeps_users (SetRoomOfficial f rid b)" "keeps_users (SetRoomExpiry f rid t)"
  "keeps_users (SetRoomCoverArt f rid s)" "keeps_users (SetRoomCoverGradient f rid s)"
  "keeps_users (SaveAutoplayPlaylist f i p)" "keeps_users (DeleteAutoplayPlaylist f rid s)"
  "keeps_users (UpdateAutoplayIndex f rid k)" "keeps_users (UpdateTrackInfoSnippet f tid s)"
  by (auto simp: keeps_users_def failing_def update_room_def Let_def SetNowPlaying_def ClearNowPlaying_def
      SetRoomAutoplay_def EndRoom_def CreateRoom_def CreateAutoplayRoom_def SetRoomOfficial_def SetRoomExpiry_def
      SetRoomCoverArt_def SetRoomCoverGradient_def SaveAutoplayPlaylist_def DeleteAutoplayPlaylist_def
      UpdateAutoplayIndex_def UpdateTrackInfoSnippet_def split: if_splits)

lemma users_kept_delete: "keeps_users (DeleteRoom f rid)"
  by (auto simp: keeps_users_def DeleteRoom_def delete_rooms_def Let_def split: if_splits)

lemmas users_kept_all = users_kept users_kept_delete
lemmas users_kept_simps [simp] = users_kept_all [THEN keeps_users_or_zero]

lemma SetRoomFeatured_users [simp]: "db_users (fst (SetRoomFeatured f rid b db)) = db_users db"
  by (simp add: SetRoomFeatured_def update_room_def Let_def)

lemma ActivateStaged_users [simp]: "db_users (fst (ActivateStagedPlaylist f now rid db)) = db_users db"
  by (simp add: ActivateStagedPlaylist_def promote_staged_def Let_def)

lemma GetNextAutoplayTrack_users [simp]: "db_users (fst (GetNextAutoplayTrack f rid db)) = db_users db"
  by (simp add: GetNextAutoplayTrack_def Let_def split: sum.split option.split)

lemma UpsertAutoplayTrack_users: "UpsertAutoplayTrack f t db = Inr (db', t') \<Longrightarrow> db_users db' = db_users db"
  by (auto simp: UpsertAutoplayTrack_def Let_def split: if_splits option.splits)

lemma sv_access [simp]:
  "sv_pg (CancelAdvance rid sv) = sv_pg sv" "sv_pg (ScheduleAdvance env rid t s sv) = sv_pg sv"
  "sv_pg (GetOrCreate rid slug sv) = sv_pg sv"
  by (simp_all add: CancelAdvance_def ScheduleAdvance_def GetOrCreate_def Let_def split: option.split)

lemma playing_users [simp]:
  "db_users (sv_pg (start_playing env rid tid sv)) = db_users (sv_pg sv)"
  "db_users (sv_pg (stop_playing env rid sv)) = db_users (sv_pg sv)"
  "db_users (sv_pg (announce_playing env rid t sv)) = db_users (sv_pg sv)"
  "db_users (sv_pg (silence env rid reason sv)) = db_users (sv_pg sv)"
  "db_users (sv_pg (reset_playback env rid sv)) = db_users (sv_pg sv)"
  "db_users (sv_pg (announce_snippet env rid t s sv)) = db_users (sv_pg sv)"
  by (simp_all add: start_playing_def stop_playing_def announce_playing_def silence_def reset_playback_def
      announce_snippet_def Let_def)

lemma advanceAutoplay_users [simp]: "db_users (sv_pg (advanceAutoplay digest env rid sv)) = db_users (sv_pg sv)"
proof -
  obtain db r where drawn: "GetNextAutoplayTrack (env_faults env) rid (sv_pg sv) = (db, r)" by fastforce
  then have "db_users db = db_users (sv_pg sv)" using GetNextAutoplayTrack_users by (metis fst_conv)
  with drawn show ?thesis
    by (auto simp: advanceAutoplay_def Let_def dest: UpsertAutoplayTrack_users split: sum.splits option.splits prod.splits)
qed

lemma StartAutoplayRooms_users [simp]: "db_users (sv_pg (StartAutoplayRooms digest env sv)) = db_users (sv_pg sv)"
proof -
  have one: "db_users (sv_pg (start_autoplay_room digest env room sv)) = db_users (sv_pg sv)" for room sv
    by (simp add: start_autoplay_room_def Let_def split: option.split)
  have "db_users (sv_pg (fold (start_autoplay_room digest env) rooms sv)) = db_users (sv_pg sv)" for rooms
    by (induction rooms arbitrary: sv) (simp_all add: one)
  then show ?thesis by (simp add: StartAutoplayRooms_def split: sum.split)
qed

text \<open>All handlers but the two on accounts leave the accounts alone.\<close>

lemma as_admin_users:
  "db_users (sv_pg (fst body)) = db_users (sv_pg sv) \<Longrightarrow> db_users (sv_pg (fst (as_admin user sv body))) = db_users (sv_pg sv)"
  by (simp add: as_admin_def split: option.split prod.split)

lemma room_handlers_users:
  "db_users (sv_pg (fst (ListRooms_handler env user sv))) = db_users (sv_pg sv)"
  "db_users (sv_pg (fst (ShutdownRoom env user rid sv))) = db_users (sv_pg sv)"
  "db_users (sv_pg (fst (SetOfficial env user rid b sv))) = db_users (sv_pg sv)"
  "db_users (sv_pg (fst (GetUser_handler env user uid sv))) = db_users (sv_pg sv)"
  "db_users (sv_pg (fst (CreateAutoplayRoom_handler env user q sv))) = db_users (sv_pg sv)"
  "db_users (sv_pg (fst (GetAutoplayPlaylists_handler env user rid sv))) = db_users (sv_pg sv)"
  "db_users (sv_pg (fst (SaveStagedPlaylist env user rid tq sv))) = db_users (sv_pg sv)"
  "db_users (sv_pg (fst (DeleteStagedPlaylist env user rid sv))) = db_users (sv_pg sv)"
  "db_users (sv_pg (fst (StartAutoplayRoom digest env user rid sv))) = db_users (sv_pg sv)"
  "db_users (sv_pg (fst (StopAutoplayRoom env user rid sv))) = db_users (sv_pg sv)"
  unfolding admin_handlers
  by (rule as_admin_users, simp add: Let_def users_kept_all [THEN keeps_usersD] split: sum.split option.split prod.split)+

lemma more_handlers_users:
  "db_users (sv_pg (fst (CreateOfficialRoom ext rfc mmdd env session user oq sv))) = db_users (sv_pg sv)"
  "db_users (sv_pg (fst (DeleteRoom_handler env user rid sv))) = db_users (sv_pg sv)"
  "db_users (sv_pg (fst (UpdateLiveSnippets env user rid ss sv))) = db_users (sv_pg sv)"
  "db_users (sv_pg (fst (UpdateLiveTracks env user rid ts sv))) = db_users (sv_pg sv)"
  unfolding admin_handlers
  by (rule as_admin_users, simp add: Let_def users_kept_all [THEN keeps_usersD] split: sum.split option.split prod.split)+

lemma SetFeatured_users: "db_users (sv_pg (fst (SetFeatured env user rid b sv))) = db_users (sv_pg sv)"
proof -
  obtain db r where set: "SetRoomFeatured (env_faults env) rid (b = Some True) (sv_pg sv) = (db, r)" by fastforce
  then have "db_users db = db_users (sv_pg sv)" using SetRoomFeatured_users by (metis fst_conv)
  then show ?thesis unfolding SetFeatured_def by (intro as_admin_users) (simp add: Let_def set split: sum.split)
qed

lemma ActivatePlaylist_users: "db_users (sv_pg (fst (ActivatePlaylist digest env user rid sv))) = db_users (sv_pg sv)"
proof -
  obtain db r where act: "ActivateStagedPlaylist (env_faults env) (env_now env) rid (sv_pg sv) = (db, r)" by fastforce
  then have "db_users db = db_users (sv_pg sv)" using ActivateStaged_users by (metis fst_conv)
  then show ?thesis unfolding ActivatePlaylist_def
    by (intro as_admin_users) (simp add: act split: sum.split option.split)
qed

lemma UpdateRoom_users: "db_users (sv_pg (fst (UpdateRoom rfc env user rid q sv))) = db_users (sv_pg sv)"
proof -
  have expiry: "db_users (update_expiry rfc f rid e db) = db_users db" for f e db
    by (simp add: update_expiry_def split: option.split)
  have cover: "update_cover f rid c db = Inr db' \<Longrightarrow> db_users db' = db_users db" for f c db db'
    by (auto simp: update_cover_def users_kept_all [THEN keeps_usersD] split: option.splits if_splits sum.splits)
  have gradient: "update_gradient f rid g db = Inr db' \<Longrightarrow> db_users db' = db_users db" for f g db db'
    by (auto simp: update_gradient_def users_kept_all [THEN keeps_usersD] split: option.splits if_splits sum.splits)
  show ?thesis unfolding UpdateRoom_def
    by (intro as_admin_users) (simp add: Let_def expiry cover gradient split: sum.split prod.split)
qed

definition admins_within :: "string set \<Rightarrow> (pgdb \<Rightarrow> pgdb fallible) \<Rightarrow> bool" where
  "admins_within S op \<longleftrightarrow> (\<forall>db db'. op db = Inr db' \<longrightarrow> admins db' \<subseteq> admins db \<union> S)"

lemma update_user_admins:
  assumes "\<And>u. user_id (g u) = user_id u" and "\<And>u. user_is_admin (g u) \<Longrightarrow> user_is_admin u \<or> uid \<in> S"
  shows "admins (update_user uid g db) \<subseteq> admins db \<union> S"
  using assms by (auto simp: admins_def update_user_def update_where_def split: if_splits)

lemma set_column_user:
  assumes "set_column field v = Some g"
  shows "user_id (g u) = user_id u" and "user_is_admin (g u) = (if field = ''is_admin'' then v = ColBool True else user_is_admin u)"
  using assms by (auto simp: set_column_def split: column_value.splits if_splits)

lemma AdminSetField_admins:
  "admins_within (if field = ''is_admin'' \<and> v = ColBool True then {uid} else {}) (AdminSetField f uid field v)"
  unfolding admins_within_def
proof (intro allI impI)
  fix db db'
  assume "AdminSetField f uid field v db = Inr db'"
  then obtain g where g: "set_column field v = Some g" "db' = update_user uid g db"
    by (auto simp: AdminSetField_def split: option.splits if_splits column_value.splits)
  show "admins db' \<subseteq> admins db \<union> (if field = ''is_admin'' \<and> v = ColBool True then {uid} else {})"
    unfolding g(2) by (rule update_user_admins) (auto simp: set_column_user [OF g(1)] split: if_splits)
qed

lemma other_account_admins:
  "admins_within {} (AdminSetEmailVerified f uid b)" "admins_within {} (AdminSetPlus f now uid b)"
  by (auto simp: admins_within_def AdminSetEmailVerified_def AdminSetPlus_def failing_def admins_def update_user_def
      update_where_def split: if_splits)

lemma when_given_admins:
  assumes "\<And>x. v = Some x \<Longrightarrow> admins_within S (statement x)" and "admins db \<subseteq> T" and "S \<subseteq> T"
  shows "admins (when_given v statement db) \<subseteq> T"
proof (cases v)
  case (Some x)
  show ?thesis
  proof (cases "statement x db")
    case (Inr db')
    then have "admins db' \<subseteq> admins db \<union> S" using assms(1) [OF Some] by (simp add: admins_within_def)
    then show ?thesis using Some Inr assms(2,3) by (auto simp: when_given_def)
  qed (use Some assms(2) in \<open>simp add: when_given_def\<close>)
qed (use assms(2) in \<open>simp add: when_given_def\<close>)

lemma apply_update_admins:
  "admins (apply_update env uid q db) \<subseteq> admins db \<union> (if uu_admin q = Some True then {uid} else {})"
proof -
  let ?S = "if uu_admin q = Some True then {uid} else {}"
  have field: "admins_within {} (AdminSetField f uid name v)" if "name \<noteq> ''is_admin''" for f name v
    using AdminSetField_admins [of name v uid f] that by simp
  have first: "admins_within ?S (AdminSetField f uid ''is_admin'' (ColBool b))" if "uu_admin q = Some b" for f b
    using AdminSetField_admins [of "''is_admin''" "ColBool b" uid f] that by simp
  show ?thesis unfolding apply_update_def Let_def
    by (rule when_given_admins | rule field other_account_admins first | simp)+
qed

lemma DeleteUser_admins: "DeleteUser f uid db = Inr db' \<Longrightarrow> admins db' \<subseteq> admins db"
  by (auto simp: DeleteUser_def admins_def delete_where_def split: if_splits)

lemma AdminDeleteUser_admins: "admins (fst (AdminDeleteUser f uid db)) \<subseteq> admins db"
proof -
  have "\<exists>db6. db_users db6 = db_users db \<and> AdminDeleteUser f uid db
      = (case DeleteUser f uid db6 of Inl e \<Rightarrow> (db6, Inl e) | Inr db7 \<Rightarrow> (db7, Inr ()))"
    unfolding AdminDeleteUser_def Let_def by (intro exI conjI, rule_tac [2] refl) simp
  then obtain db6 where "db_users db6 = db_users db" "AdminDeleteUser f uid db
      = (case DeleteUser f uid db6 of Inl e \<Rightarrow> (db6, Inl e) | Inr db7 \<Rightarrow> (db7, Inr ()))" by blast
  moreover from this have "admins db6 = admins db" by (simp add: admins_def)
  moreover have "DeleteUser f uid db6 = Inr db7 \<Longrightarrow> admins db7 \<subseteq> admins db6" for db7 by (rule DeleteUser_admins)
  ultimately show ?thesis by (cases "DeleteUser f uid db6") simp_all
qed

definition granted :: "User option \<Rightarrow> admin_request \<Rightarrow> (string \<times> string) set" where
  "granted user req = (case (user, req) of
       (Some u, QUpdateUser uid (Some q)) \<Rightarrow>
         if user_is_admin u \<and> uu_admin q = Some True then {(user_id u, uid)} else {}
     | _ \<Rightarrow> {})"

lemma UpdateUser_admins:
  "admins (sv_pg (fst (fst (UpdateUser env user uid req (sv, c)))))
     \<subseteq> admins (sv_pg sv) \<union> snd ` granted user (QUpdateUser uid req)"
  using apply_update_admins [of env uid "the req" "sv_pg sv"]
  by (cases user; cases req)
    (auto simp: UpdateUser_def as_admin_def requireAdmin_def granted_def Let_def split: sum.splits)

lemma DeleteUser_handler_admins: "admins (sv_pg (fst (DeleteUser_handler env user uid sv))) \<subseteq> admins (sv_pg sv)"
proof -
  obtain db r where del: "AdminDeleteUser (env_faults env) uid (sv_pg sv) = (db, r)" by fastforce
  then have "admins db \<subseteq> admins (sv_pg sv)" using AdminDeleteUser_admins by (metis fst_conv)
  then show ?thesis by (auto simp: DeleteUser_handler_def as_admin_def del split: option.splits prod.splits sum.splits)
qed

lemma serve_admin_admins:
  "admins (sv_pg (fst (fst (serve_admin kit env user req (sv, c))))) \<subseteq> admins (sv_pg sv) \<union> snd ` granted user req"
proof -
  have same: "db_users (sv_pg sv') = db_users (sv_pg sv) \<Longrightarrow> admins (sv_pg sv') \<subseteq> admins (sv_pg sv) \<union> S" for sv' S
    by (simp add: admins_def)
  show ?thesis
  proof (cases req)
    case (QUpdateUser uid q)
    then show ?thesis using UpdateUser_admins [of env user uid q sv c] by simp
  next
    case (QDeleteUser uid)
    then show ?thesis using DeleteUser_handler_admins [of env user uid sv] by (auto simp: on_server_def)
  qed (simp_all add: on_server_def same room_handlers_users more_handlers_users SetFeatured_users
      ActivatePlaylist_users UpdateRoom_users)
qed

lemma account_write_admins: "account_write ext db db' \<Longrightarrow> admins db' \<subseteq> admins db"
proof (induction rule: account_write.induct)
  case (delete_user f uid db db')
  then show ?case by (rule DeleteUser_admins)
qed (auto simp: admins_def statement_defs CreateUser_def UpdateUserProfile_def CleanupExpiredTokens_def failing_def Let_def update_user_def update_where_def split: if_splits)

lemma serve_admins: "admins (sv_pg (serve ext cf env call sv)) \<subseteq> admins (sv_pg sv)"
  using serve_writes [of ext sv cf env call] by (induction rule: rtranclp_induct) (auto dest: account_write_admins)

section \<open>Where administrators come from\<close>

definition cached_admins :: "User cache \<Rightarrow> string set" where
  "cached_admins c = {user_id u |u k e. entries c k = Some (u, e) \<and> user_is_admin u}"

lemma cache_load_hit: "cache_load now k c = (c', Some u) \<Longrightarrow> \<exists>e. entries c k = Some (u, e)"
  by (auto simp: cache_load_def split: option.splits prod.splits if_splits)

lemma cached_admins_load: "cached_admins (fst (cache_load now k c)) \<subseteq> cached_admins c"
  by (fastforce simp: cached_admins_def cache_load_def split: option.splits prod.splits if_splits)

lemma cached_admins_drop: "cached_admins (cache_drop k c) \<subseteq> cached_admins c"
  by (fastforce simp: cached_admins_def cache_drop_def split: if_splits)

lemma cached_admins_gc: "cached_admins (cache_gc now c) \<subseteq> cached_admins c"
  by (fastforce simp: cached_admins_def cache_gc_def unexpired_def split: option.splits prod.splits if_splits)

lemma cached_admins_store:
  "cached_admins (cache_store ttl now k u c) \<subseteq> cached_admins c \<union> (if user_is_admin u then {user_id u} else {})"
proof -
  have "cached_admins (c\<lparr>entries := (entries c)(k \<mapsto> (u, e))\<rparr>)
      \<subseteq> cached_admins c \<union> (if user_is_admin u then {user_id u} else {})" for e
    by (fastforce simp: cached_admins_def split: if_splits)
  then show ?thesis unfolding cache_store_def using cached_admins_gc by blast
qed

lemma read_admin: "GetUserByID f now uid db = Inr (Some u) \<Longrightarrow> user_is_admin u \<Longrightarrow> user_id u \<in> admins db"
  using find_row_Some [of "\<lambda>u. user_id u = uid" "db_users db"]
  by (fastforce simp: GetUserByID_def failing_def read_user_def admins_def split: if_splits)

lemma AuthMiddleware_admins:
  assumes "AuthMiddleware f now bearer c db = (c', user)"
  shows "cached_admins c' \<subseteq> cached_admins c \<union> admins db"
    and "user = Some u \<Longrightarrow> user_is_admin u \<Longrightarrow> user_id u \<in> cached_admins c \<union> admins db"
proof -
  have "cached_admins c' \<subseteq> cached_admins c \<union> admins db
      \<and> (\<forall>u. user = Some u \<longrightarrow> user_is_admin u \<longrightarrow> user_id u \<in> cached_admins c \<union> admins db)"
  proof (cases bearer)
    case None
    with assms show ?thesis by (simp add: AuthMiddleware_def)
  next
    case (Some uid)
    obtain c1 hit where load: "cache_load now uid c = (c1, hit)" by fastforce
    then have c1: "cached_admins c1 \<subseteq> cached_admins c" using cached_admins_load by (metis fst_conv)
    show ?thesis
    proof (cases hit)
      case hit: (Some v)
      obtain e where "entries c uid = Some (v, e)" using cache_load_hit [of now uid c c1 v] load hit by auto
      then have "user_is_admin v \<Longrightarrow> user_id v \<in> cached_admins c" by (auto simp: cached_admins_def)
      then show ?thesis using assms c1 by (auto simp: AuthMiddleware_def Some getCachedUser_def load hit split: if_splits)
    next
      case miss: None
      show ?thesis
      proof (cases "GetUserByID f now uid db")
        case (Inl e)
        then show ?thesis using assms c1
          by (auto simp: AuthMiddleware_def Some getCachedUser_def load miss zero_user_def split: if_splits)
      next
        case (Inr r)
        show ?thesis
        proof (cases r)
          case None
          then show ?thesis using assms c1 Inr by (auto simp: AuthMiddleware_def Some getCachedUser_def load miss)
        next
          case row: (Some v)
          have read: "GetUserByID f now uid db = Inr (Some v)" using Inr row by simp
          have "cached_admins (cache_store userCacheTTL now uid v c1) \<subseteq> cached_admins c \<union> admins db"
            using cached_admins_store [of userCacheTTL now uid v c1] c1 read_admin [OF read] by (auto split: if_splits)
          moreover have "c' = cache_store userCacheTTL now uid v c1" "user = (if user_is_banned v then None else Some v)"
            using assms by (simp_all add: AuthMiddleware_def Some getCachedUser_def putCachedUser_def load miss read)
          ultimately show ?thesis using read_admin [OF read] by (auto split: if_splits)
        qed
      qed
    qed
  qed
  then show "cached_admins c' \<subseteq> cached_admins c \<union> admins db"
    and "user = Some u \<Longrightarrow> user_is_admin u \<Longrightarrow> user_id u \<in> cached_admins c \<union> admins db" by blast+
qed

text \<open>
  Traffic: account requests, requests of administration as the user that the middleware makes of a
  token, other requests that go through the middleware, and accounts dropped from its cache. \<open>G\<close>
  collects who gave the status to whom.
\<close>

inductive site_run :: "server \<Rightarrow> (string \<times> string) set \<Rightarrow> server \<Rightarrow> User cache \<Rightarrow> bool" for sv0 where
  start: "site_run sv0 {} sv0 empty_cache"
| account: "site_run sv0 G sv c \<Longrightarrow> site_run sv0 G (serve ext cf env call sv) c"
| dropped: "site_run sv0 G sv c \<Longrightarrow> site_run sv0 G sv (InvalidateCachedUser uid c)"
| other: "site_run sv0 G sv c \<Longrightarrow> AuthMiddleware f now bearer c (sv_pg sv) = (c', user) \<Longrightarrow> site_run sv0 G sv c'"
| admin: "site_run sv0 G sv c \<Longrightarrow> AuthMiddleware f now bearer c (sv_pg sv) = (c1, user)
    \<Longrightarrow> serve_admin kit env user req (sv, c1) = ((sv', c'), status)
    \<Longrightarrow> site_run sv0 (G \<union> granted user req) sv' c'"

text \<open>Those to whom a chain of grants leads from an administrator of the start.\<close>

definition entitled :: "server \<Rightarrow> (string \<times> string) set \<Rightarrow> string set" where
  "entitled sv0 G = G\<^sup>* `` admins (sv_pg sv0)"

lemma entitled_mono: "G \<subseteq> H \<Longrightarrow> entitled sv0 G \<subseteq> entitled sv0 H"
  unfolding entitled_def by (meson Image_mono order_refl rtrancl_mono)

lemma entitled_step: "a \<in> entitled sv0 G \<Longrightarrow> (a, b) \<in> G \<Longrightarrow> b \<in> entitled sv0 G"
  unfolding entitled_def by (auto intro: rtrancl_into_rtrancl)

lemma serve_admin_cache: "cached_admins (snd (fst (serve_admin kit env user req (sv, c)))) \<subseteq> cached_admins c"
proof (cases req)
  case (QUpdateUser uid q)
  then show ?thesis using cached_admins_drop [of uid c]
    by (cases q) (auto simp: UpdateUser_def as_admin_def InvalidateCachedUser_def Let_def split: option.splits prod.splits sum.splits)
qed (simp_all add: on_server_def)

lemma granted_by_admin: "(a, b) \<in> granted user req \<Longrightarrow> \<exists>u. user = Some u \<and> user_is_admin u \<and> user_id u = a"
  by (auto simp: granted_def split: option.splits admin_request.splits if_splits)

lemma site_run_entitled: "site_run sv0 G sv c \<Longrightarrow> admins (sv_pg sv) \<union> cached_admins c \<subseteq> entitled sv0 G"
proof (induction rule: site_run.induct)
  case start
  then show ?case by (auto simp: entitled_def cached_admins_def empty_cache_def)
next
  case (account G sv c ext cf env call)
  then show ?case using serve_admins [of ext cf env call sv] by blast
next
  case (dropped G sv c uid)
  then show ?case using cached_admins_drop [of uid c] by (auto simp: InvalidateCachedUser_def)
next
  case (other G sv c f now bearer c' user)
  then show ?case using AuthMiddleware_admins(1) [OF other(2)] by blast
next
  case (admin G sv c f now bearer c1 user kit env req sv' c' status)
  let ?G = "G \<union> granted user req"
  have old: "entitled sv0 G \<subseteq> entitled sv0 ?G" by (rule entitled_mono) simp
  have "snd ` granted user req \<subseteq> entitled sv0 ?G"
  proof
    fix b assume "b \<in> snd ` granted user req"
    then obtain a where ab: "(a, b) \<in> granted user req" by auto
    then obtain u where "user = Some u" "user_is_admin u" "user_id u = a" using granted_by_admin by blast
    then have "a \<in> entitled sv0 G" using AuthMiddleware_admins(2) [OF admin(2)] admin.IH by blast
    then show "b \<in> entitled sv0 ?G" using ab old by (blast intro: entitled_step)
  qed
  moreover have "admins (sv_pg sv') \<subseteq> admins (sv_pg sv) \<union> snd ` granted user req" "cached_admins c' \<subseteq> cached_admins c1"
    using serve_admin_admins [of kit env user req sv c1] serve_admin_cache [of kit env user req sv c1]
    by (simp_all add: admin(3))
  moreover have "admins (sv_pg sv) \<subseteq> entitled sv0 ?G" "cached_admins c1 \<subseteq> entitled sv0 ?G"
    using admin.IH old AuthMiddleware_admins(1) [OF admin(2)] by (auto dest: subsetD)
  ultimately show ?case by (meson Un_least order_trans)
qed

text \<open>
  C29: Only administrators administer, and only they make administrators. In every run of requests
  (account requests of anybody, requests of administration made with whatever token, stores failing
  or not) an account has the status only if a chain of grants leads to it from an account that had
  it at the start; and a request of administration as anybody else, also with an account that the
  middleware still has in its cache, is answered with 401 or 403 and changes nothing.
\<close>

theorem administration_needs_administrators:
  assumes "site_run sv0 G sv c" and "AuthMiddleware f now bearer c (sv_pg sv) = (c1, user)"
  shows "admins (sv_pg sv) \<subseteq> G\<^sup>* `` admins (sv_pg sv0)
    \<and> ((\<forall>u. user = Some u \<longrightarrow> user_id u \<notin> G\<^sup>* `` admins (sv_pg sv0)) \<longrightarrow>
        serve_admin kit env user req (sv, c1) = ((sv, c1), if user = None then 401 else 403))"
proof (intro conjI impI)
  have all: "admins (sv_pg sv) \<union> cached_admins c \<subseteq> G\<^sup>* `` admins (sv_pg sv0)"
    using site_run_entitled [OF assms(1)] by (simp add: entitled_def)
  then show "admins (sv_pg sv) \<subseteq> G\<^sup>* `` admins (sv_pg sv0)" by blast
  assume "\<forall>u. user = Some u \<longrightarrow> user_id u \<notin> G\<^sup>* `` admins (sv_pg sv0)"
  then have "\<not> user_is_admin u" if "user = Some u" for u
    using AuthMiddleware_admins(2) [OF assms(2) that] all that by blast
  then have "\<exists>msg. requireAdmin user = Some (if user = None then 401 else 403, msg)"
    by (cases user) (auto simp: requireAdmin_def)
  then obtain msg where "requireAdmin user = Some (if user = None then 401 else 403, msg)" by blast
  from denied [OF this] show "serve_admin kit env user req (sv, c1) = ((sv, c1), if user = None then 401 else 403)" .
qed

section \<open>Bans\<close>

text \<open>
  A ban holds from the next request on. When the answer to a change of an account shows it as
  banned, the middleware makes nobody of that account's token in the next request, whatever was
  cached before (or the empty user, when the read fails).
\<close>

theorem ban_takes_effect:
  assumes "UpdateUser env user uid req (sv, c) = ((sv', c'), HttpOK st v)" and "user_is_banned (av_user v)"
  shows "snd (AuthMiddleware f now (Some uid) c' (sv_pg sv')) = (if f CGetUser then Some zero_user else None)"
proof -
  have c': "c' = InvalidateCachedUser uid c" and row: "\<exists>u. AdminGetUser (env_faults env) uid (sv_pg sv') = Inr u \<and> v = newAdminUserView u"
    using assms(1) by (auto simp: UpdateUser_def as_admin_def Let_def split: option.splits sum.splits)
  have load: "cache_load now uid c' = (c', None)" by (simp add: c' InvalidateCachedUser_def cache_drop_def cache_load_def)
  from row obtain u where u: "find_row (\<lambda>u. user_id u = uid) (db_users (sv_pg sv')) = Some u" "user_is_banned u"
    using assms(2) by (auto simp: AdminGetUser_def newAdminUserView_def split: if_splits option.splits)
  have "user_is_banned (read_user now u)" using u(2) by (simp add: read_user_def)
  moreover have "\<not> user_is_banned zero_user" by (simp add: zero_user_def)
  ultimately show ?thesis
    by (simp add: AuthMiddleware_def getCachedUser_def load GetUserByID_def failing_def u(1) Let_def)
qed

section \<open>Editing a playlist on air\<close>

lemma first_url_found:
  assumes "first_url url ts = int i"
  shows "i < length ts \<and> at_url (ts ! i) = url \<and> (\<forall>j < i. at_url (ts ! j) \<noteq> url)"
  using assms
proof (induction ts arbitrary: i)
  case (Cons t ts)
  show ?case
  proof (cases "at_url t = url")
    case False
    then have "first_url url ts = int (i - 1)" "0 < i"
      using Cons.prems by (auto simp: Let_def split: if_splits)
    with Cons.IH [of "i - 1"] False show ?thesis by (auto simp: nth_Cons split: nat.splits)
  qed (use Cons.prems in simp)
qed simp

lemma first_url_range: "- 1 \<le> first_url url ts \<and> first_url url ts < int (length ts)"
  by (induction ts) (auto simp: Let_def)

lemma first_url_exists: "t \<in> set ts \<Longrightarrow> at_url t = url \<Longrightarrow> 0 \<le> first_url url ts"
  by (induction ts) (auto simp: Let_def)

lemma live_index_range: "ts \<noteq> [] \<Longrightarrow> - 1 \<le> live_index t ts i \<and> live_index t ts i < int (length ts)"
  using first_url_range by (auto simp: live_index_def autoplayTrackIndexBySourceURL_def Let_def neq_Nil_conv split: option.splits)

lemma announce_snippet_autoplay [simp]: "db_autoplay (sv_pg (announce_snippet env rid t s sv)) = db_autoplay (sv_pg sv)"
  by (simp add: announce_snippet_def UpdateTrackInfoSnippet_def failing_def or_zero_def)

lemma UpdateLiveTracks_run:
  assumes "UpdateLiveTracks env user rid (Some ts) sv = (sv', HttpOK st p)"
  shows "\<exists>p0. find_row (is_playlist rid ''live'') (db_autoplay (sv_pg sv)) = Some p0 \<and> ts \<noteq> []
    \<and> (\<exists>db. SaveAutoplayPlaylist (env_faults env) (env_uuid env 0)
          (p0\<lparr>ap_tracks := ts, ap_index := live_index (now_on_air env rid sv) ts (ap_index p0)\<rparr>) (sv_pg sv) = Inr db
        \<and> db_autoplay (sv_pg sv') = db_autoplay db)
    \<and> sv_redis sv' = sv_redis sv \<and> sv_timers sv' = sv_timers sv \<and> sv_go sv' = sv_go sv
    \<and> db_now (sv_pg sv') = db_now (sv_pg sv)"
proof -
  have kept: "SaveAutoplayPlaylist f i q db = Inr db' \<Longrightarrow> db_now db' = db_now db" for f i q db db'
    by (auto simp: SaveAutoplayPlaylist_def Let_def split: if_splits)
  have aired: "db_now (sv_pg (announce_snippet env rid t s sv)) = db_now (sv_pg sv)" for t s sv
    by (simp add: announce_snippet_def UpdateTrackInfoSnippet_def failing_def or_zero_def)
  have quiet: "sv_redis (announce_snippet env rid t s sv) = sv_redis sv" "sv_timers (announce_snippet env rid t s sv) = sv_timers sv"
      "sv_go (announce_snippet env rid t s sv) = sv_go sv" for t s sv
    by (simp_all add: announce_snippet_def)
  show ?thesis using assms
    by (auto simp: UpdateLiveTracks_def as_admin_def GetAutoplayPlaylist_def failing_def or_zero_def Let_def quiet aired kept
        split: option.splits if_splits sum.splits)
qed

lemma save_live:
  assumes "find_row (is_playlist rid ''live'') ps = Some p0" and "db_autoplay db = ps"
    and "SaveAutoplayPlaylist f i (p0\<lparr>ap_tracks := ts, ap_index := k\<rparr>) db = Inr db'"
  shows "find_row (is_playlist rid ''live'') (db_autoplay db')
    = Some (p0\<lparr>ap_tracks := ts, ap_index := k\<rparr>)"
proof -
  let ?g = "\<lambda>q::AutoplayPlaylist. q\<lparr>ap_name := ap_name p0, ap_tracks := ts, ap_index := k, ap_activated_at := ap_activated_at p0\<rparr>"
  have p0: "p0 \<in> set ps" "ap_room p0 = rid" "ap_status p0 = ''live''"
    using find_row_Some [OF assms(1)] by (simp_all add: is_playlist_def)
  then have "\<exists>q \<in> set (db_autoplay db). is_playlist rid ''live'' q" using assms(2) by (auto simp: is_playlist_def)
  then have "db_autoplay db' = update_where (is_playlist rid ''live'') ?g ps"
    using assms(2,3) p0 by (auto simp: SaveAutoplayPlaylist_def Let_def split: if_splits)
  moreover have "find_row (is_playlist rid ''live'') (update_where (is_playlist rid ''live'') ?g ps) = Some (?g p0)"
    using assms(1) p0 by (subst find_row_update_where) (auto simp: is_playlist_def)
  ultimately show ?thesis by simp
qed

lemma live_edit_advances:
  assumes "UpdateLiveTracks env user rid (Some ts) sv = (sv', HttpOK st p)" and "int (length ts) < 2 ^ 31"
  shows "\<exists>p0. find_row (is_playlist rid ''live'') (db_autoplay (sv_pg sv)) = Some p0 \<and> ts \<noteq> []
    \<and> (\<forall>k n. live_index (now_on_air env rid sv) ts (ap_index p0) = int k \<longrightarrow>
        advances n rid (sv_pg sv') = map (\<lambda>j. ts ! ((Suc k + j) mod length ts)) [0..<n])"
proof -
  let ?i = "\<lambda>p0. live_index (now_on_air env rid sv) ts (ap_index p0)"
  obtain p0 db where p0: "find_row (is_playlist rid ''live'') (db_autoplay (sv_pg sv)) = Some p0" "ts \<noteq> []"
    and db: "SaveAutoplayPlaylist (env_faults env) (env_uuid env 0) (p0\<lparr>ap_tracks := ts, ap_index := ?i p0\<rparr>) (sv_pg sv) = Inr db"
      "db_autoplay (sv_pg sv') = db_autoplay db"
    using UpdateLiveTracks_run [OF assms(1)] by blast
  have live: "find_row (is_playlist rid ''live'') (db_autoplay (sv_pg sv')) = Some (p0\<lparr>ap_tracks := ts, ap_index := ?i p0\<rparr>)"
    unfolding db(2) by (rule save_live [OF p0(1) refl db(1)])
  have "advances n rid (sv_pg sv') = map (\<lambda>j. ts ! ((Suc k + j) mod length ts)) [0..<n]" if "?i p0 = int k" for k n
  proof (rule advances_from [OF live])
    show "computeNextPlayIndex (ap_index (p0\<lparr>ap_tracks := ts, ap_index := ?i p0\<rparr>)) (int (length ts)) = int (Suc k) mod int (length ts)"
      using p0(2) by (simp add: that next_index_step add.commute)
  qed (use p0(2) assms(2) in simp_all)
  with p0 show ?thesis by blast
qed

text \<open>
  An edit of the playlist of a 24/7 room on air keeps the room's place. The track that plays is
  not interrupted (playback state, timers and now-playing row stay); if it is in the new list,
  the advances that follow play the tracks after its first occurrence, round and round; if it was removed,
  they go on from the old place, from the end of the list if it is now shorter.
\<close>

theorem live_edit_keeps_place:
  assumes "UpdateLiveTracks env user rid (Some ts) sv = (sv', HttpOK st p)" and "int (length ts) < 2 ^ 31"
    and "GetNowPlaying (env_faults env) rid (sv_pg sv) = Inr (Some t)" and "track_url t \<noteq> ''''"
  shows "sv_redis sv' = sv_redis sv \<and> sv_timers sv' = sv_timers sv \<and> sv_go sv' = sv_go sv
    \<and> db_now (sv_pg sv') = db_now (sv_pg sv)
    \<and> (\<forall>k n. k < length ts \<and> at_url (ts ! k) = track_url t \<and> (\<forall>j < k. at_url (ts ! j) \<noteq> track_url t) \<longrightarrow>
        advances n rid (sv_pg sv') = map (\<lambda>j. ts ! ((Suc k + j) mod length ts)) [0..<n])
    \<and> (\<forall>p0 n. (\<forall>a \<in> set ts. at_url a \<noteq> track_url t) \<and> 0 \<le> ap_index p0
        \<and> find_row (is_playlist rid ''live'') (db_autoplay (sv_pg sv)) = Some p0 \<longrightarrow>
        advances n rid (sv_pg sv') = map (\<lambda>j. ts ! ((Suc (min (nat (ap_index p0)) (length ts - 1)) + j) mod length ts)) [0..<n])"
proof -
  have air: "now_on_air env rid sv = Some t" by (simp add: now_on_air_def assms(3))
  obtain p0 where p0: "find_row (is_playlist rid ''live'') (db_autoplay (sv_pg sv)) = Some p0" "ts \<noteq> []"
    and adv: "live_index (Some t) ts (ap_index p0) = int k \<Longrightarrow>
        advances n rid (sv_pg sv') = map (\<lambda>j. ts ! ((Suc k + j) mod length ts)) [0..<n]" for k n
    using live_edit_advances [OF assms(1,2)] unfolding air by blast
  have found: "live_index (Some t) ts i = int k"
    if "k < length ts" "at_url (ts ! k) = track_url t" "\<forall>j < k. at_url (ts ! j) \<noteq> track_url t" for k i
  proof -
    have "0 \<le> first_url (track_url t) ts" by (rule first_url_exists [of "ts ! k"]) (use that in simp_all)
    then obtain m where m: "first_url (track_url t) ts = int m" using nonneg_int_cases by blast
    from first_url_found [OF m] that have "m = k" by (metis linorder_neqE_nat)
    with m that(1) show ?thesis by (simp add: live_index_def autoplayTrackIndexBySourceURL_def assms(4))
  qed
  have lost: "live_index (Some t) ts i = int (min (nat i) (length ts - 1))"
    if "\<forall>a \<in> set ts. at_url a \<noteq> track_url t" "0 \<le> i" for i
  proof -
    have "first_url (track_url t) ts = - 1" using that(1) by (induction ts) (auto simp: Let_def)
    then show ?thesis using that(2) p0(2)
      by (auto simp: live_index_def autoplayTrackIndexBySourceURL_def assms(4) Let_def neq_Nil_conv)
  qed
  show ?thesis
    using UpdateLiveTracks_run [OF assms(1)] adv [OF found] adv [OF lost] p0(1) by auto
qed

section \<open>Witnesses\<close>

definition demo_kit :: tools where
  "demo_kit = \<lparr>kit_ext = demo_ext ''t'', kit_rfc3339 = (\<lambda>_. None), kit_mmdd = (\<lambda>_. ''0102''), kit_digest = id\<rparr>"

definition demo_boss :: User where
  "demo_boss = (demo_user ''ann'')\<lparr>user_is_admin := True\<rparr>"

definition demo_office :: server where
  "demo_office = demo_accounts\<lparr>sv_pg := empty_db\<lparr>db_users := [demo_boss, demo_user ''bo'', demo_user ''cy'']\<rparr>\<rparr>"

definition no_update :: user_update where
  "no_update = \<lparr>uu_admin = None, uu_banned = None, uu_verified = None, uu_plus = None, uu_neon = None,
     uu_display_name = None, uu_stage_name = None\<rparr>"

lemmas demo_office_defs = demo_office_def demo_boss_def demo_auth demo_server_def

lemma demo_read:
  "AuthMiddleware no_faults 5 (Some uid) empty_cache (sv_pg sv)
     = (putCachedUser 5 uid (read_user 5 u) empty_cache, if user_is_banned u then None else Some (read_user 5 u))"
  if "find_row (\<lambda>u. user_id u = uid) (db_users (sv_pg sv)) = Some u"
  using that by (simp add: AuthMiddleware_def getCachedUser_def cache_load_def empty_cache_def GetUserByID_def
      failing_def no_faults_def Let_def read_user_def)

theorem administration_needs_administrators_witness:
  "\<exists>G sv c c1. site_run demo_office G sv c \<and> admins (sv_pg sv) = {''ann'', ''bo''}
    \<and> admins (sv_pg sv) \<subseteq> G\<^sup>* `` {''ann''}
    \<and> AuthMiddleware no_faults 6 (Some ''cy'') c (sv_pg sv) = (c1, Some (read_user 6 (demo_user ''cy'')))
    \<and> serve_admin demo_kit (demo_env 6) (Some (read_user 6 (demo_user ''cy''))) (QDeleteUser ''ann'') (sv, c1) = ((sv, c1), 403)"
proof -
  let ?ann = "read_user 5 demo_boss"
  let ?c1 = "putCachedUser 5 ''ann'' ?ann empty_cache"
  let ?req = "QUpdateUser ''bo'' (Some (no_update\<lparr>uu_admin := Some True\<rparr>))"
  have rows: "db_users (sv_pg demo_office) = [demo_boss, demo_user ''bo'', demo_user ''cy'']"
    by (simp add: demo_office_def)
  have names: "user_id demo_boss = ''ann''" "user_id (demo_user n) = n" "user_is_admin demo_boss" "\<not> user_is_admin (demo_user n)"
      "\<not> user_is_banned demo_boss" "\<not> user_is_banned (demo_user n)" for n
    by (simp_all add: demo_boss_def demo_user_def)
  have ann: "AuthMiddleware no_faults 5 (Some ''ann'') empty_cache (sv_pg demo_office) = (?c1, Some ?ann)"
    using demo_read [of "''ann''" demo_office demo_boss] by (simp add: rows find_row_simps names)
  obtain sv c st where served: "serve_admin demo_kit (demo_env 5) (Some ?ann) ?req (demo_office, ?c1) = ((sv, c), st)"
    by (metis prod.exhaust)
  let ?G = "granted (Some ?ann) ?req"
  have G: "?G = {(''ann'', ''bo'')}" by (simp add: granted_def read_user_def names)
  have run: "site_run demo_office ?G sv c"
    using site_run.admin [OF site_run.start ann served] by simp
  have "sv_pg sv = apply_update (demo_env 5) ''bo'' (no_update\<lparr>uu_admin := Some True\<rparr>) (sv_pg demo_office)"
      and c: "c = InvalidateCachedUser ''bo'' ?c1"
    using served by (auto simp: UpdateUser_def as_admin_def requireAdmin_def read_user_def names Let_def split: sum.splits)
  then have pg: "db_users (sv_pg sv) = [demo_boss, (demo_user ''bo'')\<lparr>user_is_admin := True\<rparr>, demo_user ''cy'']"
    by (simp add: apply_update_def when_given_def no_update_def AdminSetField_def allowed_fields_def set_column_def
        demo_env_def no_faults_def update_user_def update_where_def rows names)
  have off: "entries c ''cy'' = None"
    by (simp add: c InvalidateCachedUser_def cache_drop_def putCachedUser_def cache_store_def cache_gc_def empty_cache_def
        unexpired_def)
  have cy: "AuthMiddleware no_faults 6 (Some ''cy'') c (sv_pg sv)
      = (putCachedUser 6 ''cy'' (read_user 6 (demo_user ''cy'')) c, Some (read_user 6 (demo_user ''cy'')))"
    by (simp add: AuthMiddleware_def getCachedUser_def cache_load_def off GetUserByID_def failing_def no_faults_def Let_def
        read_user_def pg find_row_simps names)
  have listed: "admins db = user_id ` set (filter user_is_admin (db_users db))" for db by (simp add: admins_def)
  have start: "admins (sv_pg demo_office) = {''ann''}" by (simp add: listed rows names)
  have now: "admins (sv_pg sv) = {''ann'', ''bo''}" by (simp add: listed pg names)
  note fact = administration_needs_administrators [OF run cy, unfolded start]
  have "''cy'' \<notin> ?G\<^sup>* `` {''ann''}" unfolding G by (auto elim: rtranclE)
  then have "user_id (read_user 6 (demo_user ''cy'')) \<notin> ?G\<^sup>* `` {''ann''}" by (simp add: read_user_def names)
  with fact have refused: "serve_admin demo_kit (demo_env 6) (Some (read_user 6 (demo_user ''cy''))) (QDeleteUser ''ann'')
      (sv, putCachedUser 6 ''cy'' (read_user 6 (demo_user ''cy'')) c)
    = ((sv, putCachedUser 6 ''cy'' (read_user 6 (demo_user ''cy'')) c), 403)" by (simp del: serve_admin.simps)
  show ?thesis by (intro exI conjI, rule run, rule now, rule fact [THEN conjunct1], rule cy, rule refused)
qed

theorem ban_takes_effect_witness:
  "\<exists>sv' c' v. UpdateUser (demo_env 5) (Some demo_boss) ''bo'' (Some (no_update\<lparr>uu_banned := Some True\<rparr>)) (demo_office, empty_cache)
      = ((sv', c'), HttpOK 200 v)
    \<and> snd (AuthMiddleware no_faults 6 (Some ''bo'') c' (sv_pg sv')) = None"
proof -
  have names: "user_id demo_boss = ''ann''" "user_id (demo_user n) = n" "user_is_admin demo_boss" for n
    by (simp_all add: demo_boss_def demo_user_def)
  obtain sv' c' v where banned: "UpdateUser (demo_env 5) (Some demo_boss) ''bo'' (Some (no_update\<lparr>uu_banned := Some True\<rparr>))
      (demo_office, empty_cache) = ((sv', c'), HttpOK 200 v)" and "user_is_banned (av_user v)"
    by (simp add: UpdateUser_def as_admin_def requireAdmin_def names apply_update_def when_given_def no_update_def
        AdminSetField_def allowed_fields_def set_column_def AdminGetUser_def demo_env_def no_faults_def update_user_def
        update_where_def demo_office_def find_row_simps newAdminUserView_def)
  from ban_takes_effect [OF this, of no_faults 6] banned show ?thesis by (auto simp: no_faults_def)
qed

definition demo_on_air :: server where
  "demo_on_air = demo_accounts\<lparr>sv_pg := empty_db\<lparr>db_rooms := [zero_room\<lparr>room_id := ''r''\<rparr>],
     db_tracks := [zero_track\<lparr>track_id := ''t'', track_url := ''b''\<rparr>],
     db_now := [\<lparr>np_room = ''r'', np_track = ''t'', np_started_at = 0\<rparr>],
     db_autoplay := [demo_playlist\<lparr>ap_status := ''live'', ap_index := 1\<rparr>]\<rparr>\<rparr>"

theorem live_edit_keeps_place_witness:
  "\<exists>sv' p. UpdateLiveTracks (demo_env 5) (Some demo_boss) ''r'' (Some [demo_auto ''c'', demo_auto ''d'', demo_auto ''b'']) demo_on_air
      = (sv', HttpOK 200 p)
    \<and> advances 2 ''r'' (sv_pg sv') = [demo_auto ''c'', demo_auto ''d'']"
proof -
  let ?ts = "[demo_auto ''c'', demo_auto ''d'', demo_auto ''b'']"
  let ?t = "zero_track\<lparr>track_id := ''t'', track_url := ''b''\<rparr>"
  have air: "GetNowPlaying (env_faults (demo_env 5)) ''r'' (sv_pg demo_on_air) = Inr (Some ?t)"
    by (simp add: GetNowPlaying_def failing_def demo_env_def no_faults_def demo_on_air_def find_row_simps)
  obtain sv' p where edit: "UpdateLiveTracks (demo_env 5) (Some demo_boss) ''r'' (Some ?ts) demo_on_air = (sv', HttpOK 200 p)"
    by (simp add: UpdateLiveTracks_def as_admin_def requireAdmin_def demo_boss_def GetAutoplayPlaylist_def failing_def
        demo_env_def no_faults_def demo_on_air_def find_row_simps is_playlist_def demo_playlist_def SaveAutoplayPlaylist_def
        has_room_def live_index_def now_on_air_def GetNowPlaying_def autoplayTrackIndexBySourceURL_def demo_auto_def int4_ok_def)
  have urls: "at_url (demo_auto u) = u" for u by (simp add: demo_auto_def)
  have len: "int (length ?ts) < 2 ^ 31" and url: "track_url ?t \<noteq> ''''" by simp_all
  have "advances 2 ''r'' (sv_pg sv') = map (\<lambda>j. ?ts ! ((Suc 2 + j) mod length ?ts)) [0..<2]"
  proof -
    have all: "\<forall>k n. k < length ?ts \<and> at_url (?ts ! k) = track_url ?t \<and> (\<forall>j < k. at_url (?ts ! j) \<noteq> track_url ?t) \<longrightarrow>
        advances n ''r'' (sv_pg sv') = map (\<lambda>j. ?ts ! ((Suc k + j) mod length ?ts)) [0..<n]"
      by (rule live_edit_keeps_place [OF edit len air url, THEN conjunct2, THEN conjunct2, THEN conjunct2, THEN conjunct2,
            THEN conjunct1])
    have "2 < length ?ts \<and> at_url (?ts ! 2) = track_url ?t \<and> (\<forall>j < 2. at_url (?ts ! j) \<noteq> track_url ?t)"
      by (simp add: urls less_Suc_eq numeral_2_eq_2)
    with all show ?thesis by blast
  qed
  moreover have "map (\<lambda>j. ?ts ! ((Suc 2 + j) mod length ?ts)) [0..<2] = [demo_auto ''c'', demo_auto ''d'']"
    by (simp add: upt_conv_Cons)
  ultimately show ?thesis using edit by metis
qed

end
