(* ===== verification/Pool.thy ===== *)
theory Pool
  imports Neon Hub Http
begin

text \<open>
  The monthly pool of the creators (\<open>ComputeCreatorPool\<close> of \<open>internal/store/monetization.go\<close> and its
  handler). A share of the revenue of Plus is divided by the minutes that Plus members listened to each
  creator. The code computes earnings in \<open>float64\<close>, which is written out here: a result is the real
  number rounded to 53 significant bits, ties to even (the amounts are far from the ends of the
  exponent's range). Arguments stand for the calendar of the database, which turns a month into the
  instants where it begins and ends, and for what driver and column make of the share.
\<close>

section \<open>Double precision\<close>

definition round_even :: "real \<Rightarrow> int" where
  "round_even y = (let n = \<lfloor>y\<rfloor>; d = y - of_int n in
     if d < 1 / 2 \<or> (d = 1 / 2 \<and> even n) then n else n + 1)"

definition unit_exp :: "real \<Rightarrow> int" where
  "unit_exp x = \<lfloor>log 2 \<bar>x\<bar>\<rfloor> - 52"

definition float64 :: "real \<Rightarrow> real" where
  "float64 x = (if x = 0 then 0 else of_int (round_even (x / 2 powr unit_exp x)) * 2 powr unit_exp x)"

definition share_of :: "int \<Rightarrow> int \<Rightarrow> real" where
  "share_of minutes whole =
     float64 (float64 (float64 (of_int minutes) / float64 (of_int whole)) * 100)"

definition earnings_of :: "int \<Rightarrow> int \<Rightarrow> int \<Rightarrow> int" where
  "earnings_of amount minutes whole =
     (let x = float64 (float64 (float64 (of_int amount) * float64 (of_int minutes)) / float64 (of_int whole)) in
      if x < 0 then \<lceil>x\<rceil> else \<lfloor>x\<rfloor>)"

section \<open>Minutes\<close>

type_synonym calendar = "string \<Rightarrow> (gotime \<times> gotime) option"

definition plus_revenue :: "gotime \<Rightarrow> gotime \<Rightarrow> pgdb \<Rightarrow> int" where
  "plus_revenue since until db = int (affected (\<lambda>s. sub_type s = ''plus''
     \<and> (sub_status s = ''active'' \<or> sub_status s = ''cancelled'')
     \<and> sub_start s \<le> until \<and> sub_end s \<ge> since) (db_subs db)) * 799"

text \<open>The rows of the inner query: creator, listener and seconds.\<close>

definition plus_listen :: "gotime \<Rightarrow> gotime \<Rightarrow> gotime \<Rightarrow> pgdb \<Rightarrow> ListenEvent \<Rightarrow> (string \<times> string \<times> int) option" where
  "plus_listen now since until db l =
     (case (find_row (\<lambda>r. room_id r = le_room l) (db_rooms db), find_row (\<lambda>u. user_id u = le_user l) (db_users db)) of
        (Some r, Some u) \<Rightarrow>
          if plus_now now u \<and> room_creator r \<noteq> '''' \<and> le_user l \<noteq> room_creator r
             \<and> since \<le> le_started_at l \<and> le_started_at l < until \<and> le_duration l > 0
          then Some (room_creator r, le_user l, le_duration l) else None
      | _ \<Rightarrow> None)"

definition pair_minutes :: "(string \<times> string \<times> int) list \<Rightarrow> string \<Rightarrow> string \<Rightarrow> int" where
  "pair_minutes rows c u = sum_list (map (snd \<circ> snd) (filter (\<lambda>(c', u', _). c' = c \<and> u' = u) rows)) div 60"

definition creator_minutes :: "(string \<times> string \<times> int) list \<Rightarrow> string \<Rightarrow> int" where
  "creator_minutes rows c =
     sum_list (map (\<lambda>u. min (pair_minutes rows c u) 3000) (remdups (map (fst \<circ> snd) (filter (\<lambda>(c', _). c' = c) rows))))"

definition pool_minutes :: "gotime \<Rightarrow> gotime \<Rightarrow> gotime \<Rightarrow> pgdb \<Rightarrow> (string \<times> int) list" where
  "pool_minutes now since until db =
     (let rows = List.map_filter (plus_listen now since until db) (db_listens db) in
      order_by (\<lambda>(c, m). - m) (filter (\<lambda>(c, m). m > 0) (map (\<lambda>c. (c, creator_minutes rows c)) (remdups (map fst rows)))))"

definition cap_creator :: "string \<times> int \<Rightarrow> string \<times> int" where
  "cap_creator cm = (case cm of (c, m) \<Rightarrow> (c, if m > 14400 then 14400 else m))"

section \<open>The computation\<close>

definition month_row :: "string \<Rightarrow> int \<Rightarrow> int \<Rightarrow> (string \<times> int) list \<Rightarrow> gotime \<Rightarrow> CreatorPoolMonth" where
  "month_row month poolPct revenue creators now =
     \<lparr>pm_id = ''pool:'' @ month, pm_month = month, pm_revenue = revenue, pm_pct = poolPct,
      pm_amount = go_div (int64 (revenue * poolPct)) 100, pm_minutes = sum_list (map snd creators),
      pm_computed_at = now\<rparr>"

definition save_month :: "faults \<Rightarrow> CreatorPoolMonth \<Rightarrow> pgdb \<Rightarrow> pgdb fallible" where
  "save_month f p db =
     (if f (CPool PoSaveMonth) \<or> \<not> int4_ok (pm_revenue p) \<or> \<not> int4_ok (pm_pct p) \<or> \<not> int4_ok (pm_amount p)
      then Inl StoreError
      else if \<exists>q \<in> set (db_pool_months db). pm_month q = pm_month p
      then Inr (db\<lparr>db_pool_months := update_where (\<lambda>q. pm_month q = pm_month p)
             (\<lambda>q. p\<lparr>pm_id := pm_id q\<rparr>) (db_pool_months db)\<rparr>)
      else Inr (db\<lparr>db_pool_months := db_pool_months db @ [p]\<rparr>))"

definition allocation :: "env \<Rightarrow> CreatorPoolMonth \<Rightarrow> nat \<times> string \<times> int \<Rightarrow> CreatorPoolAllocation" where
  "allocation env p x = (case x of (i, c, m) \<Rightarrow>
     \<lparr>pa_id = env_uuid env i, pa_month = pm_id p, pa_creator = c, pa_minutes = m,
      pa_share = (if pm_minutes p > 0 then share_of m (pm_minutes p) else 0),
      pa_earnings = (if pm_minutes p > 0 then earnings_of (pm_amount p) m (pm_minutes p) else 0)\<rparr>)"

text \<open>A row that cannot be stored is only logged.\<close>

definition store_allocation :: "(real \<Rightarrow> real) \<Rightarrow> faults \<Rightarrow> CreatorPoolAllocation \<Rightarrow> pgdb \<Rightarrow> pgdb" where
  "store_allocation numeric f a db =
     (if f (CPool PoInsertShare) \<or> \<not> has_user (pa_creator a) db \<or> \<not> int4_ok (pa_earnings a)
         \<or> (\<exists>b \<in> set (db_pool_shares db). pa_id b = pa_id a) then db
      else db\<lparr>db_pool_shares := db_pool_shares db @ [a\<lparr>pa_share := numeric (pa_share a)\<rparr>]\<rparr>)"

definition ComputeCreatorPool ::
  "calendar \<Rightarrow> (real \<Rightarrow> real) \<Rightarrow> env \<Rightarrow> string \<Rightarrow> int \<Rightarrow> pgdb
     \<Rightarrow> pgdb \<times> (CreatorPoolMonth \<times> CreatorPoolAllocation list) fallible" where
  "ComputeCreatorPool calendar numeric env month poolPct db =
     (let f = env_faults env; now = env_now env in
      case calendar month of
        None \<Rightarrow> (db, Inl StoreError)
      | Some (since, until) \<Rightarrow>
          if f (CPool PoRevenue) \<or> f (CPool PoMinutes) then (db, Inl StoreError)
          else (let creators = map cap_creator (pool_minutes now since until db);
                    p = month_row month poolPct (plus_revenue since until db) creators now in
                case save_month f p db of
                  Inl e \<Rightarrow> (db, Inl e)
                | Inr db1 \<Rightarrow>
                    if f (CPool PoDropShares) then (db1, Inl StoreError)
                    else (let db2 = db1\<lparr>db_pool_shares := delete_where (\<lambda>a. pa_month a = pm_id p) (db_pool_shares db1)\<rparr>;
                              allocations = map (allocation env p) (zip [0 ..< length creators] creators) in
                          (fold (store_allocation numeric f) allocations db2, Inr (p, allocations)))))"

text \<open>\<open>ComputePool\<close>: the body is the month and the percentage.\<close>

definition ComputePool ::
  "calendar \<Rightarrow> (real \<Rightarrow> real) \<Rightarrow> env \<Rightarrow> User option \<Rightarrow> (string \<times> int) option \<Rightarrow> pgdb
     \<Rightarrow> pgdb \<times> (CreatorPoolMonth \<times> CreatorPoolAllocation list) response" where
  "ComputePool calendar numeric env user req db =
     (if user = None \<or> \<not> user_is_admin (the user) then (db, HttpError 403 ''admin required'')
      else case req of
          None \<Rightarrow> (db, HttpError 400 ''invalid JSON'')
        | Some (month, pct) \<Rightarrow>
            (case ComputeCreatorPool calendar numeric env month (if pct \<le> 0 \<or> pct > 100 then 40 else pct) db of
               (db', Inl _) \<Rightarrow> (db', HttpError 500 ''failed to compute pool'')
             | (db', Inr result) \<Rightarrow> (db', HttpOK 200 result)))"

section \<open>Rounding\<close>

lemma round_even_int [simp]: "round_even (of_int n) = n"
  by (simp add: round_even_def)

lemma round_even_error: "\<bar>of_int (round_even y) - y\<bar> \<le> 1 / 2"
proof -
  have "0 \<le> y - of_int \<lfloor>y\<rfloor>" "y - of_int \<lfloor>y\<rfloor> < 1" by linarith+
  then show ?thesis by (auto simp: round_even_def Let_def)
qed

lemma scaled_range:
  assumes "0 < x"
  shows "2 ^ 52 \<le> x / 2 powr unit_exp x" and "x / 2 powr unit_exp x < 2 ^ 53"
proof -
  have "2 powr of_int \<lfloor>log 2 x\<rfloor> \<le> x" "x < 2 powr (of_int \<lfloor>log 2 x\<rfloor> + 1)"
    using assms floor_log_eq_powr_iff [of x 2 "\<lfloor>log 2 x\<rfloor>"] by simp_all
  moreover have "2 powr unit_exp x = 2 powr of_int \<lfloor>log 2 x\<rfloor> / 2 ^ 52"
    using assms by (simp add: unit_exp_def powr_diff powr_realpow)
  ultimately show "2 ^ 52 \<le> x / 2 powr unit_exp x" "x / 2 powr unit_exp x < 2 ^ 53"
    by (simp_all add: powr_add field_simps)
qed

lemma float64_error:
  assumes "0 \<le> x"
  shows "\<bar>float64 x - x\<bar> \<le> x / 2 ^ 53"
proof (cases "x = 0")
  case False
  then have pos: "0 < x" using assms by simp
  let ?u = "2 powr unit_exp x"
  have u: "0 < ?u" by simp
  have "float64 x - x = (of_int (round_even (x / ?u)) - x / ?u) * ?u"
    using False u by (simp add: float64_def left_diff_distrib)
  then have "\<bar>float64 x - x\<bar> = \<bar>of_int (round_even (x / ?u)) - x / ?u\<bar> * ?u"
    using u by (simp add: abs_mult)
  also have "\<dots> \<le> 1 / 2 * ?u" using round_even_error [of "x / ?u"] u by (intro mult_right_mono) auto
  also have "\<dots> \<le> x / 2 ^ 53" using scaled_range(1) [OF pos] u by (simp add: field_simps)
  finally show ?thesis .
qed (simp add: float64_def)

lemma float64_int:
  assumes "0 \<le> n" and "n < 2 ^ 53"
  shows "float64 (of_int n) = of_int n"
proof (cases "n = 0")
  case False
  then have pos: "0 < real_of_int n" using assms by simp
  have "log 2 (real_of_int n) < 53"
    using assms(2) pos by (simp add: log_less_iff powr_realpow)
  then have "unit_exp (of_int n) \<le> 0" using pos by (simp add: unit_exp_def)
  then obtain k where k: "unit_exp (of_int n) = - int k" by (metis minus_minus nonpos_int_cases)
  have "real_of_int n / 2 powr unit_exp (of_int n) = of_int (n * 2 ^ k)"
    by (simp add: k powr_minus_divide powr_realpow)
  then have "round_even (real_of_int n / 2 powr unit_exp (of_int n)) = n * 2 ^ k"
    by (simp only: round_even_int)
  then show ?thesis using False by (simp add: float64_def k powr_minus_divide powr_realpow)
qed (simp add: float64_def)

lemma earnings_exact:
  assumes "0 \<le> amount" "amount < 2 ^ 53" and "0 \<le> m" "m < 2 ^ 53" and "0 < whole" "whole < 2 ^ 53"
    and "amount * m < 2 ^ 53"
  shows "earnings_of amount m whole = amount * m div whole"
proof -
  define a where "a = amount * m"
  have a: "0 \<le> a" "a < 2 ^ 53" using assms by (simp_all add: a_def)
  let ?q = "real_of_int a / real_of_int whole"
  let ?n = "a div whole"
  have "float64 (real_of_int amount) = real_of_int amount" "float64 (real_of_int m) = real_of_int m"
    by (rule float64_int, fact+)+
  then have product: "float64 (float64 (of_int amount) * float64 (of_int m)) = of_int a"
    using float64_int [OF a] by (simp add: a_def)
  have w: "0 < real_of_int whole" using assms(5) by simp
  have q: "0 \<le> ?q" using a w by simp
  note near = float64_error [OF q]
  have "?q / 2 ^ 53 = real_of_int a / 2 ^ 53 / real_of_int whole" by simp
  also have "\<dots> < 1 / real_of_int whole" using a(2) w by (intro divide_strict_right_mono) auto
  finally have gap: "?q / 2 ^ 53 < 1 / real_of_int whole" .
  have parts: "?n * whole \<le> a" "a < ?n * whole + whole"
    using div_mult_mod_eq [of a whole] pos_mod_bound [OF assms(5), of a] pos_mod_sign [OF assms(5), of a] by linarith+
  have n: "0 \<le> ?n" using a assms(5) by (simp add: pos_imp_zdiv_nonneg_iff)
  moreover have "?n \<le> a" using mult_left_mono [of 1 whole ?n] n assms(5) parts(1) by simp
  ultimately have n: "0 \<le> ?n" "?n \<le> a" by blast+
  have "float64 ?q < of_int ?n + 1"
  proof -
    have "float64 ?q < (real_of_int a + 1) / real_of_int whole" using near gap by (simp add: add_divide_distrib)
    also have "\<dots> \<le> (of_int ?n * of_int whole + of_int whole) / real_of_int whole"
      using parts(2) w by (intro divide_right_mono) (simp_all flip: of_int_mult of_int_add)
    also have "\<dots> = of_int ?n + 1" using w by (simp add: field_simps)
    finally show ?thesis .
  qed
  moreover have "of_int ?n \<le> float64 ?q"
  proof (cases "?n * whole = a")
    case True
    then have "?q = of_int ?n" using w by (metis nonzero_mult_div_cancel_right of_int_mult order_less_irrefl)
    moreover have "float64 (of_int ?n) = of_int ?n" using float64_int [OF n(1)] n(2) a(2) by simp
    ultimately show ?thesis by simp
  next
    case False
    then have less: "?n * whole + 1 \<le> a" using parts(1) by simp
    have "of_int ?n = (of_int ?n * of_int whole) / real_of_int whole" using w by simp
    also have "\<dots> \<le> (real_of_int a - 1) / real_of_int whole"
      using less w by (intro divide_right_mono) (simp_all flip: of_int_mult of_int_diff)
    also have "\<dots> < float64 ?q" using near gap by (simp add: diff_divide_distrib)
    finally show ?thesis by simp
  qed
  ultimately have "\<lfloor>float64 ?q\<rfloor> = ?n" by (intro floor_unique) auto
  moreover have "0 \<le> float64 ?q" using \<open>of_int ?n \<le> float64 ?q\<close> n(1) by linarith
  moreover have "float64 (real_of_int whole) = real_of_int whole" by (rule float64_int) (use assms(5,6) in simp_all)
  ultimately show ?thesis by (simp add: earnings_of_def product Let_def a_def [symmetric])
qed

section \<open>What the pool pays\<close>

lemma shares_sum:
  fixes ms :: "int list"
  assumes "0 < whole" and "0 \<le> amount"
  shows "sum_list (map (\<lambda>m. amount * m div whole) ms) * whole \<le> amount * sum_list ms"
    and "ms \<noteq> [] \<Longrightarrow> amount * sum_list ms < (sum_list (map (\<lambda>m. amount * m div whole) ms) + int (length ms)) * whole"
proof -
  have one: "amount * m div whole * whole \<le> amount * m" "amount * m < (amount * m div whole + 1) * whole" for m
    using div_mult_mod_eq [of "amount * m" whole] pos_mod_bound [OF assms(1), of "amount * m"]
      pos_mod_sign [OF assms(1), of "amount * m"] by (simp_all only: distrib_right mult_1)
  show "sum_list (map (\<lambda>m. amount * m div whole) ms) * whole \<le> amount * sum_list ms"
  proof (induction ms)
    case (Cons m ms)
    then show ?case using one(1) [of m] by (simp add: distrib_left distrib_right)
  qed simp
  show "amount * sum_list ms < (sum_list (map (\<lambda>m. amount * m div whole) ms) + int (length ms)) * whole" if "ms \<noteq> []"
    using that
  proof (induction ms rule: list_nonempty_induct)
    case (single m)
    then show ?case using one(2) [of m] by simp
  next
    case (cons m ms)
    then show ?case using one(2) [of m] by (simp add: distrib_left distrib_right)
  qed
qed

lemma pool_minutes_ok:
  "\<forall>(c, m) \<in> set (pool_minutes now since until db). 0 < m" "distinct (map fst (pool_minutes now since until db))"
proof -
  let ?rows = "List.map_filter (plus_listen now since until db) (db_listens db)"
  let ?all = "map (\<lambda>c. (c, creator_minutes ?rows c)) (remdups (map fst ?rows))"
  show "\<forall>(c, m) \<in> set (pool_minutes now since until db). 0 < m" by (auto simp: pool_minutes_def Let_def)
  have "map fst ?all = remdups (map fst ?rows)" by (simp add: comp_def)
  then have "distinct (map fst ?all)" by (simp only: distinct_remdups)
  then have "distinct (map fst (filter (\<lambda>(c, m). m > 0) ?all))" by (rule distinct_map_filter)
  then show "distinct (map fst (pool_minutes now since until db))"
    by (simp add: pool_minutes_def order_by_def distinct_map Let_def)
qed

lemma cap_creator_simps [simp]: "fst (cap_creator cm) = fst cm" "snd (cap_creator cm) = min (snd cm) 14400"
  by (simp_all add: cap_creator_def split: prod.split)

lemma zip_upt_snd: "map snd (zip [0 ..< length xs] xs) = xs"
  by simp

lemma allocation_simps:
  "pa_creator (allocation env p x) = fst (snd x)" "pa_minutes (allocation env p x) = snd (snd x)"
  "pa_month (allocation env p x) = pm_id p"
  "pa_earnings (allocation env p x) = (if pm_minutes p > 0 then earnings_of (pm_amount p) (snd (snd x)) (pm_minutes p) else 0)"
  by (simp_all add: allocation_def split: prod.split)

text \<open>A computation that succeeds, with the minutes of its creators.\<close>

lemma ComputeCreatorPool_run:
  assumes "ComputeCreatorPool calendar numeric env month pct db = (db', Inr (p, allocs))"
  shows "\<exists>since until creators db1. calendar month = Some (since, until)
    \<and> creators = map cap_creator (pool_minutes (env_now env) since until db)
    \<and> p = month_row month pct (plus_revenue since until db) creators (env_now env)
    \<and> save_month (env_faults env) p db = Inr db1
    \<and> allocs = map (allocation env p) (zip [0 ..< length creators] creators)
    \<and> db' = fold (store_allocation numeric (env_faults env)) allocs
        (db1\<lparr>db_pool_shares := delete_where (\<lambda>a. pa_month a = pm_id p) (db_pool_shares db1)\<rparr>)"
  using assms unfolding ComputeCreatorPool_def Let_def
  by (simp split: option.splits if_splits sum.splits prod.splits) blast

lemma minutes_le_sum:
  fixes xs :: "int list"
  shows "\<forall>x \<in> set xs. 0 < x \<Longrightarrow> x \<in> set xs \<Longrightarrow> x \<le> sum_list xs"
  by (induction xs) (auto simp: sum_list_nonneg less_imp_le intro: order_trans add_increasing)

definition earned_in :: "string \<Rightarrow> pgdb \<Rightarrow> int" where
  "earned_in month db = sum_list (map pa_earnings (filter (\<lambda>a. pa_month a = month) (db_pool_shares db)))"

lemma earned_stored:
  assumes "\<forall>a \<in> set allocs. 0 \<le> pa_earnings a"
  shows "earned_in month (fold (store_allocation numeric f) allocs db) \<le> earned_in month db + sum_list (map pa_earnings allocs)"
  using assms
proof (induction allocs arbitrary: db)
  case (Cons a allocs)
  have "earned_in month (store_allocation numeric f a db) \<le> earned_in month db + pa_earnings a"
    using Cons.prems by (auto simp: store_allocation_def earned_in_def)
  with Cons.IH [of "store_allocation numeric f a db"] Cons.prems show ?case by simp
qed simp

lemma earned_after_delete:
  "earned_in month (db\<lparr>db_pool_shares := delete_where (\<lambda>a. pa_month a = month) rows\<rparr>) = 0"
  by (simp add: earned_in_def delete_where_def)

lemma month_amount:
  assumes "p = month_row month pct (plus_revenue since until db) creators now" and "save_month f p db0 = Inr db1"
    and "0 < pct" "pct \<le> 100"
  shows "0 \<le> pm_amount p" and "pm_amount p \<le> pm_revenue p" and "pm_amount p < 2 ^ 31"
proof -
  have revenue: "0 \<le> pm_revenue p" by (simp add: assms(1) month_row_def plus_revenue_def)
  have fits: "int4_ok (pm_revenue p)" "int4_ok (pm_amount p)"
    using assms(2) by (auto simp: save_month_def split: if_splits)
  have "0 \<le> pm_revenue p * pct" "pm_revenue p * pct \<le> pm_revenue p * 100"
    using revenue assms(3,4) by (simp_all add: mult_left_mono)
  moreover have "pm_revenue p * 100 < 2 ^ 63" using fits(1) by (simp add: int4_ok_def)
  moreover have "pm_amount p = go_div (int64 (pm_revenue p * pct)) 100" by (simp add: assms(1) month_row_def)
  ultimately have "pm_amount p = pm_revenue p * pct div 100" by (simp add: int64_id go_div_nonneg)
  with \<open>0 \<le> pm_revenue p * pct\<close> \<open>pm_revenue p * pct \<le> pm_revenue p * 100\<close>
  show "0 \<le> pm_amount p" "pm_amount p \<le> pm_revenue p" by simp_all
  show "pm_amount p < 2 ^ 31" using fits(2) by (simp add: int4_ok_def)
qed

lemma earnings_in_cents:
  assumes "pm_minutes p = sum_list ms" and "\<forall>m \<in> set ms. 0 < m \<and> m \<le> 14400" and "snd (snd x) \<in> set ms"
    and "0 \<le> pm_amount p" "pm_amount p < 2 ^ 31" and "pm_minutes p < 2 ^ 53"
  shows "pa_earnings (allocation env p x) = pm_amount p * snd (snd x) div pm_minutes p"
proof -
  let ?m = "snd (snd x)"
  have m: "0 < ?m" "?m \<le> 14400" using assms(2,3) by auto
  have "?m \<le> pm_minutes p" unfolding assms(1) by (rule minutes_le_sum) (use assms(2,3) in auto)
  then have whole: "0 < pm_minutes p" using m by simp
  have "pm_amount p * ?m \<le> 2 ^ 31 * 14400" using m assms(4,5) by (intro mult_mono) simp_all
  then have "earnings_of (pm_amount p) ?m (pm_minutes p) = pm_amount p * ?m div pm_minutes p"
    using m assms(4,5,6) whole by (intro earnings_exact) simp_all
  with whole show ?thesis by (simp add: allocation_simps)
qed

lemma allocations_sum:
  assumes "map pa_earnings allocs = map (\<lambda>m. amount * m div whole) ms" and "whole = sum_list ms"
    and "\<forall>m \<in> set ms. 0 < m" and "0 \<le> amount"
  shows "sum_list (map pa_earnings allocs) \<le> amount
    \<and> (allocs \<noteq> [] \<longrightarrow> amount < sum_list (map pa_earnings allocs) + int (length allocs))"
proof (cases "ms = []")
  case False
  then obtain m where "m \<in> set ms" by (cases ms) auto
  then have whole: "0 < whole" using assms(3) minutes_le_sum [of ms m] by (force simp: assms(2))
  have "sum_list (map pa_earnings allocs) * whole \<le> amount * whole"
    unfolding assms(1) using shares_sum(1) [OF whole assms(4), of ms] by (simp add: assms(2))
  moreover have "amount * whole < (sum_list (map pa_earnings allocs) + int (length ms)) * whole"
    unfolding assms(1) using shares_sum(2) [OF whole assms(4) False] by (simp add: assms(2))
  moreover have "length allocs = length ms" using assms(1) by (metis length_map)
  ultimately show ?thesis using whole by simp
qed (use assms in auto)

text \<open>
  C30: The pool is never overpaid, and hardly underpaid. A computed month divides at most the revenue;
  every creator appears once, with at least one and at most 14400 minutes, and earns exactly
  the whole cents of the pool in proportion to these minutes, although the code computes them in
  double precision; the earnings together do not exceed the pool and fall short of it by less
  than one cent per creator; and what is stored for the month does not exceed the pool, whatever
  was stored for it before and whichever rows could not be stored.
\<close>

theorem pool_never_overpaid:
  assumes "ComputePool calendar numeric env user (Some (month, pct)) db = (db', HttpOK st (p, allocs))"
    and "pm_minutes p < 2 ^ 53"
  shows "0 \<le> pm_amount p \<and> pm_amount p \<le> pm_revenue p \<and> distinct (map pa_creator allocs)
    \<and> (\<forall>a \<in> set allocs. 0 < pa_minutes a \<and> pa_minutes a \<le> 14400
        \<and> pa_earnings a = pm_amount p * pa_minutes a div pm_minutes p)
    \<and> sum_list (map pa_earnings allocs) \<le> pm_amount p
    \<and> (allocs \<noteq> [] \<longrightarrow> pm_amount p < sum_list (map pa_earnings allocs) + int (length allocs))
    \<and> earned_in (pm_id p) db' \<le> pm_amount p"
proof -
  define percent where "percent = (if pct \<le> 0 \<or> pct > 100 then 40 else pct)"
  have percent: "0 < percent" "percent \<le> 100" by (auto simp: percent_def)
  have run: "ComputeCreatorPool calendar numeric env month percent db = (db', Inr (p, allocs))"
    using assms(1) by (auto simp: ComputePool_def percent_def split: if_splits prod.splits sum.splits)
  from ComputeCreatorPool_run [OF run] obtain since until creators db1
    where creators: "creators = map cap_creator (pool_minutes (env_now env) since until db)"
    and p: "p = month_row month percent (plus_revenue since until db) creators (env_now env)"
    and saved: "save_month (env_faults env) p db = Inr db1"
    and allocs: "allocs = map (allocation env p) (zip [0 ..< length creators] creators)"
    and db': "db' = fold (store_allocation numeric (env_faults env)) allocs
        (db1\<lparr>db_pool_shares := delete_where (\<lambda>a. pa_month a = pm_id p) (db_pool_shares db1)\<rparr>)"
    by (elim exE conjE) (rule that)
  let ?ms = "map snd creators" and ?P = "pm_amount p" and ?T = "pm_minutes p"
  note P = month_amount [OF p saved percent]
  have T: "?T = sum_list ?ms" by (simp add: p month_row_def)
  have ms: "\<forall>m \<in> set ?ms. 0 < m \<and> m \<le> 14400"
    using pool_minutes_ok(1) [of "env_now env" since until db] by (auto simp: creators split: prod.splits)
  have cents: "pa_earnings (allocation env p x) = ?P * snd (snd x) div ?T \<and> snd (snd x) \<in> set ?ms"
    if "x \<in> set (zip [0 ..< length creators] creators)" for x
  proof -
    have "(fst x, snd x) \<in> set (zip [0 ..< length creators] creators)" using that by simp
    then have "snd x \<in> set creators" by (rule set_zip_rightD)
    then have "snd (snd x) \<in> set ?ms" by simp
    with earnings_in_cents [OF T ms this P(1,3) assms(2)] show ?thesis by blast
  qed
  have "map pa_earnings allocs = map (\<lambda>x. ?P * snd (snd x) div ?T) (zip [0 ..< length creators] creators)"
    using cents by (simp add: allocs)
  also have "\<dots> = map (\<lambda>m. ?P * m div ?T) (map snd (map snd (zip [0 ..< length creators] creators)))"
    by (simp only: map_map comp_def)
  finally have earnings: "map pa_earnings allocs = map (\<lambda>m. ?P * m div ?T) ?ms" by (simp only: zip_upt_snd)
  have each: "\<forall>a \<in> set allocs. 0 < pa_minutes a \<and> pa_minutes a \<le> 14400 \<and> pa_earnings a = ?P * pa_minutes a div ?T"
  proof
    fix a assume "a \<in> set allocs"
    then obtain x where x: "x \<in> set (zip [0 ..< length creators] creators)" "a = allocation env p x" by (auto simp: allocs)
    have "pa_minutes a = snd (snd x)" by (simp add: x(2) allocation_simps)
    then show "0 < pa_minutes a \<and> pa_minutes a \<le> 14400 \<and> pa_earnings a = ?P * pa_minutes a div ?T"
      using cents [OF x(1)] bspec [OF ms, of "snd (snd x)"] by (simp only: x(2) simp_thms)
  qed
  have sums: "sum_list (map pa_earnings allocs) \<le> ?P
      \<and> (allocs \<noteq> [] \<longrightarrow> ?P < sum_list (map pa_earnings allocs) + int (length allocs))"
    by (rule allocations_sum [OF earnings T]) (use ms P(1) in auto)
  have "0 \<le> ?T" unfolding T by (rule sum_list_nonneg) (use ms in force)
  then have "\<forall>a \<in> set allocs. 0 \<le> pa_earnings a" using each P(1) by (simp add: div_int_pos_iff zero_le_mult_iff) (meson less_imp_le)
  from earned_stored [OF this] have "earned_in (pm_id p) db' \<le> sum_list (map pa_earnings allocs)"
    unfolding db' using earned_after_delete by (metis add_0)
  moreover have "map pa_creator allocs = map fst (map snd (zip [0 ..< length creators] creators))"
    by (simp only: allocs map_map comp_def allocation_simps)
  then have "map pa_creator allocs = map fst (pool_minutes (env_now env) since until db)"
    by (simp only: zip_upt_snd) (simp add: creators comp_def)
  ultimately show ?thesis using P each sums pool_minutes_ok(2) by (simp add: order_trans)
qed

definition demo_plus :: "string \<Rightarrow> User" where
  "demo_plus n = zero_user\<lparr>user_id := n, user_is_plus := True\<rparr>"

definition demo_listen :: "string \<Rightarrow> string \<Rightarrow> int \<Rightarrow> ListenEvent" where
  "demo_listen u r d = \<lparr>le_id = u @ r, le_user = u, le_room = r, le_started_at = 5, le_ended_at = None,
     le_duration = d, le_tracks = 0\<rparr>"

definition demo_month :: pgdb where
  "demo_month = empty_db\<lparr>db_users := [demo_plus ''ann'', demo_plus ''bo''],
     db_rooms := [zero_room\<lparr>room_id := ''r'', room_creator := ''ann''\<rparr>, zero_room\<lparr>room_id := ''q'', room_creator := ''bo''\<rparr>],
     db_subs := [\<lparr>sub_id = ''s'', sub_user = ''ann'', sub_type = ''plus'', sub_target = None, sub_price = 799,
       sub_status = ''active'', sub_stripe = '''', sub_start = 0, sub_end = 9, sub_cancelled_at = None\<rparr>],
     db_listens := [demo_listen ''bo'' ''r'' 600, demo_listen ''ann'' ''q'' 120, demo_listen ''ann'' ''r'' 9000]\<rparr>"

definition demo_pool_env :: env where
  "demo_pool_env = \<lparr>env_now = 9, env_faults = (\<lambda>_. False), env_rfaults = (\<lambda>_. False), env_pick = True,
     env_uuid = (\<lambda>n. if n = 0 then ''u0'' else ''u1''), env_locked = (\<lambda>_. False), env_parse = (\<lambda>_. None)\<rparr>"

lemma demo_minutes: "pool_minutes 9 0 10 demo_month = [(''ann'', 10), (''bo'', 2)]"
  by code_simp

theorem pool_never_overpaid_witness:
  "\<exists>db' p allocs. ComputePool (\<lambda>_. Some (0, 10)) id demo_pool_env (Some (zero_user\<lparr>user_is_admin := True\<rparr>)) (Some (''2026-03'', 50))
      demo_month = (db', HttpOK 200 (p, allocs))
    \<and> pm_amount p = 399 \<and> map pa_earnings allocs = [332, 66] \<and> earned_in ''pool:2026-03'' db' \<le> 399"
proof -
  let ?p = "month_row ''2026-03'' 50 799 [(''ann'', 10), (''bo'', 2)] 9"
  have revenue: "plus_revenue 0 10 demo_month = 799"
    by (simp add: plus_revenue_def demo_month_def empty_db_def affected_def)
  have amount: "pm_amount ?p = 399" "pm_minutes ?p = 12" "pm_id ?p = ''pool:2026-03''"
    by (simp_all add: month_row_def int64_def go_div_def)
  have saved: "\<exists>db1. save_month (\<lambda>_. False) ?p demo_month = Inr db1"
    by (simp add: save_month_def int4_ok_def amount) (simp add: month_row_def)
  obtain db' allocs where run: "ComputePool (\<lambda>_. Some (0, 10)) id demo_pool_env (Some (zero_user\<lparr>user_is_admin := True\<rparr>))
      (Some (''2026-03'', 50)) demo_month = (db', HttpOK 200 (?p, allocs))"
    and allocs: "allocs = map (allocation demo_pool_env ?p) [(0, ''ann'', 10), (1, ''bo'', 2)]"
    using saved by (auto simp: ComputePool_def ComputeCreatorPool_def demo_pool_env_def demo_minutes revenue cap_creator_def Let_def)
  have small: "pm_minutes ?p < 2 ^ 53" by (simp add: amount)
  note fact = pool_never_overpaid [OF run small]
  have "map pa_earnings allocs = map (\<lambda>a. 399 * pa_minutes a div 12) allocs"
    using fact by (simp add: amount)
  also have "\<dots> = [332, 66]" by (simp add: allocs allocation_simps)
  finally have "map pa_earnings allocs = [332, 66]" .
  moreover have "earned_in ''pool:2026-03'' db' \<le> 399" using fact by (simp only: amount)
  ultimately show ?thesis using run amount(1) by metis
qed

end
