(* ===== verification/Migrations.thy ===== *)
theory Migrations
  imports Prelude "HOL-Library.Char_ord" "HOL-Library.List_Lexorder"
begin

text \<open>
  The migrations that run when a server starts (\<open>RunMigrations\<close> of \<open>internal/store/postgres.go\<close>), for
  several replicas that start, crash and restart at any time against one database. What the SQL of a file
  does to a schema is an argument: a new schema or the error with its SQLSTATE. A file runs in one
  transaction, so its effect and its entry in \<open>schema_migrations\<close> come together or not at all. File
  names are compared bytewise, as \<open>sort.Strings\<close> does.
\<close>

section \<open>One file\<close>

datatype sql_error = PgError string | Unreachable

definition isAlreadyAppliedError :: "sql_error \<Rightarrow> bool" where
  "isAlreadyAppliedError e = (case e of
       PgError code \<Rightarrow> code \<in> set [''42P07'', ''42701'', ''42710'', ''23505'']
     | Unreachable \<Rightarrow> False)"

definition legacyMigrationCutoff :: string where "legacyMigrationCutoff = ''013''"

record 's migrated =
  mg_schema :: 's
  mg_recorded :: "string list"

datatype migration_error = BeginError | ExecError sql_error | RecordError | CommitError | ReadError | SetupError

text \<open>A commit whose answer is lost has taken effect all the same.\<close>

datatype commit_outcome = Committed | CommitFailed | AnswerLost

record apply_faults =
  af_begin :: bool
  af_record :: bool
  af_commit :: commit_outcome

definition applyMigration ::
  "(string \<Rightarrow> 's \<Rightarrow> sql_error + 's) \<Rightarrow> apply_faults \<Rightarrow> string \<Rightarrow> string \<Rightarrow> 's migrated
     \<Rightarrow> 's migrated \<times> migration_error option" where
  "applyMigration run f name sql db =
     (if af_begin f then (db, Some BeginError)
      else case run sql (mg_schema db) of
          Inl e \<Rightarrow>
            if \<not> isAlreadyAppliedError e \<or> name \<ge> legacyMigrationCutoff then (db, Some (ExecError e))
            else if af_record f then (db, Some RecordError)
            else (db\<lparr>mg_recorded := (if name \<in> set (mg_recorded db) then mg_recorded db else mg_recorded db @ [name])\<rparr>, None)
        | Inr schema \<Rightarrow>
            if af_record f \<or> name \<in> set (mg_recorded db) then (db, Some RecordError)
            else (let db' = db\<lparr>mg_schema := schema, mg_recorded := mg_recorded db @ [name]\<rparr> in
              case af_commit f of
                Committed \<Rightarrow> (db', None)
              | CommitFailed \<Rightarrow> (db, Some CommitError)
              | AnswerLost \<Rightarrow> (db', Some CommitError)))"

section \<open>All files\<close>

definition listUpMigrations :: "(string \<times> bool) list \<Rightarrow> string list" where
  "listUpMigrations entries =
     sort (map fst (filter (\<lambda>(name, is_dir). \<not> is_dir \<and> has_suffix name ''.up.sql'') entries))"

text \<open>\<open>applied\<close> are the names that the run read at its start.\<close>

fun apply_pending ::
  "(string \<Rightarrow> 's \<Rightarrow> sql_error + 's) \<Rightarrow> (string \<Rightarrow> string option) \<Rightarrow> (string \<Rightarrow> apply_faults) \<Rightarrow> string set
     \<Rightarrow> string list \<Rightarrow> 's migrated \<Rightarrow> 's migrated \<times> migration_error option" where
  "apply_pending run content f applied [] db = (db, None)"
| "apply_pending run content f applied (name # names) db =
     (if name \<in> applied then apply_pending run content f applied names db
      else case content name of
          None \<Rightarrow> (db, Some ReadError)
        | Some sql \<Rightarrow> (case applyMigration run (f name) name sql db of
              (db', Some e) \<Rightarrow> (db', Some e)
            | (db', None) \<Rightarrow> apply_pending run content f applied names db'))"

text \<open>
  \<open>setup\<close> says that the connection, the lock, the bookkeeping table, the directory or the list of what is
  applied could not be had. The lock is held from before the list is read until the end.
\<close>

definition RunMigrations ::
  "(string \<Rightarrow> 's \<Rightarrow> sql_error + 's) \<Rightarrow> (string \<times> bool) list \<Rightarrow> (string \<Rightarrow> string option) \<Rightarrow> bool
     \<Rightarrow> (string \<Rightarrow> apply_faults) \<Rightarrow> 's migrated \<Rightarrow> 's migrated \<times> migration_error option" where
  "RunMigrations run entries content setup f db =
     (if setup then (db, Some SetupError)
      else apply_pending run content f (set (mg_recorded db)) (listUpMigrations entries) db)"

section \<open>Replicas\<close>

text \<open>
  A replica waits for the lock, works on the files that remain, has started, or has failed. It comes
  with the entries of its directory and their contents, which may differ between versions. A crash
  ends its session, and with it the lock, which it holds on the connection that does the work.
\<close>

datatype boot = Waiting | Migrating "string list" "string set" | Booted | BootFailed

record 's cluster =
  cu_db :: "'s migrated"
  cu_lock :: "nat option"
  cu_boot :: "nat \<Rightarrow> boot"
  cu_log :: "(string \<times> string) list"

record release =
  rel_files :: "string list"
  rel_content :: "string \<Rightarrow> string option"

text \<open>The log of the files whose SQL took effect.\<close>

definition took_effect :: "string \<Rightarrow> string \<Rightarrow> 's migrated \<Rightarrow> 's migrated \<Rightarrow> apply_faults
    \<Rightarrow> (string \<Rightarrow> 's \<Rightarrow> sql_error + 's) \<Rightarrow> (string \<times> string) list" where
  "took_effect name sql db db' f run =
     (if \<not> af_begin f \<and> (\<exists>s. run sql (mg_schema db) = Inr s) \<and> name \<notin> set (mg_recorded db)
         \<and> name \<in> set (mg_recorded db') then [(name, sql)] else [])"

inductive boot_step :: "(string \<Rightarrow> 's \<Rightarrow> sql_error + 's) \<Rightarrow> (nat \<Rightarrow> release) \<Rightarrow> 's cluster \<Rightarrow> 's cluster \<Rightarrow> bool"
  for run rel where
  took: "cu_lock s = None \<Longrightarrow> cu_boot s r = Waiting
    \<Longrightarrow> boot_step run rel s (s\<lparr>cu_lock := Some r,
          cu_boot := (cu_boot s)(r := Migrating (rel_files (rel r)) (set (mg_recorded (cu_db s))))\<rparr>)"
| skip: "cu_lock s = Some r \<Longrightarrow> cu_boot s r = Migrating (name # names) applied \<Longrightarrow> name \<in> applied
    \<Longrightarrow> boot_step run rel s (s\<lparr>cu_boot := (cu_boot s)(r := Migrating names applied)\<rparr>)"
| step: "cu_lock s = Some r \<Longrightarrow> cu_boot s r = Migrating (name # names) applied \<Longrightarrow> name \<notin> applied
    \<Longrightarrow> rel_content (rel r) name = Some sql \<Longrightarrow> applyMigration run f name sql (cu_db s) = (db', None)
    \<Longrightarrow> boot_step run rel s (s\<lparr>cu_db := db', cu_boot := (cu_boot s)(r := Migrating names applied),
          cu_log := cu_log s @ took_effect name sql (cu_db s) db' f run\<rparr>)"
| refused: "cu_lock s = Some r \<Longrightarrow> cu_boot s r = Migrating (name # names) applied \<Longrightarrow> name \<notin> applied
    \<Longrightarrow> rel_content (rel r) name = Some sql \<Longrightarrow> applyMigration run f name sql (cu_db s) = (db', Some e)
    \<Longrightarrow> boot_step run rel s (s\<lparr>cu_db := db', cu_lock := None, cu_boot := (cu_boot s)(r := BootFailed),
          cu_log := cu_log s @ took_effect name sql (cu_db s) db' f run\<rparr>)"
| unreadable: "cu_lock s = Some r \<Longrightarrow> cu_boot s r = Migrating (name # names) applied \<Longrightarrow> name \<notin> applied
    \<Longrightarrow> rel_content (rel r) name = None
    \<Longrightarrow> boot_step run rel s (s\<lparr>cu_lock := None, cu_boot := (cu_boot s)(r := BootFailed)\<rparr>)"
| started: "cu_lock s = Some r \<Longrightarrow> cu_boot s r = Migrating [] applied
    \<Longrightarrow> boot_step run rel s (s\<lparr>cu_lock := None, cu_boot := (cu_boot s)(r := Booted)\<rparr>)"
| crash: "boot_step run rel s (s\<lparr>cu_lock := (if cu_lock s = Some r then None else cu_lock s),
          cu_boot := (cu_boot s)(r := Waiting)\<rparr>)"

definition cluster_start :: "'s migrated \<Rightarrow> 's cluster" where
  "cluster_start db = \<lparr>cu_db = db, cu_lock = None, cu_boot = (\<lambda>_. Waiting), cu_log = []\<rparr>"

abbreviation cluster_runs where
  "cluster_runs run rel db s \<equiv> (boot_step run rel)\<^sup>*\<^sup>* (cluster_start db) s"

section \<open>What a file does\<close>

lemma applyMigration_cases:
  assumes "applyMigration run f name sql db = (db', r)"
  shows "db' = db \<and> r \<noteq> None
    \<or> (\<exists>e. run sql (mg_schema db) = Inl e) \<and> mg_schema db' = mg_schema db \<and> r = None
        \<and> set (mg_recorded db') = insert name (set (mg_recorded db))
    \<or> (\<exists>schema. \<not> af_begin f \<and> run sql (mg_schema db) = Inr schema \<and> name \<notin> set (mg_recorded db)
        \<and> mg_schema db' = schema \<and> mg_recorded db' = mg_recorded db @ [name])"
proof (cases "af_begin f")
  case False
  show ?thesis
  proof (cases "run sql (mg_schema db)")
    case (Inl e)
    then show ?thesis using assms False
      by (auto simp add: applyMigration_def insert_absorb split: if_split_asm)
  next
    case (Inr schema)
    then show ?thesis using assms False
      by (cases "af_commit f") (auto simp add: applyMigration_def Let_def split: if_split_asm)
  qed
qed (use assms in \<open>auto simp: applyMigration_def\<close>)

fun replay :: "(string \<Rightarrow> 's \<Rightarrow> sql_error + 's) \<Rightarrow> string list \<Rightarrow> 's \<Rightarrow> 's option" where
  "replay run [] s = Some s"
| "replay run (sql # sqls) s = (case run sql s of Inl _ \<Rightarrow> None | Inr s' \<Rightarrow> replay run sqls s')"

lemma replay_append: "replay run (xs @ ys) s = (case replay run xs s of None \<Rightarrow> None | Some s' \<Rightarrow> replay run ys s')"
  by (induction xs arbitrary: s) (auto split: sum.split)

lemma applied_file:
  assumes "applyMigration run f name sql db = (db', r)"
  shows "took_effect name sql db db' f run = [] \<and> mg_schema db' = mg_schema db
      \<or> took_effect name sql db db' f run = [(name, sql)] \<and> run sql (mg_schema db) = Inr (mg_schema db')
        \<and> name \<notin> set (mg_recorded db) \<and> name \<in> set (mg_recorded db')"
    and "set (mg_recorded db') = set (mg_recorded db) \<or> set (mg_recorded db') = insert name (set (mg_recorded db))"
    and "r = None \<Longrightarrow> name \<in> set (mg_recorded db')"
  using applyMigration_cases [OF assms] by (auto simp: took_effect_def)

section \<open>The invariant of the cluster\<close>

definition log_ok :: "(string \<Rightarrow> 's \<Rightarrow> sql_error + 's) \<Rightarrow> 's migrated \<Rightarrow> 's cluster \<Rightarrow> bool" where
  "log_ok run db0 s \<longleftrightarrow> distinct (map fst (cu_log s)) \<and> fst ` set (cu_log s) \<subseteq> set (mg_recorded (cu_db s))
     \<and> fst ` set (cu_log s) \<inter> set (mg_recorded db0) = {} \<and> set (mg_recorded db0) \<subseteq> set (mg_recorded (cu_db s))
     \<and> replay run (map snd (cu_log s)) (mg_schema db0) = Some (mg_schema (cu_db s))"

definition replica_ok :: "release \<Rightarrow> string set \<Rightarrow> boot \<Rightarrow> bool" where
  "replica_ok rl recorded b = (case b of
       Migrating rest applied \<Rightarrow> applied \<subseteq> recorded \<and> distinct rest \<and> set rest \<inter> recorded \<subseteq> applied
         \<and> (\<exists>before. rel_files rl = before @ rest \<and> set before \<subseteq> recorded)
     | Booted \<Rightarrow> set (rel_files rl) \<subseteq> recorded
     | _ \<Rightarrow> True)"

definition boots_ok :: "(nat \<Rightarrow> release) \<Rightarrow> 's cluster \<Rightarrow> bool" where
  "boots_ok rel s \<longleftrightarrow> (\<forall>r. replica_ok (rel r) (set (mg_recorded (cu_db s))) (cu_boot s r)
     \<and> ((\<exists>rest applied. cu_boot s r = Migrating rest applied) \<longrightarrow> cu_lock s = Some r))"

lemma log_ok_apply:
  assumes "log_ok run db0 s" and "applyMigration run f name sql (cu_db s) = (db', r)"
    and "cu_db t = db'" and "cu_log t = cu_log s @ took_effect name sql (cu_db s) db' f run"
  shows "log_ok run db0 t"
  using applied_file(1,2) [OF assms(2)] assms(1)
  by (auto simp: log_ok_def assms(3,4) replay_append)

lemma replica_ok_mono:
  assumes "replica_ok rl R b" and "\<And>rest applied. b \<noteq> Migrating rest applied" and "R \<subseteq> S"
  shows "replica_ok rl S b"
  using assms by (cases b) (auto simp: replica_ok_def)

lemma boots_ok_holder:
  assumes "boots_ok rel s" and "cu_lock s = Some r" and "r' \<noteq> r"
  shows "cu_boot s r' \<noteq> Migrating rest applied"
  using assms by (auto simp: boots_ok_def)

lemma boots_ok_update:
  assumes ok: "boots_ok rel s" and lock: "cu_lock s = Some r"
    and t: "cu_boot t = (cu_boot s)(r := b)" "set (mg_recorded (cu_db s)) \<subseteq> set (mg_recorded (cu_db t))"
    and own: "replica_ok (rel r) (set (mg_recorded (cu_db t))) b"
      "(\<exists>rest applied. b = Migrating rest applied) \<longrightarrow> cu_lock t = Some r"
  shows "boots_ok rel t"
  unfolding boots_ok_def
proof (intro allI conjI)
  fix q
  have other: "replica_ok (rel q) (set (mg_recorded (cu_db t))) (cu_boot s q)" if "q \<noteq> r"
    by (rule replica_ok_mono [OF _ boots_ok_holder [OF ok lock that] t(2)]) (use ok in \<open>simp add: boots_ok_def\<close>)
  then show "replica_ok (rel q) (set (mg_recorded (cu_db t))) (cu_boot t q)" using own(1) by (simp add: t(1))
  show "(\<exists>rest applied. cu_boot t q = Migrating rest applied) \<longrightarrow> cu_lock t = Some q"
    using own(2) boots_ok_holder [OF ok lock] by (auto simp: t(1))
qed

lemma boots_ok_step:
  assumes "boot_step run rel s t" and "boots_ok rel s" and files: "\<And>r. distinct (rel_files (rel r))"
  shows "boots_ok rel t"
  using assms(1,2)
proof cases
  case (took r)
  have "cu_boot s q \<noteq> Migrating rest applied" for q rest applied using assms(2) took(2) by (force simp: boots_ok_def)
  then show ?thesis using assms(2) files [of r] by (auto simp: boots_ok_def took(1) replica_ok_def)
next
  case (skip r name names applied)
  have "replica_ok (rel r) (set (mg_recorded (cu_db s))) (Migrating (name # names) applied)"
    using assms(2) skip(3) by (metis boots_ok_def)
  then obtain before where "rel_files (rel r) = before @ name # names" "set before \<subseteq> set (mg_recorded (cu_db s))"
      "applied \<subseteq> set (mg_recorded (cu_db s))" "distinct names" "set names \<inter> set (mg_recorded (cu_db s)) \<subseteq> applied"
    by (auto simp: replica_ok_def)
  then have "replica_ok (rel r) (set (mg_recorded (cu_db s))) (Migrating names applied)"
    using skip(4) by (auto simp: replica_ok_def intro!: exI [of _ "before @ [name]"])
  then show ?thesis by (intro boots_ok_update [OF assms(2) skip(2)]) (simp_all add: skip(1,2))
next
  case (step r name names applied sql f db')
  have "replica_ok (rel r) (set (mg_recorded (cu_db s))) (Migrating (name # names) applied)"
    using assms(2) step(3) by (metis boots_ok_def)
  then obtain before where "rel_files (rel r) = before @ name # names" "set before \<subseteq> set (mg_recorded (cu_db s))"
      "applied \<subseteq> set (mg_recorded (cu_db s))" "distinct (name # names)" "set names \<inter> set (mg_recorded (cu_db s)) \<subseteq> applied"
    by (auto simp: replica_ok_def)
  moreover have "set (mg_recorded db') = insert name (set (mg_recorded (cu_db s)))"
    using applied_file(2,3) [OF step(6)] by auto
  ultimately have "replica_ok (rel r) (set (mg_recorded db')) (Migrating names applied)"
    by (auto simp: replica_ok_def intro!: exI [of _ "before @ [name]"])
  then show ?thesis
    using applied_file(2) [OF step(6)] by (intro boots_ok_update [OF assms(2) step(2)]) (auto simp: step(1,2))
next
  case (refused r name names applied sql f db' e)
  then show ?thesis
    using applied_file(2) [OF refused(6)] by (intro boots_ok_update [OF assms(2) refused(2)]) (auto simp: replica_ok_def)
next
  case (unreadable r name names applied)
  show ?thesis by (rule boots_ok_update [OF assms(2) unreadable(2), of _ BootFailed]) (simp_all add: unreadable(1) replica_ok_def)
next
  case (started r applied)
  have "replica_ok (rel r) (set (mg_recorded (cu_db s))) (Migrating [] applied)"
    using assms(2) started(3) by (metis boots_ok_def)
  then have "replica_ok (rel r) (set (mg_recorded (cu_db s))) Booted" by (auto simp: replica_ok_def)
  then show ?thesis by (intro boots_ok_update [OF assms(2) started(2), of _ Booted]) (simp_all add: started(1))
next
  case (crash r)
  show ?thesis
  proof (cases "cu_lock s = Some r")
    case True
    then show ?thesis by (intro boots_ok_update [OF assms(2) True, of _ Waiting]) (simp_all add: crash replica_ok_def)
  next
    case False
    then show ?thesis using assms(2) by (simp add: boots_ok_def crash) (simp add: replica_ok_def)
  qed
qed

lemma log_ok_step:
  assumes "boot_step run rel s t" and "log_ok run db0 s"
  shows "log_ok run db0 t"
  using assms
proof cases
  case (step r name names applied sql f db')
  then show ?thesis by (intro log_ok_apply [OF assms(2) step(6)]) simp_all
next
  case (refused r name names applied sql f db' e)
  then show ?thesis by (intro log_ok_apply [OF assms(2) refused(6)]) simp_all
qed (use assms(2) in \<open>simp_all add: log_ok_def\<close>)

lemma cluster_invariant:
  assumes "cluster_runs run rel db0 s" and "\<And>r. distinct (rel_files (rel r))"
  shows "log_ok run db0 s \<and> boots_ok rel s"
  using assms(1)
proof (induction rule: rtranclp_induct)
  case base
  show ?case by (simp add: log_ok_def boots_ok_def replica_ok_def cluster_start_def)
next
  case (step s t)
  then show ?case using log_ok_step boots_ok_step assms(2) by blast
qed

text \<open>With one list of files and nothing else recorded, what is recorded is always an initial part of the list.\<close>

lemma version_prefix:
  assumes "cluster_runs run rel db0 s" and files: "\<And>r. rel_files (rel r) = F" and "distinct F"
    and "set (mg_recorded db0) = set (take k F)"
  shows "\<exists>k. set (mg_recorded (cu_db s)) = set (take k F)"
  using assms(1)
proof (induction rule: rtranclp_induct)
  case base
  show ?case using assms(4) by (auto simp: cluster_start_def)
next
  case (step s t)
  from cluster_invariant [OF step(1)] files assms(3) have ok: "boots_ok rel s" by simp
  have extended: "\<exists>k. set (mg_recorded db') = set (take k F)"
    if boot: "cu_boot s r = Migrating (name # names) applied" and new: "name \<notin> applied"
      and applied: "applyMigration run f name sql (cu_db s) = (db', e)" for r name names applied sql f db' e
  proof -
    let ?R = "set (mg_recorded (cu_db s))"
    obtain k where k: "?R = set (take k F)" using step.IH by blast
    have "replica_ok (rel r) ?R (Migrating (name # names) applied)" using ok boot by (metis boots_ok_def)
    then have "\<exists>before. F = before @ name # names \<and> set before \<subseteq> ?R" and fresh: "name \<notin> ?R"
      using new by (auto simp: replica_ok_def files)
    then obtain before where "F = before @ name # names" "set before \<subseteq> ?R" by blast
    with fresh k have before: "F = before @ name # names" "set before \<subseteq> set (take k F)" "name \<notin> set (take k F)" by simp_all
    have "set (take k F) = set before"
    proof (cases "k \<le> length before")
      case True
      then show ?thesis using before(1,2) by (auto dest: in_set_takeD)
    next
      case False
      then obtain d where "k = Suc (length before + d)" by (metis less_imp_Suc_add not_le)
      then have "name \<in> set (take k F)" by (simp add: before(1))
      with before(3) show ?thesis by blast
    qed
    moreover have "set (take (Suc (length before)) F) = insert name (set before)" by (simp add: before(1))
    ultimately show ?thesis using applied_file(2) [OF applied] k by metis
  qed
  from step(2) show ?case
  proof cases
    case (step r name names applied sql f db')
    then show ?thesis using extended by simp
  next
    case (refused r name names applied sql f db' e)
    then show ?thesis using extended by simp
  qed (use step.IH in simp_all)
qed

lemma conflict_free:
  assumes "applyMigration run f name sql db = (db', Some RecordError)" and "name \<notin> set (mg_recorded db)"
  shows "af_record f"
  using assms by (auto simp: applyMigration_def Let_def split: if_splits sum.splits commit_outcome.splits)

text \<open>
  C31: Every migration takes effect at most once and in order. Whatever replicas start, crash and
  restart in whatever interleaving, with statements and commits failing and answers of commits
  lost, no file's SQL takes effect twice or although it was recorded before; the schema is what the SQL of the log,
  run in its order, makes of the schema at the start; only one replica works at a time, and none
  fails because another one recorded a file first; a replica that has started finds all its files
  recorded; and if all replicas have the same files, the recorded ones are always an initial part of them.
\<close>

theorem migrations_apply_once:
  assumes "cluster_runs run rel db0 s" and "\<And>r. distinct (rel_files (rel r))"
  shows "distinct (map fst (cu_log s)) \<and> fst ` set (cu_log s) \<inter> set (mg_recorded db0) = {}
    \<and> fst ` set (cu_log s) \<subseteq> set (mg_recorded (cu_db s))
    \<and> replay run (map snd (cu_log s)) (mg_schema db0) = Some (mg_schema (cu_db s))
    \<and> (\<forall>r q rest rest' applied applied'. cu_boot s r = Migrating rest applied \<and> cu_boot s q = Migrating rest' applied' \<longrightarrow> r = q)
    \<and> (\<forall>r name names applied sql f db'. cu_boot s r = Migrating (name # names) applied \<and> name \<notin> applied
        \<and> applyMigration run f name sql (cu_db s) = (db', Some RecordError) \<longrightarrow> af_record f)
    \<and> (\<forall>r. cu_boot s r = Booted \<longrightarrow> set (rel_files (rel r)) \<subseteq> set (mg_recorded (cu_db s)))
    \<and> (\<forall>F k. (\<forall>r. rel_files (rel r) = F) \<and> set (mg_recorded db0) = set (take k F) \<longrightarrow>
        (\<exists>k. set (mg_recorded (cu_db s)) = set (take k F)))"
proof -
  from cluster_invariant [OF assms] have log: "log_ok run db0 s" and boots: "boots_ok rel s" by simp_all
  have one: "r = q" if "cu_boot s r = Migrating rest applied" "cu_boot s q = Migrating rest' applied'"
    for r q rest rest' applied applied'
    using boots that by (metis boots_ok_def option.inject)
  have race: "af_record f" if boot: "cu_boot s r = Migrating (name # names) applied" and "name \<notin> applied"
      "applyMigration run f name sql (cu_db s) = (db', Some RecordError)" for r name names applied sql f db'
  proof -
    have "replica_ok (rel r) (set (mg_recorded (cu_db s))) (Migrating (name # names) applied)"
      using boots boot by (metis boots_ok_def)
    then have "name \<notin> set (mg_recorded (cu_db s))" using that(2) by (auto simp: replica_ok_def)
    from conflict_free [OF that(3) this] show ?thesis .
  qed
  have booted: "set (rel_files (rel r)) \<subseteq> set (mg_recorded (cu_db s))" if "cu_boot s r = Booted" for r
  proof -
    have "replica_ok (rel r) (set (mg_recorded (cu_db s))) (cu_boot s r)" using boots by (simp add: boots_ok_def)
    then show ?thesis by (simp add: replica_ok_def that)
  qed
  have version: "\<exists>k. set (mg_recorded (cu_db s)) = set (take k F)"
    if "\<forall>r. rel_files (rel r) = F" "set (mg_recorded db0) = set (take k F)" for F k
  proof -
    have "distinct F" using assms(2) that(1) by metis
    from version_prefix [OF assms(1) _ this that(2)] that(1) show ?thesis by blast
  qed
  show ?thesis
  proof (intro conjI)
    show "\<forall>r q rest rest' applied applied'. cu_boot s r = Migrating rest applied \<and> cu_boot s q = Migrating rest' applied' \<longrightarrow> r = q"
      using one by blast
    show "\<forall>r name names applied sql f db'. cu_boot s r = Migrating (name # names) applied \<and> name \<notin> applied
        \<and> applyMigration run f name sql (cu_db s) = (db', Some RecordError) \<longrightarrow> af_record f"
      using race by blast
    show "\<forall>r. cu_boot s r = Booted \<longrightarrow> set (rel_files (rel r)) \<subseteq> set (mg_recorded (cu_db s))"
      using booted by blast
    show "\<forall>F k. (\<forall>r. rel_files (rel r) = F) \<and> set (mg_recorded db0) = set (take k F) \<longrightarrow>
        (\<exists>k. set (mg_recorded (cu_db s)) = set (take k F))"
      using version by blast
  qed (use log in \<open>simp_all add: log_ok_def\<close>)
qed

section \<open>The function as steps\<close>

lemma boot_step_then:
  assumes "boot_step run rel s t" and "\<exists>u. (boot_step run rel)\<^sup>*\<^sup>* t u \<and> P u"
  shows "\<exists>u. (boot_step run rel)\<^sup>*\<^sup>* s u \<and> P u"
  using assms by (metis converse_rtranclp_into_rtranclp)

lemma apply_pending_steps:
  assumes "cu_lock s = Some r" and "cu_boot s r = Migrating names applied" and "rel_content (rel r) = content"
    and "apply_pending run content f applied names (cu_db s) = (db', e)"
  shows "\<exists>t. (boot_step run rel)\<^sup>*\<^sup>* s t \<and> cu_db t = db' \<and> cu_lock t = None
    \<and> cu_boot t r = (if e = None then Booted else BootFailed)"
  using assms
proof (induction run content f applied names "cu_db s" arbitrary: s rule: apply_pending.induct)
  case (1 run content f applied s)
  let ?t = "s\<lparr>cu_lock := None, cu_boot := (cu_boot s)(r := Booted)\<rparr>"
  have "boot_step run rel s ?t" using 1 by (intro boot_step.started) auto
  with 1 show ?case by (intro exI [of _ ?t]) auto
next
  case (2 run content f applied name names s)
  show ?case
  proof (cases "name \<in> applied")
    case True
    let ?t = "s\<lparr>cu_boot := (cu_boot s)(r := Migrating names applied)\<rparr>"
    have "boot_step run rel s ?t" using 2(3,4) True by (intro boot_step.skip)
    moreover have "\<exists>t. (boot_step run rel)\<^sup>*\<^sup>* ?t t \<and> cu_db t = db' \<and> cu_lock t = None
        \<and> cu_boot t r = (if e = None then Booted else BootFailed)"
      using 2(3,5,6) True by (intro 2(1)) simp_all
    ultimately show ?thesis by (rule boot_step_then)
  next
    case new: False
    show ?thesis
    proof (cases "content name")
      case None
      let ?t = "s\<lparr>cu_lock := None, cu_boot := (cu_boot s)(r := BootFailed)\<rparr>"
      have "boot_step run rel s ?t" using 2(3-5) new None by (intro boot_step.unreadable) simp_all
      with 2(6) new None show ?thesis by (intro exI [of _ ?t]) auto
    next
      case (Some sql)
      obtain db1 r1 where one: "applyMigration run (f name) name sql (cu_db s) = (db1, r1)" by fastforce
      let ?log = "cu_log s @ took_effect name sql (cu_db s) db1 (f name) run"
      show ?thesis
      proof (cases r1)
        case err: (Some e1)
        let ?t = "s\<lparr>cu_db := db1, cu_lock := None, cu_boot := (cu_boot s)(r := BootFailed), cu_log := ?log\<rparr>"
        have "boot_step run rel s ?t" using 2(3-5) new Some one err by (intro boot_step.refused) simp_all
        with 2(6) new Some one err show ?thesis by (intro exI [of _ ?t]) auto
      next
        case ok: None
        let ?t = "s\<lparr>cu_db := db1, cu_boot := (cu_boot s)(r := Migrating names applied), cu_log := ?log\<rparr>"
        have "boot_step run rel s ?t" using 2(3-5) new Some one ok by (intro boot_step.step) simp_all
        moreover have "\<exists>t. (boot_step run rel)\<^sup>*\<^sup>* ?t t \<and> cu_db t = db' \<and> cu_lock t = None
            \<and> cu_boot t r = (if e = None then Booted else BootFailed)"
          using 2(3,5,6) new Some one ok by (intro 2(2) [OF new Some, where s = ?t and y = None]) simp_all
        ultimately show ?thesis by (rule boot_step_then)
      qed
    qed
  qed
qed

lemma RunMigrations_runs:
  assumes "RunMigrations run entries content False f db = (db', e)"
    and "rel r = \<lparr>rel_files = listUpMigrations entries, rel_content = content\<rparr>"
  shows "\<exists>s. cluster_runs run rel db s \<and> cu_db s = db' \<and> cu_boot s r = (if e = None then Booted else BootFailed)"
proof -
  let ?s = "(cluster_start db)\<lparr>cu_lock := Some r, cu_boot := (cu_boot (cluster_start db))(r :=
      Migrating (rel_files (rel r)) (set (mg_recorded (cu_db (cluster_start db)))))\<rparr>"
  have took: "boot_step run rel (cluster_start db) ?s" by (rule boot_step.took) (simp_all add: cluster_start_def)
  have "\<exists>t. (boot_step run rel)\<^sup>*\<^sup>* ?s t \<and> cu_db t = db' \<and> cu_lock t = None
      \<and> cu_boot t r = (if e = None then Booted else BootFailed)"
    by (rule apply_pending_steps [where names = "listUpMigrations entries" and applied = "set (mg_recorded db)" and content = content and f = f])
      (use assms in \<open>simp_all add: RunMigrations_def cluster_start_def\<close>)
  from boot_step_then [OF took this] show ?thesis by blast
qed

lemma distinct_listUpMigrations: "distinct (map fst entries) \<Longrightarrow> distinct (listUpMigrations entries)"
  by (simp add: listUpMigrations_def distinct_map_filter)

definition demo_sql :: "string \<Rightarrow> string list \<Rightarrow> sql_error + string list" where
  "demo_sql sql tables = (if sql \<in> set tables then Inl (PgError ''42P07'') else Inr (tables @ [sql]))"

definition demo_entries :: "(string \<times> bool) list" where
  "demo_entries = [(''002_b.up.sql'', False), (''001_a.down.sql'', False), (''001_a.up.sql'', False), (''old.up.sql'', True)]"

definition demo_content :: "string \<Rightarrow> string option" where
  "demo_content = map_of [(''001_a.up.sql'', ''rooms''), (''002_b.up.sql'', ''users'')]"

lemma demo_files: "listUpMigrations demo_entries = [''001_a.up.sql'', ''002_b.up.sql'']"
  by code_simp

theorem migrations_apply_once_witness:
  "\<exists>s. cluster_runs demo_sql (\<lambda>_. \<lparr>rel_files = listUpMigrations demo_entries, rel_content = demo_content\<rparr>)
      \<lparr>mg_schema = [''rooms''], mg_recorded = []\<rparr> s
    \<and> cu_boot s 1 = Booted \<and> mg_schema (cu_db s) = [''rooms'', ''users'']
    \<and> set [''001_a.up.sql'', ''002_b.up.sql''] \<subseteq> set (mg_recorded (cu_db s))
    \<and> replay demo_sql (map snd (cu_log s)) [''rooms''] = Some [''rooms'', ''users'']"
proof -
  let ?db = "\<lparr>mg_schema = [''rooms''], mg_recorded = []\<rparr>"
  let ?rel = "\<lambda>_::nat. \<lparr>rel_files = listUpMigrations demo_entries, rel_content = demo_content\<rparr>"
  let ?f = "\<lambda>_. \<lparr>af_begin = False, af_record = False, af_commit = Committed\<rparr>"
  have old: "\<not> legacyMigrationCutoff \<le> ''001_a.up.sql''" by code_simp
  have "\<exists>db'. RunMigrations demo_sql demo_entries demo_content False ?f ?db = (db', None) \<and> mg_schema db' = [''rooms'', ''users'']"
    by (simp add: RunMigrations_def demo_files demo_content_def applyMigration_def demo_sql_def isAlreadyAppliedError_def old)
  then obtain db' where run: "RunMigrations demo_sql demo_entries demo_content False ?f ?db = (db', None)"
    and schema: "mg_schema db' = [''rooms'', ''users'']" by blast
  obtain s where s: "cluster_runs demo_sql ?rel ?db s" "cu_db s = db'" "cu_boot s 1 = Booted"
    using RunMigrations_runs [OF run, of ?rel 1] by auto
  have "distinct (rel_files (?rel r))" for r by (simp add: demo_files)
  note fact = migrations_apply_once [OF s(1) this]
  have "set (rel_files (?rel 1)) \<subseteq> set (mg_recorded (cu_db s))" using fact s(3) by blast
  moreover have "replay demo_sql (map snd (cu_log s)) [''rooms''] = Some [''rooms'', ''users'']"
    using fact by (simp add: s(2) schema)
  ultimately show ?thesis using s schema by (intro exI [of _ s]) (simp add: demo_files)
qed

end
