(* ===== verification/Guards.thy ===== *)
theory Guards
  imports AuthProps Checks
begin

text \<open>
  What stands in front of the handlers: the captcha (\<open>internal/antispam/captcha.go\<close>), the check of a mail
  domain (\<open>mx.go\<close>), the hostnames on which captchas may be solved and the limits on request bodies
  (\<open>cmd/server/main.go\<close>), and the rule on content types (\<open>internal/middleware/security.go\<close>). Cloudflare
  and the resolver are arguments. The checks are then put into \<open>Signup\<close> as the server wires them.
\<close>

section \<open>The captcha\<close>

record TurnstileResponse =
  tr_success :: bool
  tr_hostname :: string

text \<open>The service is asked for a secret, a token and an address, which is left out if empty; \<open>None\<close> stands
  for a failed request and for an answer that does not decode.\<close>

datatype captcha_error = CaptchaRequired | CaptchaFailed | CaptchaElsewhere string

definition VerifyTurnstile ::
  "(string \<Rightarrow> string \<Rightarrow> string option \<Rightarrow> TurnstileResponse option) \<Rightarrow> string \<Rightarrow> string \<Rightarrow> string \<Rightarrow> string list
     \<Rightarrow> captcha_error option" where
  "VerifyTurnstile siteverify secretKey token remoteIP allowedHostnames =
     (if secretKey = '''' then None
      else if token = '''' then Some CaptchaRequired
      else case siteverify secretKey token (if remoteIP \<noteq> '''' then Some remoteIP else None) of
          None \<Rightarrow> Some CaptchaFailed
        | Some result \<Rightarrow>
            if \<not> tr_success result then Some CaptchaFailed
            else if allowedHostnames \<noteq> []
                \<and> \<not> list_ex (\<lambda>h. to_lower (tr_hostname result) = to_lower h) allowedHostnames
            then Some (CaptchaElsewhere (tr_hostname result))
            else None)"

text \<open>\<open>u.Hostname()\<close> is empty for a URL without a host.\<close>

definition host_of :: "url_parser \<Rightarrow> string \<Rightarrow> string option" where
  "host_of parse raw = (case parse (trim_space raw) of
       None \<Rightarrow> None
     | Some (scheme, host) \<Rightarrow> if host = '''' then None else Some (to_lower host))"

fun hostnames_from :: "url_parser \<Rightarrow> string list \<Rightarrow> string list \<Rightarrow> string list" where
  "hostnames_from parse seen [] = []"
| "hostnames_from parse seen (raw # urls) =
     (case host_of parse raw of
        None \<Rightarrow> hostnames_from parse seen urls
      | Some h \<Rightarrow>
          if h \<in> set seen then hostnames_from parse seen urls
          else h # hostnames_from parse (h # seen) urls)"

definition hostnamesFromURLs :: "url_parser \<Rightarrow> string list \<Rightarrow> string list" where
  "hostnamesFromURLs parse urls = hostnames_from parse [] urls"

section \<open>Mail domains\<close>

text \<open>What \<open>errors.As\<close> finds in a failed look-up: nothing, or the flags of a DNS error.\<close>

datatype dns_error = OtherError | DNSError (is_timeout: bool) (is_temporary: bool) (is_not_found: bool)

record resolver =
  lookup_mx :: "string \<Rightarrow> string list \<times> dns_error option"
  lookup_host :: "string \<Rightarrow> dns_error + string list"

definition isDefinitiveDNSError :: "dns_error \<Rightarrow> bool" where
  "isDefinitiveDNSError e = (case e of
       OtherError \<Rightarrow> False
     | DNSError timeout temporary not_found \<Rightarrow> if timeout \<or> temporary then False else not_found)"

definition DomainAcceptsEmail :: "resolver \<Rightarrow> string \<Rightarrow> bool" where
  "DomainAcceptsEmail r email =
     (case after_first (CHR ''@'') email of
        None \<Rightarrow> False
      | Some rest \<Rightarrow>
          if rest = '''' then False
          else (let domain = to_lower (trim_space rest) in
            case lookup_mx r domain of (mxs, err) \<Rightarrow>
              if err = None \<and> mxs \<noteq> [] then \<not> (length mxs = 1 \<and> hd mxs = ''.'')
              else if (case err of None \<Rightarrow> False | Some e \<Rightarrow> \<not> isDefinitiveDNSError e) then True
              else (case lookup_host r domain of
                  Inl e \<Rightarrow> \<not> isDefinitiveDNSError e
                | Inr addrs \<Rightarrow> addrs \<noteq> [])))"

section \<open>Requests\<close>

datatype http_method = GET | POST | PUT | PATCH | DELETE | OPTIONS

definition smallBody :: int where "smallBody = 64 * 1024"
definition mediumBody :: int where "mediumBody = 1024 * 1024"
definition largeBody :: int where "largeBody = 10 * 1024 * 1024"

definition body_limit :: "http_method \<Rightarrow> string \<Rightarrow> int" where
  "body_limit m p =
     (if m = POST \<and> p = ''/api/rooms'' \<or> has_prefix p ''/api/admin/rooms'' \<or> has_prefix p ''/api/admin/autoplay''
      then largeBody
      else if has_prefix p ''/api/playlists'' then mediumBody
      else smallBody)"

text \<open>A length of \<open>-1\<close> is unknown.\<close>

definition RequireJSONContentType :: "http_method \<Rightarrow> int \<Rightarrow> string \<Rightarrow> (nat \<times> string) option" where
  "RequireJSONContentType m contentLength ct =
     (if m \<in> {POST, PUT, PATCH, DELETE} \<and> contentLength \<noteq> 0
         \<and> \<not> has_prefix (to_lower (trim_space ct)) ''application/json''
      then Some (415, ''Content-Type must be application/json'') else None)"

text \<open>A page of another site can send a body only in one of three types without asking first.\<close>

lemma forms_refused:
  assumes "ct \<in> {''text/plain'', ''application/x-www-form-urlencoded'', ''multipart/form-data; boundary=x''}"
  shows "RequireJSONContentType POST n ct = None \<longleftrightarrow> n = 0"
proof -
  have "\<not> has_prefix (to_lower (trim_space t)) ''application/json''"
    if "t \<in> set [''text/plain'', ''application/x-www-form-urlencoded'', ''multipart/form-data; boundary=x'']" for t
    using that by (auto simp: has_prefix_def) code_simp+
  then show ?thesis using assms by (auto simp: RequireJSONContentType_def)
qed

section \<open>Signing up through the checks\<close>

text \<open>The handler as the server builds it: the captcha with the hostnames of the front end and of the
  allowed origins, the list of disposable domains, the resolver.\<close>

definition guarded ::
  "(string \<Rightarrow> string \<Rightarrow> string option \<Rightarrow> TurnstileResponse option) \<Rightarrow> string \<Rightarrow> string list \<Rightarrow> string \<Rightarrow> resolver \<Rightarrow> string
     \<Rightarrow> outside \<Rightarrow> outside" where
  "guarded siteverify secret hosts blocklist r ip ext = ext\<lparr>
     captcha_ok := (\<lambda>token. VerifyTurnstile siteverify secret token ip hosts = None),
     disposable := IsDisposableEmail blocklist, domain_ok := DomainAcceptsEmail r\<rparr>"

lemma set_hostnames_from:
  "set (hostnames_from parse seen urls) = {h. \<exists>raw \<in> set urls. host_of parse raw = Some h} - set seen"
  by (induction urls arbitrary: seen) (auto split: option.splits)

lemma set_hostnamesFromURLs:
  "set (hostnamesFromURLs parse urls) = {h. \<exists>raw \<in> set urls. host_of parse raw = Some h}"
  by (simp add: hostnamesFromURLs_def set_hostnames_from)

lemma distinct_hostnamesFromURLs: "distinct (hostnamesFromURLs parse urls)"
proof -
  have "distinct (hostnames_from parse seen urls)" for seen
    by (induction urls arbitrary: seen) (auto simp: set_hostnames_from split: option.splits)
  then show ?thesis by (simp add: hostnamesFromURLs_def)
qed

lemma VerifyTurnstile_passes:
  "VerifyTurnstile siteverify secret token ip hosts = None \<longleftrightarrow> secret = ''''
     \<or> token \<noteq> '''' \<and> (\<exists>v. siteverify secret token (if ip \<noteq> '''' then Some ip else None) = Some v \<and> tr_success v
         \<and> (hosts = [] \<or> to_lower (tr_hostname v) \<in> to_lower ` set hosts))"
  by (auto simp: VerifyTurnstile_def list_ex_iff split: option.splits)

lemma to_lower_host [simp]: "host_of parse raw = Some h \<Longrightarrow> to_lower h = h"
  by (auto simp: host_of_def split: option.splits if_splits)

text \<open>
  C33: A sign-up passes all of its guards. With the checks wired in as the server does, an account is
  created only if the honeypot is empty; if a captcha is configured, and the address of the front end or
  an allowed origin names a host, then for a token that Cloudflare confirms, for the address of this
  client, to have been solved on one of these hosts; for an address of which the part after the first @
  is neither a listed disposable domain nor below one, unless it is a major provider; and not for a
  domain that declares to take no mail or that the resolver definitively does not know.
\<close>

theorem signup_passes_the_guards:
  assumes "Signup (guarded siteverify secret (hostnamesFromURLs parse (frontend # origins)) blocklist r ip ext) cf env ip agent session
      (Some q) sv = (sv', HttpOK 201 (Some (u, access, refresh)))"
  shows "su_website q = ''''
    \<and> (secret \<noteq> '''' \<and> (\<exists>url \<in> set (frontend # origins). host_of parse url \<noteq> None) \<longrightarrow> su_captcha q \<noteq> ''''
        \<and> (\<exists>v. siteverify secret (su_captcha q) (if ip \<noteq> '''' then Some ip else None) = Some v \<and> tr_success v
            \<and> (\<exists>url \<in> set (frontend # origins). host_of parse url = Some (to_lower (tr_hostname v)))))
    \<and> (\<exists>local rest. user_email u = local @ ''@'' @ rest \<and> CHR ''@'' \<notin> set local \<and> rest \<noteq> ''''
        \<and> (let domain = to_lower (trim_space rest) in
            (domain \<in> set neverDisposable
              \<or> (\<forall>b \<in> set (loadDisposableDomains blocklist). b \<noteq> '''' \<longrightarrow> domain \<noteq> b \<and> \<not> has_suffix domain (''.'' @ b)))
            \<and> lookup_mx r domain \<noteq> ([''.''], None)
            \<and> \<not> (\<exists>e e'. lookup_mx r domain = ([], Some e) \<and> isDefinitiveDNSError e
                  \<and> lookup_host r domain = Inl e' \<and> isDefinitiveDNSError e')))"
proof -
  let ?hosts = "hostnamesFromURLs parse (frontend # origins)"
  let ?ext = "guarded siteverify secret ?hosts blocklist r ip ext"
  let ?email = "to_lower (trim_space (su_email q))"
  obtain sv1 ok where l: "limited cf (\<lambda>rl. AllowSignup rl (loopback ?ext) (env_rfaults env) (env_now env) ip) sv = (sv1, ok)"
    by fastforce
  have honeypot: "su_website q = ''''" using assms by (auto simp: Signup_def split: if_splits)
  have checks: "captcha_ok ?ext (su_captcha q)" "\<not> disposable ?ext ?email" "domain_ok ?ext ?email"
    using assms honeypot l by (auto simp: Signup_def Let_def split: if_splits)
  have email: "user_email u = ?email"
    using assms honeypot l checks
    by (auto simp: Signup_def Signup_create_def Signup_user_def Let_def split: if_splits option.splits sum.splits bool.splits)
  have captcha: "su_captcha q \<noteq> '''' \<and> (\<exists>v. siteverify secret (su_captcha q) (if ip \<noteq> '''' then Some ip else None) = Some v
      \<and> tr_success v \<and> (\<exists>url \<in> set (frontend # origins). host_of parse url = Some (to_lower (tr_hostname v))))"
    if secret: "secret \<noteq> ''''" and some: "\<exists>url \<in> set (frontend # origins). host_of parse url \<noteq> None"
  proof -
    have "?hosts \<noteq> []" using some set_hostnamesFromURLs [of parse "frontend # origins"] by force
    moreover have "VerifyTurnstile siteverify secret (su_captcha q) ip ?hosts = None"
      using checks(1) by (simp add: guarded_def)
    ultimately obtain v where v: "su_captcha q \<noteq> ''''" "siteverify secret (su_captcha q) (if ip \<noteq> '''' then Some ip else None) = Some v"
        "tr_success v" "to_lower (tr_hostname v) \<in> to_lower ` set ?hosts"
      using secret unfolding VerifyTurnstile_passes by blast
    from v(4) have "\<exists>url \<in> set (frontend # origins). host_of parse url = Some (to_lower (tr_hostname v))"
      unfolding set_hostnamesFromURLs by auto
    with v show ?thesis by blast
  qed
  have accepts: "DomainAcceptsEmail r ?email" using checks(3) by (simp add: guarded_def)
  then obtain rest where rest: "after_first (CHR ''@'') ?email = Some rest" "rest \<noteq> ''''"
    by (auto simp: DomainAcceptsEmail_def split: option.splits if_splits)
  let ?domain = "to_lower (trim_space rest)"
  from rest(1) obtain local_part where split: "?email = local_part @ ''@'' @ rest" "CHR ''@'' \<notin> set local_part"
    by (auto simp: after_first_Some)
  have listed: "?domain \<in> set neverDisposable
      \<or> (\<forall>b \<in> set (loadDisposableDomains blocklist). b \<noteq> '''' \<longrightarrow> ?domain \<noteq> b \<and> \<not> has_suffix ?domain (''.'' @ b))"
    using checks(2) split unfolding guarded_def by (simp add: disposable_exact) blast
  have takes_mail: "lookup_mx r ?domain \<noteq> ([''.''], None)
      \<and> \<not> (\<exists>e e'. lookup_mx r ?domain = ([], Some e) \<and> isDefinitiveDNSError e
            \<and> lookup_host r ?domain = Inl e' \<and> isDefinitiveDNSError e')"
    using accepts rest by (auto simp: DomainAcceptsEmail_def Let_def)
  show ?thesis
    using honeypot captcha split rest(2) listed takes_mail unfolding email Let_def by blast
qed

section \<open>A guarded sign-up\<close>

definition demo_siteverify :: "string \<Rightarrow> string \<Rightarrow> string option \<Rightarrow> TurnstileResponse option" where
  "demo_siteverify secret token ip = Some \<lparr>tr_success = (token = ''solved''), tr_hostname = ''App.io''\<rparr>"

definition demo_resolver :: resolver where
  "demo_resolver = \<lparr>lookup_mx = (\<lambda>d. ([''mx.'' @ d], None)), lookup_host = (\<lambda>_. Inr [])\<rparr>"

definition demo_parser :: url_parser where
  "demo_parser url = (if has_prefix url ''https://'' then Some (''https'', drop 8 url) else None)"

definition demo_signup :: signup_request where
  "demo_signup = \<lparr>su_email = ''Ann@mail.org'', su_password = ''Passw0rd'', su_stage_name = ''Ann'', su_display_name = '''',
     su_website = '''', su_captcha = ''solved''\<rparr>"

lemma demo_checks:
  "trim_space ''Ann@mail.org'' = ''Ann@mail.org''" "to_lower ''Ann@mail.org'' = ''ann@mail.org''" "trim_space ''Ann'' = ''Ann''"
  "hostnamesFromURLs demo_parser [''https://app.io''] = [''app.io'']"
  "VerifyTurnstile demo_siteverify ''s'' ''solved'' ''1.2.3.4'' [''app.io''] = None"
  "IsDisposableEmail '''' ''ann@mail.org'' = False" "DomainAcceptsEmail demo_resolver ''ann@mail.org''"
  "ContainsProfanity ''Ann'' = False" "host_of demo_parser ''https://app.io'' = Some ''app.io''"
  by code_simp+

theorem signup_passes_the_guards_witness:
  "\<exists>sv' u access refresh. Signup (guarded demo_siteverify ''s'' (hostnamesFromURLs demo_parser [''https://app.io'']) '''' demo_resolver
       ''1.2.3.4'' (demo_ext ''t'')) (demo_cf\<lparr>cf_limiter := None\<rparr>) (demo_env 0) ''1.2.3.4'' '''' None (Some demo_signup) demo_accounts
     = (sv', HttpOK 201 (Some (u, access, refresh))) \<and> user_email u = ''ann@mail.org''
     \<and> (\<exists>v. demo_siteverify ''s'' ''solved'' (Some ''1.2.3.4'') = Some v \<and> tr_success v)"
proof -
  let ?ext = "guarded demo_siteverify ''s'' (hostnamesFromURLs demo_parser [''https://app.io'']) '''' demo_resolver ''1.2.3.4'' (demo_ext ''t'')"
  let ?cf = "demo_cf\<lparr>cf_limiter := None\<rparr>"
  define e where "e = ?ext"
  have password: "validatePassword e ''Passw0rd'' = None" by (simp add: validatePassword_def e_def guarded_def demo_ext_def)
  have now: "env_now (demo_env 0) = 0" by (simp add: demo_env_def)
  have free: "IsStageNameTaken no_faults ''Ann'' '''' (sv_pg demo_accounts) = Inr False"
    "GetUserByEmail no_faults 0 ''ann@mail.org'' (sv_pg demo_accounts) = Inr None"
    by (simp_all add: demo_env_def demo_accounts_def demo_user_def IsStageNameTaken_def GetUserByEmail_def find_row_simps to_lower_def lower_char_def)
  let ?user = "Signup_user (demo_env 0) ''1.2.3.4'' '''' None ''ann@mail.org'' ''Ann'' ''Passw0rd''"
  have ext: "captcha_ok e ''solved''" "mail_ok e ''ann@mail.org''" "\<not> disposable e ''ann@mail.org''"
    "domain_ok e ''ann@mail.org''" "bcrypt_hash e ''Passw0rd'' = Some ''Passw0rd''"
    by (simp_all add: e_def guarded_def demo_checks demo_ext_def)
  have passes: "Signup e ?cf (demo_env 0) ''1.2.3.4'' '''' None (Some demo_signup) demo_accounts
      = Signup_create e ?cf (demo_env 0) None ?user demo_accounts"
    by (simp add: Signup_def demo_signup_def limited_def Let_def demo_checks ext password free now)
  have "\<exists>db. CreateUser no_faults ?user (sv_pg demo_accounts) = Inr db"
    by (simp add: CreateUser_def Signup_user_def stage_name_clash_def demo_env_def demo_accounts_def demo_user_def)
  moreover have "mint e u = Some ''jwt''" for u by (simp add: e_def guarded_def demo_ext_def)
  ultimately have "\<exists>sv' u access refresh. Signup ?ext ?cf (demo_env 0) ''1.2.3.4'' '''' None (Some demo_signup) demo_accounts
      = (sv', HttpOK 201 (Some (u, access, refresh))) \<and> user_email u = ''ann@mail.org''"
    unfolding e_def [symmetric] passes by (auto simp: Signup_create_def Let_def) (simp add: Signup_user_def)
  then obtain sv' u access refresh where made: "Signup ?ext ?cf (demo_env 0) ''1.2.3.4'' '''' None (Some demo_signup) demo_accounts
      = (sv', HttpOK 201 (Some (u, access, refresh)))" "user_email u = ''ann@mail.org''" by blast
  from signup_passes_the_guards [OF made(1)]
  have "\<exists>v. demo_siteverify ''s'' ''solved'' (Some ''1.2.3.4'') = Some v \<and> tr_success v"
    by (auto simp: demo_signup_def demo_checks)
  then show ?thesis using made by blast
qed

end
