(* ===== verification/Youtube.thy ===== *)
theory Youtube
  imports Admin
begin

text \<open>
  The YouTube client (\<open>internal/youtube/client.go\<close>) and the track search of the administrators
  (\<open>internal/handlers/admin_search.go\<close>). The service is an argument: what it answers to a request, and
  what its JSON decodes to. Reading durations is proved to undo their ISO 8601 notation.
\<close>

section \<open>Durations\<close>

definition is_digit :: "char \<Rightarrow> bool" where
  "is_digit c = (let n = of_char c :: nat in 48 \<le> n \<and> n \<le> 57)"

definition digit_value :: "char \<Rightarrow> nat" where
  "digit_value c = of_char c - 48"

text \<open>\<open>strconv.Atoi\<close> on a run of digits: out of range it also returns an error, which is dropped, and the
  greatest \<open>int\<close>.\<close>

definition decimal :: "string \<Rightarrow> nat" where
  "decimal ds = foldl (\<lambda>n c. 10 * n + digit_value c) 0 ds"

definition parseOr0 :: "string \<Rightarrow> int" where
  "parseOr0 v = (if v = '''' then 0 else min (int (decimal v)) (2 ^ 63 - 1))"

text \<open>
  The pattern: its leftmost match begins at the first \<open>PT\<close>, and each of the three optional groups takes
  a maximal run of digits if its letter follows.
\<close>

definition unit_group :: "char \<Rightarrow> string \<Rightarrow> string \<times> string" where
  "unit_group c s =
     (let ds = takeWhile is_digit s; rest = dropWhile is_digit s in
      if ds \<noteq> '''' \<and> rest \<noteq> '''' \<and> hd rest = c then (ds, tl rest) else ('''', s))"

fun after_text :: "string \<Rightarrow> string \<Rightarrow> string option" where
  "after_text p [] = (if p = [] then Some [] else None)"
| "after_text p (x # s) = (if has_prefix (x # s) p then Some (drop (length p) (x # s)) else after_text p s)"

definition iso8601Duration :: "string \<Rightarrow> (string \<times> string \<times> string) option" where
  "iso8601Duration s = (case after_text ''PT'' s of
       None \<Rightarrow> None
     | Some s0 \<Rightarrow>
         (let (h, s1) = unit_group (CHR ''H'') s0;
              (m, s2) = unit_group (CHR ''M'') s1;
              (sec, s3) = unit_group (CHR ''S'') s2 in
          Some (h, m, sec)))"

definition parseISO8601Duration :: "string \<Rightarrow> int" where
  "parseISO8601Duration s = (case iso8601Duration s of
       None \<Rightarrow> 0
     | Some (h, m, sec) \<Rightarrow> int64 (parseOr0 h * 3600 + parseOr0 m * 60 + parseOr0 sec))"

section \<open>Titles\<close>

fun before_text :: "string \<Rightarrow> string \<Rightarrow> string option" where
  "before_text p [] = (if p = [] then Some [] else None)"
| "before_text p (x # s) = (if has_prefix (x # s) p then Some [] else map_option (Cons x) (before_text p s))"

definition splitTitleArtist :: "string \<Rightarrow> string \<Rightarrow> string \<times> string" where
  "splitTitleArtist snippetTitle channelTitle =
     (case (before_text '' - '' snippetTitle, after_text '' - '' snippetTitle) of
        (Some a, Some t) \<Rightarrow> (trim_space a, trim_space t)
      | _ \<Rightarrow> (channelTitle, snippetTitle))"

section \<open>Requests\<close>

datatype yt_request = SearchRequest string string | VideosRequest string string

datatype 'b yt_reply = NoReply | Reply nat 'b

record yt_item =
  vi_id :: string
  vi_title :: string
  vi_channel :: string
  vi_thumbnail :: string

text \<open>The reasons of an error body, the items of a search, the durations of videos; \<open>None\<close> if the body
  is not such a value.\<close>

record 'b youtube =
  yt_http :: "yt_request \<Rightarrow> 'b yt_reply"
  yt_reasons :: "'b \<Rightarrow> string list option"
  yt_items :: "'b \<Rightarrow> yt_item list option"
  yt_details :: "'b \<Rightarrow> (string \<times> string) list option"

datatype yt_error = EmptyQuery | ErrNoResults | ErrQuotaExhausted | RequestFailed | Status nat | Undecodable

definition get :: "'b youtube \<Rightarrow> yt_request \<Rightarrow> yt_error + 'b" where
  "get yt req = (case yt_http yt req of
       NoReply \<Rightarrow> Inl RequestFailed
     | Reply status body \<Rightarrow>
         if status = 403 then
           (case yt_reasons yt body of
              None \<Rightarrow> Inl (Status status)
            | Some rs \<Rightarrow> if list_ex (\<lambda>r. r = ''quotaExceeded'' \<or> r = ''rateLimitExceeded'') rs
                then Inl ErrQuotaExhausted else Inl (Status status))
         else if status < 200 \<or> status \<ge> 300 then Inl (Status status)
         else Inr body)"

definition callSearch :: "'b youtube \<Rightarrow> string \<Rightarrow> string \<Rightarrow> yt_error + yt_item list" where
  "callSearch yt apiKey query = (case get yt (SearchRequest apiKey query) of
       Inl e \<Rightarrow> Inl e
     | Inr body \<Rightarrow> (case yt_items yt body of None \<Rightarrow> Inl Undecodable | Some items \<Rightarrow> Inr items))"

fun joined :: "string \<Rightarrow> string list \<Rightarrow> string" where
  "joined sep [] = ''''"
| "joined sep [x] = x"
| "joined sep (x # y # xs) = x @ sep @ joined sep (y # xs)"

text \<open>A later entry of the answer replaces an earlier one of the same id.\<close>

definition callVideos :: "'b youtube \<Rightarrow> string \<Rightarrow> string list \<Rightarrow> yt_error + (string \<rightharpoonup> int)" where
  "callVideos yt apiKey ids = (case get yt (VideosRequest apiKey (joined '','' ids)) of
       Inl e \<Rightarrow> Inl e
     | Inr body \<Rightarrow> (case yt_details yt body of
           None \<Rightarrow> Inl Undecodable
         | Some ds \<Rightarrow> Inr (foldl (\<lambda>m (id, d). m(id \<mapsto> parseISO8601Duration d)) Map.empty ds)))"

record Candidate =
  cd_title :: string
  cd_artist :: string
  cd_duration :: int
  cd_source :: string
  cd_source_url :: string
  cd_thumbnail :: string
  cd_channel :: string

definition watch_url :: "string \<Rightarrow> string" where
  "watch_url v = ''https://www.youtube.com/watch?v='' @ v"

definition candidate :: "(string \<rightharpoonup> int) \<Rightarrow> yt_item \<Rightarrow> Candidate" where
  "candidate durations it =
     (let (artist, title) = splitTitleArtist (vi_title it) (vi_channel it) in
      \<lparr>cd_title = title, cd_artist = artist,
       cd_duration = (case durations (vi_id it) of None \<Rightarrow> 0 | Some d \<Rightarrow> d),
       cd_source = ''youtube'', cd_source_url = watch_url (vi_id it),
       cd_thumbnail = vi_thumbnail it, cd_channel = vi_channel it\<rparr>)"

definition SearchTrack :: "'b youtube \<Rightarrow> string \<Rightarrow> string \<Rightarrow> yt_error + Candidate \<times> Candidate list" where
  "SearchTrack yt apiKey query =
     (let q = trim_space query in
      if q = '''' then Inl EmptyQuery
      else case callSearch yt apiKey q of
          Inl e \<Rightarrow> Inl e
        | Inr items \<Rightarrow>
            (let videoIDs = filter (\<lambda>v. v \<noteq> '''') (map vi_id items) in
             if videoIDs = [] then Inl ErrNoResults
             else case callVideos yt apiKey videoIDs of
                 Inl e \<Rightarrow> Inl e
               | Inr durations \<Rightarrow>
                   (let candidates = map (candidate durations) (filter (\<lambda>it. vi_id it \<noteq> '''') items) in
                    Inr (hd candidates, tl candidates))))"

section \<open>The handler\<close>

definition maxSearchQueryLen :: nat where "maxSearchQueryLen = 200"

text \<open>\<open>204 No Content\<close> is \<open>HttpOK 204 None\<close>.\<close>

definition SearchTrack_handler ::
  "('b youtube \<times> string) option \<Rightarrow> User option \<Rightarrow> string \<Rightarrow> (Candidate \<times> Candidate list) option response" where
  "SearchTrack_handler client user query = (case requireAdmin user of
       Some (code, msg) \<Rightarrow> HttpError code msg
     | None \<Rightarrow> (case client of
         None \<Rightarrow> HttpError 503 ''bulk search not configured (set YOUTUBE_DATA_API_KEY)''
       | Some (yt, apiKey) \<Rightarrow>
           (let q = trim_space query in
            if q = '''' then HttpError 400 ''query required''
            else if length q > maxSearchQueryLen then HttpError 400 ''query too long''
            else case SearchTrack yt apiKey q of
                Inr r \<Rightarrow> HttpOK 200 (Some r)
              | Inl ErrNoResults \<Rightarrow> HttpOK 204 None
              | Inl ErrQuotaExhausted \<Rightarrow> HttpError 429 ''youtube quota exhausted''
              | Inl _ \<Rightarrow> HttpError 502 ''upstream youtube error'')))"

section \<open>Reading durations back\<close>

text \<open>The notation of a duration, as the service documents it.\<close>

fun digits :: "nat \<Rightarrow> string" where
  "digits n = (if n < 10 then [char_of (48 + n)] else digits (n div 10) @ [char_of (48 + n mod 10)])"

declare digits.simps [simp del]

definition iso_part :: "nat \<Rightarrow> char \<Rightarrow> string" where
  "iso_part n c = (if n = 0 then '''' else digits n @ [c])"

definition iso_duration :: "nat \<Rightarrow> nat \<Rightarrow> nat \<Rightarrow> string" where
  "iso_duration h m s =
     (if h = 0 \<and> m = 0 \<and> s = 0 then ''PT0S''
      else ''PT'' @ iso_part h (CHR ''H'') @ iso_part m (CHR ''M'') @ iso_part s (CHR ''S''))"

lemma digit_char:
  assumes "d < 10"
  shows "is_digit (char_of (48 + d))" and "digit_value (char_of (48 + d)) = d"
  using assms by (simp_all add: is_digit_def digit_value_def Let_def)

lemma digits_are_digits: "list_all is_digit (digits n) \<and> digits n \<noteq> []"
proof (induction n rule: digits.induct)
  case (1 n)
  then show ?case by (simp add: digits.simps [of n] digit_char)
qed

lemma decimal_digits [simp]: "decimal (digits n) = n"
proof (induction n rule: digits.induct)
  case (1 n)
  show ?case
  proof (cases "n < 10")
    case True
    then show ?thesis by (simp add: digits.simps [of n] decimal_def digit_char)
  next
    case False
    then show ?thesis
      using 1 by (simp add: digits.simps [of n] decimal_def digit_char)
  qed
qed

lemma unit_group_hit:
  assumes "\<not> is_digit c"
  shows "unit_group c (digits n @ c # s) = (digits n, s)"
  using digits_are_digits [of n] assms
  by (simp add: unit_group_def Let_def takeWhile_append dropWhile_append list_all_iff takeWhile_eq_all_conv)

lemma unit_group_miss:
  assumes "\<not> is_digit d" and "c \<noteq> d"
  shows "unit_group c (digits n @ d # s) = ('''', digits n @ d # s)"
  using digits_are_digits [of n] assms
  by (simp add: unit_group_def Let_def takeWhile_append dropWhile_append list_all_iff takeWhile_eq_all_conv)

lemma unit_group_Nil [simp]: "unit_group c [] = ('''', [])"
  by (simp add: unit_group_def)

lemma parse_iso_duration:
  assumes "3600 * h + 60 * m + s < 2 ^ 63"
  shows "parseISO8601Duration (iso_duration h m s) = int (3600 * h + 60 * m + s)"
proof -
  have zero: "parseISO8601Duration ''PT0S'' = 0" by code_simp
  have amount: "parseOr0 (digits n) = int n" if "n < 2 ^ 63" for n
    using that digits_are_digits [of n] by (simp add: parseOr0_def)
  have small: "h < 2 ^ 63" "m < 2 ^ 63" "s < 2 ^ 63" using assms by simp_all
  have letters: "\<not> is_digit (CHR ''H'')" "\<not> is_digit (CHR ''M'')" "\<not> is_digit (CHR ''S'')" by code_simp+
  have total: "int64 (int h * 3600 + int m * 60 + int s) = int (3600 * h + 60 * m + s)"
    using assms by (subst int64_id) auto
  show ?thesis
  proof (cases "h = 0 \<and> m = 0 \<and> s = 0")
    case True
    with zero show ?thesis by (simp add: iso_duration_def)
  next
    case False
    have start: "after_text ''PT'' (iso_duration h m s) =
        Some (iso_part h (CHR ''H'') @ iso_part m (CHR ''M'') @ iso_part s (CHR ''S''))"
      using False by (auto simp: iso_duration_def has_prefix_def)
    have groups: "iso8601Duration (iso_duration h m s) =
        Some (if h = 0 then '''' else digits h, if m = 0 then '''' else digits m, if s = 0 then '''' else digits s)"
      using start by (simp add: iso8601Duration_def iso_part_def unit_group_hit unit_group_miss letters)
    have "parseOr0 (if n = 0 then '''' else digits n) = int n" if "n < 2 ^ 63" for n
      using amount [OF that] by (simp add: parseOr0_def [of "[]"])
    then show ?thesis using total small by (simp add: parseISO8601Duration_def groups)
  qed
qed

section \<open>What a search shows\<close>

lemma split_found:
  "\<not> contains_text (a @ '' -'') '' - '' \<Longrightarrow>
   before_text '' - '' (a @ '' - '' @ t) = Some a \<and> after_text '' - '' (a @ '' - '' @ t) = Some t"
proof (induction a)
  case Nil
  show ?case by (simp add: has_prefix_def)
next
  case (Cons x a)
  have "\<not> has_prefix (x # a @ '' -'') '' - ''" using Cons.prems by simp
  then have "\<not> has_prefix (x # a @ '' - '' @ t) '' - ''" by (cases a; cases "tl a") (auto simp: has_prefix_def)
  with Cons show ?case by simp
qed

lemma split_absent: "\<not> contains_text s '' - '' \<Longrightarrow> before_text '' - '' s = None"
  by (induction s) auto

lemma durations_read:
  assumes "distinct (map fst details)" and "\<forall>(v, h, m, s) \<in> set details. 3600 * h + 60 * m + s < 2 ^ 63"
  shows "foldl (\<lambda>m (id, d). m(id \<mapsto> parseISO8601Duration d)) M
      (map (\<lambda>(v, h, m, s). (v, iso_duration h m s)) details) v =
    (case map_of details v of None \<Rightarrow> M v | Some (h, m, s) \<Rightarrow> Some (int (3600 * h + 60 * m + s)))"
  using assms
proof (induction details arbitrary: M)
  case (Cons d details)
  obtain w h m s where d: "d = (w, h, m, s)" by (metis prod_cases4)
  have "map_of details w = None" using Cons.prems(1) by (simp add: d map_of_eq_None_iff)
  then show ?case using Cons by (simp add: d parse_iso_duration)
qed simp

lemma candidate_fields:
  "cd_source_url (candidate ds it) = watch_url (vi_id it)"
  "cd_duration (candidate ds it) = (case ds (vi_id it) of None \<Rightarrow> 0 | Some d \<Rightarrow> d)"
  "cd_artist (candidate ds it) = fst (splitTitleArtist (vi_title it) (vi_channel it))"
  "cd_title (candidate ds it) = snd (splitTitleArtist (vi_title it) (vi_channel it))"
  by (simp_all add: candidate_def split: prod.splits)

lemma splitTitleArtist_found:
  "\<not> contains_text (a @ '' -'') '' - '' \<Longrightarrow> splitTitleArtist (a @ '' - '' @ t) ch = (trim_space a, trim_space t)"
  using split_found by (simp add: splitTitleArtist_def)

lemma splitTitleArtist_absent: "\<not> contains_text s '' - '' \<Longrightarrow> splitTitleArtist s ch = (ch, s)"
  by (simp add: splitTitleArtist_def split_absent)

text \<open>What a candidate owes to its hit, given the hours, minutes and seconds of the videos.\<close>

definition shows_hit :: "(string \<times> nat \<times> nat \<times> nat) list \<Rightarrow> yt_item \<Rightarrow> Candidate \<Rightarrow> bool" where
  "shows_hit details it c \<longleftrightarrow>
     cd_source_url c = watch_url (vi_id it)
     \<and> (\<forall>h m s. (vi_id it, h, m, s) \<in> set details \<longrightarrow> cd_duration c = int (3600 * h + 60 * m + s))
     \<and> (vi_id it \<notin> fst ` set details \<longrightarrow> cd_duration c = 0)
     \<and> (\<forall>a t. vi_title it = a @ '' - '' @ t \<and> \<not> contains_text (a @ '' -'') '' - ''
           \<longrightarrow> cd_artist c = trim_space a \<and> cd_title c = trim_space t)
     \<and> (\<not> contains_text (vi_title it) '' - '' \<longrightarrow> cd_artist c = vi_channel it \<and> cd_title c = vi_title it)"


definition demo_hits :: "yt_item list" where
  "demo_hits = [\<lparr>vi_id = ''b1'', vi_title = ''Jay-Z - Empire '', vi_channel = ''vevo'', vi_thumbnail = ''''\<rparr>,
     \<lparr>vi_id = '''', vi_title = ''a list'', vi_channel = '''', vi_thumbnail = ''''\<rparr>,
     \<lparr>vi_id = ''b2'', vi_title = ''Intro'', vi_channel = ''someone'', vi_thumbnail = ''''\<rparr>]"

definition demo_youtube :: "nat youtube" where
  "demo_youtube = \<lparr>yt_http = (\<lambda>r. case r of SearchRequest k q \<Rightarrow> if q = ''empire'' then Reply 200 1 else NoReply
       | VideosRequest k ids \<Rightarrow> if ids = ''b1,b2'' then Reply 200 2 else NoReply),
     yt_reasons = (\<lambda>_. None), yt_items = (\<lambda>b. if b = 1 then Some demo_hits else None),
     yt_details = (\<lambda>b. if b = 2 then Some [(''b1'', ''PT1H4M'')] else None)\<rparr>"


text \<open>A video of a day or longer is written with days, without \<open>PT\<close>: its duration is read as zero.\<close>

lemma day_long_video: "parseISO8601Duration ''P1DT2H'' = 0"
  by code_simp

end
