(* ===== verification/Livekit.thy ===== *)
theory Livekit
  imports RoomProps
begin

text \<open>
  Tokens for the voice channel of a room (\<open>internal/handlers/livekit.go\<close>). Signing with the secret is an
  argument; a token is the claims it was signed for, and their times are instants. Who may publish is
  decided by the key of the room.
\<close>

record livekit_config =
  lk_url :: string
  lk_api_key :: string
  lk_api_secret :: string

record liveKitGrant =
  gr_join :: bool
  gr_room :: string
  gr_publish :: bool
  gr_subscribe :: bool

record liveKitClaims =
  lc_issuer :: string
  lc_subject :: string
  lc_not_before :: gotime
  lc_issued_at :: gotime
  lc_expires_at :: gotime
  lc_id :: string
  lc_video :: liveKitGrant
  lc_name :: string

record livekit_request =
  lr_slug :: string
  lr_is_dj :: bool

text \<open>The account of the request, else its session: subject and name.\<close>

definition voice_identity :: "Session option \<Rightarrow> User option \<Rightarrow> (string \<times> string) option" where
  "voice_identity session user =
     (case user of
        Some u \<Rightarrow> Some (''user:'' @ user_id u, user_display_name u)
      | None \<Rightarrow> (case session of
            Some s \<Rightarrow> Some (''session:'' @ session_id s, session_name s)
          | None \<Rightarrow> None))"

definition livekit_room :: "string \<Rightarrow> string" where
  "livekit_room slug = ''jukebox:'' @ slug"

definition voice_claims :: "livekit_config \<Rightarrow> gotime \<Rightarrow> string \<Rightarrow> string \<Rightarrow> string \<Rightarrow> bool \<Rightarrow> liveKitClaims" where
  "voice_claims lk now identity displayName slug publish =
     \<lparr>lc_issuer = lk_api_key lk, lc_subject = identity, lc_not_before = now, lc_issued_at = now,
      lc_expires_at = now + 2 * hour, lc_id = identity @ '':'' @ slug,
      lc_video = \<lparr>gr_join = True, gr_room = livekit_room slug, gr_publish = publish, gr_subscribe = True\<rparr>,
      lc_name = (if displayName = '''' then ''Listener'' else displayName)\<rparr>"

definition GetToken ::
  "outside \<Rightarrow> (string \<Rightarrow> liveKitClaims \<Rightarrow> 't option) \<Rightarrow> livekit_config \<Rightarrow> env \<Rightarrow> Session option \<Rightarrow> User option
     \<Rightarrow> string \<Rightarrow> livekit_request option \<Rightarrow> server \<Rightarrow> dj_cache \<Rightarrow> dj_cache \<times> ('t \<times> string) response" where
  "GetToken ext sign lk env session user djKey req sv c =
     (if lk_api_key lk = '''' \<or> lk_api_secret lk = '''' then (c, HttpError 503 ''LiveKit not configured'')
      else case req of
          None \<Rightarrow> (c, HttpError 400 (''invalid request '' @ em_dash @ '' roomSlug required''))
        | Some q \<Rightarrow>
            if lr_slug q = '''' then (c, HttpError 400 (''invalid request '' @ em_dash @ '' roomSlug required''))
            else case voice_identity session user of
                None \<Rightarrow> (c, HttpError 401 ''no identity'')
              | Some (identity, displayName) \<Rightarrow>
                  (case (if lr_is_dj q
                         then map_prod id (map_sum id (\<lambda>_. True))
                           (for_dj ext env ''DJ key required to publish'' (lr_slug q) djKey sv c)
                         else (c, Inr False)) of
                     (c', Inl (code, msg)) \<Rightarrow> (c', HttpError code msg)
                   | (c', Inr publish) \<Rightarrow>
                       (case sign (lk_api_secret lk)
                            (voice_claims lk (env_now env) identity displayName (lr_slug q) publish) of
                          None \<Rightarrow> (c', HttpError 500 ''failed to generate token'')
                        | Some token \<Rightarrow> (c', HttpOK 200 (token, lk_url lk)))))"

section \<open>Who may publish\<close>

text \<open>Two callers never share a subject, and two rooms never share a channel.\<close>

lemma voice_identity_injective:
  assumes "voice_identity s u = Some (subject, name)" and "voice_identity s' u' = Some (subject, name')"
  shows "map_option user_id u = map_option user_id u' \<and> (u = None \<longrightarrow> map_option session_id s = map_option session_id s')"
  using assms by (auto simp: voice_identity_def split: option.splits)

lemma livekit_room_injective: "livekit_room a = livekit_room b \<longleftrightarrow> a = b"
  by (simp add: livekit_room_def)

lemma for_dj_verdict:
  assumes "vouched ext pairs c"
    and "digests_ok ext (pairs \<union> (\<lambda>r. (env_now env, key, room_dj_key_hash r)) ` set (db_rooms (sv_pg sv)))"
    and "GetRoomBySlug (env_faults env) slug (sv_pg sv) = Inr (Some room)"
  shows "snd (for_dj ext env denied slug key sv c) = (if key_matches ext key (room_dj_key_hash room) then Inr room else Inl (403, denied))"
    and "room \<in> set (db_rooms (sv_pg sv))" and "room_slug room = slug"
proof -
  show found: "room \<in> set (db_rooms (sv_pg sv))" "room_slug room = slug"
    using assms(3) by (auto simp: GetRoomBySlug_def dest!: find_row_Some)
  then have "insert (env_now env, key, room_dj_key_hash room) pairs
      \<subseteq> pairs \<union> (\<lambda>r. (env_now env, key, room_dj_key_hash r)) ` set (db_rooms (sv_pg sv))" by auto
  from VerifyDJKey_exact [OF assms(1) digests_ok_subset [OF assms(2) this]]
  show "snd (for_dj ext env denied slug key sv c) = (if key_matches ext key (room_dj_key_hash room) then Inr room else Inl (403, denied))"
    using assms(3) by (auto simp: for_dj_def split: prod.splits)
qed

text \<open>
  C32: Only the holder of a room's key may speak in its voice channel. A token that is handed out is
  signed, for two hours, for exactly one room, that of the request, and for a subject that no other
  account and no other session gets; it lets its bearer publish just if the request asked for that, and
  then a room of that address exists whose key hash the key of the request matches. Conversely who
  asks with the key of the room receives such a token, if the room can be read and the signing works.
\<close>

theorem voice_publish_needs_key:
  assumes "vouched ext pairs c"
    and "digests_ok ext (pairs \<union> (\<lambda>r. (env_now env, djKey, room_dj_key_hash r)) ` set (db_rooms (sv_pg sv)))"
  shows "(\<forall>token url. snd (GetToken ext sign lk env session user djKey req sv c) = HttpOK 200 (token, url) \<longrightarrow>
      (\<exists>q cl. req = Some q \<and> sign (lk_api_secret lk) cl = Some token \<and> url = lk_url lk
        \<and> gr_room (lc_video cl) = livekit_room (lr_slug q) \<and> lc_expires_at cl = env_now env + 2 * hour
        \<and> (\<forall>s u n. voice_identity s u = Some (lc_subject cl, n) \<longrightarrow> map_option user_id u = map_option user_id user
              \<and> (u = None \<longrightarrow> map_option session_id s = map_option session_id session))
        \<and> (gr_publish (lc_video cl) \<longleftrightarrow> lr_is_dj q)
        \<and> (gr_publish (lc_video cl) \<longrightarrow> (\<exists>room \<in> set (db_rooms (sv_pg sv)).
              room_slug room = lr_slug q \<and> key_matches ext djKey (room_dj_key_hash room)))))
    \<and> (\<forall>q room. req = Some q \<and> lr_slug q \<noteq> '''' \<and> lk_api_key lk \<noteq> '''' \<and> lk_api_secret lk \<noteq> ''''
        \<and> (user \<noteq> None \<or> session \<noteq> None) \<and> (\<forall>cl. sign (lk_api_secret lk) cl \<noteq> None)
        \<and> GetRoomBySlug (env_faults env) (lr_slug q) (sv_pg sv) = Inr (Some room)
        \<and> key_matches ext djKey (room_dj_key_hash room) \<longrightarrow>
        (\<exists>token. snd (GetToken ext sign lk env session user djKey req sv c) = HttpOK 200 (token, lk_url lk)))"
    (is "(\<forall>token url. ?granted token url \<longrightarrow> ?safe token url) \<and> (\<forall>q room. ?entitled q room \<longrightarrow> ?served)")
proof (intro conjI allI impI)
  fix token url assume ok: "?granted token url"
  then obtain q identity name where req: "req = Some q" and who: "voice_identity session user = Some (identity, name)"
    by (auto simp: GetToken_def split: if_splits option.splits)
  let ?key = "for_dj ext env ''DJ key required to publish'' (lr_slug q) djKey sv c"
  let ?cl = "voice_claims lk (env_now env) identity name (lr_slug q) (lr_is_dj q)"
  have keyed: "\<exists>room. snd ?key = Inr room" if "lr_is_dj q"
    using ok that by (cases ?key; cases "snd ?key") (auto simp: GetToken_def req who split: if_splits)
  then have signed: "sign (lk_api_secret lk) ?cl = Some token \<and> url = lk_url lk"
    using ok by (cases ?key) (auto simp: GetToken_def req who split: if_splits option.splits)
  have "\<exists>room \<in> set (db_rooms (sv_pg sv)). room_slug room = lr_slug q \<and> key_matches ext djKey (room_dj_key_hash room)"
    if dj: "lr_is_dj q"
  proof -
    from keyed [OF dj] obtain room c' where key: "?key = (c', Inr room)" by (metis prod.collapse)
    then have read: "GetRoomBySlug (env_faults env) (lr_slug q) (sv_pg sv) = Inr (Some room)" by (simp add: for_dj_def
          or_zero_def split: sum.splits option.splits prod.splits if_splits)
    from for_dj_verdict [OF assms read] key show ?thesis by (metis Inl_Inr_False sndI)
  qed
  moreover have "map_option user_id u = map_option user_id user \<and> (u = None \<longrightarrow> map_option session_id s = map_option session_id session)"
    if "voice_identity s u = Some (identity, n)" for s u n
    using voice_identity_injective [OF that who] .
  ultimately show "?safe token url"
    using signed req by (intro exI [of _ q] exI [of _ ?cl] conjI) (simp_all add: voice_claims_def)
next
  fix q room assume given: "?entitled q room"
  then obtain identity name where who: "voice_identity session user = Some (identity, name)"
    by (cases user; cases session) (auto simp: voice_identity_def)
  obtain c' where key: "for_dj ext env ''DJ key required to publish'' (lr_slug q) djKey sv c = (c', Inr room)"
    using for_dj_verdict(1) [OF assms, of "lr_slug q" room "''DJ key required to publish''"] given by (metis prod.collapse)
  obtain yes no where signed: "sign (lk_api_secret lk) (voice_claims lk (env_now env) identity name (lr_slug q) True) = Some yes"
      "sign (lk_api_secret lk) (voice_claims lk (env_now env) identity name (lr_slug q) False) = Some no"
    using given by (meson not_None_eq)
  have asked: "req = Some q" "lr_slug q \<noteq> ''''" "lk_api_key lk \<noteq> ''''" "lk_api_secret lk \<noteq> ''''" using given by simp_all
  show ?served
    by (cases "lr_is_dj q") (simp_all add: GetToken_def asked who key signed)
qed

definition demo_livekit :: livekit_config where
  "demo_livekit = \<lparr>lk_url = ''wss://voice'', lk_api_key = ''jukebox'', lk_api_secret = ''signing secret''\<rparr>"

text \<open>The key of the room gets a token; a guessed one gets none with which its holder could speak.\<close>

theorem voice_publish_needs_key_witness:
  "let ask = (\<lambda>key. snd (GetToken plain_outside (\<lambda>secret cl. Some (secret, cl)) demo_livekit demo_request None (Some (demo_user ''u'')) key
        (Some \<lparr>lr_slug = ''late-night'', lr_is_dj = True\<rparr>) demo_open_site [])) in
   (\<exists>token url. ask ''secret'' = HttpOK 200 (token, url) \<and> gr_publish (lc_video (snd token)))
   \<and> (\<forall>token url. ask ''guess'' \<noteq> HttpOK 200 (token, url))"
proof -
  let ?q = "\<lparr>lr_slug = ''late-night'', lr_is_dj = True\<rparr>"
  let ?ask = "\<lambda>key. snd (GetToken plain_outside (\<lambda>secret cl. Some (secret, cl)) demo_livekit demo_request None (Some (demo_user ''u'')) key
        (Some ?q) demo_open_site [])"
  have start: "vouched plain_outside {} []" by (simp add: vouched_def bounded_ok_def)
  have "digests_ok plain_outside ({} \<union> (\<lambda>r. (env_now demo_request, key, room_dj_key_hash r)) ` set (db_rooms (sv_pg demo_open_site)))" for key
    by (rule plain_digests) (simp add: demo_open_site_def)
  note fact = voice_publish_needs_key [OF start this, where sign = "\<lambda>secret cl. Some (secret, cl)" and lk = demo_livekit
      and session = None and user = "Some (demo_user ''u'')" and req = "Some ?q"]
  have keys: "key_matches plain_outside ''secret'' ''$secret''" "\<not> key_matches plain_outside ''guess'' ''$secret''"
    by (simp_all add: key_matches_def plain_outside_def)
  have read: "\<exists>room. GetRoomBySlug (env_faults demo_request) ''late-night'' (sv_pg demo_open_site) = Inr (Some room)
      \<and> room_dj_key_hash room = ''$secret''"
    by (simp add: demo_open_site_def demo_request_def GetRoomBySlug_def find_row_simps)
  have "\<exists>token. ?ask ''secret'' = HttpOK 200 (token, lk_url demo_livekit)"
    using fact [of "''secret''"] read keys(1) by (auto simp: demo_livekit_def)
  moreover have "gr_publish (lc_video (snd token))" if "?ask key = HttpOK 200 (token, url)" for key token url
    using conjunct1 [OF fact [of key]] that by fastforce
  moreover have "\<not> (?ask ''guess'' = HttpOK 200 (token, url))" for token url
    using conjunct1 [OF fact [of "''guess''"]] keys(2) by (fastforce simp: demo_open_site_def)
  ultimately show ?thesis unfolding Let_def by blast
qed

end
