(* ===== verification/Support.thy ===== *)
theory Support
  imports Guards DJKey Complex_Main
begin

text \<open>
  Mails (\<open>internal/email/email.go\<close>) and the reports that listeners send to support
  (\<open>internal/handlers/support.go\<close>). What the mail provider answers is an argument, as are the parser of
  addresses and the formats of a time and of a number. No report can change the structure of the mail
  that carries it.
\<close>

section \<open>Sending\<close>

record email_service =
  es_api_key :: string
  es_from :: string
  es_frontend :: string
  es_support_to :: string

record resendPayload =
  rp_from :: string
  rp_to :: "string list"
  rp_subject :: string
  rp_html :: string

text \<open>Without a key the mail is logged. The provider answers a payload with a status, or not at all;
  the result is what was posted, and whether there was no error.\<close>

definition send_mail ::
  "(resendPayload \<Rightarrow> nat option) \<Rightarrow> email_service \<Rightarrow> string \<Rightarrow> string \<Rightarrow> string \<Rightarrow> resendPayload list \<times> bool" where
  "send_mail post es to subject html =
     (if es_api_key es = '''' then ([], True)
      else (let payload = \<lparr>rp_from = es_from es, rp_to = [to], rp_subject = subject, rp_html = html\<rparr> in
        ([payload], (case post payload of None \<Rightarrow> False | Some status \<Rightarrow> \<not> status \<ge> 300))))"

text \<open>Pieces of the templates: a line break with tabs, and an attribute value in double quotes.\<close>

definition newline :: "nat \<Rightarrow> string" where
  "newline tabs = CHR 0x0A # replicate tabs (CHR 0x09)"

definition quoted :: "string \<Rightarrow> string" where
  "quoted s = CHR 0x22 # s @ [CHR 0x22]"

definition link_mail :: "string \<Rightarrow> string \<Rightarrow> string \<Rightarrow> string \<Rightarrow> string \<Rightarrow> string" where
  "link_mail heading intro button footer link =
     newline 2 @ ''<div style='' @ quoted ''font-family: -apple-system, sans-serif; max-width: 480px; margin: 0 auto; padding: 40px 20px;'' @ ''>''
     @ newline 3 @ ''<h1 style='' @ quoted ''font-size: 24px; color: #f5f5f5; margin-bottom: 8px;'' @ ''>'' @ heading @ ''</h1>''
     @ newline 3 @ ''<p style='' @ quoted ''color: #a0a0a0; font-size: 15px; line-height: 1.6;'' @ ''>''
     @ newline 4 @ intro
     @ newline 3 @ ''</p>''
     @ newline 3 @ ''<a href='' @ quoted link
     @ newline 4 @ ''style='' @ quoted (''display: inline-block; margin: 24px 0; padding: 12px 32px; background: #e89a2e; color: #0a0a0a; ''
         @ newline 4 @ ''font-weight: 600; font-size: 15px; text-decoration: none; border-radius: 8px;'') @ ''>''
     @ newline 4 @ button
     @ newline 3 @ ''</a>''
     @ newline 3 @ ''<p style='' @ quoted ''color: #666; font-size: 13px;'' @ ''>''
     @ newline 4 @ ''Or copy this link: <br/>''
     @ newline 4 @ ''<span style='' @ quoted ''color: #888; word-break: break-all;'' @ ''>'' @ link @ ''</span>''
     @ newline 3 @ ''</p>''
     @ newline 3 @ ''<p style='' @ quoted ''color: #555; font-size: 12px; margin-top: 32px;'' @ ''>''
     @ newline 4 @ footer
     @ newline 3 @ ''</p>''
     @ newline 2 @ ''</div>''
     @ newline 1"

definition SendVerificationEmail ::
  "(resendPayload \<Rightarrow> nat option) \<Rightarrow> email_service \<Rightarrow> string \<Rightarrow> string \<Rightarrow> resendPayload list \<times> bool" where
  "SendVerificationEmail post es to token = send_mail post es to ''Verify your Jukebox email''
     (link_mail (''Welcome to Jukebox '' @ [CHR 0xF0, CHR 0x9F, CHR 0x8E, CHR 0xB5])
       ''Thanks for signing up! Click the button below to verify your email address.'' ''Verify Email''
       (''This link expires in 24 hours. If you didn'' @ [CHR 0x27] @ ''t sign up for Jukebox, ignore this email.'')
       (es_frontend es @ ''/verify-email?token='' @ token))"

definition SendPasswordResetEmail ::
  "(resendPayload \<Rightarrow> nat option) \<Rightarrow> email_service \<Rightarrow> string \<Rightarrow> string \<Rightarrow> resendPayload list \<times> bool" where
  "SendPasswordResetEmail post es to token = send_mail post es to ''Reset your Jukebox password''
     (link_mail ''Reset your password''
       ''We received a request to reset your Jukebox password. Click the button below to set a new one.'' ''Reset Password''
       (''This link expires in 1 hour. If you didn'' @ [CHR 0x27] @ ''t request a password reset, ignore this email ''
         @ em_dash @ '' your password won'' @ [CHR 0x27] @ ''t change.'')
       (es_frontend es @ ''/reset-password?token='' @ token))"

section \<open>The mail of a report\<close>

record ListenerReportContext =
  rc_category :: string
  rc_message :: string
  rc_contact :: string
  rc_contact_back :: bool
  rc_user :: string
  rc_slug :: string
  rc_room :: string
  rc_track_id :: string
  rc_title :: string
  rc_artist :: string
  rc_position :: real
  rc_agent :: string
  rc_ip :: string
  rc_at :: gotime

text \<open>\<open>html.EscapeString\<close>.\<close>

definition escape_char :: "char \<Rightarrow> string" where
  "escape_char c =
     (if c = CHR ''&'' then ''&amp;'' else if c = CHR 0x27 then ''&#39;'' else if c = CHR ''<'' then ''&lt;''
      else if c = CHR ''>'' then ''&gt;'' else if c = CHR 0x22 then ''&#34;'' else [c])"

definition EscapeString :: "string \<Rightarrow> string" where
  "EscapeString s = concat (map escape_char s)"

definition valueOrDash :: "string \<Rightarrow> string" where
  "valueOrDash s = (if s = '''' then em_dash else s)"

definition report_rows :: "(gotime \<Rightarrow> string) \<Rightarrow> (real \<Rightarrow> string) \<Rightarrow> ListenerReportContext \<Rightarrow> (string \<times> string) list" where
  "report_rows rfc3339 one_decimal ctx =
     [(''Category'', rc_category ctx), (''Submitted at'', rfc3339 (rc_at ctx)), (''User ID'', valueOrDash (rc_user ctx)),
      (''Contact email'', rc_contact ctx), (''Room'', rc_room ctx @ '' ('' @ rc_slug ctx @ '')''),
      (''Track'', rc_title ctx @ '' '' @ em_dash @ '' '' @ rc_artist ctx), (''Track ID'', valueOrDash (rc_track_id ctx)),
      (''Playback position'', one_decimal (rc_position ctx) @ ''s''), (''User agent'', valueOrDash (rc_agent ctx)),
      (''Client IP'', valueOrDash (rc_ip ctx))]"

definition report_row :: "string \<times> string \<Rightarrow> string" where
  "report_row r = (case r of (label, v) \<Rightarrow>
     ''<tr><td style='' @ quoted ''padding:4px 12px 4px 0;color:#888;font-size:13px;'' @ ''>'' @ EscapeString label
     @ ''</td><td style='' @ quoted ''padding:4px 0;color:#f5f5f5;font-size:13px;'' @ ''>'' @ EscapeString v @ ''</td></tr>'')"

definition composeListenerReportHTML ::
  "(gotime \<Rightarrow> string) \<Rightarrow> (real \<Rightarrow> string) \<Rightarrow> ListenerReportContext \<Rightarrow> string" where
  "composeListenerReportHTML rfc3339 one_decimal ctx =
     newline 2 @ ''<div style='' @ quoted ''font-family: -apple-system, sans-serif; max-width: 640px; margin: 0 auto; padding: 32px 20px;'' @ ''>''
     @ newline 3 @ ''<h1 style='' @ quoted ''font-size: 20px; color: #f5f5f5; margin-bottom: 8px;'' @ ''>Listener support report</h1>''
     @ newline 3 @ ''<p style='' @ quoted ''color: #a0a0a0; font-size: 13px; margin-bottom: 24px;'' @ ''>''
     @ newline 4 @ ''Submitted via /help/listening. Contact back: '' @ (if rc_contact_back ctx then ''yes'' else ''no'') @ ''.''
     @ newline 3 @ ''</p>''
     @ newline 3 @ ''<table style='' @ quoted ''border-collapse: collapse; margin-bottom: 24px;'' @ ''>''
     @ newline 4 @ concat (map report_row (report_rows rfc3339 one_decimal ctx))
     @ newline 3 @ ''</table>''
     @ newline 3 @ ''<blockquote style='' @ quoted ''margin: 0; padding: 12px 16px; border-left: 3px solid #e89a2e; background: rgba(232,154,46,0.08); color: #e8e6ea; font-size: 14px; white-space: pre-wrap;'' @ ''>''
         @ EscapeString (rc_message ctx) @ ''</blockquote>''
     @ newline 2 @ ''</div>''
     @ newline 1"

definition SendListenerReport ::
  "(resendPayload \<Rightarrow> nat option) \<Rightarrow> (gotime \<Rightarrow> string) \<Rightarrow> (real \<Rightarrow> string) \<Rightarrow> email_service \<Rightarrow> ListenerReportContext
     \<Rightarrow> resendPayload list \<times> bool" where
  "SendListenerReport post rfc3339 one_decimal es ctx =
     (if es_support_to es = '''' then ([], True)
      else send_mail post es (es_support_to es)
        (''[Jukebox Support] Listener report '' @ em_dash @ '' '' @ rc_category ctx @ '' '' @ em_dash @ '' '' @ rc_room ctx)
        (composeListenerReportHTML rfc3339 one_decimal ctx))"

section \<open>The handler\<close>

record listenerReportRequest =
  lq_category :: string
  lq_message :: string
  lq_contact :: string
  lq_contact_back :: bool
  lq_opened_at :: int
  lq_website :: string
  lq_slug :: string
  lq_track_id :: string
  lq_title :: string
  lq_artist :: string
  lq_position :: real

definition validateListenerReport :: "(string \<Rightarrow> bool) \<Rightarrow> listenerReportRequest \<Rightarrow> bool \<Rightarrow> string option" where
  "validateListenerReport address_ok q hasSession =
     (if lq_category q \<notin> set [''gated'', ''no-audio'', ''out-of-sync'', ''other''] then Some ''invalid category''
      else (let n = length (trim_space (lq_message q)) in
        if n < 10 \<or> n > 2000 then Some (''message must be 10'' @ [CHR 0xE2, CHR 0x80, CHR 0x93] @ ''2000 characters'')
        else if hasSession then None
        else if lq_contact q = '''' then Some ''contactEmail required for anonymous reports''
        else if \<not> address_ok (lq_contact q) then Some ''invalid contactEmail''
        else None))"

definition isLikelyBot :: "listenerReportRequest \<Rightarrow> gotime \<Rightarrow> bool" where
  "isLikelyBot q now =
     (if lq_website q \<noteq> '''' then True
      else if lq_opened_at q \<le> 0 then True
      else (let nowMs = unix_milli now in
        if lq_opened_at q > nowMs then True else nowMs - lq_opened_at q < 2000))"

definition or_unknown :: "string \<Rightarrow> string" where
  "or_unknown s = (if s = '''' then ''(unknown)'' else s)"

definition report_context ::
  "env \<Rightarrow> string \<Rightarrow> string \<Rightarrow> User option \<Rightarrow> listenerReportRequest \<Rightarrow> pgdb \<Rightarrow> ListenerReportContext" where
  "report_context env ip agent user q db =
     \<lparr>rc_category = lq_category q, rc_message = trim_space (lq_message q),
      rc_contact = (case user of Some u \<Rightarrow> user_email u | None \<Rightarrow> lq_contact q), rc_contact_back = lq_contact_back q,
      rc_user = (case user of Some u \<Rightarrow> user_id u | None \<Rightarrow> ''''), rc_slug = lq_slug q,
      rc_room = (if lq_slug q \<noteq> '''' then (case or_zero None (GetRoomBySlug (env_faults env) (lq_slug q) db) of
          Some room \<Rightarrow> room_name room | None \<Rightarrow> ''(unknown)'') else ''(unknown)''),
      rc_track_id = lq_track_id q, rc_title = or_unknown (lq_title q), rc_artist = or_unknown (lq_artist q),
      rc_position = lq_position q, rc_agent = agent, rc_ip = ip, rc_at = env_now env\<rparr>"

definition CreateListenerReport ::
  "(resendPayload \<Rightarrow> nat option) \<Rightarrow> (gotime \<Rightarrow> string) \<Rightarrow> (real \<Rightarrow> string) \<Rightarrow> email_service \<Rightarrow> outside \<Rightarrow> auth_config \<Rightarrow> env
     \<Rightarrow> string \<Rightarrow> string \<Rightarrow> User option \<Rightarrow> listenerReportRequest option \<Rightarrow> server \<Rightarrow> server \<times> resendPayload list \<times> unit response" where
  "CreateListenerReport post rfc3339 one_decimal es ext cf env ip agent user req sv =
     (case req of
        None \<Rightarrow> (sv, [], HttpError 400 ''invalid JSON'')
      | Some q \<Rightarrow> (case validateListenerReport (mail_ok ext) q (user \<noteq> None) of
            Some msg \<Rightarrow> (sv, [], HttpError 400 msg)
          | None \<Rightarrow>
              if isLikelyBot q (env_now env) then (sv, [], HttpOK 200 ())
              else (case limited cf (\<lambda>rl. AllowSupportReport rl (loopback ext) (env_rfaults env) (env_now env) ip) sv of
                (sv1, allowed) \<Rightarrow>
                  if \<not> allowed then (sv1, [], HttpError 429 (''You'' @ [CHR 0x27] @ ''ve sent a lot of reports '' @ em_dash
                      @ '' please email support@jukebox-app.com directly.''))
                  else (case SendListenerReport post rfc3339 one_decimal es (report_context env ip agent user q (sv_pg sv1)) of
                      (posted, True) \<Rightarrow> (sv1, posted, HttpOK 200 ())
                    | (posted, False) \<Rightarrow> (sv1, posted, HttpError 500 (''couldn'' @ [CHR 0x27] @ ''t send '' @ em_dash
                        @ '' please try again or email support@jukebox-app.com''))))))"

section \<open>What a report can do to its mail\<close>

text \<open>The characters that structure HTML, and the reading of the entities the escaping writes.\<close>

definition markup :: "string \<Rightarrow> string" where
  "markup s = filter (\<lambda>c. c \<in> {CHR ''<'', CHR ''>'', CHR 0x22, CHR 0x27}) s"

function html_unescape :: "string \<Rightarrow> string" where
  "html_unescape s =
     (if s = '''' then ''''
      else if has_prefix s ''&amp;'' then CHR ''&'' # html_unescape (drop 5 s)
      else if has_prefix s ''&#39;'' then CHR 0x27 # html_unescape (drop 5 s)
      else if has_prefix s ''&lt;'' then CHR ''<'' # html_unescape (drop 4 s)
      else if has_prefix s ''&gt;'' then CHR ''>'' # html_unescape (drop 4 s)
      else if has_prefix s ''&#34;'' then CHR 0x22 # html_unescape (drop 5 s)
      else hd s # html_unescape (tl s))"
  by pat_completeness auto
termination by (relation "measure length") auto

declare html_unescape.simps [simp del]

lemma html_unescape_char: "html_unescape (escape_char c @ s) = c # html_unescape s"
  by (subst html_unescape.simps) (auto simp: escape_char_def has_prefix_def)

lemma html_unescape_EscapeString [simp]: "html_unescape (EscapeString s) = s"
proof (induction s)
  case Nil
  then show ?case by (simp add: EscapeString_def html_unescape.simps)
next
  case (Cons c s)
  then show ?case by (simp add: EscapeString_def html_unescape_char)
qed

lemma markup_append [simp]: "markup (s @ t) = markup s @ markup t"
  by (simp add: markup_def)

lemma markup_EscapeString [simp]: "markup (EscapeString s) = ''''"
  by (induction s) (auto simp: EscapeString_def markup_def escape_char_def)

lemma markup_row: "markup (report_row r) = markup (report_row r')"
  by (cases r; cases r') (simp only: report_row_def prod.case markup_append markup_EscapeString)

lemma markup_rows: "length rs = length rs' \<Longrightarrow> markup (concat (map report_row rs)) = markup (concat (map report_row rs'))"
proof (induction rs rs' rule: list_induct2)
  case (Cons r rs r' rs')
  then show ?case using markup_row [of r r'] by simp
qed simp

lemma markup_report:
  "markup (composeListenerReportHTML rfc3339 one_decimal ctx) = markup (composeListenerReportHTML rfc3339 one_decimal ctx')"
proof -
  have "markup (concat (map report_row (report_rows rfc3339 one_decimal ctx))) =
      markup (concat (map report_row (report_rows rfc3339 one_decimal ctx')))"
    by (rule markup_rows) (simp add: report_rows_def)
  moreover have "markup (if b then ''yes'' else ''no'') = ''''" for b by (simp add: markup_def)
  ultimately show ?thesis by (simp only: composeListenerReportHTML_def markup_append markup_EscapeString)
qed

lemma part_here: "\<exists>pre rest. t @ r = pre @ t @ rest" for t :: "'a list"
  by (rule exI [of _ "[]"], rule exI [of _ r]) simp

lemma part_later: "\<exists>pre rest. s = pre @ t @ rest \<Longrightarrow> \<exists>pre rest. a @ s = pre @ t @ rest" for t :: "'a list"
  by (metis append_assoc)

lemma message_in_report:
  "\<exists>pre rest. composeListenerReportHTML rfc3339 one_decimal ctx = pre @ EscapeString (rc_message ctx) @ rest"
  unfolding composeListenerReportHTML_def by (rule part_here | rule part_later)+

text \<open>
  C35: A report reaches support, and cannot do more than say its text. Something is posted to the mail
  provider only for a report that is valid, was opened between two seconds ago and the beginning of the
  epoch, leaves the trap field empty and stays within the limit of its address; then it is one mail,
  from the address of the service to that of support alone, which names the account's own address if
  the reporter is signed in. Whatever the report contains, the characters of the mail that structure
  HTML are those of every other report, and the message stands in it such that reading the entities
  gives back the text, without surrounding blanks, that was sent.
\<close>

theorem report_mail_is_inert:
  assumes "CreateListenerReport post rfc3339 one_decimal es ext cf env ip agent user (Some q) sv = (sv', posted, r)"
    and "posted \<noteq> []"
  shows "validateListenerReport (mail_ok ext) q (user \<noteq> None) = None \<and> lq_website q = ''''
    \<and> 0 < lq_opened_at q \<and> lq_opened_at q + 2000 \<le> unix_milli (env_now env)
    \<and> snd (limited cf (\<lambda>rl. AllowSupportReport rl (loopback ext) (env_rfaults env) (env_now env) ip) sv)
    \<and> (\<exists>mail ctx text pre rest. posted = [mail] \<and> rp_from mail = es_from es \<and> rp_to mail = [es_support_to es]
        \<and> rp_html mail = composeListenerReportHTML rfc3339 one_decimal ctx
        \<and> (\<forall>u. user = Some u \<longrightarrow> rc_contact ctx = user_email u \<and> rc_user ctx = user_id u)
        \<and> (\<forall>other. markup (rp_html mail) = markup (composeListenerReportHTML rfc3339 one_decimal other))
        \<and> rp_html mail = pre @ text @ rest \<and> html_unescape text = trim_space (lq_message q))"
proof -
  obtain sv1 allowed where l: "limited cf (\<lambda>rl. AllowSupportReport rl (loopback ext) (env_rfaults env) (env_now env) ip) sv = (sv1, allowed)"
    by fastforce
  let ?ctx = "report_context env ip agent user q (sv_pg sv1)"
  obtain posts ok where sent: "SendListenerReport post rfc3339 one_decimal es ?ctx = (posts, ok)" by fastforce
  have valid: "validateListenerReport (mail_ok ext) q (user \<noteq> None) = None" and human: "\<not> isLikelyBot q (env_now env)" and allowed
    and posts: "posted = posts"
    using assms l sent by (auto simp: CreateListenerReport_def split: option.splits if_splits bool.splits)
  have opened: "lq_website q = '''' \<and> 0 < lq_opened_at q \<and> lq_opened_at q + 2000 \<le> unix_milli (env_now env)"
    using human by (auto simp: isLikelyBot_def Let_def split: if_splits)
  obtain mail where mail: "posted = [mail]" "rp_from mail = es_from es" "rp_to mail = [es_support_to es]"
      "rp_html mail = composeListenerReportHTML rfc3339 one_decimal ?ctx"
    using sent assms(2) posts by (auto simp: SendListenerReport_def send_mail_def Let_def split: if_splits)
  obtain pre rest where where_text: "rp_html mail = pre @ EscapeString (rc_message ?ctx) @ rest"
    using message_in_report mail(4) by metis
  have fields: "rc_message ?ctx = trim_space (lq_message q)"
      "\<And>u. user = Some u \<Longrightarrow> rc_contact ?ctx = user_email u \<and> rc_user ?ctx = user_id u"
    by (simp_all add: report_context_def)
  have markup_of: "markup (rp_html mail) = markup (composeListenerReportHTML rfc3339 one_decimal other)" for other
    unfolding mail(4) by (rule markup_report)
  show ?thesis
  proof (intro conjI)
    show "\<exists>mail ctx text pre rest. posted = [mail] \<and> rp_from mail = es_from es \<and> rp_to mail = [es_support_to es]
        \<and> rp_html mail = composeListenerReportHTML rfc3339 one_decimal ctx
        \<and> (\<forall>u. user = Some u \<longrightarrow> rc_contact ctx = user_email u \<and> rc_user ctx = user_id u)
        \<and> (\<forall>other. markup (rp_html mail) = markup (composeListenerReportHTML rfc3339 one_decimal other))
        \<and> rp_html mail = pre @ text @ rest \<and> html_unescape text = trim_space (lq_message q)"
      by (rule exI [of _ mail], rule exI [of _ ?ctx], rule exI [of _ "EscapeString (rc_message ?ctx)"], rule exI [of _ pre], rule exI [of _ rest])
        (intro conjI allI impI mail where_text markup_of, use fields in simp_all)
  qed (use valid opened l \<open>allowed\<close> in auto)
qed

definition demo_mailer :: email_service where
  "demo_mailer = \<lparr>es_api_key = ''key'', es_from = ''noreply@jukebox'', es_frontend = ''https://app.io'', es_support_to = ''help@jukebox''\<rparr>"

definition demo_report :: listenerReportRequest where
  "demo_report = \<lparr>lq_category = ''no-audio'', lq_message = '' <b>silence</b> for hours '', lq_contact = ''ann@mail.org'',
     lq_contact_back = True, lq_opened_at = 1000, lq_website = '''', lq_slug = '''', lq_track_id = '''', lq_title = '''',
     lq_artist = '''', lq_position = 0\<rparr>"

text \<open>A report with a tag in its message.\<close>

theorem report_mail_is_inert_witness:
  "\<exists>mail text pre rest. fst (snd (CreateListenerReport (\<lambda>_. Some 200) (\<lambda>_. '''') (\<lambda>_. '''') demo_mailer plain_outside
        (demo_cf\<lparr>cf_limiter := None\<rparr>) (demo_env (9 * second)) ''1.2.3.4'' '''' None (Some demo_report) demo_accounts)) = [mail]
     \<and> rp_to mail = [''help@jukebox''] \<and> rp_html mail = pre @ text @ rest
     \<and> html_unescape text = ''<b>silence</b> for hours''"
proof -
  let ?run = "CreateListenerReport (\<lambda>_. Some 200) (\<lambda>_. '''') (\<lambda>_. '''') demo_mailer plain_outside
        (demo_cf\<lparr>cf_limiter := None\<rparr>) (demo_env (9 * second)) ''1.2.3.4'' '''' None (Some demo_report) demo_accounts"
  have trimmed: "trim_space '' <b>silence</b> for hours '' = ''<b>silence</b> for hours''" by code_simp
  have valid: "validateListenerReport (mail_ok plain_outside) demo_report False = None"
    by (simp add: validateListenerReport_def demo_report_def trimmed plain_outside_def)
  have human: "\<not> isLikelyBot demo_report (9 * second)"
    by (simp add: isLikelyBot_def demo_report_def demo_env_def second_def unix_milli_def millisecond_def)
  obtain sv' posted r where run: "?run = (sv', posted, r)" by (metis prod_cases3)
  have "posted \<noteq> []" using run
    by (simp add: CreateListenerReport_def valid human limited_def SendListenerReport_def send_mail_def demo_mailer_def Let_def)
      (auto split: if_splits)
  from report_mail_is_inert [OF run this]
  obtain mail body pre rest where "posted = [mail]" "rp_to mail = [es_support_to demo_mailer]" "rp_html mail = pre @ body @ rest"
      "html_unescape body = trim_space (lq_message demo_report)"
    by blast
  then show ?thesis
    unfolding run by (auto simp: demo_mailer_def demo_report_def trimmed)
qed

end
