(* ===== verification/Profiles.thy ===== *)
theory Profiles
  imports Admin AuthProps "HOL-Library.Option_ord" "HOL-Library.Product_Lexorder" "HOL-Library.Sublist"
begin

text \<open>
  What the server tells about people: public DJ profiles (\<open>internal/store/djs.go\<close>,
  \<open>internal/handlers/djs.go\<close>), a listener's own statistics (\<open>store/users.go\<close>, \<open>handlers/auth.go\<close>) and
  the administrators' search over accounts. The queries only read; an \<open>ORDER BY\<close> with several keys
  sorts by a tuple. \<open>Desc\<close> turns a column round; the least option is \<open>None\<close>, so on a column with
  NULLs it is \<open>DESC NULLS LAST\<close>.
\<close>

section \<open>Descending columns\<close>

datatype 'a desc = Desc (ascending: 'a)

instantiation desc :: (linorder) linorder
begin

definition less_eq_desc :: "'a desc \<Rightarrow> 'a desc \<Rightarrow> bool" where
  "less_eq_desc a b \<longleftrightarrow> ascending b \<le> ascending a"

definition less_desc :: "'a desc \<Rightarrow> 'a desc \<Rightarrow> bool" where
  "less_desc a b \<longleftrightarrow> ascending b < ascending a"

instance
  by standard (auto simp: less_eq_desc_def less_desc_def intro: desc.expand)

end

lemma desc_le_iff [simp]: "Desc a \<le> Desc b \<longleftrightarrow> b \<le> a"
  by (simp add: less_eq_desc_def)

text \<open>\<open>ORDER BY\<close> followed by \<open>LIMIT\<close>; a limit that is not positive is replaced by the default.\<close>

definition top_rows :: "nat \<Rightarrow> ('r \<Rightarrow> 'k::linorder) \<Rightarrow> 'r list \<Rightarrow> 'r list" where
  "top_rows n key rows = take n (sort_key key rows)"

definition limit_or :: "int \<Rightarrow> int \<Rightarrow> nat" where
  "limit_or usual limit = nat (if limit \<le> 0 then usual else limit)"

section \<open>The store of DJ profiles\<close>

text \<open>The columns that the look-up by stage name reads; the others keep their zero values.\<close>

definition public_user :: "User \<Rightarrow> User" where
  "public_user u = zero_user\<lparr>user_id := user_id u, user_display_name := user_display_name u,
     user_stage_name := user_stage_name u, user_avatar_color := user_avatar_color u,
     user_avatar_url := user_avatar_url u, user_bio := user_bio u, user_genres := user_genres u,
     user_created_at := user_created_at u\<rparr>"

definition has_profile :: "string \<Rightarrow> User \<Rightarrow> bool" where
  "has_profile name u \<longleftrightarrow> user_stage_name u \<noteq> '''' \<and> to_lower (user_stage_name u) = to_lower name
     \<and> \<not> user_is_banned u"

definition GetUserByStageName :: "faults \<Rightarrow> string \<Rightarrow> pgdb \<Rightarrow> User option fallible" where
  "GetUserByStageName f name db = failing (f (CProfile PfUser))
     (map_option public_user (find_row (has_profile name) (db_users db)))"

definition rooms_of :: "string \<Rightarrow> pgdb \<Rightarrow> Room list" where
  "rooms_of uid db = filter (\<lambda>r. room_creator r = uid) (db_rooms db)"

definition GetLiveRoomByCreator :: "faults \<Rightarrow> string \<Rightarrow> pgdb \<Rightarrow> Room option fallible" where
  "GetLiveRoomByCreator f uid db = failing (f (CProfile PfLive))
     (case top_rows 1 (\<lambda>r. (Desc (room_last_active r), Desc (room_created_at r)))
         (filter room_is_live (rooms_of uid db)) of
        [] \<Rightarrow> None
      | r # _ \<Rightarrow> Some r)"

record DJStats =
  st_shows :: nat
  st_listeners :: nat

definition GetDJStats :: "faults \<Rightarrow> string \<Rightarrow> pgdb \<Rightarrow> DJStats fallible" where
  "GetDJStats f uid db = failing (f (CProfile PfStats))
     \<lparr>st_shows = affected (\<lambda>r. room_is_live r \<or> room_ended_at r \<noteq> None) (rooms_of uid db),
      st_listeners = length (remdups (map le_user
        (filter (\<lambda>l. le_room l \<in> room_id ` set (rooms_of uid db)) (db_listens db))))\<rparr>"

record DJRecentShow =
  sh_date :: gotime
  sh_room :: string
  sh_tracks :: nat

definition recent_show :: "pgdb \<Rightarrow> Room \<Rightarrow> DJRecentShow" where
  "recent_show db r = \<lparr>sh_date = the (room_ended_at r), sh_room = room_name r,
     sh_tracks = affected (\<lambda>q. qr_room q = room_id r \<and> qr_status q = QueuePlayed) (db_queue db)\<rparr>"

definition GetDJRecentShows :: "faults \<Rightarrow> string \<Rightarrow> int \<Rightarrow> pgdb \<Rightarrow> DJRecentShow list fallible" where
  "GetDJRecentShows f uid limit db = failing (f (CProfile PfShows))
     (map (recent_show db) (top_rows (limit_or 10 limit) (\<lambda>r. Desc (room_ended_at r))
        (filter (\<lambda>r. room_ended_at r \<noteq> None) (rooms_of uid db))))"

definition last_seen :: "Room \<Rightarrow> gotime" where
  "last_seen r = (case room_ended_at r of Some t \<Rightarrow> t | None \<Rightarrow>
     (case room_last_active r of Some t \<Rightarrow> t | None \<Rightarrow> room_created_at r))"

definition GetDJGenre :: "faults \<Rightarrow> string \<Rightarrow> pgdb \<Rightarrow> string fallible" where
  "GetDJGenre f uid db = failing (f (CProfile PfGenre))
     (case top_rows 1 (\<lambda>r. (Desc (room_is_live r), Desc (last_seen r)))
         (filter (\<lambda>r. room_genre r \<noteq> '''') (rooms_of uid db)) of
        [] \<Rightarrow> ''''
      | r # _ \<Rightarrow> room_genre r)"

section \<open>The profile\<close>

record DJProfile =
  dp_username :: string
  dp_display_name :: string
  dp_bio :: "string option"
  dp_avatar_url :: "string option"
  dp_is_live :: bool
  dp_room_slug :: "string option"
  dp_genre :: "string option"
  dp_stats :: DJStats
  dp_shows :: "DJRecentShow list"

definition nullableString :: "string \<Rightarrow> string option" where
  "nullableString s = (if s = '''' then None else Some s)"

text \<open>The JSON answers: an error object, or a profile with its \<open>Cache-Control\<close> header.\<close>

datatype profile_reply = ErrorBody string | ProfileBody string DJProfile

text \<open>The profile of a user: every part that cannot be read keeps its zero value.\<close>

definition profile_parts :: "faults \<Rightarrow> User \<Rightarrow> pgdb \<Rightarrow> DJProfile" where
  "profile_parts f u db =
     (let live = or_zero None (GetLiveRoomByCreator f (user_id u) db) in
      \<lparr>dp_username = user_stage_name u, dp_display_name = user_display_name u,
       dp_bio = nullableString (user_bio u), dp_avatar_url = nullableString (user_avatar_url u),
       dp_is_live = (live \<noteq> None),
       dp_room_slug = (case live of None \<Rightarrow> None | Some r \<Rightarrow> nullableString (room_slug r)),
       dp_genre = nullableString (or_zero '''' (GetDJGenre f (user_id u) db)),
       dp_stats = or_zero \<lparr>st_shows = 0, st_listeners = 0\<rparr> (GetDJStats f (user_id u) db),
       dp_shows = or_zero [] (GetDJRecentShows f (user_id u) 10 db)\<rparr>)"

definition GetProfile :: "env \<Rightarrow> bool \<Rightarrow> string \<Rightarrow> server \<Rightarrow> profile_reply response" where
  "GetProfile env setsCookie username sv =
     (case GetUserByStageName (env_faults env) username (sv_pg sv) of
        Inl _ \<Rightarrow> HttpError 500 ''internal error''
      | Inr None \<Rightarrow> HttpOK 404 (ErrorBody ''not found'')
      | Inr (Some u) \<Rightarrow> HttpOK 200 (ProfileBody
          (if setsCookie then ''no-store'' else ''public, max-age=60'')
          (profile_parts (env_faults env) u (sv_pg sv))))"

section \<open>A listener's own statistics\<close>

record UserStats =
  us_minutes :: int
  us_rooms :: nat
  us_tracks :: int

definition heard_by :: "string \<Rightarrow> pgdb \<Rightarrow> ListenEvent list" where
  "heard_by uid db = filter (\<lambda>l. le_user l = uid \<and> le_ended_at l \<noteq> None) (db_listens db)"

text \<open>\<open>SUM(duration_seconds) / 60\<close> divides integers.\<close>

definition minutes_of :: "ListenEvent list \<Rightarrow> int" where
  "minutes_of ls = go_div (sum_list (map le_duration ls)) 60"

definition GetUserStats :: "faults \<Rightarrow> string \<Rightarrow> pgdb \<Rightarrow> UserStats" where
  "GetUserStats f uid db =
     (let ls = heard_by uid db in
      if f (CProfile PfMyStats) then \<lparr>us_minutes = 0, us_rooms = 0, us_tracks = 0\<rparr>
      else \<lparr>us_minutes = minutes_of ls, us_rooms = length (remdups (map le_room ls)),
            us_tracks = sum_list (map le_tracks ls)\<rparr>)"

record FavoriteRoom =
  fr_room :: string
  fr_name :: string
  fr_slug :: string
  fr_genre :: string
  fr_cover :: string
  fr_minutes :: int
  fr_visits :: nat

definition favorite_room :: "string \<Rightarrow> pgdb \<Rightarrow> string \<Rightarrow> FavoriteRoom option" where
  "favorite_room uid db rid = map_option (\<lambda>r. \<lparr>fr_room = rid, fr_name = room_name r, fr_slug = room_slug r,
       fr_genre = room_genre r, fr_cover = room_cover_art r,
       fr_minutes = minutes_of (filter (\<lambda>l. le_room l = rid) (heard_by uid db)),
       fr_visits = affected (\<lambda>l. le_room l = rid) (heard_by uid db)\<rparr>)
     (find_row (\<lambda>r. room_id r = rid) (db_rooms db))"

definition GetUserFavoriteRooms :: "faults \<Rightarrow> string \<Rightarrow> int \<Rightarrow> pgdb \<Rightarrow> FavoriteRoom list fallible" where
  "GetUserFavoriteRooms f uid limit db = failing (f (CProfile PfFavorites))
     (top_rows (limit_or 10 limit) (\<lambda>x. Desc (fr_minutes x))
       (List.map_filter (favorite_room uid db) (remdups (map le_room (heard_by uid db)))))"

definition GetMyStats :: "env \<Rightarrow> User option \<Rightarrow> server \<Rightarrow> UserStats response" where
  "GetMyStats env user sv =
     (case user of
        None \<Rightarrow> HttpError 401 ''authentication required''
      | Some u \<Rightarrow> HttpOK 200 (GetUserStats (env_faults env) (user_id u) (sv_pg sv)))"

definition GetMyFavorites :: "env \<Rightarrow> User option \<Rightarrow> server \<Rightarrow> FavoriteRoom list response" where
  "GetMyFavorites env user sv =
     (case user of
        None \<Rightarrow> HttpError 401 ''authentication required''
      | Some u \<Rightarrow> (case GetUserFavoriteRooms (env_faults env) (user_id u) 10 (sv_pg sv) of
            Inl _ \<Rightarrow> HttpError 500 ''internal error''
          | Inr favs \<Rightarrow> HttpOK 200
              (map (\<lambda>x. x\<lparr>fr_cover := stripOversizedCover (fr_cover x) maxDataURLCoverBytes\<rparr>) favs)))"

section \<open>The administrators' search\<close>

text \<open>\<open>LIKE\<close>: a percent sign stands for any text, an underscore for one character, and a backslash
  takes the next character literally.\<close>

fun like :: "string \<Rightarrow> string \<Rightarrow> bool" where
  "like [] s \<longleftrightarrow> s = []"
| "like (p # ps) s \<longleftrightarrow>
     (if p = CHR ''%'' then list_ex (\<lambda>k. like ps (drop k s)) [0..<Suc (length s)]
      else case s of
        [] \<Rightarrow> False
      | c # cs \<Rightarrow>
          if p = CHR ''_'' then like ps cs
          else if p = CHR 0x5C then (case ps of [] \<Rightarrow> False | q # qs \<Rightarrow> c = q \<and> like qs cs)
          else c = p \<and> like ps cs)"

definition ilike :: "string \<Rightarrow> string \<Rightarrow> bool" where
  "ilike pattern s \<longleftrightarrow> like (to_lower pattern) (to_lower s)"

text \<open>The columns that the list reads; the others keep their zero values.\<close>

definition admin_columns :: "User \<Rightarrow> User" where
  "admin_columns u = u\<lparr>user_password_hash := '''', user_avatar_url := '''', user_genres := [],
     user_plus_since := None, user_plus_expires_at := None\<rparr>"

definition found_by :: "string \<Rightarrow> User \<Rightarrow> bool" where
  "found_by query u \<longleftrightarrow> (query = '''' \<or> (let pattern = ''%'' @ query @ ''%'' in
     ilike pattern (user_email u) \<or> ilike pattern (user_display_name u) \<or> ilike pattern (user_stage_name u)))"

definition AdminListUsers :: "faults \<Rightarrow> string \<Rightarrow> pgdb \<Rightarrow> User list fallible" where
  "AdminListUsers f query db = failing (f (CProfile PfListUsers))
     (map admin_columns (top_rows 100 (\<lambda>u. Desc (user_created_at u)) (filter (found_by query) (db_users db))))"

definition ListUsers_handler ::
  "env \<Rightarrow> User option \<Rightarrow> string \<Rightarrow> server \<Rightarrow> server \<times> admin_view list response" where
  "ListUsers_handler env user query sv = as_admin user sv
     (case AdminListUsers (env_faults env) query (sv_pg sv) of
        Inl _ \<Rightarrow> (sv, HttpError 500 ''internal error'')
      | Inr users \<Rightarrow> (sv, HttpOK 200 (newAdminUserViews users)))"

section \<open>Sorting with a limit\<close>

lemma top_rows_subset: "set (top_rows n k rows) \<subseteq> set rows"
  unfolding top_rows_def using set_take_subset [of n "sort_key k rows"] by simp

lemma length_top_rows [simp]: "length (top_rows n k rows) = min n (length rows)"
  by (simp add: top_rows_def min.commute)

lemma sorted_top_rows: "sorted (map k (top_rows n k rows))"
  unfolding top_rows_def take_map [symmetric] by (intro sorted_wrt_take) simp

text \<open>What the limit cuts off does not come before what is shown.\<close>

lemma top_rows_best:
  assumes "x \<in> set rows"
  shows "x \<in> set (top_rows n k rows) \<or> length (top_rows n k rows) = n \<and> (\<forall>y \<in> set (top_rows n k rows). k y \<le> k x)"
proof (cases "x \<in> set (top_rows n k rows)")
  case False
  let ?xs = "sort_key k rows"
  have cut: "x \<in> set (drop n ?xs)"
    using False assms append_take_drop_id [of n ?xs] by (metis Un_iff set_append set_sort top_rows_def)
  have "sorted (map k (take n ?xs) @ map k (drop n ?xs))"
    by (simp only: map_append [symmetric] append_take_drop_id sorted_sort_key)
  then have "\<forall>y \<in> set (take n ?xs). k y \<le> k x" using cut by (auto simp: sorted_append)
  moreover have "n \<le> length rows" using cut by (cases "n \<le> length rows") simp_all
  ultimately show ?thesis by (simp add: top_rows_def)
qed simp

lemma top_rows_Nil [simp]: "0 < n \<Longrightarrow> top_rows n k rows = [] \<longleftrightarrow> rows = []"
  using length_top_rows [of n k rows] by (metis length_0_conv min_0R min_def not_less_zero)

lemma top_rows_empty [simp]: "top_rows n k [] = []"
  by (simp add: top_rows_def)

section \<open>Public profiles\<close>

lemma find_profile:
  assumes "distinct (stage_names db)" and "u \<in> set (db_users db)" and "has_profile name u"
  shows "find_row (has_profile name) (db_users db) = Some u"
proof -
  let ?named = "filter (\<lambda>u. user_stage_name u \<noteq> '''') (db_users db)"
  obtain v where v: "find_row (has_profile name) (db_users db) = Some v"
    using assms(2,3) by (cases "find_row (has_profile name) (db_users db)") (auto simp: find_row_None)
  then have "v \<in> set (db_users db)" "has_profile name v" by (auto dest: find_row_Some)
  moreover have "inj_on (to_lower \<circ> user_stage_name) (set ?named)"
    using assms(1) by (simp add: stage_names_def distinct_map del: o_apply)
  ultimately have "v = u" using assms(2,3) by (auto simp: has_profile_def inj_on_def)
  then show ?thesis using v by simp
qed

lemma profile_found:
  assumes "users_wf (sv_pg sv)" and "\<not> env_faults env (CProfile PfUser)"
    and "u \<in> set (db_users (sv_pg sv))" and "has_profile name u"
  shows "GetProfile env cookie name sv = HttpOK 200 (ProfileBody
    (if cookie then ''no-store'' else ''public, max-age=60'') (profile_parts (env_faults env) (public_user u) (sv_pg sv)))"
  using assms find_profile [OF _ assms(3,4)]
  by (simp add: GetProfile_def GetUserByStageName_def failing_def users_wf_def)

lemma live_room_exact:
  assumes "\<not> f (CProfile PfLive)"
  shows "GetLiveRoomByCreator f uid db = Inr x \<Longrightarrow>
    (case x of None \<Rightarrow> \<forall>r \<in> set (rooms_of uid db). \<not> room_is_live r
     | Some r \<Rightarrow> r \<in> set (rooms_of uid db) \<and> room_is_live r)"
proof -
  let ?key = "\<lambda>r. (Desc (room_last_active r), Desc (room_created_at r))"
  let ?live = "filter room_is_live (rooms_of uid db)"
  assume got: "GetLiveRoomByCreator f uid db = Inr x"
  show ?thesis
  proof (cases "top_rows 1 ?key ?live")
    case Nil
    then have "?live = []" by simp
    then show ?thesis using got assms Nil by (simp add: GetLiveRoomByCreator_def filter_empty_conv)
  next
    case (Cons r rs)
    then have "r \<in> set ?live" using top_rows_subset [of 1 ?key ?live] by auto
    then show ?thesis using got assms Cons by (auto simp: GetLiveRoomByCreator_def)
  qed
qed

text \<open>The public columns of an account, and whether it is banned.\<close>

definition public_face :: "User \<Rightarrow> User" where
  "public_face u = zero_user\<lparr>user_id := user_id u, user_display_name := user_display_name u,
     user_stage_name := user_stage_name u, user_avatar_color := user_avatar_color u,
     user_avatar_url := user_avatar_url u, user_bio := user_bio u, user_genres := user_genres u,
     user_created_at := user_created_at u, user_is_banned := user_is_banned u\<rparr>"

lemma public_face_simps [simp]:
  "has_profile name (public_face u) = has_profile name u" "public_user (public_face u) = public_user u"
  by (simp_all add: public_face_def public_user_def has_profile_def zero_user_def)

lemma find_row_map: "find_row p (map g rows) = map_option g (find_row (\<lambda>r. p (g r)) rows)"
  by (induction rows) (simp_all add: find_row_simps)

lemma public_lookup:
  "map_option public_user (find_row (has_profile name) us)
    = map_option public_user (find_row (has_profile name) (map public_face us))"
  by (simp add: find_row_map option.map_comp comp_def)

text \<open>
  C37: A profile is public: it depends on the public columns of the accounts and on the rooms, plays and
  listens only. Two servers that differ in e-mail addresses, password hashes, balances, sign-up
  addresses or anything else about the accounts answer every request for a profile alike.
\<close>

theorem profile_is_public:
  assumes "map public_face (db_users (sv_pg sv)) = map public_face (db_users (sv_pg sv2))"
    and "db_rooms (sv_pg sv) = db_rooms (sv_pg sv2)" and "db_queue (sv_pg sv) = db_queue (sv_pg sv2)"
    and "db_listens (sv_pg sv) = db_listens (sv_pg sv2)"
  shows "GetProfile env cookie name sv = GetProfile env cookie name sv2"
proof -
  have user: "GetUserByStageName f name (sv_pg sv) = GetUserByStageName f name (sv_pg sv2)" for f
    by (simp add: GetUserByStageName_def public_lookup [of name "db_users (sv_pg sv)"] assms(1) public_lookup [symmetric])
  have rooms: "rooms_of uid (sv_pg sv) = rooms_of uid (sv_pg sv2)" for uid
    by (simp add: rooms_of_def assms(2))
  have listing: "recent_show (sv_pg sv) = recent_show (sv_pg sv2)"
    by (rule ext) (simp add: recent_show_def assms(3))
  have "profile_parts f u (sv_pg sv) = profile_parts f u (sv_pg sv2)" for f u
    by (simp add: profile_parts_def GetLiveRoomByCreator_def GetDJGenre_def GetDJStats_def GetDJRecentShows_def
        rooms listing assms(4))
  then have "(\<lambda>u. profile_parts f u (sv_pg sv)) = (\<lambda>u. profile_parts f u (sv_pg sv2))" for f by simp
  then show ?thesis unfolding GetProfile_def user by metis
qed

text \<open>
  While the store answers, a stage name in any case leads to the one account that has it, and its
  profile tells the truth: on air exactly when one of its rooms is live, with the slug of such a room;
  as many listeners as distinct users ever listened in its rooms; and of its ended rooms the ten that
  ended last, newest first, with the number of tracks each has played.
\<close>

theorem dj_profile_exact:
  assumes "users_wf (sv_pg sv)" and "\<And>c. \<not> env_faults env (CProfile c)"
    and "u \<in> set (db_users (sv_pg sv))" and "has_profile name u"
  defines "db \<equiv> sv_pg sv" and "mine \<equiv> set (rooms_of (user_id u) (sv_pg sv))"
  shows "\<exists>header p. GetProfile env cookie name sv = HttpOK 200 (ProfileBody header p)
    \<and> dp_username p = user_stage_name u
    \<and> (dp_is_live p \<longleftrightarrow> (\<exists>r \<in> mine. room_is_live r))
    \<and> (\<forall>s. dp_room_slug p = Some s \<longrightarrow> (\<exists>r \<in> mine. room_is_live r \<and> room_slug r = s))
    \<and> st_listeners (dp_stats p) = card {v. \<exists>l \<in> set (db_listens db). le_user l = v \<and> le_room l \<in> room_id ` mine}
    \<and> length (dp_shows p) \<le> 10 \<and> sorted_wrt (\<lambda>a b. sh_date b \<le> sh_date a) (dp_shows p)
    \<and> set (dp_shows p) \<subseteq> recent_show db ` {r \<in> mine. room_ended_at r \<noteq> None}
    \<and> (\<forall>r \<in> mine. \<forall>t. room_ended_at r = Some t \<longrightarrow> recent_show db r \<in> set (dp_shows p)
         \<or> length (dp_shows p) = 10 \<and> (\<forall>x \<in> set (dp_shows p). t \<le> sh_date x))"
proof -
  define p where "p = profile_parts (env_faults env) (public_user u) db"
  define ended where "ended = filter (\<lambda>r. room_ended_at r \<noteq> None) (rooms_of (user_id u) db)"
  define key :: "Room \<Rightarrow> gotime option desc" where "key = (\<lambda>r. Desc (room_ended_at r))"
  have answer: "GetProfile env cookie name sv = HttpOK 200 (ProfileBody (if cookie then ''no-store'' else ''public, max-age=60'') p)"
    unfolding p_def db_def by (rule profile_found) (use assms(1-4) in auto)
  have ids: "user_id (public_user u) = user_id u" "user_stage_name (public_user u) = user_stage_name u"
    by (simp_all add: public_user_def)
  obtain live where live: "GetLiveRoomByCreator (env_faults env) (user_id u) db = Inr live"
    using assms(2) by (simp add: GetLiveRoomByCreator_def)
  note exact = live_room_exact [OF assms(2) live]
  have name: "dp_username p = user_stage_name u" by (simp add: p_def profile_parts_def ids Let_def)
  have on_air: "dp_is_live p = (live \<noteq> None)"
    "dp_room_slug p = (case live of None \<Rightarrow> None | Some r \<Rightarrow> nullableString (room_slug r))"
    by (simp_all add: p_def profile_parts_def ids Let_def live)
  have is_live: "dp_is_live p \<longleftrightarrow> (\<exists>r \<in> mine. room_is_live r)"
    using exact by (cases live) (auto simp: on_air mine_def db_def)
  have slug: "\<forall>s. dp_room_slug p = Some s \<longrightarrow> (\<exists>r \<in> mine. room_is_live r \<and> room_slug r = s)"
    using exact by (cases live) (auto simp: on_air mine_def db_def nullableString_def split: if_splits)
  have "set (map le_user (filter (\<lambda>l. le_room l \<in> room_id ` mine) (db_listens db)))
      = {v. \<exists>l \<in> set (db_listens db). le_user l = v \<and> le_room l \<in> room_id ` mine}" by auto
  then have listeners: "st_listeners (dp_stats p)
      = card {v. \<exists>l \<in> set (db_listens db). le_user l = v \<and> le_room l \<in> room_id ` mine}"
    using assms(2) by (simp add: p_def profile_parts_def ids Let_def GetDJStats_def length_remdups_card_conv mine_def db_def)
  have listing: "dp_shows p = map (recent_show db) (top_rows 10 key ended)"
    using assms(2) by (simp add: p_def profile_parts_def ids Let_def GetDJRecentShows_def limit_or_def key_def ended_def)
  have some: "\<exists>t. room_ended_at r = Some t \<and> sh_date (recent_show db r) = t" if "r \<in> set (top_rows 10 key ended)" for r
    using that top_rows_subset [of 10 key ended] by (auto simp: ended_def recent_show_def)
  have "sorted_wrt (\<lambda>a b. key a \<le> key b) (top_rows 10 key ended)"
    using sorted_top_rows [of key 10 ended] by (simp add: sorted_wrt_map)
  then have sorted: "sorted_wrt (\<lambda>a b. sh_date b \<le> sh_date a) (dp_shows p)"
    unfolding listing sorted_wrt_map by (rule sorted_wrt_mono_rel [rotated]) (use some in \<open>fastforce simp: key_def\<close>)
  have subset: "set (dp_shows p) \<subseteq> recent_show db ` {r \<in> mine. room_ended_at r \<noteq> None}"
    using top_rows_subset [of 10 key ended] by (auto simp: listing ended_def mine_def db_def)
  have best: "recent_show db r \<in> set (dp_shows p) \<or> length (dp_shows p) = 10 \<and> (\<forall>x \<in> set (dp_shows p). t \<le> sh_date x)"
    if r: "r \<in> mine" "room_ended_at r = Some t" for r t
  proof -
    have "r \<in> set ended" using r by (simp add: ended_def mine_def db_def)
    from top_rows_best [OF this, of 10 key] show ?thesis
      using some r(2) by (fastforce simp: listing key_def)
  qed
  have "length (dp_shows p) \<le> 10" by (simp add: listing)
  with answer name is_live slug listeners sorted subset best show ?thesis by blast
qed

text \<open>A room that goes on air again keeps the time of its earlier end, so it is shown as a recent show too.\<close>

lemma live_again_stays_recent:
  assumes "SetRoomLive f now rid True db = Inr db'" and "r \<in> set (db_rooms db)" and "room_id r = rid"
    and "room_ended_at r = Some t"
  shows "\<exists>r' \<in> set (rooms_of (room_creator r) db'). room_is_live r' \<and> room_ended_at r' = Some t"
proof -
  let ?up = "\<lambda>r. if room_id r = rid then r\<lparr>room_is_live := True, room_last_active := None\<rparr> else r"
  have "set (db_rooms db') = ?up ` set (db_rooms db)"
    using assms(1) by (auto simp: SetRoomLive_def update_where_def Let_def)
  then have "?up r \<in> set (db_rooms db')" using assms(2) by blast
  then show ?thesis using assms(3,4) by (intro bexI [of _ "?up r"]) (simp_all add: rooms_of_def)
qed

section \<open>Changing one's own profile\<close>

lemma save_profile_ok:
  assumes "save_profile env u name bio color genres stage sv = (sv', HttpOK code v)"
  obtains db where "UpdateUserProfile (env_faults env) (user_id u) name bio color genres stage (sv_pg sv) = Inr db"
    and "sv' = sv\<lparr>sv_pg := db\<rparr>" and "code = 200"
    and "v = (case deref_or_zero zero_user (GetUserByID (env_faults env) (env_now env) (user_id u) db) of None \<Rightarrow> u | Some w \<Rightarrow> w)"
  using assms by (auto simp: save_profile_def split: sum.splits option.splits)

lemma profile_stage_ok:
  assumes "profile_stage env db u q shown = Inr (stage, display)"
  shows "(case pq_stage_name q of None \<Rightarrow> stage = user_stage_name u \<and> display = shown
     | Some s \<Rightarrow> stage = trim_space s \<and> display = stage \<and> 2 \<le> length stage \<and> length stage \<le> 30 \<and> \<not> ContainsProfanity stage)"
  using assms by (auto simp: profile_stage_def Let_def split: option.splits if_splits sum.splits bool.splits)

lemma UpdateProfile_ok:
  assumes "UpdateProfile env (Some u) (Some q) sv = (sv', HttpOK code v)"
  obtains name bio color stage display where "profile_name u q = Inr name" "profile_bio u q = Inr bio"
    "profile_color u q = Inr color" "profile_stage env (sv_pg sv) u q name = Inr (stage, display)"
    "save_profile env u display bio color (profile_genres u q) stage sv = (sv', HttpOK code v)"
  using assms by (auto simp: UpdateProfile_def split: sum.splits prod.splits)


section \<open>Searching accounts\<close>

lemma like_rest: "like (CHR ''%'' # ps) s \<longleftrightarrow> (\<exists>k \<le> length s. like ps (drop k s))"
  by (auto simp: list_ex_iff less_Suc_eq_le simp del: upt_Suc)

lemma like_plain:
  assumes "set q \<inter> {CHR ''%'', CHR ''_'', CHR 0x5C} = {}"
  shows "like (q @ ps) s \<longleftrightarrow> (\<exists>t. s = q @ t \<and> like ps t)"
  using assms
proof (induction q arbitrary: s)
  case (Cons p q)
  then show ?case by (cases s) auto
qed simp

lemma like_anything: "like ''%'' s"
  unfolding like_rest by (rule exI [of _ "length s"]) simp

text \<open>A query without wildcards finds the texts that contain it.\<close>

lemma like_contains:
  assumes "set q \<inter> {CHR ''%'', CHR ''_'', CHR 0x5C} = {}"
  shows "like (''%'' @ q @ ''%'') s \<longleftrightarrow> sublist q s"
proof -
  have "like (''%'' @ q @ ''%'') s \<longleftrightarrow> (\<exists>k \<le> length s. \<exists>t. drop k s = q @ t)"
    using like_plain [OF assms] like_anything by (simp only: append_Cons append_Nil like_rest) simp
  also have "\<dots> \<longleftrightarrow> sublist q s"
  proof
    assume "\<exists>k \<le> length s. \<exists>t. drop k s = q @ t"
    then obtain k t where "drop k s = q @ t" by blast
    then have "s = take k s @ q @ t" by (metis append_take_drop_id)
    then show "sublist q s" unfolding sublist_def by blast
  next
    assume "sublist q s"
    then obtain a t where "s = a @ q @ t" by (auto simp: sublist_def)
    then show "\<exists>k \<le> length s. \<exists>t. drop k s = q @ t" by (intro exI [of _ "length a"]) simp
  qed
  finally show ?thesis .
qed

lemma lower_char_plain: "lower_char c \<in> {CHR ''%'', CHR ''_'', CHR 0x5C} \<longleftrightarrow> c \<in> {CHR ''%'', CHR ''_'', CHR 0x5C}"
proof (cases "65 \<le> (of_char c :: nat) \<and> of_char c \<le> (90 :: nat)")
  case True
  then have "of_char (lower_char c) = (of_char c + 32 :: nat)" by (simp add: lower_char_def)
  then have small: "97 \<le> (of_char (lower_char c) :: nat) \<and> of_char (lower_char c) \<le> (122 :: nat)" using True by simp
  have special: "of_char x = (37 :: nat) \<or> of_char x = (95 :: nat) \<or> of_char x = (92 :: nat)"
    if "x \<in> {CHR ''%'', CHR ''_'', CHR 0x5C}" for x using that by auto
  have "lower_char c \<notin> {CHR ''%'', CHR ''_'', CHR 0x5C}"
    using special [of "lower_char c"] small by linarith
  moreover have "c \<notin> {CHR ''%'', CHR ''_'', CHR 0x5C}" using special [of c] True by linarith
  ultimately show ?thesis by blast
qed (auto simp: lower_char_def)

lemma ilike_contains:
  assumes "set q \<inter> {CHR ''%'', CHR ''_'', CHR 0x5C} = {}"
  shows "ilike (''%'' @ q @ ''%'') s \<longleftrightarrow> sublist (to_lower q) (to_lower s)"
proof -
  have "c \<notin> {CHR ''%'', CHR ''_'', CHR 0x5C}" if "c \<in> set (to_lower q)" for c
  proof -
    obtain d where d: "d \<in> set q" "c = lower_char d" using \<open>c \<in> set (to_lower q)\<close> unfolding to_lower_def set_map by blast
    then have "d \<notin> {CHR ''%'', CHR ''_'', CHR 0x5C}" using assms by blast
    then show ?thesis unfolding d(2) lower_char_plain .
  qed
  then have "set (to_lower q) \<inter> {CHR ''%'', CHR ''_'', CHR 0x5C} = {}" by blast
  note contains = like_contains [OF this]
  have "to_lower (''%'' @ q @ ''%'') = ''%'' @ to_lower q @ ''%''"
    by (simp add: to_lower_append) (simp add: to_lower_def lower_char_def)
  then show ?thesis by (simp only: ilike_def contains)
qed

text \<open>
  The search over accounts: a query without wildcards lists the accounts whose e-mail address,
  display name or stage name contains it, up to case, the hundred newest of them, newest first; no
  listed account carries its password hash.
\<close>

theorem user_search_exact:
  fixes sv :: server
  assumes "requireAdmin user = None" and "\<not> env_faults env (CProfile PfListUsers)" and "q \<noteq> ''''"
    and "set q \<inter> {CHR ''%'', CHR ''_'', CHR 0x5C} = {}"
  defines "found \<equiv> {u \<in> set (db_users (sv_pg sv)). \<exists>t \<in> {user_email u, user_display_name u, user_stage_name u}.
    sublist (to_lower q) (to_lower t)}"
  shows "\<exists>users. ListUsers_handler env user q sv = (sv, HttpOK 200 (newAdminUserViews users))
    \<and> set users \<subseteq> admin_columns ` found \<and> length users \<le> 100
    \<and> (\<forall>u \<in> set users. user_password_hash u = '''')
    \<and> sorted_wrt (\<lambda>a b. user_created_at b \<le> user_created_at a) users
    \<and> (\<forall>u \<in> found. admin_columns u \<in> set users
        \<or> length users = 100 \<and> (\<forall>x \<in> set users. user_created_at u \<le> user_created_at x))"
proof -
  define key :: "User \<Rightarrow> gotime desc" where "key = (\<lambda>u. Desc (user_created_at u))"
  define hits where "hits = filter (found_by q) (db_users (sv_pg sv))"
  define users where "users = map admin_columns (top_rows 100 key hits)"
  have "ListUsers_handler env user q sv = (sv, HttpOK 200 (newAdminUserViews users))"
    using assms(1,2) by (simp add: ListUsers_handler_def as_admin_def AdminListUsers_def users_def key_def hits_def)
  moreover have hits: "set hits = found"
    using assms(3) by (auto simp: hits_def found_def found_by_def Let_def ilike_contains [OF assms(4)] simp del: append_Cons)
  moreover have "set users \<subseteq> admin_columns ` found"
    using top_rows_subset [of 100 key hits] hits by (auto simp: users_def)
  moreover have "length users \<le> 100" by (simp add: users_def)
  moreover have "\<forall>u \<in> set users. user_password_hash u = ''''" by (simp add: users_def admin_columns_def)
  moreover have "sorted_wrt (\<lambda>a b. user_created_at b \<le> user_created_at a) users"
    using sorted_top_rows [of key 100 hits] by (simp add: users_def sorted_wrt_map key_def admin_columns_def)
  moreover have "admin_columns u \<in> set users \<or> length users = 100 \<and> (\<forall>x \<in> set users. user_created_at u \<le> user_created_at x)"
    if "u \<in> found" for u
    using top_rows_best [of u hits 100 key] that hits by (auto simp: users_def key_def admin_columns_def)
  ultimately show ?thesis by blast
qed

section \<open>Witnesses\<close>

definition demo_dj :: User where
  "demo_dj = (demo_user ''bo'')\<lparr>user_stage_name := ''Bo''\<rparr>"

definition demo_studio :: server where
  "demo_studio = demo_accounts\<lparr>sv_pg := empty_db\<lparr>db_users := [demo_dj, demo_user ''cy''],
     db_rooms := [(demo_room ''r'')\<lparr>room_creator := ''bo'', room_is_live := True\<rparr>,
       (demo_room ''p'')\<lparr>room_creator := ''bo'', room_ended_at := Some 7\<rparr>]\<rparr>\<rparr>"

lemmas demo_studio_defs = demo_studio_def demo_dj_def demo_user_def demo_env_def no_faults_def empty_db_def

lemma demo_studio_users: "db_users (sv_pg demo_studio) = [demo_dj, demo_user ''cy'']"
  by (simp add: demo_studio_def)

lemma demo_studio_wf: "users_wf (sv_pg demo_studio)"
  by (simp add: users_wf_def stage_names_def demo_studio_defs)

lemma demo_profile: "has_profile ''bO'' demo_dj"
  by (simp add: has_profile_def demo_dj_def demo_user_def) (code_simp)

theorem profile_is_public_witness:
  "GetProfile (demo_env 0) False ''bO'' demo_studio
    = GetProfile (demo_env 0) False ''bO'' (demo_studio\<lparr>sv_pg := (sv_pg demo_studio)\<lparr>db_users :=
        [demo_dj\<lparr>user_email := ''other'', user_password_hash := ''other'', user_neon := 5\<rparr>, demo_user ''cy'']\<rparr>\<rparr>)"
  by (rule profile_is_public) (simp_all add: demo_studio_users public_face_def public_user_def demo_dj_def)

theorem dj_profile_exact_witness:
  "\<exists>header p. GetProfile (demo_env 0) False ''bO'' demo_studio = HttpOK 200 (ProfileBody header p)
    \<and> dp_username p = ''Bo'' \<and> dp_is_live p"
proof -
  have "\<exists>r \<in> set (rooms_of (user_id demo_dj) (sv_pg demo_studio)). room_is_live r"
    by (simp add: rooms_of_def demo_studio_defs demo_room_def)
  moreover have "user_stage_name demo_dj = ''Bo''" by (simp add: demo_dj_def)
  moreover have "\<not> env_faults (demo_env 0) (CProfile c)" for c by (simp add: demo_env_def no_faults_def)
  moreover have "demo_dj \<in> set (db_users (sv_pg demo_studio))" by (simp add: demo_studio_users)
  ultimately show ?thesis
    using dj_profile_exact [OF demo_studio_wf, of "demo_env 0" demo_dj "''bO''" False] demo_profile by metis
qed

definition demo_change :: profile_request where
  "demo_change = \<lparr>pq_display_name = None, pq_bio = Some '' hi '', pq_genres = None, pq_avatar_color = None,
     pq_stage_name = Some ''Bobby''\<rparr>"

lemma demo_change_checks:
  "profile_name demo_dj demo_change = Inr ''bo''" "profile_bio demo_dj demo_change = Inr ''hi''"
  "profile_color demo_dj demo_change = Inr ''''"
  "profile_stage (demo_env 0) (sv_pg demo_studio) demo_dj demo_change name = Inr (''Bobby'', ''Bobby'')"
proof -
  have bobby: "trim_space '' hi '' = ''hi''" "trim_space ''Bobby'' = ''Bobby''" "\<not> ContainsProfanity ''hi''"
    "\<not> ContainsProfanity ''Bobby''" "to_lower ''Bobby'' \<noteq> to_lower ''Bo''" "to_lower ''Bobby'' \<noteq> to_lower ''''" by code_simp+
  show "profile_name demo_dj demo_change = Inr ''bo''" "profile_color demo_dj demo_change = Inr ''''"
    by (simp_all add: profile_name_def profile_color_def demo_change_def demo_dj_def demo_user_def)
  show "profile_bio demo_dj demo_change = Inr ''hi''"
    by (simp add: profile_bio_def demo_change_def bobby Let_def)
  have "IsStageNameTaken (env_faults (demo_env 0)) ''Bobby'' (user_id demo_dj) (sv_pg demo_studio) = Inr False"
    using bobby by (simp add: IsStageNameTaken_def affected_def demo_studio_defs)
  then show "profile_stage (demo_env 0) (sv_pg demo_studio) demo_dj demo_change name = Inr (''Bobby'', ''Bobby'')"
    using bobby by (simp add: profile_stage_def demo_change_def Let_def demo_dj_def)
qed


definition demo_chief :: User where
  "demo_chief = (demo_user ''ann'')\<lparr>user_is_admin := True\<rparr>"

theorem user_search_exact_witness:
  "\<exists>users. ListUsers_handler (demo_env 0) (Some demo_chief) ''CY'' demo_studio = (demo_studio, HttpOK 200 (newAdminUserViews users))
    \<and> length users \<le> 100"
proof -
  have "requireAdmin (Some demo_chief) = None" by (simp add: requireAdmin_def demo_chief_def)
  moreover have "\<not> env_faults (demo_env 0) (CProfile PfListUsers)" by (simp add: demo_env_def no_faults_def)
  moreover have "set ''CY'' \<inter> {CHR ''%'', CHR ''_'', CHR 0x5C} = {}" by simp
  ultimately show ?thesis
    using user_search_exact [of "Some demo_chief" "demo_env 0" "''CY''" demo_studio] by blast
qed

end
