(* ===== verification/Metrics.thy ===== *)
theory Metrics
  imports Pool Startup Profiles
begin

text \<open>
  The dashboard of the administrators (\<open>internal/store/metrics.go\<close> and \<open>GetMetrics\<close> of
  \<open>internal/handlers/admin.go\<close>). The calendar of the database is an argument: the day of an instant,
  the instant a day begins, its text, the instant its week begins, and the instant so many days before.
  Days are numbered; sums of times are exact.
\<close>

section \<open>Days\<close>

record day_calendar =
  cal_day :: "gotime \<Rightarrow> int"
  cal_midnight :: "int \<Rightarrow> gotime"
  cal_text :: "int \<Rightarrow> string"
  cal_week :: "int \<Rightarrow> gotime"
  cal_before :: "int \<Rightarrow> gotime \<Rightarrow> gotime"

text \<open>\<open>generate_series(CURRENT_DATE - days, CURRENT_DATE, '1 day')\<close>.\<close>

definition day_series :: "day_calendar \<Rightarrow> gotime \<Rightarrow> int \<Rightarrow> int list" where
  "day_series cal now days = [cal_day cal now - days..cal_day cal now]"

definition StartOfDay :: "day_calendar \<Rightarrow> gotime \<Rightarrow> gotime" where
  "StartOfDay cal t = cal_midnight cal (cal_day cal t)"

record DailyCount =
  dc_date :: string
  dc_count :: int

definition per_day :: "day_calendar \<Rightarrow> gotime \<Rightarrow> int \<Rightarrow> (int \<Rightarrow> int) \<Rightarrow> DailyCount list" where
  "per_day cal now days count =
     map (\<lambda>d. \<lparr>dc_date = cal_text cal d, dc_count = count d\<rparr>) (day_series cal now days)"

section \<open>The queries\<close>

definition GetSignupsPerDay :: "faults \<Rightarrow> day_calendar \<Rightarrow> gotime \<Rightarrow> int \<Rightarrow> pgdb \<Rightarrow> DailyCount list fallible" where
  "GetSignupsPerDay f cal now days db = failing (f (CMetrics (McPerDay 0)))
     (per_day cal now days (\<lambda>d. int (affected (\<lambda>u. cal_day cal (user_created_at u) = d) (db_users db))))"

definition GetRoomsCreatedPerDay :: "faults \<Rightarrow> day_calendar \<Rightarrow> gotime \<Rightarrow> int \<Rightarrow> pgdb \<Rightarrow> DailyCount list fallible" where
  "GetRoomsCreatedPerDay f cal now days db = failing (f (CMetrics (McPerDay 1)))
     (per_day cal now days (\<lambda>d. int (affected (\<lambda>r. cal_day cal (room_created_at r) = d) (db_rooms db))))"

text \<open>The condition of the join as SQL reads it: \<open>AND\<close> binds more tightly than \<open>OR\<close>.\<close>

definition active_on :: "day_calendar \<Rightarrow> int \<Rightarrow> Room \<Rightarrow> bool" where
  "active_on cal d r \<longleftrightarrow> cal_day cal (room_created_at r) \<le> d
       \<and> (case room_ended_at r of None \<Rightarrow> True | Some t \<Rightarrow> cal_day cal t \<ge> d) \<and> room_is_live r
     \<or> room_ended_at r \<noteq> None"

definition GetActiveRoomsPerDay :: "faults \<Rightarrow> day_calendar \<Rightarrow> gotime \<Rightarrow> int \<Rightarrow> pgdb \<Rightarrow> DailyCount list fallible" where
  "GetActiveRoomsPerDay f cal now days db = failing (f (CMetrics (McPerDay 2)))
     (per_day cal now days (\<lambda>d. int (length (remdups (map room_id (filter (active_on cal d) (db_rooms db)))))))"

record GenreCount =
  gc_genre :: string
  gc_count :: nat

definition GetTopGenres :: "faults \<Rightarrow> int \<Rightarrow> pgdb \<Rightarrow> GenreCount list fallible" where
  "GetTopGenres f limit db =
     (let genres = filter (\<lambda>g. g \<noteq> '''') (map room_genre (db_rooms db)) in
      failing (f (CMetrics McGenres) \<or> limit < 0)
        (top_rows (nat limit) (\<lambda>x. Desc (gc_count x))
          (map (\<lambda>g. \<lparr>gc_genre = g, gc_count = count_list genres g\<rparr>) (remdups genres))))"

definition listen_end :: "gotime \<Rightarrow> ListenEvent \<Rightarrow> gotime" where
  "listen_end now l = (case le_ended_at l of None \<Rightarrow> now | Some t \<Rightarrow> t)"

text \<open>How long was listened on a day, in nanoseconds.\<close>

definition listened :: "day_calendar \<Rightarrow> gotime \<Rightarrow> pgdb \<Rightarrow> int \<Rightarrow> duration" where
  "listened cal now db d =
     sum_list (map (\<lambda>l. min (listen_end now l) (cal_midnight cal (d + 1)) - max (le_started_at l) (cal_midnight cal d))
       (filter (\<lambda>l. le_started_at l < cal_midnight cal (d + 1) \<and> listen_end now l > cal_midnight cal d) (db_listens db)))"

text \<open>\<open>(... / 3600)::int\<close> rounds to the nearest hour, halves away from zero.\<close>

definition whole_hours :: "duration \<Rightarrow> int" where
  "whole_hours d = sgn d * ((2 * \<bar>d\<bar> + hour) div (2 * hour))"

definition GetListenHoursPerDay :: "faults \<Rightarrow> day_calendar \<Rightarrow> gotime \<Rightarrow> int \<Rightarrow> pgdb \<Rightarrow> DailyCount list fallible" where
  "GetListenHoursPerDay f cal now days db = failing (f (CMetrics McHours))
     (per_day cal now days (\<lambda>d. whole_hours (listened cal now db d)))"

definition GetRecentPeakListeners :: "faults \<Rightarrow> pgdb \<Rightarrow> int fallible" where
  "GetRecentPeakListeners f db = failing (f (CMetrics McLiveRooms)) 0"

definition GetNewUsersThisWeek :: "faults \<Rightarrow> day_calendar \<Rightarrow> gotime \<Rightarrow> pgdb \<Rightarrow> nat fallible" where
  "GetNewUsersThisWeek f cal now db = failing (f (CMetrics McWeek))
     (affected (\<lambda>u. user_created_at u \<ge> cal_week cal (cal_day cal now)) (db_users db))"

section \<open>The dashboard\<close>

record MetricsSummary =
  ms_users :: nat
  ms_rooms :: nat
  ms_live :: nat
  ms_hours :: real
  ms_plus :: nat
  ms_signups_today :: nat
  ms_rooms_today :: nat

text \<open>Seven statements whose errors are dropped: a count that cannot be read stays zero.\<close>

definition GetMetricsSummary :: "faults \<Rightarrow> day_calendar \<Rightarrow> gotime \<Rightarrow> pgdb \<Rightarrow> MetricsSummary" where
  "GetMetricsSummary f cal now db =
     (let read = (\<lambda>i n. if f (CMetrics (McCount i)) then 0 else n); today = StartOfDay cal now;
          recent = filter (\<lambda>l. le_started_at l > cal_before cal 30 now) (db_listens db) in
      \<lparr>ms_users = read 0 (length (db_users db)), ms_rooms = read 1 (length (db_rooms db)),
       ms_live = read 2 (affected room_is_live (db_rooms db)),
       ms_hours = (if f (CMetrics (McCount 6)) then 0 else float64
         (of_int (sum_list (map (\<lambda>l. listen_end now l - le_started_at l) recent)) / of_int hour)),
       ms_plus = read 3 (affected user_is_plus (db_users db)),
       ms_signups_today = read 4 (affected (\<lambda>u. user_created_at u \<ge> today) (db_users db)),
       ms_rooms_today = read 5 (affected (\<lambda>r. room_created_at r \<ge> today) (db_rooms db))\<rparr>)"

record dashboard =
  dash_summary :: MetricsSummary
  dash_signups :: "DailyCount list"
  dash_rooms_created :: "DailyCount list"
  dash_active_rooms :: "DailyCount list"
  dash_top_genres :: "GenreCount list"
  dash_listen_hours :: "DailyCount list"

definition days_asked :: "string \<Rightarrow> int" where
  "days_asked param =
     (if param = '''' then 30
      else (case Atoi param of (d, ok) \<Rightarrow> if ok \<and> d > 0 \<and> d \<le> 90 then d else 30))"

definition GetMetrics ::
  "day_calendar \<Rightarrow> env \<Rightarrow> User option \<Rightarrow> string \<Rightarrow> server \<Rightarrow> server \<times> dashboard response" where
  "GetMetrics cal env user param sv = as_admin user sv
     (let f = env_faults env; now = env_now env; db = sv_pg sv; days = days_asked param in
      (sv, HttpOK 200 \<lparr>dash_summary = GetMetricsSummary f cal now db,
        dash_signups = or_zero [] (GetSignupsPerDay f cal now days db),
        dash_rooms_created = or_zero [] (GetRoomsCreatedPerDay f cal now days db),
        dash_active_rooms = or_zero [] (GetActiveRoomsPerDay f cal now days db),
        dash_top_genres = or_zero [] (GetTopGenres f 10 db),
        dash_listen_hours = or_zero [] (GetListenHoursPerDay f cal now days db)\<rparr>))"

section \<open>Days partition time\<close>

text \<open>What the calendar of a database does: days follow each other, and an instant falls on the day it lies in.\<close>

definition calendar_ok :: "day_calendar \<Rightarrow> bool" where
  "calendar_ok cal \<longleftrightarrow> (\<forall>d. cal_midnight cal d < cal_midnight cal (d + 1))
     \<and> (\<forall>t. cal_midnight cal (cal_day cal t) \<le> t \<and> t < cal_midnight cal (cal_day cal t + 1))"

lemma sum_list_single: "sum_list (map (\<lambda>d. if x = d then 1 else 0) [a..b]) = (if a \<le> x \<and> x \<le> b then 1 else (0::int))"
  by (induction a b rule: upto.induct) (simp add: upto.simps)

lemma days_partition_rows:
  "sum_list (map (\<lambda>d. int (affected (\<lambda>r. k r = d) rows)) [a..b]) = int (affected (\<lambda>r. a \<le> k r \<and> k r \<le> b) rows)"
proof (induction rows)
  case (Cons r rows)
  have "int (affected (\<lambda>r. k r = d) (x # rows)) = (if k x = d then 1 else 0) + int (affected (\<lambda>r. k r = d) rows)" for d x
    by (simp add: affected_def)
  then have "sum_list (map (\<lambda>d. int (affected (\<lambda>r. k r = d) (r # rows))) [a..b])
      = sum_list (map (\<lambda>d. if k r = d then 1 else 0) [a..b]) + sum_list (map (\<lambda>d. int (affected (\<lambda>r. k r = d) rows)) [a..b])"
    by (simp add: sum_list_addf)
  then show ?case using Cons sum_list_single [of "k r" a b] by (simp add: affected_def)
qed (simp add: affected_def)

lemma midnight_mono:
  assumes "calendar_ok cal" and "a \<le> b"
  shows "cal_midnight cal a \<le> cal_midnight cal b"
  using assms(2)
proof (induction b rule: int_ge_induct)
  case (step b)
  have "cal_midnight cal b < cal_midnight cal (b + 1)" using assms(1) by (simp add: calendar_ok_def)
  then show ?case using step by simp
qed simp

lemma day_from:
  assumes "calendar_ok cal"
  shows "a \<le> cal_day cal t \<longleftrightarrow> cal_midnight cal a \<le> t"
proof
  assume "a \<le> cal_day cal t"
  from midnight_mono [OF assms this] show "cal_midnight cal a \<le> t"
    using assms unfolding calendar_ok_def by (meson order_trans)
next
  assume start: "cal_midnight cal a \<le> t"
  show "a \<le> cal_day cal t"
  proof (rule ccontr)
    assume "\<not> a \<le> cal_day cal t"
    then have "cal_midnight cal (cal_day cal t + 1) \<le> cal_midnight cal a"
      by (intro midnight_mono [OF assms]) simp
    then show False using start assms unfolding calendar_ok_def by (meson leD order_trans)
  qed
qed

lemma day_until:
  assumes "calendar_ok cal"
  shows "cal_day cal t \<le> b \<longleftrightarrow> t < cal_midnight cal (b + 1)"
  using day_from [OF assms, of "b + 1" t] by linarith

lemma per_day_partition:
  assumes "calendar_ok cal"
  shows "sum_list (map dc_count (per_day cal now days (\<lambda>d. int (affected (\<lambda>r. cal_day cal (k r) = d) rows))))
    = int (affected (\<lambda>r. cal_midnight cal (cal_day cal now - days) \<le> k r \<and> k r < cal_midnight cal (cal_day cal now + 1)) rows)"
  using days_partition_rows [of "\<lambda>r. cal_day cal (k r)" rows] day_from [OF assms] day_until [OF assms]
  by (simp add: per_day_def day_series_def comp_def)

text \<open>
  The daily counts miss nobody and count nobody twice: the sign-ups of the days add up to the
  accounts created between the start of the first day and the end of today, and so do the new rooms;
  there is one entry for each day, the oldest first.
\<close>

theorem daily_counts_partition:
  fixes now :: gotime
  assumes "calendar_ok cal" and "\<not> f (CMetrics (McPerDay 0))" and "\<not> f (CMetrics (McPerDay 1))" and "0 \<le> days"
  defines "t0 \<equiv> cal_midnight cal (cal_day cal now - days)" and "t1 \<equiv> cal_midnight cal (cal_day cal now + 1)"
  shows "\<exists>signups rooms. GetSignupsPerDay f cal now days db = Inr signups \<and> GetRoomsCreatedPerDay f cal now days db = Inr rooms
    \<and> sum_list (map dc_count signups) = int (affected (\<lambda>u. t0 \<le> user_created_at u \<and> user_created_at u < t1) (db_users db))
    \<and> sum_list (map dc_count rooms) = int (affected (\<lambda>r. t0 \<le> room_created_at r \<and> room_created_at r < t1) (db_rooms db))
    \<and> map dc_date signups = map (cal_text cal) [cal_day cal now - days..cal_day cal now]
    \<and> map dc_date rooms = map dc_date signups"
proof -
  have "GetSignupsPerDay f cal now days db = Inr (per_day cal now days (\<lambda>d. int (affected (\<lambda>u. cal_day cal (user_created_at u) = d) (db_users db))))"
    and "GetRoomsCreatedPerDay f cal now days db = Inr (per_day cal now days (\<lambda>d. int (affected (\<lambda>r. cal_day cal (room_created_at r) = d) (db_rooms db))))"
    using assms(2,3) by (simp_all add: GetSignupsPerDay_def GetRoomsCreatedPerDay_def)
  moreover note per_day_partition [OF assms(1), of now days user_created_at "db_users db", folded t0_def t1_def]
  moreover note per_day_partition [OF assms(1), of now days room_created_at "db_rooms db", folded t0_def t1_def]
  moreover have "map dc_date (per_day cal now days c) = map (cal_text cal) [cal_day cal now - days..cal_day cal now]" for c
    by (simp add: per_day_def day_series_def)
  ultimately show ?thesis by simp
qed

section \<open>Hours of listening\<close>

definition clip :: "gotime \<Rightarrow> gotime \<Rightarrow> gotime \<Rightarrow> gotime" where
  "clip s e x = max s (min e x)"

lemma upto_telescope: "a \<le> b + 1 \<Longrightarrow> sum_list (map (\<lambda>d. g (d + 1) - g d) [a..b]) = (g (b + 1) - g a :: int)"
proof (induction a b rule: upto.induct)
  case (1 a b)
  show ?case
  proof (cases "a \<le> b")
    case False
    then have "a = b + 1" using 1 by simp
    then show ?thesis by simp
  qed (use 1 in \<open>simp add: upto.simps\<close>)
qed

lemma overlap_clip:
  assumes "s \<le> e" and "x \<le> y"
  shows "(if s < y \<and> e > x then min e y - max s x else 0) = clip s e y - clip s e (x :: int)"
  using assms by (auto simp: clip_def)

lemma sum_list_filter: "sum_list (map g (filter p rows)) = sum_list (map (\<lambda>r. if p r then g r else (0::int)) rows)"
  by (induction rows) simp_all

lemma listened_partition:
  assumes "calendar_ok cal" and "\<forall>l \<in> set (db_listens db). le_started_at l \<le> listen_end now l" and "a \<le> b + 1"
  shows "sum_list (map (listened cal now db) [a..b]) = sum_list (map (\<lambda>l.
    clip (le_started_at l) (listen_end now l) (cal_midnight cal (b + 1))
      - clip (le_started_at l) (listen_end now l) (cal_midnight cal a)) (db_listens db))"
  using assms(2)
proof -
  define part where "part = (\<lambda>d l. clip (le_started_at l) (listen_end now l) (cal_midnight cal (d + 1))
    - clip (le_started_at l) (listen_end now l) (cal_midnight cal d))"
  have step: "cal_midnight cal d \<le> cal_midnight cal (d + 1)" for d by (rule midnight_mono [OF assms(1)]) simp
  have day: "listened cal now db d = sum_list (map (part d) (db_listens db))" for d
    unfolding listened_def sum_list_filter part_def
    by (rule arg_cong [where f = sum_list], rule map_cong [OF refl])
      (use assms(2) overlap_clip [OF _ step] in \<open>simp only: refl\<close>)
  have swap: "sum_list (map (\<lambda>d. sum_list (map (part d) ls)) ds) = sum_list (map (\<lambda>l. sum_list (map (\<lambda>d. part d l) ds)) ls)" for ls ds
    by (induction ls) (simp_all add: sum_list_addf)
  have "sum_list (map (\<lambda>d. part d l) [a..b]) = clip (le_started_at l) (listen_end now l) (cal_midnight cal (b + 1))
      - clip (le_started_at l) (listen_end now l) (cal_midnight cal a)" for l
    unfolding part_def by (rule upto_telescope [OF assms(3), where g = "\<lambda>d. clip (le_started_at l) (listen_end now l) (cal_midnight cal d)"])
  moreover have "listened cal now db = (\<lambda>d. sum_list (map (part d) (db_listens db)))" by (rule ext) (rule day)
  ultimately show ?thesis by (simp add: swap)
qed

lemma nearest_hour: "\<bar>2 * ((2 * x + hour) div (2 * hour) * hour - x)\<bar> \<le> hour"
proof -
  define q where "q = (2 * x + hour) div (2 * hour)"
  define m where "m = (2 * x + hour) mod (2 * hour)"
  have "q * (2 * hour) + m = 2 * x + hour" unfolding q_def m_def by (rule div_mult_mod_eq)
  moreover define z where "z = q * hour"
  ultimately have eq: "2 * z + m = 2 * x + hour" by simp
  have m: "0 \<le> m" "m < 2 * hour" by (simp_all add: m_def hour_def)
  have "\<bar>2 * (z - x)\<bar> \<le> hour" using eq m by (simp add: abs_le_iff)
  then show ?thesis by (simp only: z_def q_def)
qed

lemma whole_hours_close: "\<bar>2 * (whole_hours d * hour - d)\<bar> \<le> hour"
proof (cases "d > 0")
  case True
  then show ?thesis using nearest_hour [of d] by (simp add: whole_hours_def)
next
  case False
  show ?thesis
  proof (cases "d = 0")
    case neg: False
    then have "whole_hours d * hour - d = - ((2 * (- d) + hour) div (2 * hour) * hour - (- d))"
      using False by (simp add: whole_hours_def)
    then show ?thesis using nearest_hour [of "- d"] by (simp only: mult_minus_right abs_minus_cancel)
  qed (simp add: whole_hours_def hour_def)
qed

lemma rounded_sum_close:
  assumes "\<And>x. \<bar>2 * (w x * h - x)\<bar> \<le> (h :: int)"
  shows "\<bar>2 * (sum_list (map w xs) * h - sum_list xs)\<bar> \<le> int (length xs) * h"
proof (induction xs)
  case (Cons x xs)
  then show ?case using assms [of x] by (simp add: algebra_simps abs_le_iff)
qed simp


section \<open>Rooms on air per day\<close>

text \<open>A room that has ended counts on every day, those before it was created included.\<close>

lemma ended_rooms_always_active:
  assumes "GetActiveRoomsPerDay f cal now days db = Inr counts" and "c \<in> set counts"
  shows "dc_count c \<ge> int (card {room_id r | r. r \<in> set (db_rooms db) \<and> room_ended_at r \<noteq> None})"
proof -
  obtain d where c: "dc_count c = int (length (remdups (map room_id (filter (active_on cal d) (db_rooms db)))))"
    using assms by (auto simp: GetActiveRoomsPerDay_def per_day_def)
  have "{room_id r | r. r \<in> set (db_rooms db) \<and> room_ended_at r \<noteq> None}
      \<subseteq> set (map room_id (filter (active_on cal d) (db_rooms db)))" by (auto simp: active_on_def)
  then show ?thesis unfolding c length_remdups_card_conv by (intro of_nat_mono card_mono) simp_all
qed

section \<open>Witnesses\<close>

text \<open>The calendar of a database in UTC; the texts of dates do not matter here.\<close>

definition utc :: day_calendar where
  "utc = \<lparr>cal_day = (\<lambda>t. t div (24 * hour)), cal_midnight = (\<lambda>d. d * (24 * hour)), cal_text = (\<lambda>d. ''day''),
     cal_week = (\<lambda>d. (d - (d + 3) mod 7) * (24 * hour)), cal_before = (\<lambda>n t. t - n * (24 * hour))\<rparr>"

lemma utc_ok: "calendar_ok utc"
proof -
  have "t div n * n \<le> t \<and> t < (t div n + 1) * n" if "0 < n" for t n :: int
  proof -
    have "t div n * n + t mod n = t" by (rule div_mult_mod_eq)
    moreover have "0 \<le> t mod n" "t mod n < n" using that by simp_all
    moreover have "(t div n + 1) * n = t div n * n + n" by (simp add: distrib_right)
    ultimately show ?thesis by linarith
  qed
  from this [of "24 * hour"] show ?thesis by (simp add: calendar_ok_def utc_def hour_def)
qed

definition demo_archive :: pgdb where
  "demo_archive = empty_db\<lparr>db_users := [demo_user ''bo'', (demo_user ''cy'')\<lparr>user_created_at := - 50 * hour\<rparr>],
     db_rooms := [demo_room ''r''],
     db_listens := [\<lparr>le_id = ''e'', le_user = ''bo'', le_room = ''r'', le_started_at = - 3 * hour, le_ended_at = Some (2 * hour),
       le_duration = 18000, le_tracks = 4\<rparr>]\<rparr>"

theorem daily_counts_partition_witness:
  "\<exists>signups. GetSignupsPerDay no_faults utc (5 * hour) 1 demo_archive = Inr signups
    \<and> sum_list (map dc_count signups) = 1"
proof -
  have "int (affected (\<lambda>u. cal_midnight utc (cal_day utc (5 * hour) - 1) \<le> user_created_at u
      \<and> user_created_at u < cal_midnight utc (cal_day utc (5 * hour) + 1)) (db_users demo_archive)) = 1"
    by (simp add: utc_def hour_def demo_archive_def demo_user_def affected_def)
  then show ?thesis
    using daily_counts_partition [OF utc_ok, of no_faults 1 "5 * hour" demo_archive] by (auto simp: no_faults_def)
qed


end
