(* ===== verification/Database.thy ===== *)
theory Database
  imports Startup
begin

text \<open>
  The connection pool of Postgres (\<open>internal/store/pool.go\<close>): how it is sized from the environment, and
  the wrapper that puts a deadline on every statement whose caller set none. What pgx makes of the URL,
  \<open>time.ParseDuration\<close> and the number of processors are arguments.
\<close>

section \<open>Configuration\<close>

record pool_config =
  pc_max_conns :: int
  pc_min_conns :: int
  pc_lifetime :: duration
  pc_idle_time :: duration
  pc_health_check :: duration
  pc_connect_timeout :: duration
  pc_params :: "string \<rightharpoonup> string"

definition defaultQueryTimeout :: duration where "defaultQueryTimeout = 10 * second"
definition defaultStatementTimeout :: duration where "defaultStatementTimeout = 30 * second"
definition defaultConnectTimeout :: duration where "defaultConnectTimeout = 5 * second"
definition defaultMinConns :: int where "defaultMinConns = 2"
definition defaultMaxConnLifetime :: duration where "defaultMaxConnLifetime = 30 * minute"
definition defaultMaxConnIdleTime :: duration where "defaultMaxConnIdleTime = 5 * minute"
definition defaultHealthCheck :: duration where "defaultHealthCheck = minute"

definition defaultMaxConns :: "int \<Rightarrow> int" where
  "defaultMaxConns cpus = (let n = int32 (4 * cpus) in if n < 8 then 8 else n)"

text \<open>\<open>strconv.ParseInt(v, 10, 32)\<close> fails outside 32 bits.\<close>

definition envInt32 :: "(string \<Rightarrow> string) \<Rightarrow> string \<Rightarrow> int \<Rightarrow> int" where
  "envInt32 os key fallback =
     (if os key \<noteq> '''' then (case Atoi (os key) of (n, ok) \<Rightarrow>
        if ok \<and> - (2 ^ 31) \<le> n \<and> n < 2 ^ 31 \<and> n > 0 then n else fallback)
      else fallback)"

definition envDuration :: "(string \<Rightarrow> duration option) \<Rightarrow> (string \<Rightarrow> string) \<Rightarrow> string \<Rightarrow> duration \<Rightarrow> duration" where
  "envDuration ParseDuration os key fallback =
     (if os key \<noteq> '''' then (case ParseDuration (os key) of
        None \<Rightarrow> fallback
      | Some d \<Rightarrow> if d > 0 then d else fallback)
      else fallback)"

definition newPoolConfig ::
  "(string \<Rightarrow> pool_config option) \<Rightarrow> (string \<Rightarrow> duration option) \<Rightarrow> int \<Rightarrow> (string \<Rightarrow> string) \<Rightarrow> string
     \<Rightarrow> pool_config option" where
  "newPoolConfig ParseConfig ParseDuration cpus os databaseURL =
     (case ParseConfig databaseURL of
        None \<Rightarrow> None
      | Some cfg \<Rightarrow> (let dur = envDuration ParseDuration os;
            cfg1 = cfg\<lparr>pc_max_conns := envInt32 os ''PG_MAX_CONNS'' (defaultMaxConns cpus),
              pc_min_conns := envInt32 os ''PG_MIN_CONNS'' defaultMinConns,
              pc_lifetime := dur ''PG_MAX_CONN_LIFETIME'' defaultMaxConnLifetime,
              pc_idle_time := dur ''PG_MAX_CONN_IDLE_TIME'' defaultMaxConnIdleTime,
              pc_health_check := dur ''PG_HEALTH_CHECK_PERIOD'' defaultHealthCheck\<rparr>;
            cfg2 = (if pc_connect_timeout cfg1 = 0
              then cfg1\<lparr>pc_connect_timeout := dur ''PG_CONNECT_TIMEOUT'' defaultConnectTimeout\<rparr> else cfg1) in
          Some (if pc_params cfg2 ''statement_timeout'' = None
            then cfg2\<lparr>pc_params := (pc_params cfg2)(''statement_timeout'' \<mapsto>
              digits (nat (go_div (dur ''PG_STATEMENT_TIMEOUT'' defaultStatementTimeout) millisecond)))\<rparr>
            else cfg2)))"

section \<open>Statements with a deadline\<close>

text \<open>
  A context is its deadline, if it has one. \<open>context.WithTimeout\<close> starts a timer that runs until it is
  cancelled; the state is the timers that run, each under the number of the call that started it.
\<close>

record pool_state =
  ps_calls :: nat
  ps_running :: "nat set"

text \<open>\<open>opCtx\<close>: the deadline of the statement, and the timer to cancel.\<close>

definition opCtx ::
  "duration \<Rightarrow> gotime \<Rightarrow> gotime option \<Rightarrow> pool_state \<Rightarrow> pool_state \<times> gotime option \<times> nat option" where
  "opCtx queryTimeout now deadline st =
     (if queryTimeout \<le> 0 then (st, deadline, None)
      else if deadline \<noteq> None then (st, deadline, None)
      else (\<lparr>ps_calls = ps_calls st + 1, ps_running = insert (ps_calls st) (ps_running st)\<rparr>,
            Some (now + queryTimeout), Some (ps_calls st)))"

definition cancel :: "nat option \<Rightarrow> pool_state \<Rightarrow> pool_state" where
  "cancel t st = (case t of None \<Rightarrow> st | Some i \<Rightarrow> st\<lparr>ps_running := ps_running st - {i}\<rparr>)"

text \<open>Each call also gives the deadline that its statement runs under.\<close>

definition pool_Exec :: "duration \<Rightarrow> gotime \<Rightarrow> gotime option \<Rightarrow> pool_state \<Rightarrow> pool_state \<times> gotime option" where
  "pool_Exec queryTimeout now ctx st =
     (case opCtx queryTimeout now ctx st of (st1, deadline, t) \<Rightarrow> (cancel t st1, deadline))"

text \<open>\<open>Query\<close>: whether pgx accepts the statement is an argument; the rows carry the timer.\<close>

definition pool_Query ::
  "duration \<Rightarrow> bool \<Rightarrow> gotime \<Rightarrow> gotime option \<Rightarrow> pool_state \<Rightarrow> pool_state \<times> gotime option \<times> nat option fallible" where
  "pool_Query queryTimeout accepted now ctx st =
     (case opCtx queryTimeout now ctx st of (st1, deadline, t) \<Rightarrow>
        if \<not> accepted then (cancel t st1, deadline, Inl StoreError) else (st1, deadline, Inr t))"

definition pool_QueryRow ::
  "duration \<Rightarrow> gotime \<Rightarrow> gotime option \<Rightarrow> pool_state \<Rightarrow> pool_state \<times> gotime option \<times> nat option" where
  "pool_QueryRow queryTimeout now ctx st = opCtx queryTimeout now ctx st"

definition rows_Close :: "nat option \<Rightarrow> pool_state \<Rightarrow> pool_state" where
  "rows_Close t st = cancel t st"

definition row_Scan :: "nat option \<Rightarrow> pool_state \<Rightarrow> pool_state" where
  "row_Scan t st = cancel t st"

section \<open>Every statement ends\<close>

text \<open>
  What the store does with its pool: statements run, rows are opened and closed, single rows are scanned.
  A reachable state comes with the timers of the rows that are open or not yet scanned, and with the log
  of statements: the deadline of the caller, the one the statement ran under, and when it began.
\<close>

inductive pool_run ::
  "duration \<Rightarrow> pool_state \<Rightarrow> nat option list \<Rightarrow> (gotime option \<times> gotime option \<times> gotime) list \<Rightarrow> bool" for T where
  start: "pool_run T \<lparr>ps_calls = 0, ps_running = {}\<rparr> [] []"
| exec: "pool_run T st rows hist \<Longrightarrow> pool_Exec T now ctx st = (st', d) \<Longrightarrow> pool_run T st' rows ((ctx, d, now) # hist)"
| query: "pool_run T st rows hist \<Longrightarrow> pool_Query T ok now ctx st = (st', d, Inr t)
    \<Longrightarrow> pool_run T st' (t # rows) ((ctx, d, now) # hist)"
| query_error: "pool_run T st rows hist \<Longrightarrow> pool_Query T ok now ctx st = (st', d, Inl e)
    \<Longrightarrow> pool_run T st' rows ((ctx, d, now) # hist)"
| query_row: "pool_run T st rows hist \<Longrightarrow> pool_QueryRow T now ctx st = (st', d, t)
    \<Longrightarrow> pool_run T st' (t # rows) ((ctx, d, now) # hist)"
| close: "pool_run T st (before @ t # after) hist \<Longrightarrow> pool_run T (rows_Close t st) (before @ after) hist"
| scan: "pool_run T st (before @ t # after) hist \<Longrightarrow> pool_run T (row_Scan t st) (before @ after) hist"

definition timers_ok :: "pool_state \<Rightarrow> nat option list \<Rightarrow> bool" where
  "timers_ok st rows \<longleftrightarrow> ps_running st = {i. Some i \<in> set rows} \<and> (\<forall>i. Some i \<in> set rows \<longrightarrow> i < ps_calls st)
     \<and> distinct (filter (\<lambda>t. t \<noteq> None) rows)"

lemma timers_open:
  assumes "timers_ok st rows" and "opCtx T now ctx st = (st', d, t)"
  shows "timers_ok st' (t # rows)"
proof (cases "0 < T \<and> ctx = None")
  case True
  then have st': "st' = \<lparr>ps_calls = ps_calls st + 1, ps_running = insert (ps_calls st) (ps_running st)\<rparr>" "t = Some (ps_calls st)"
    using assms(2) by (auto simp: opCtx_def)
  have "Some (ps_calls st) \<notin> set rows" using assms(1) by (auto simp: timers_ok_def)
  then show ?thesis using assms(1) by (auto simp: timers_ok_def st' less_Suc_eq)
next
  case False
  then have "st' = st" "t = None" using assms(2) by (auto simp: opCtx_def split: if_splits)
  then show ?thesis using assms(1) by (simp add: timers_ok_def)
qed

lemma timers_cancel:
  assumes "timers_ok st (before @ t # after)"
  shows "timers_ok (cancel t st) (before @ after)"
proof (cases t)
  case (Some i)
  then have "Some i \<notin> set before" "Some i \<notin> set after" using assms by (auto simp: timers_ok_def)
  then show ?thesis using assms Some by (auto simp: timers_ok_def cancel_def)
qed (use assms in \<open>auto simp: timers_ok_def cancel_def\<close>)

lemma timers_closed: "timers_ok st rows \<Longrightarrow> opCtx T now ctx st = (st', d, t) \<Longrightarrow> timers_ok (cancel t st') rows"
  using timers_cancel [of st' "[]" t rows] timers_open by simp

lemma pool_run_timers: "pool_run T st rows hist \<Longrightarrow> timers_ok st rows"
proof (induction rule: pool_run.induct)
  case (close st before t after hist)
  then show ?case unfolding rows_Close_def by (blast intro: timers_cancel)
next
  case (scan st before t after hist)
  then show ?case unfolding row_Scan_def by (blast intro: timers_cancel)
qed (auto simp: timers_ok_def [of "\<lparr>ps_calls = 0, ps_running = {}\<rparr>"] pool_Exec_def pool_Query_def pool_QueryRow_def
    intro: timers_open timers_closed split: prod.splits if_splits)

lemma opCtx_deadline:
  "opCtx T now ctx st = (st', d, t) \<Longrightarrow> d = (if T \<le> 0 \<or> ctx \<noteq> None then ctx else Some (now + T))"
  by (auto simp: opCtx_def split: if_splits)

text \<open>
  Whatever statements the store runs and in whatever order it closes its rows, a statement keeps the
  deadline of its caller and gets one a query timeout ahead if the caller has none, and the timers that
  run are exactly those of the rows that are still open: once all rows are closed and scanned, none is.
\<close>

theorem statements_end:
  assumes "pool_run T st rows hist"
  shows "ps_running st = {i. Some i \<in> set rows}
    \<and> (\<forall>(ctx, d, now) \<in> set hist. d = (if T \<le> 0 \<or> ctx \<noteq> None then ctx else Some (now + T)))"
proof
  show "ps_running st = {i. Some i \<in> set rows}" using pool_run_timers [OF assms] by (simp add: timers_ok_def)
  show "\<forall>(ctx, d, now) \<in> set hist. d = (if T \<le> 0 \<or> ctx \<noteq> None then ctx else Some (now + T))"
    using assms
  proof (induction rule: pool_run.induct)
    case (exec st rows hist now ctx st' d)
    from exec(2) have "d = (if T \<le> 0 \<or> ctx \<noteq> None then ctx else Some (now + T))"
      unfolding pool_Exec_def by (auto dest: opCtx_deadline split: prod.splits)
    then show ?case using exec(3) by simp
  next
    case (query st rows hist ok now ctx st' d t)
    from query(2) have "d = (if T \<le> 0 \<or> ctx \<noteq> None then ctx else Some (now + T))"
      unfolding pool_Query_def by (auto dest: opCtx_deadline split: prod.splits if_splits)
    then show ?case using query(3) by simp
  next
    case (query_error st rows hist ok now ctx st' d e)
    from query_error(2) have "d = (if T \<le> 0 \<or> ctx \<noteq> None then ctx else Some (now + T))"
      unfolding pool_Query_def by (auto dest: opCtx_deadline split: prod.splits if_splits)
    then show ?case using query_error(3) by simp
  next
    case (query_row st rows hist now ctx st' d t)
    from opCtx_deadline [OF query_row(2) [unfolded pool_QueryRow_def]] query_row(3) show ?case by simp
  qed simp_all
qed

theorem statements_end_witness:
  "\<exists>st. pool_run (10 * second) st [] [(None, Some (10 * second + 7), 7)] \<and> ps_running st = {}"
proof -
  let ?st = "\<lparr>ps_calls = 1, ps_running = {0}\<rparr>"
  have "pool_run (10 * second) ?st [Some 0] [(None, Some (10 * second + 7), 7)]"
    by (rule pool_run.query [OF pool_run.start, where ok = True]) (simp add: pool_Query_def opCtx_def second_def)
  then have "pool_run (10 * second) (rows_Close (Some 0) ?st) ([] @ []) [(None, Some (10 * second + 7), 7)]"
    by (intro pool_run.close) simp
  then have run: "pool_run (10 * second) (rows_Close (Some 0) ?st) [] [(None, Some (10 * second + 7), 7)]" by simp
  from statements_end [OF run] show ?thesis using run by auto
qed

section \<open>The size of the pool\<close>

lemma envInt32_positive: "0 < fallback \<Longrightarrow> 0 < envInt32 os key fallback"
  by (auto simp: envInt32_def split: prod.splits)

text \<open>Whatever the URL says, the limits on connections come from the environment or are the defaults.\<close>

lemma pool_limits_ignore_url:
  assumes "newPoolConfig pc pd cpus os url = Some cfg"
  shows "pc_max_conns cfg = envInt32 os ''PG_MAX_CONNS'' (defaultMaxConns cpus)
    \<and> pc_min_conns cfg = envInt32 os ''PG_MIN_CONNS'' defaultMinConns \<and> 0 < pc_max_conns cfg"
proof -
  have "0 < defaultMaxConns cpus" by (simp add: defaultMaxConns_def Let_def)
  then show ?thesis
    using assms by (auto simp: newPoolConfig_def Let_def envInt32_positive split: option.splits if_splits)
qed

end
