(* ===== verification/Wiring.thy ===== *)
theory Wiring
  imports Startup
begin

text \<open>
  How requests reach the handlers (\<open>cmd/server/main.go\<close>, \<open>internal/middleware/security.go\<close>): the route
  table, the answers of CORS, the headers and limits that every request passes; and the small pieces
  that stand at the edge: the reading side of a socket (\<open>internal/ws/client.go\<close>), the read-only
  monetization handlers. Which patterns the router finds to match a path is an argument of the theorems.
\<close>

section \<open>Routes\<close>

text \<open>Every route: its method, its pattern and its handler; those of \<open>r.Route("/api", ...)\<close> are prefixed.\<close>

definition routes :: "(http_method \<times> string \<times> string) list" where
  "routes =
     [(GET, ''/health'', ''health''),
      (GET, ''/api/session'', ''sessionH.GetCurrent''),
      (PATCH, ''/api/session'', ''sessionH.Update''),
      (POST, ''/api/auth/signup'', ''authH.Signup''),
      (POST, ''/api/auth/login'', ''authH.Login''),
      (GET, ''/api/auth/check-stage-name'', ''authH.CheckStageName''),
      (POST, ''/api/auth/refresh'', ''authH.RefreshToken''),
      (POST, ''/api/auth/forgot-password'', ''authH.ForgotPassword''),
      (POST, ''/api/auth/reset-password'', ''authH.ResetPassword''),
      (POST, ''/api/auth/verify-email'', ''authH.VerifyEmail''),
      (GET, ''/api/auth/me'', ''authH.GetMe''),
      (GET, ''/api/auth/me/stats'', ''authH.GetMyStats''),
      (GET, ''/api/auth/me/favorites'', ''authH.GetMyFavorites''),
      (PATCH, ''/api/auth/me'', ''authH.UpdateProfile''),
      (DELETE, ''/api/auth/me'', ''authH.DeleteAccount''),
      (POST, ''/api/auth/change-password'', ''authH.ChangePassword''),
      (POST, ''/api/auth/logout'', ''authH.Logout''),
      (POST, ''/api/auth/resend-verification'', ''authH.ResendVerification''),
      (GET, ''/api/rooms'', ''roomH.List''),
      (POST, ''/api/rooms'', ''roomH.Create''),
      (GET, ''/api/rooms/{slug}'', ''roomH.Get''),
      (POST, ''/api/rooms/{slug}/go-live'', ''roomH.GoLive''),
      (POST, ''/api/rooms/{slug}/end'', ''roomH.EndSession''),
      (GET, ''/api/rooms/{slug}/queue'', ''queueH.GetQueue''),
      (POST, ''/api/rooms/{slug}/queue'', ''queueH.SubmitTrack''),
      (GET, ''/api/rooms/{slug}/requests'', ''queueH.GetPendingRequests''),
      (GET, ''/api/rooms/{slug}/history'', ''roomH.GetHistory''),
      (GET, ''/api/rooms/{slug}/autoplay-tracks'', ''roomH.GetAutoplayTracks''),
      (POST, ''/api/rooms/{slug}/save-session'', ''roomH.SaveSession''),
      (GET, ''/api/messages'', ''msgH.ListConversations''),
      (GET, ''/api/messages/{userId}'', ''msgH.GetConversation''),
      (POST, ''/api/messages/{userId}'', ''msgH.SendMessage''),
      (POST, ''/api/messages/{userId}/read'', ''msgH.MarkRead''),
      (GET, ''/api/playlists'', ''plH.List''),
      (POST, ''/api/playlists'', ''plH.Create''),
      (GET, ''/api/playlists/{id}'', ''plH.Get''),
      (PATCH, ''/api/playlists/{id}'', ''plH.Update''),
      (DELETE, ''/api/playlists/{id}'', ''plH.Delete''),
      (POST, ''/api/playlists/{id}/tracks'', ''plH.AddTrack''),
      (DELETE, ''/api/playlists/{id}/tracks/{trackId}'', ''plH.RemoveTrack''),
      (GET, ''/api/admin/rooms'', ''adminH.ListRooms''),
      (POST, ''/api/admin/rooms'', ''adminH.CreateOfficialRoom''),
      (PATCH, ''/api/admin/rooms/{id}'', ''adminH.UpdateRoom''),
      (POST, ''/api/admin/rooms/{id}/shutdown'', ''adminH.ShutdownRoom''),
      (DELETE, ''/api/admin/rooms/{id}'', ''adminH.DeleteRoom''),
      (POST, ''/api/admin/rooms/{id}/feature'', ''adminH.SetFeatured''),
      (POST, ''/api/admin/rooms/{id}/official'', ''adminH.SetOfficial''),
      (GET, ''/api/admin/users'', ''adminH.ListUsers''),
      (GET, ''/api/admin/users/{id}'', ''adminH.GetUser''),
      (PATCH, ''/api/admin/users/{id}'', ''adminH.UpdateUser''),
      (DELETE, ''/api/admin/users/{id}'', ''adminH.DeleteUser''),
      (POST, ''/api/admin/autoplay/rooms'', ''adminH.CreateAutoplayRoom''),
      (GET, ''/api/admin/metrics'', ''adminH.GetMetrics''),
      (GET, ''/api/admin/autoplay/rooms/{id}/playlists'', ''adminH.GetAutoplayPlaylists''),
      (PUT, ''/api/admin/autoplay/rooms/{id}/staged'', ''adminH.SaveStagedPlaylist''),
      (PATCH, ''/api/admin/autoplay/rooms/{id}/live/snippets'', ''adminH.UpdateLiveSnippets''),
      (PUT, ''/api/admin/autoplay/rooms/{id}/live/tracks'', ''adminH.UpdateLiveTracks''),
      (POST, ''/api/admin/autoplay/rooms/{id}/activate'', ''adminH.ActivatePlaylist''),
      (DELETE, ''/api/admin/autoplay/rooms/{id}/staged'', ''adminH.DeleteStagedPlaylist''),
      (POST, ''/api/admin/autoplay/rooms/{id}/start'', ''adminH.StartAutoplayRoom''),
      (POST, ''/api/admin/autoplay/rooms/{id}/stop'', ''adminH.StopAutoplayRoom''),
      (GET, ''/api/admin/search-track'', ''adminH.SearchTrack''),
      (GET, ''/api/featured'', ''adminH.GetFeatured''),
      (GET, ''/api/djs/{username}'', ''djH.GetProfile''),
      (GET, ''/api/billing/pricing'', ''monH.GetPricing''),
      (GET, ''/api/billing/plus/status'', ''monH.PlusStatus''),
      (POST, ''/api/billing/plus/subscribe'', ''monH.SubscribePlus''),
      (POST, ''/api/billing/plus/cancel'', ''monH.CancelPlus''),
      (GET, ''/api/billing/dj/{userId}/settings'', ''monH.GetDJSubSettings''),
      (POST, ''/api/billing/dj/settings'', ''monH.UpdateDJSubSettings''),
      (POST, ''/api/billing/dj/{userId}/subscribe'', ''monH.SubscribeToDJ''),
      (GET, ''/api/billing/dj/{userId}/subscription'', ''monH.GetDJSubscription''),
      (GET, ''/api/billing/neon/packs'', ''monH.GetNeonPacks''),
      (GET, ''/api/billing/neon/balance'', ''monH.GetNeonBalance''),
      (POST, ''/api/billing/neon/buy'', ''monH.BuyNeon''),
      (POST, ''/api/billing/neon/send'', ''monH.SendNeon''),
      (GET, ''/api/rooms/{roomId}/tube'', ''monH.GetTubeState''),
      (POST, ''/api/admin/pool/compute'', ''monH.ComputePool''),
      (POST, ''/api/support/listener-report'', ''supportH.CreateListenerReport''),
      (POST, ''/api/livekit/token'', ''lkH.GetToken''),
      (POST, ''/api/ws/ticket'', ''wsTicketH.Create''),
      (GET, ''/ws/room/{slug}'', ''wsH.HandleRoomWS'')]"

text \<open>The segments of a pattern: literal ones, and parameters, which are written in braces.\<close>

datatype segment = Fixed string | Param string

definition segment_of :: "string \<Rightarrow> segment" where
  "segment_of s = (if has_prefix s ''{'' then Param s else Fixed s)"

definition segments :: "string \<Rightarrow> segment list" where
  "segments pattern = map segment_of (split_at (CHR ''/'') pattern)"

fun segment_matches :: "segment \<Rightarrow> string \<Rightarrow> bool" where
  "segment_matches (Fixed s) t \<longleftrightarrow> s = t"
| "segment_matches (Param x) t \<longleftrightarrow> True"

section \<open>What every request passes\<close>

definition in_quotes :: "string \<Rightarrow> string" where
  "in_quotes s = [CHR 0x27] @ s @ [CHR 0x27]"

definition frame_ancestors :: "string list \<Rightarrow> string" where
  "frame_ancestors allowedOrigins =
     (if length allowedOrigins > 0 then in_quotes ''self'' @ '' '' @ joined '' '' allowedOrigins else in_quotes ''self'')"

definition content_policy :: "string list \<Rightarrow> string" where
  "content_policy allowedOrigins = (let self = in_quotes ''self''; inline = in_quotes ''unsafe-inline'' in joined ''; ''
     [''default-src '' @ self,
      ''script-src '' @ self @ '' '' @ inline @ '' '' @ in_quotes ''unsafe-eval'' @ '' https://challenges.cloudflare.com https://w.soundcloud.com https://www.youtube.com https://s.ytimg.com'',
      ''style-src '' @ self @ '' '' @ inline,
      ''img-src '' @ self @ '' data: blob: https: http:'',
      ''media-src '' @ self @ '' blob: https: http:'',
      ''font-src '' @ self @ '' data:'',
      ''connect-src '' @ self @ '' https: wss:'',
      ''frame-src https://www.youtube.com https://w.soundcloud.com https://challenges.cloudflare.com'',
      ''frame-ancestors '' @ frame_ancestors allowedOrigins,
      ''base-uri '' @ self,
      ''form-action '' @ self])"

text \<open>The headers that \<open>SecurityHeaders\<close> sets on every response.\<close>

definition SecurityHeaders :: "string list \<Rightarrow> (string \<times> string) list" where
  "SecurityHeaders allowedOrigins =
     [(''X-Frame-Options'', ''SAMEORIGIN''),
      (''X-Content-Type-Options'', ''nosniff''),
      (''X-XSS-Protection'', ''1; mode=block''),
      (''Referrer-Policy'', ''strict-origin-when-cross-origin''),
      (''Permissions-Policy'', ''camera=(), microphone=(self), geolocation=(), payment=()''),
      (''Strict-Transport-Security'', ''max-age=31536000; includeSubDomains''),
      (''Content-Security-Policy'', content_policy allowedOrigins)]"

text \<open>A body read through \<open>http.MaxBytesReader\<close>: beyond the limit the read fails.\<close>

definition MaxBodySize :: "int \<Rightarrow> string \<Rightarrow> string option" where
  "MaxBodySize maxBytes body = (if int (length body) > maxBytes then None else Some body)"

definition RequireAuth :: "User option \<Rightarrow> 'a response \<Rightarrow> 'a response" where
  "RequireAuth user body = (if user = None then HttpError 401 ''authentication required'' else body)"

text \<open>What stops when the process is told to: the timers of the playback service.\<close>

definition shut_down :: "server \<Rightarrow> server" where
  "shut_down sv = Stop sv"

section \<open>The reading side of a socket\<close>

text \<open>
  One turn of \<open>ReadPump\<close>: the read fails, or gives a message that decodes or not. Where the hub is
  both ready and stopped, the \<open>select\<close> is resolved by an argument.
\<close>

datatype pump_turn = PumpStops | PumpGoesOn Client | PumpForwards action

definition ReadPump_turn :: "(string \<Rightarrow> action option) \<Rightarrow> bool \<Rightarrow> string option \<Rightarrow> Client \<Rightarrow> pump_turn" where
  "ReadPump_turn decode stopped read c =
     (case read of
        None \<Rightarrow> PumpStops
      | Some m \<Rightarrow> (case decode m of
          None \<Rightarrow> PumpGoesOn (sendError ''invalid message format'' c)
        | Some a \<Rightarrow> if stopped then PumpStops else PumpForwards a))"

definition SetDJKey :: "outside \<Rightarrow> gotime \<Rightarrow> string \<Rightarrow> string \<Rightarrow> dj_cache \<Rightarrow> Client \<Rightarrow> dj_cache \<times> Client" where
  "SetDJKey ext now djKey djKeyHash cache c =
     (if djKey \<noteq> '''' then (case VerifyDJKey ext now djKey djKeyHash cache of (cache', ok) \<Rightarrow>
        (cache', if ok then c\<lparr>cl_is_dj := True\<rparr> else c))
      else (cache, c))"

section \<open>Read-only monetization handlers\<close>

text \<open>The status of Plus; an anonymous visitor is told no date of expiry.\<close>

definition PlusStatus :: "User option \<Rightarrow> (bool \<times> gotime option option) response" where
  "PlusStatus user = (case user of
       None \<Rightarrow> HttpOK 200 (False, None)
     | Some u \<Rightarrow> HttpOK 200 (user_is_plus u, Some (user_plus_expires_at u)))"

definition GetTubeState :: "faults \<Rightarrow> string \<Rightarrow> pgdb \<Rightarrow> NeonTube response" where
  "GetTubeState f rid db = (case GetNeonTube f rid db of
       Inl _ \<Rightarrow> HttpError 500 ''internal error''
     | Inr tube \<Rightarrow> HttpOK 200 tube)"

definition GetNeonPacks :: "NeonPack list response" where
  "GetNeonPacks = HttpOK 200 NeonPacks"

record pricing =
  pr_plus_cents :: int
  pr_dj_default_cents :: int
  pr_dj_min_cents :: int
  pr_dj_max_cents :: int
  pr_neon_packs :: "NeonPack list"
  pr_tube_levels :: "(int \<times> string \<times> int) list"

definition GetPricing :: "pricing response" where
  "GetPricing = HttpOK 200 \<lparr>pr_plus_cents = 799, pr_dj_default_cents = 499, pr_dj_min_cents = 99,
     pr_dj_max_cents = 4999, pr_neon_packs = NeonPacks, pr_tube_levels = TubeLevels\<rparr>"

section \<open>One handler per request\<close>

text \<open>
  What the router documents: it serves a path by a pattern only if they have the same segments, a
  parameter standing for any one of them.
\<close>

definition router_ok :: "(string \<Rightarrow> string \<Rightarrow> bool) \<Rightarrow> bool" where
  "router_ok serves \<longleftrightarrow> (\<forall>pattern path. serves pattern path
     \<longrightarrow> list_all2 segment_matches (segments pattern) (split_at (CHR ''/'') path))"

text \<open>Two patterns that no path can match both: they differ in a literal segment or in length.\<close>

fun apart :: "segment list \<Rightarrow> segment list \<Rightarrow> bool" where
  "apart (Fixed s # ps) (Fixed t # qs) \<longleftrightarrow> (if s = t then apart ps qs else True)"
| "apart (p # ps) (q # qs) \<longleftrightarrow> apart ps qs"
| "apart [] [] \<longleftrightarrow> False"
| "apart _ _ \<longleftrightarrow> True"

lemma apart_exclusive:
  "apart ps qs \<Longrightarrow> list_all2 segment_matches ps ws \<Longrightarrow> \<not> list_all2 segment_matches qs ws"
proof (induction ps qs arbitrary: ws rule: apart.induct)
  case (1 s ps t qs)
  then show ?case by (cases ws) (auto split: if_splits)
qed (auto simp: list_all2_Cons1)

lemma routes_apart:
  "sorted_wrt (\<lambda>(m, ps) (m', ps'). if m = m' then apart ps ps' else True) (map (\<lambda>(m, p, h). (m, segments p)) routes)"
  by code_simp

text \<open>The handlers that check for an administrator first, as their definitions do.\<close>

definition checks_admin :: "string \<Rightarrow> bool" where
  "checks_admin h \<longleftrightarrow> (has_prefix h ''adminH.'' \<and> h \<noteq> ''adminH.GetFeatured'') \<or> h = ''monH.ComputePool''"

fun begins :: "(segment \<Rightarrow> bool) list \<Rightarrow> segment list \<Rightarrow> bool" where
  "begins [] ps \<longleftrightarrow> True"
| "begins (f # fs) [] \<longleftrightarrow> False"
| "begins (f # fs) (p # ps) \<longleftrightarrow> f p \<and> begins fs ps"

definition may_be :: "string \<Rightarrow> segment \<Rightarrow> bool" where
  "may_be t p = segment_matches p t"

definition may_begin :: "string \<Rightarrow> segment \<Rightarrow> bool" where
  "may_begin t p = (case p of Fixed s \<Rightarrow> has_prefix s t | Param x \<Rightarrow> True)"

lemma admin_routes:
  "list_all (\<lambda>(m, p, h). begins [may_be '''', may_be ''api'', may_be ''admin''] (segments p) \<longrightarrow> checks_admin h) routes"
  by code_simp

lemma playlist_routes:
  "list_all (\<lambda>(m, p, h). begins [may_be '''', may_be ''api'', may_begin ''playlists''] (segments p) \<longrightarrow> has_prefix h ''plH.'') routes"
  by code_simp

lemma create_route:
  "list_all (\<lambda>(m, p, h). m = POST \<and> list_all2 segment_matches (segments p) ['''', ''api'', ''rooms''] \<longrightarrow> h = ''roomH.Create'') routes"
  by code_simp


lemma list_all2_begins:
  "list_all2 segment_matches ps (a # b # c # ws) \<Longrightarrow> begins [may_be a, may_be b, may_be c] ps"
  by (auto simp: list_all2_Cons2 may_be_def)

lemma admin_path:
  assumes "has_prefix path ''/api/admin/''"
  shows "\<exists>ws. split_at (CHR ''/'') path = '''' # ''api'' # ''admin'' # ws"
proof -
  obtain rest where "path = ''/api/admin'' @ CHR ''/'' # rest"
    using assms by (auto simp: has_prefix_iff)
  then have "split_at (CHR ''/'') path = split_at (CHR ''/'') ''/api/admin'' @ split_at (CHR ''/'') rest"
    by (simp only: split_at_append)
  moreover have "split_at (CHR ''/'') ''/api/admin'' = ['''', ''api'', ''admin'']" by code_simp
  ultimately show ?thesis by simp
qed

lemma playlist_path:
  assumes "has_prefix path ''/api/playlists''"
  shows "\<exists>w ws. split_at (CHR ''/'') path = '''' # ''api'' # w # ws \<and> has_prefix w ''playlists''"
proof -
  obtain rest where "path = ''/api'' @ CHR ''/'' # ''playlists'' @ rest"
    using assms by (auto simp: has_prefix_iff)
  then have "split_at (CHR ''/'') path = split_at (CHR ''/'') ''/api'' @ split_at (CHR ''/'') (''playlists'' @ rest)"
    by (simp only: split_at_append)
  moreover have "split_at (CHR ''/'') ''/api'' = ['''', ''api'']" by code_simp
  moreover have "\<exists>w ws. split_at (CHR ''/'') (''playlists'' @ rest) = (''playlists'' @ w) # ws"
    by (cases "split_at (CHR ''/'') rest") simp_all
  ultimately show ?thesis by (auto simp: has_prefix_def)
qed

lemma route_admin:
  assumes "(m, p, h) \<in> set routes" and "list_all2 segment_matches (segments p) (split_at (CHR ''/'') path)"
    and "has_prefix path ''/api/admin/''"
  shows "checks_admin h"
proof -
  obtain ws where "split_at (CHR ''/'') path = '''' # ''api'' # ''admin'' # ws" using admin_path [OF assms(3)] by blast
  then have "begins [may_be '''', may_be ''api'', may_be ''admin''] (segments p)"
    using assms(2) by (simp only: list_all2_begins)
  then show ?thesis using admin_routes assms(1) unfolding list_all_iff by blast
qed

lemma route_playlists:
  assumes "(m, p, h) \<in> set routes" and "list_all2 segment_matches (segments p) (split_at (CHR ''/'') path)"
    and "has_prefix path ''/api/playlists''"
  shows "has_prefix h ''plH.''"
proof -
  obtain w ws where w: "split_at (CHR ''/'') path = '''' # ''api'' # w # ws" "has_prefix w ''playlists''"
    using playlist_path [OF assms(3)] by blast
  then have "list_all2 segment_matches (segments p) ('''' # ''api'' # w # ws)" using assms(2) by simp
  then obtain p1 p2 p3 ps where "segments p = p1 # p2 # p3 # ps" "segment_matches p1 ''''" "segment_matches p2 ''api''"
    "segment_matches p3 w" by (auto simp: list_all2_Cons2)
  then have "begins [may_be '''', may_be ''api'', may_begin ''playlists''] (segments p)"
    using w(2) by (cases p3) (simp_all add: may_be_def may_begin_def)
  then show ?thesis using playlist_routes assms(1) unfolding list_all_iff by blast
qed


definition demo_router :: "string \<Rightarrow> string \<Rightarrow> bool" where
  "demo_router pattern path \<longleftrightarrow> list_all2 segment_matches (segments pattern) (split_at (CHR ''/'') path)"


end
