(* ===== verification/Spec2Isabelle.thy ===== *)
theory Spec2Isabelle
  imports StoreProps RateLimit HubLifecycle PlaybackProps NeonProps AuthProps RoomProps SocketProps MessageProps AdminProps Pool
    Startup Support Metrics Database Wiring
begin

text \<open>
  A verification library for the Jukebox backend, a Go service in which DJs open rooms, listeners
  join them over WebSockets, submit tracks and chat, and the server advances the music.

  \<^bold>\<open>The program.\<close> A room has rows in Postgres (\<open>internal/store/postgres.go\<close>), a playback state and a
  listener set in Redis (\<open>internal/store/redis.go\<close>), and, while anyone is connected, a hub
  (\<open>internal/ws/hub.go\<close>): one goroutine that owns the set of connections and fans broadcasts out, and
  workers that do the I/O of joining, leaving, inbound actions and chat persistence. The playback
  service (\<open>internal/playback/sync.go\<close>) advances tracks by timers and on reports from listeners; the
  idle monitor (\<open>internal/playback/idle_monitor.go\<close>) closes rooms in which nothing plays.

  \<^bold>\<open>The theories.\<close>
  \<^item> \<open>Prelude\<close>: time, Go integers, fallible calls, tables as row lists, strings as bytes, and the
    locale \<open>fifo\<close>, the contract of a first-in first-out store.
  \<^item> \<open>Models\<close>: the structs of \<open>internal/models\<close> and the validation of track submissions.
  \<^item> \<open>Store\<close>, \<open>QueueProps\<close>, \<open>StoreProps\<close>: the tables and statements of \<open>PGStore\<close>; the queue as an
    instance of \<open>fifo\<close>; concurrent pops, scoping of updates, clean-up of unused rooms.
  \<^item> \<open>Redis\<close>, \<open>RateLimit\<close>: tickets, sessions, playback states, presence, counters; the rate limiter of
    \<open>internal/antispam/ratelimit.go\<close>.
  \<^item> \<open>Moderation\<close>: the word filter of \<open>internal/moderation\<close> with a matcher for its patterns, proved
    equivalent to their declarative meaning.
  \<^item> \<open>Client\<close>, \<open>Hub\<close>, \<open>HubProps\<close>: a connection with its send buffer, the hub's state, the turns of its
    loop, joining and leaving; what fan-out does and what every operation leaves alone.
  \<^item> \<open>HubActions\<close>, \<open>HubActionProps\<close>: the inbound actions, one definition each; who may do what, the
    outcome of submissions, chat, pausing and skipping.
  \<^item> \<open>HubLifecycle\<close>: the hub as a transition system over critical sections, and the invariant that
    settles the race between registering and shutting down.
  \<^item> \<open>Autoplay\<close>, \<open>Playback\<close>, \<open>PlaybackProps\<close>: curated playlists, the playback service with its timers,
    the hub manager and the idle monitor.
  \<^item> \<open>Users\<close>, \<open>Cache\<close>: accounts and their tokens (\<open>internal/store/users.go\<close>); the in-process caches of
    users and sessions and the middlewares that read through them (\<open>internal/middleware\<close>), with the
    locale \<open>lossy_cache\<close>, the contract of a cache that may forget but never invents, and \<open>ttl_cache\<close>,
    which also answers until an entry expires; both are interpreted.
  \<^item> \<open>Payload\<close>, \<open>DJKey\<close>: the bounded caches of room lists (\<open>internal/handlers/roomscache.go\<close>, another
    \<open>lossy_cache\<close>) and of verified DJ keys (\<open>internal/middleware/djauth.go\<close>).
  \<^item> \<open>Checks\<close>: style values, cover images, client addresses and disposable mail domains.
  \<^item> \<open>Playlists\<close>, \<open>PlaylistProps\<close>: \<open>internal/store/playlists.go\<close> and its handlers; playlists as ordered
    sets through the locale \<open>keyed_simulation\<close>, and who may change them.
  \<^item> \<open>Rooms\<close>, \<open>RoomProps\<close>: the handlers of \<open>rooms.go\<close> and \<open>queue.go\<close>: creating, listing, going live,
    ending, saving and submitting over HTTP, and their agreement with the socket.
  \<^item> \<open>Sockets\<close>, \<open>SocketProps\<close>: sessions, tickets and the handshake (\<open>session.go\<close>, \<open>wsticket.go\<close>,
    \<open>websocket.go\<close>); traces of interleaved handshakes, exact slots, where DJ status comes from.
  \<^item> \<open>Http\<close>, \<open>Auth\<close>, \<open>AuthProps\<close>: the handlers of \<open>internal/handlers/auth.go\<close>; runs of account
    requests, what they keep of the tables, tokens that work once, what the answers reveal.
  \<^item> \<open>Neon\<close>, \<open>NeonProps\<close>: balances, tips, tubes and subscriptions (\<open>internal/store/monetization.go\<close>,
    \<open>internal/handlers/monetization.go\<close>); the ledger over all reachable states, the cycle of tube levels.
  \<^item> \<open>Pool\<close>: the monthly pool of the creators, with its \<open>float64\<close> arithmetic written out and proved exact.
  \<^item> \<open>Messages\<close>, \<open>MessageProps\<close>: direct messages (\<open>internal/store/messages.go\<close>, \<open>messages.go\<close>); the inbox
    against the threads, and delivery.
  \<^item> \<open>AdminStore\<close>, \<open>Admin\<close>, \<open>AdminProps\<close>: the statements and handlers of administration (\<open>admin.go\<close>);
    traffic through the middleware, where administrators come from, bans, edits of a playlist on air.
  \<^item> \<open>Migrations\<close>: the migration runner of \<open>internal/store/postgres.go\<close>, and replicas that start, crash and
    restart around it.
  \<^item> \<open>Guards\<close>: the captcha, the mail-domain check, content types and body limits
    (\<open>internal/antispam/captcha.go\<close>, \<open>mx.go\<close>, \<open>internal/middleware/security.go\<close>), and a sign-up through all of them.
  \<^item> \<open>Livekit\<close>: tokens for the voice channel of a room (\<open>internal/handlers/livekit.go\<close>).
  \<^item> \<open>Youtube\<close>: the YouTube client and the track search (\<open>internal/youtube/client.go\<close>, \<open>admin_search.go\<close>).
  \<^item> \<open>Support\<close>: mails and listener reports (\<open>internal/email/email.go\<close>, \<open>internal/handlers/support.go\<close>).
  \<^item> \<open>Startup\<close>: configuration and the start (\<open>internal/config/config.go\<close>, \<open>cmd/server/main.go\<close>), and what a
    server takes over from an earlier process.
  \<^item> \<open>Profiles\<close>: public DJ profiles (\<open>djs.go\<close> of the store and of the handlers), a listener's own
    statistics, changes of a profile, and the administrators' search over accounts with its \<open>LIKE\<close>
    patterns; descending sort keys as a \<open>linorder\<close>.
  \<^item> \<open>Metrics\<close>: the dashboard (\<open>internal/store/metrics.go\<close>): daily counts and hours of listening add up.
  \<^item> \<open>Database\<close>: the connection pool (\<open>internal/store/pool.go\<close>): its configuration, and the deadline and
    the timer of every statement, over all orders of opening and closing rows.
  \<^item> \<open>Wiring\<close>: the route table of \<open>cmd/server/main.go\<close>, response headers and body limits, the reading side
    of a socket, the read-only monetization handlers.

  \<^bold>\<open>Conventions.\<close> Instants and durations are integers in nanoseconds. Every operation reads one
  instant of the clock and runs as one atomic step; where the code takes a lock twice with I/O in
  between, the critical sections are definitions of their own and \<open>HubLifecycle\<close> interleaves them. A
  store call fails as a whole, as the predicate given to it decides, and a failed statement leaves
  its table alone; \<open>x, _ := call()\<close> is \<open>or_zero\<close>, or \<open>deref_or_zero\<close> where the method returns a
  pointer to a zero struct beside its error. A \<open>select\<close> with several ready cases is resolved by an
  argument. Maps that the code iterates in any order are lists whose order is not relied upon, and
  where it could matter this is proved. Strings are byte strings; \<open>strings.ToLower\<close> acts on ASCII,
  and in the word filter also on the two code points that it maps into ASCII. Redis keys with a
  TTL carry the instant they expire. Go's \<open>int64\<close> arithmetic wraps where track lengths are
  multiplied by a second, and \<open>float64\<close> results are reals rounded to 53 bits. URL and time parsing, SHA-256,
  bcrypt, access tokens, the captcha, the mail checks, the calendars of the database, durations written
  as text and the loopback test are arguments.

  \<^bold>\<open>Not modelled.\<close> Socket reads and writes, pings and deadlines; JSON encoding (a payload is either
  decoded or rejected); rounding of timestamps to microseconds by Postgres; logging and error reports
  (Sentry); opening the connections to Postgres and Redis; the publish/subscribe of Redis, which nothing
  uses; the search of the router through its table; and the delivery of mails.

  No fuel is used: every recursion is structural or on a decreasing measure (the pattern matcher,
  the tube that overflows).
\<close>

end
